(* ===== verification/Rust_Prelude.thy ===== *)
theory Rust_Prelude
  imports Main "HOL-Library.Sublist"
begin

text \<open>
  Shared vocabulary of the development.

  \<^item> Text. A Rust \<open>String\<close> is its UTF-8 byte sequence, a HOL \<open>string\<close> (a list of 8-bit
    characters); \<open>trim\<close>, \<open>join\<close>, \<open>split\<close>, \<open>starts_with\<close> and decimal printing are the operations
    of Rust's standard library that the program calls. White space is Rust's (Unicode White\_Space),
    given by the UTF-8 encodings of its code points.
  \<^item> Effects. A stateful operation that may fail with \<open>?\<close> is a function from the state to an
    outcome and the new state; \<open>Stuck\<close> is the outcome of a loop whose fuel ran out.
  \<^item> Interfaces. \<open>op_invariant\<close> is the contract of a component whose operations all keep
    an invariant; \<open>incremental\<close> that of a consumer that is fed its input chunk by chunk.
\<close>

named_theorems step_simps \<open>unfolding of the single-step operations of a component\<close>
named_theorems frame_intros \<open>rules that build frame facts of composite programs\<close>

section \<open>Text\<close>

definition starts_with :: "'a list \<Rightarrow> 'a list \<Rightarrow> bool" where
  "starts_with p s \<longleftrightarrow> take (length p) s = p"

lemma starts_with_append [simp]: "starts_with p (p @ s)"
  by (simp add: starts_with_def)

lemma starts_with_Nil [simp]: "starts_with [] s"
  by (simp add: starts_with_def)

lemma starts_with_Cons [simp]:
  "starts_with (x # p) s \<longleftrightarrow> (case s of [] \<Rightarrow> False | y # t \<Rightarrow> y = x \<and> starts_with p t)"
  by (auto simp: starts_with_def split: list.splits)

lemma starts_with_iff: "starts_with p s \<longleftrightarrow> (\<exists>t. s = p @ t)"
  by (metis append_take_drop_id append_eq_conv_conj starts_with_def)

fun join :: "'a list \<Rightarrow> 'a list list \<Rightarrow> 'a list" where
  "join sep [] = []"
| "join sep [x] = x"
| "join sep (x # y # zs) = x @ sep @ join sep (y # zs)"

text \<open>\<open>str::split\<close> on one character: always at least one piece.\<close>

fun split_on :: "'a \<Rightarrow> 'a list \<Rightarrow> 'a list list" where
  "split_on c [] = [[]]"
| "split_on c (x # xs) =
     (if x = c then [] # split_on c xs
      else (case split_on c xs of [] \<Rightarrow> [[x]] | y # ys \<Rightarrow> (x # y) # ys))"

lemma split_on_not_Nil [simp]: "split_on c s \<noteq> []"
  by (induction s) (auto split: list.splits)

lemma join_Cons: "ys \<noteq> [] \<Longrightarrow> join sep (x # ys) = x @ sep @ join sep ys"
  by (cases ys) auto

lemma join_split_on: "join [c] (split_on c s) = s"
proof (induction s)
  case (Cons x xs)
  then show ?case
    by (cases "split_on c xs"; cases "tl (split_on c xs)") (auto simp: join_Cons)
qed simp

lemma split_on_no_sep: "p \<in> set (split_on c s) \<Longrightarrow> c \<notin> set p"
  by (induction s arbitrary: p) (auto split: if_splits list.splits)

lemma split_on_atom: "c \<notin> set s \<Longrightarrow> split_on c s = [s]"
  by (induction s) auto

lemma split_on_append: "c \<notin> set s \<Longrightarrow> split_on c (s @ c # t) = s # split_on c t"
  by (induction s) auto

subsection \<open>White space\<close>

text \<open>The UTF-8 encodings of the code points with the White\_Space property.\<close>

definition ws_codes :: "string list" where
  "ws_codes =
     [[CHR 0x09], [CHR 0x0A], [CHR 0x0B], [CHR 0x0C], [CHR 0x0D], [CHR 0x20],
      [CHR 0xC2, CHR 0x85], [CHR 0xC2, CHR 0xA0], [CHR 0xE1, CHR 0x9A, CHR 0x80],
      [CHR 0xE2, CHR 0x80, CHR 0x80], [CHR 0xE2, CHR 0x80, CHR 0x81], [CHR 0xE2, CHR 0x80, CHR 0x82],
      [CHR 0xE2, CHR 0x80, CHR 0x83], [CHR 0xE2, CHR 0x80, CHR 0x84], [CHR 0xE2, CHR 0x80, CHR 0x85],
      [CHR 0xE2, CHR 0x80, CHR 0x86], [CHR 0xE2, CHR 0x80, CHR 0x87], [CHR 0xE2, CHR 0x80, CHR 0x88],
      [CHR 0xE2, CHR 0x80, CHR 0x89], [CHR 0xE2, CHR 0x80, CHR 0x8A], [CHR 0xE2, CHR 0x80, CHR 0xA8],
      [CHR 0xE2, CHR 0x80, CHR 0xA9], [CHR 0xE2, CHR 0x80, CHR 0xAF], [CHR 0xE2, CHR 0x81, CHR 0x9F],
      [CHR 0xE3, CHR 0x80, CHR 0x80]]"

text \<open>Removes code after code of a set from the front, as often as one matches.\<close>

function strip_codes :: "'a list list \<Rightarrow> 'a list \<Rightarrow> 'a list" where
  "strip_codes cs s =
     (case find (\<lambda>c. c \<noteq> [] \<and> starts_with c s) cs of
        None \<Rightarrow> s
      | Some c \<Rightarrow> strip_codes cs (drop (length c) s))"
  by pat_completeness auto
termination
  by (relation "measure (\<lambda>(cs, s). length s)") (auto simp: find_Some_iff starts_with_iff)

declare strip_codes.simps [simp del]

definition trim_start :: "string \<Rightarrow> string" where
  "trim_start s = strip_codes ws_codes s"

definition trim_end :: "string \<Rightarrow> string" where
  "trim_end s = rev (strip_codes (map rev ws_codes) (rev s))"

definition trim :: "string \<Rightarrow> string" where
  "trim s = trim_end (trim_start s)"

lemma strip_codes_suffix: "\<exists>p. s = p @ strip_codes cs s"
proof (induction cs s rule: strip_codes.induct)
  case (1 cs s)
  show ?case
  proof (cases "find (\<lambda>c. c \<noteq> [] \<and> starts_with c s) cs")
    case None
    then show ?thesis by (simp add: strip_codes.simps)
  next
    case (Some c)
    with 1 obtain p where "drop (length c) s = p @ strip_codes cs (drop (length c) s)"
      by auto
    then have "s = (take (length c) s @ p) @ strip_codes cs (drop (length c) s)"
      by (metis append.assoc append_take_drop_id)
    moreover have "strip_codes cs s = strip_codes cs (drop (length c) s)"
      using Some by (simp add: strip_codes.simps [of cs s])
    ultimately show ?thesis by metis
  qed
qed

lemma strip_codes_idem [simp]: "strip_codes cs (strip_codes cs s) = strip_codes cs s"
proof (induction cs s rule: strip_codes.induct)
  case (1 cs s)
  then show ?case
    by (cases "find (\<lambda>c. c \<noteq> [] \<and> starts_with c s) cs") (auto simp: strip_codes.simps [of cs s])
qed

lemma trim_start_idem [simp]: "trim_start (trim_start s) = trim_start s"
  by (simp add: trim_start_def)

lemma trim_Nil [simp]: "trim [] = []"
  by (simp add: trim_def trim_start_def trim_end_def strip_codes.simps ws_codes_def)

subsection \<open>ASCII case and decimal numbers\<close>

definition to_lower_char :: "char \<Rightarrow> char" where
  "to_lower_char c =
     (if 65 \<le> (of_char c :: nat) \<and> (of_char c :: nat) \<le> 90 then char_of (of_char c + 32 :: nat) else c)"

definition to_ascii_lowercase :: "string \<Rightarrow> string" where
  "to_ascii_lowercase s = map to_lower_char s"

fun nat_to_string :: "nat \<Rightarrow> string" where
  "nat_to_string n =
     (if n < 10 then [char_of (48 + n)]
      else nat_to_string (n div 10) @ [char_of (48 + n mod 10)])"

declare nat_to_string.simps [simp del]

definition digit_value :: "char \<Rightarrow> nat" where
  "digit_value c = of_char c - 48"

definition is_digit :: "char \<Rightarrow> bool" where
  "is_digit c \<longleftrightarrow> 48 \<le> (of_char c :: nat) \<and> (of_char c :: nat) \<le> 57"

definition decimal_value :: "string \<Rightarrow> nat" where
  "decimal_value s = foldl (\<lambda>acc c. acc * 10 + digit_value c) 0 s"

lemma of_char_digit [simp]: "d < 10 \<Longrightarrow> (of_char (char_of (48 + d :: nat)) :: nat) = 48 + d"
  by (simp add: of_char_of take_bit_eq_mod)

lemma decimal_value_snoc: "decimal_value (s @ [c]) = decimal_value s * 10 + digit_value c"
  by (simp add: decimal_value_def)

lemma decimal_value_nat_to_string [simp]: "decimal_value (nat_to_string n) = n"
proof (induction n rule: nat_to_string.induct)
  case (1 n)
  show ?case
  proof (cases "n < 10")
    case True
    then show ?thesis
      by (simp add: nat_to_string.simps decimal_value_def digit_value_def)
  next
    case False
    with 1 show ?thesis
      by (subst nat_to_string.simps) (simp add: decimal_value_snoc digit_value_def)
  qed
qed

lemma nat_to_string_inject [simp]: "nat_to_string m = nat_to_string n \<longleftrightarrow> m = n"
  by (metis decimal_value_nat_to_string)

lemma nat_to_string_digits: "\<forall>c \<in> set (nat_to_string n). is_digit c"
proof (induction n rule: nat_to_string.induct)
  case (1 n)
  then show ?case
    by (subst nat_to_string.simps) (auto simp: is_digit_def)
qed

lemma nat_to_string_1: "nat_to_string (Suc 0) = ''1''"
  by code_simp

lemma nat_to_string_not_Nil [simp]: "nat_to_string n \<noteq> []"
  by (subst nat_to_string.simps) simp

definition int_to_string :: "int \<Rightarrow> string" where
  "int_to_string n = (if n < 0 then CHR ''-'' # nat_to_string (nat (- n)) else nat_to_string (nat n))"

subsection \<open>Searching, lines and code points\<close>

definition contains :: "'a list \<Rightarrow> 'a list \<Rightarrow> bool" where
  "contains p s = list_ex (\<lambda>i. starts_with p (drop i s)) [0..<Suc (length s)]"

definition ends_with :: "'a list \<Rightarrow> 'a list \<Rightarrow> bool" where
  "ends_with p s = starts_with (rev p) (rev s)"

definition LF :: char where "LF = CHR 0x0A"
definition CR :: char where "CR = CHR 0x0D"

text \<open>\<open>str::lines\<close>: an end of line is a line feed with an optional carriage return before it.\<close>

definition strip_cr :: "string \<Rightarrow> string" where
  "strip_cr l = (if l \<noteq> [] \<and> last l = CR then butlast l else l)"

definition str_lines :: "string \<Rightarrow> string list" where
  "str_lines s =
     (let ls = split_on LF s
      in if last ls = [] then map strip_cr (butlast ls) else map strip_cr (butlast ls) @ [last ls])"

text \<open>\<open>str::chars\<close> on UTF-8: a code point is a first byte and the continuation bytes after it.\<close>

definition is_continuation :: "char \<Rightarrow> bool" where
  "is_continuation c \<longleftrightarrow> 128 \<le> (of_char c :: nat) \<and> (of_char c :: nat) < 192"

function utf8_chars :: "string \<Rightarrow> string list" where
  "utf8_chars [] = []"
| "utf8_chars (c # cs) = (c # takeWhile is_continuation cs) # utf8_chars (dropWhile is_continuation cs)"
  by pat_completeness auto
termination
  by (relation "measure length") (auto intro: le_imp_less_Suc length_dropWhile_le)

lemma concat_utf8_chars [simp]: "concat (utf8_chars s) = s"
  by (induction s rule: utf8_chars.induct) simp_all

section \<open>Effects: state, early return and fuel\<close>

datatype 'a outcome = Ret 'a | Throw string | Stuck

type_synonym ('s, 'a) prog = "'s \<Rightarrow> 'a outcome \<times> 's"

definition ret :: "'a \<Rightarrow> ('s, 'a) prog" where
  "ret x = (\<lambda>s. (Ret x, s))"

definition throw :: "string \<Rightarrow> ('s, 'a) prog" where
  "throw e = (\<lambda>s. (Throw e, s))"

definition stuck :: "('s, 'a) prog" where
  "stuck = (\<lambda>s. (Stuck, s))"

definition bindp :: "('s, 'a) prog \<Rightarrow> ('a \<Rightarrow> ('s, 'b) prog) \<Rightarrow> ('s, 'b) prog" where
  "bindp p f = (\<lambda>s. case p s of
      (Ret x, t) \<Rightarrow> f x t
    | (Throw e, t) \<Rightarrow> (Throw e, t)
    | (Stuck, t) \<Rightarrow> (Stuck, t))"

definition seqp :: "('s, 'a) prog \<Rightarrow> ('s, 'b) prog \<Rightarrow> ('s, 'b) prog" where
  "seqp p q = bindp p (\<lambda>_. q)"

definition upd :: "('s \<Rightarrow> 's) \<Rightarrow> ('s, unit) prog" where
  "upd f = (\<lambda>s. (Ret (), f s))"

definition asks :: "('s \<Rightarrow> 'a) \<Rightarrow> ('s, 'a) prog" where
  "asks f = (\<lambda>s. (Ret (f s), s))"

text \<open>Turns the error of a program into a value, as \<open>match result\<close> does.\<close>

definition attempt :: "('s, 'a) prog \<Rightarrow> ('s, string + 'a) prog" where
  "attempt p = (\<lambda>s. case p s of
      (Ret x, t) \<Rightarrow> (Ret (Inr x), t)
    | (Throw e, t) \<Rightarrow> (Ret (Inl e), t)
    | (Stuck, t) \<Rightarrow> (Stuck, t))"

text \<open>The \<open>?\<close> operator on a value that is already there.\<close>

definition lift_result :: "string + 'a \<Rightarrow> ('s, 'a) prog" where
  "lift_result r = (case r of Inl e \<Rightarrow> throw e | Inr x \<Rightarrow> ret x)"

lemmas prog_defs = ret_def throw_def stuck_def bindp_def seqp_def upd_def asks_def
  attempt_def lift_result_def

lemma bindp_Ret: "p s = (Ret x, t) \<Longrightarrow> bindp p f s = f x t"
  by (simp add: bindp_def)

lemma bindp_Throw: "p s = (Throw e, t) \<Longrightarrow> bindp p f s = (Throw e, t)"
  by (simp add: bindp_def)

lemma bindp_RetE:
  assumes "bindp p f s = (Ret y, u)"
  obtains x t where "p s = (Ret x, t)" "f x t = (Ret y, u)"
  using assms by (auto simp: bindp_def split: prod.splits outcome.splits)

lemma seqp_RetE:
  assumes "seqp p q s = (Ret y, u)"
  obtains x t where "p s = (Ret x, t)" "q t = (Ret y, u)"
  using assms by (auto simp: seqp_def elim: bindp_RetE)

lemma prog_simps [simp]:
  "ret x s = (Ret x, s)" "throw e s = (Throw e, s)" "stuck s = (Stuck, s)"
  "upd f s = (Ret (), f s)" "asks g s = (Ret (g s), s)"
  "bindp (ret x) h s = h x s" "bindp (throw e) h s = (Throw e, s)"
  "bindp (upd f) h' s = h' () (f s)" "bindp (asks g) h'' s = h'' (g s) s"
  "seqp (ret x) q s = q s" "seqp (throw e) q s = (Throw e, s)" "seqp (upd f) q s = q (f s)"
  "lift_result (Inl e) = throw e" "lift_result (Inr x) = ret x"
  by (simp_all add: prog_defs)

subsection \<open>Frame facts: what no run of a program changes\<close>

definition frames :: "('s \<Rightarrow> 's \<Rightarrow> bool) \<Rightarrow> ('s, 'a) prog \<Rightarrow> bool" where
  "frames R p \<longleftrightarrow> (\<forall>s. R s (snd (p s)))"

lemma framesI: "(\<And>s. R s (snd (p s))) \<Longrightarrow> frames R p"
  by (simp add: frames_def)

lemma framesD: "frames R p \<Longrightarrow> p s = (r, t) \<Longrightarrow> R s t"
  by (metis frames_def snd_conv)

text \<open>A relation between the states before and after that any composition of programs keeps.\<close>

locale frame_relation =
  fixes R :: "'s \<Rightarrow> 's \<Rightarrow> bool"
  assumes refl: "R s s"
    and trans: "R s t \<Longrightarrow> R t u \<Longrightarrow> R s u"
begin

lemma frames_ret [frame_intros]: "frames R (ret x)"
  by (simp add: frames_def refl)

lemma frames_throw [frame_intros]: "frames R (throw e)"
  by (simp add: frames_def refl)

lemma frames_stuck [frame_intros]: "frames R stuck"
  by (simp add: frames_def refl)

lemma frames_asks [frame_intros]: "frames R (asks f)"
  by (simp add: frames_def refl)

lemma frames_upd: "(\<And>s. R s (f s)) \<Longrightarrow> frames R (upd f)"
  by (simp add: frames_def)

lemma frames_lift_result [frame_intros]: "frames R (lift_result r)"
  by (cases r) (simp_all add: frames_def refl)

lemma frames_bindp [frame_intros]:
  assumes "frames R p" and "\<And>x. frames R (f x)"
  shows "frames R (bindp p f)"
proof (rule framesI)
  fix s
  show "R s (snd (bindp p f s))"
    using assms
    by (auto simp: bindp_def frames_def split: prod.splits outcome.splits)
      (metis snd_conv trans)+
qed

lemma frames_seqp [frame_intros]: "frames R p \<Longrightarrow> frames R q \<Longrightarrow> frames R (seqp p q)"
  by (simp add: seqp_def frames_bindp)

lemma frames_attempt [frame_intros]: "frames R p \<Longrightarrow> frames R (attempt p)"
  by (auto simp: attempt_def frames_def split: prod.splits outcome.splits) (metis snd_conv)+

lemma frames_if [frame_intros]: "frames R p \<Longrightarrow> frames R q \<Longrightarrow> frames R (if b then p else q)"
  by simp

end

section \<open>Interfaces shared by the components\<close>

text \<open>A component whose operations all keep an invariant keeps it over every run.\<close>

locale op_invariant =
  fixes step :: "'o \<Rightarrow> 's \<Rightarrow> 's"
    and inv :: "'s \<Rightarrow> bool"
  assumes step_inv: "inv s \<Longrightarrow> inv (step x s)"
begin

lemma run_inv: "inv s \<Longrightarrow> inv (fold step xs s)"
  by (induction xs arbitrary: s) (simp_all add: step_inv)

end

text \<open>
  A consumer that takes its input in chunks and returns what it recognised in each. The two laws
  make the boundaries between the chunks unobservable.
\<close>

fun push_all :: "('s \<Rightarrow> 'i list \<Rightarrow> 's \<times> 'e list) \<Rightarrow> 's \<Rightarrow> 'i list list \<Rightarrow> 's \<times> 'e list" where
  "push_all push s [] = (s, [])"
| "push_all push s (c # cs) =
     (let (s1, es) = push s c; (s2, fs) = push_all push s1 cs in (s2, es @ fs))"

locale incremental =
  fixes push :: "'s \<Rightarrow> 'i list \<Rightarrow> 's \<times> 'e list"
  assumes push_Nil: "push s [] = (s, [])"
    and push_append: "push s (xs @ ys) =
      (let (s1, es) = push s xs; (s2, fs) = push s1 ys in (s2, es @ fs))"
begin

lemma push_chunks: "push_all push s cs = push s (concat cs)"
  by (induction cs arbitrary: s) (simp_all add: push_Nil push_append split: prod.splits)

lemma chunking_irrelevant: "concat cs = concat ds \<Longrightarrow> push_all push s cs = push_all push s ds"
  by (simp add: push_chunks)

end

end
