(* ===== verification/Spec_Types.thy ===== *)
theory Spec_Types
  imports Rust_Prelude
begin

text \<open>
  The specification sheet of \<open>crates/agent_protocol/src/types/spec.rs\<close>: the tree of steps an
  orchestration works through, the summaries that come back, and \<open>SpecSheet::validate\<close>.

  A step can hold a nested sheet, so both are datatypes with selectors, one constructor each, with the
  fields in the source's order. \<open>'v\<close> is the type of JSON values (\<open>serde_json::Value\<close>); time stamps
  are numbers; \<open>usize\<close> and \<open>u64\<close> fields that are only compared or carried are \<open>nat\<close>.
\<close>

type_synonym time = nat

section \<open>Data\<close>

datatype step_status = StPending | StInProgress | StCompleted | StFailed

datatype 'v spec_sheet =
  SpecSheet (sp_id: string) (sp_title: string) (sp_description: string)
    (sp_steps: "'v spec_step list") (sp_created_by: string) (sp_created_at: time)
    (sp_metadata: 'v)
and 'v spec_step =
  SpecStep (st_index: string) (st_title: string) (st_instructions: string)
    (st_acceptance_criteria: "string list") (st_required_tools: "string list")
    (st_constraints: "string list") (st_dependencies: "string list")
    (st_is_parallel: bool) (st_requires_verification: bool)
    (st_max_parallelism: "nat option") (st_status: step_status)
    (st_sub_spec: "'v spec_sheet option") (st_completed_at: "time option")

definition default_step_status :: step_status where
  "default_step_status = StPending"

record spec_step_ref =
  sr_index :: string
  sr_instructions :: string
  sr_spec_id :: string

datatype test_result = TrPass | TrFail | TrSkip | TrError

record test_run =
  tr_name :: string
  tr_result :: test_result
  tr_logs_path :: "string option"
  tr_duration_ms :: "nat option"

record worktree_metadata =
  wt_branch :: string
  wt_path :: string
  wt_step_prefix :: "string option"

datatype verification_status = VsPending | VsPassed | VsFailed

record feedback_entry =
  fe_author :: string
  fe_message :: string
  fe_timestamp :: time

record task_verification =
  tv_status :: verification_status
  tv_feedback :: "feedback_entry list"

record task_summary =
  ts_task_id :: string
  ts_step_index :: string
  ts_summary_text :: string
  ts_artifacts_touched :: "string list"
  ts_tests_run :: "test_run list"
  ts_verification :: task_verification
  ts_worktree :: "worktree_metadata option"

datatype spec_validation_error =
    EmptySteps
  | InvalidIndex string string
  | UnknownDependency string string
  | InvalidParallelism string nat

primrec validation_error_to_string :: "spec_validation_error \<Rightarrow> string" where
  "validation_error_to_string EmptySteps = ''spec sheet must include at least one step''"
| "validation_error_to_string (InvalidIndex expected found) =
     concat [''invalid step index: expected '', expected, '', found '', found]"
| "validation_error_to_string (UnknownDependency st dependency) =
     concat [''step '', st, '' references unknown dependency '', dependency]"
| "validation_error_to_string (InvalidParallelism st value) =
     concat [''step '', st, '' has invalid max_parallelism value '', nat_to_string value, '' (must be at least 1)'']"

subsection \<open>Field assignment\<close>

primrec sp_set_steps :: "'v spec_step list \<Rightarrow> 'v spec_sheet \<Rightarrow> 'v spec_sheet" where
  "sp_set_steps ss (SpecSheet i t d _ b a m) = SpecSheet i t d ss b a m"

primrec sp_set_metadata :: "'v \<Rightarrow> 'v spec_sheet \<Rightarrow> 'v spec_sheet" where
  "sp_set_metadata m (SpecSheet i t d ss b a _) = SpecSheet i t d ss b a m"

primrec st_set_status :: "step_status \<Rightarrow> 'v spec_step \<Rightarrow> 'v spec_step" where
  "st_set_status v (SpecStep i t n ac rt co de p rv mp _ su ca) =
     SpecStep i t n ac rt co de p rv mp v su ca"

primrec st_set_completed_at :: "time option \<Rightarrow> 'v spec_step \<Rightarrow> 'v spec_step" where
  "st_set_completed_at v (SpecStep i t n ac rt co de p rv mp s su _) =
     SpecStep i t n ac rt co de p rv mp s su v"

primrec st_set_instructions :: "string \<Rightarrow> 'v spec_step \<Rightarrow> 'v spec_step" where
  "st_set_instructions v (SpecStep i t _ ac rt co de p rv mp s su ca) =
     SpecStep i t v ac rt co de p rv mp s su ca"

primrec st_set_sub_spec :: "'v spec_sheet option \<Rightarrow> 'v spec_step \<Rightarrow> 'v spec_step" where
  "st_set_sub_spec v (SpecStep i t n ac rt co de p rv mp s _ ca) =
     SpecStep i t n ac rt co de p rv mp s v ca"

primrec st_set_constraints :: "string list \<Rightarrow> 'v spec_step \<Rightarrow> 'v spec_step" where
  "st_set_constraints v (SpecStep i t n ac rt _ de p rv mp s su ca) =
     SpecStep i t n ac rt v de p rv mp s su ca"

lemma spec_sheet_sel_set [simp]:
  "sp_steps (sp_set_steps ss x) = ss" "sp_metadata (sp_set_steps ss x) = sp_metadata x"
  "sp_id (sp_set_steps ss x) = sp_id x" "sp_title (sp_set_steps ss x) = sp_title x"
  "sp_steps (sp_set_metadata m x) = sp_steps x" "sp_metadata (sp_set_metadata m x) = m"
  "sp_id (sp_set_metadata m x) = sp_id x" "sp_title (sp_set_metadata m x) = sp_title x"
  by (cases x; simp)+

lemma spec_step_sel_set [simp]:
  "st_index (st_set_status v s) = st_index s" "st_title (st_set_status v s) = st_title s"
  "st_status (st_set_status v s) = v" "st_sub_spec (st_set_status v s) = st_sub_spec s"
  "st_instructions (st_set_status v s) = st_instructions s"
  "st_requires_verification (st_set_status v s) = st_requires_verification s"
  "st_dependencies (st_set_status v s) = st_dependencies s"
  "st_max_parallelism (st_set_status v s) = st_max_parallelism s"
  "st_completed_at (st_set_status v s) = st_completed_at s"
  "st_index (st_set_completed_at c s) = st_index s" "st_title (st_set_completed_at c s) = st_title s"
  "st_status (st_set_completed_at c s) = st_status s" "st_completed_at (st_set_completed_at c s) = c"
  "st_sub_spec (st_set_completed_at c s) = st_sub_spec s"
  "st_instructions (st_set_completed_at c s) = st_instructions s"
  "st_requires_verification (st_set_completed_at c s) = st_requires_verification s"
  "st_dependencies (st_set_completed_at c s) = st_dependencies s"
  "st_max_parallelism (st_set_completed_at c s) = st_max_parallelism s"
  by (cases s; simp)+

lemma spec_step_sel_set_more [simp]:
  "st_index (st_set_instructions n s) = st_index s" "st_status (st_set_instructions n s) = st_status s"
  "st_instructions (st_set_instructions n s) = n" "st_title (st_set_instructions n s) = st_title s"
  "st_requires_verification (st_set_instructions n s) = st_requires_verification s"
  "st_sub_spec (st_set_instructions n s) = st_sub_spec s"
  "st_index (st_set_sub_spec u s) = st_index s" "st_status (st_set_sub_spec u s) = st_status s"
  "st_sub_spec (st_set_sub_spec u s) = u" "st_title (st_set_sub_spec u s) = st_title s"
  "st_requires_verification (st_set_sub_spec u s) = st_requires_verification s"
  "st_index (st_set_constraints k s) = st_index s" "st_constraints (st_set_constraints k s) = k"
  "st_instructions (st_set_constraints k s) = st_instructions s"
  by (cases s; simp)+

section \<open>Validation\<close>

text \<open>
  \<open>validate\<close> is one loop over the steps, which stops at the first error and collects the indexes,
  and a second one over their dependencies.
\<close>

fun check_dependencies :: "string list \<Rightarrow> 'v spec_step \<Rightarrow> string list \<Rightarrow> spec_validation_error + unit" where
  "check_dependencies known step [] = Inr ()"
| "check_dependencies known step (d # ds) =
     (if d \<in> set known then check_dependencies known step ds
      else Inl (UnknownDependency (st_index step) d))"

fun check_all_dependencies :: "string list \<Rightarrow> 'v spec_step list \<Rightarrow> spec_validation_error + unit" where
  "check_all_dependencies known [] = Inr ()"
| "check_all_dependencies known (s # ss) =
     (case check_dependencies known s (st_dependencies s) of
        Inl e \<Rightarrow> Inl e
      | Inr _ \<Rightarrow> check_all_dependencies known ss)"

fun validate :: "'v spec_sheet \<Rightarrow> spec_validation_error + unit"
and validate_steps :: "nat \<Rightarrow> 'v spec_step list \<Rightarrow> spec_validation_error + string list" where
  "validate (SpecSheet i t d steps b a m) =
     (if steps = [] then Inl EmptySteps
      else case validate_steps 0 steps of
        Inl e \<Rightarrow> Inl e
      | Inr known \<Rightarrow> check_all_dependencies known steps)"
| "validate_steps idx [] = Inr []"
| "validate_steps idx (SpecStep ix t n ac rt co de p rv mp s su ca # rest) =
     (if ix \<noteq> nat_to_string (idx + 1) then Inl (InvalidIndex (nat_to_string (idx + 1)) ix)
      else if mp = Some 0 then Inl (InvalidParallelism ix 0)
      else case (case su of None \<Rightarrow> Inr () | Some sub \<Rightarrow> validate sub) of
        Inl e \<Rightarrow> Inl e
      | Inr _ \<Rightarrow> (case validate_steps (idx + 1) rest of
            Inl e \<Rightarrow> Inl e
          | Inr known \<Rightarrow> Inr (ix # known)))"

text \<open>What a valid sheet is, said without loops or error order.\<close>

inductive well_formed_spec :: "'v spec_sheet \<Rightarrow> bool" where
  well_formed_specI: "sp_steps spec \<noteq> [] \<Longrightarrow>
   (\<And>i. i < length (sp_steps spec) \<Longrightarrow> st_index (sp_steps spec ! i) = nat_to_string (i + 1)) \<Longrightarrow>
   (\<And>s. s \<in> set (sp_steps spec) \<Longrightarrow> st_max_parallelism s \<noteq> Some 0) \<Longrightarrow>
   (\<And>s sub. s \<in> set (sp_steps spec) \<Longrightarrow> st_sub_spec s = Some sub \<Longrightarrow> well_formed_spec sub) \<Longrightarrow>
   (\<And>s d. s \<in> set (sp_steps spec) \<Longrightarrow> d \<in> set (st_dependencies s) \<Longrightarrow>
      d \<in> st_index ` set (sp_steps spec)) \<Longrightarrow>
   well_formed_spec spec"

inductive_simps well_formed_spec_iff: "well_formed_spec spec"

lemma check_dependencies_Inr:
  "check_dependencies known s ds = Inr () \<longleftrightarrow> set ds \<subseteq> set known"
  by (induction known s ds rule: check_dependencies.induct) auto

lemma check_dependencies_Inl:
  "check_dependencies known s ds = Inl e \<Longrightarrow> \<not> set ds \<subseteq> set known"
  by (induction known s ds rule: check_dependencies.induct) (auto split: if_splits)

lemma check_all_dependencies_Inr:
  "check_all_dependencies known ss = Inr () \<longleftrightarrow>
     (\<forall>s \<in> set ss. set (st_dependencies s) \<subseteq> set known)"
  by (induction known ss rule: check_all_dependencies.induct)
    (auto simp: check_dependencies_Inr dest!: check_dependencies_Inl split: sum.splits)

lemma validate_steps_known:
  "validate_steps idx ss = Inr known \<Longrightarrow> known = map st_index ss"
proof (induction ss arbitrary: idx known)
  case (Cons s ss)
  then show ?case by (cases s) (auto split: if_splits sum.splits)
qed simp

text \<open>The success of the first loop, with the verdict on nested sheets kept as a call.\<close>

definition step_accepted :: "nat \<Rightarrow> 'v spec_step \<Rightarrow> bool" where
  "step_accepted idx s \<longleftrightarrow> st_index s = nat_to_string (idx + 1) \<and> st_max_parallelism s \<noteq> Some 0 \<and>
     (\<forall>sub. st_sub_spec s = Some sub \<longrightarrow> validate sub = Inr ())"

lemma validate_steps_Inr:
  "(\<exists>known. validate_steps idx ss = Inr known) \<longleftrightarrow>
     (\<forall>i < length ss. step_accepted (idx + i) (ss ! i))"
proof (induction ss arbitrary: idx)
  case (Cons s ss)
  have "(\<exists>known. validate_steps idx (s # ss) = Inr known) \<longleftrightarrow>
      step_accepted idx s \<and> (\<exists>known. validate_steps (idx + 1) ss = Inr known)"
    by (cases s) (auto simp: step_accepted_def split: sum.splits option.splits)
  also have "\<dots> \<longleftrightarrow> (\<forall>i < length (s # ss). step_accepted (idx + i) ((s # ss) ! i))"
    unfolding Cons.IH using less_Suc_eq_0_disj by auto
  finally show ?case .
qed simp

lemma validate_Inr:
  "validate spec = Inr () \<longleftrightarrow> sp_steps spec \<noteq> [] \<and>
     (\<forall>i < length (sp_steps spec). step_accepted i (sp_steps spec ! i)) \<and>
     (\<forall>s \<in> set (sp_steps spec). set (st_dependencies s) \<subseteq> st_index ` set (sp_steps spec))"
  (is "?l \<longleftrightarrow> ?r")
proof (cases spec)
  case (SpecSheet i t d steps b a m)
  have "?l \<longleftrightarrow> steps \<noteq> [] \<and> (\<exists>known. validate_steps 0 steps = Inr known) \<and>
      (\<forall>s \<in> set steps. set (st_dependencies s) \<subseteq> st_index ` set steps)"
    unfolding SpecSheet
    using validate_steps_known [of 0 steps]
    by (cases "validate_steps 0 steps") (simp_all add: check_all_dependencies_Inr)
  then show ?thesis by (simp add: SpecSheet validate_steps_Inr)
qed

lemma nested_sheet_smaller:
  assumes "s \<in> set (sp_steps spec)" "st_sub_spec s = Some sub"
  shows "size sub < size spec"
proof -
  have "size s \<le> size_list size (sp_steps spec)"
    using assms(1) by (rule size_list_estimation') simp
  then show ?thesis
    using assms(2) by (cases spec; cases s) auto
qed

lemma wf_of_validate: "validate spec = Inr () \<Longrightarrow> well_formed_spec spec"
proof (induction "size spec" arbitrary: spec rule: less_induct)
  case less
  note acc = less.prems [unfolded validate_Inr]
  have steps: "\<And>s. s \<in> set (sp_steps spec) \<Longrightarrow> \<exists>i. step_accepted i s"
    using acc by (metis in_set_conv_nth)
  show ?case
  proof (rule well_formed_specI)
    show "well_formed_spec sub" if "s \<in> set (sp_steps spec)" "st_sub_spec s = Some sub" for s sub
      using that steps less.hyps nested_sheet_smaller by (metis step_accepted_def)
    show "st_max_parallelism s \<noteq> Some 0" if "s \<in> set (sp_steps spec)" for s
      using that steps by (metis step_accepted_def)
    show "d \<in> st_index ` set (sp_steps spec)"
      if "s \<in> set (sp_steps spec)" "d \<in> set (st_dependencies s)" for s d
      using that acc by blast
  qed (use acc in \<open>simp_all add: step_accepted_def\<close>)
qed

lemma validate_of_wf: "well_formed_spec spec \<Longrightarrow> validate spec = Inr ()"
proof (induction rule: well_formed_spec.induct)
  case (well_formed_specI spec)
  have "step_accepted i (sp_steps spec ! i)" if "i < length (sp_steps spec)" for i
    using well_formed_specI nth_mem [OF that] that unfolding step_accepted_def
    by (metis Suc_eq_plus1)
  then show ?case
    using well_formed_specI(1,5) by (auto simp: validate_Inr)
qed

text \<open>\<open>validate\<close> accepts exactly the well-formed sheets: at every level there is a step, the indexes
  are 1, 2, 3 and so on, no step allows zero parallel tasks, every dependency names a step of its own
  sheet, and all nested sheets are well-formed.\<close>

theorem validate_iff_well_formed: "validate spec = Inr () \<longleftrightarrow> well_formed_spec spec"
  using wf_of_validate validate_of_wf by blast

end
