(* ===== verification/Task_Types.thy ===== *)
theory Task_Types
  imports Spec_Types
begin

text \<open>
  Messages and tasks of the A2A protocol: \<open>crates/agent_protocol/src/types/message.rs\<close>,
  \<open>artifact.rs\<close> and \<open>task.rs\<close> (the task life cycle with its optional history).

  JSON values are the type parameter \<open>'v\<close>. The random identifiers of \<open>Uuid::new_v4\<close> and the
  readings of \<open>Utc::now\<close> are arguments, one for each call in the source.
\<close>

section \<open>JSON values\<close>

text \<open>
  \<open>serde_json::Value\<close> is a type of a library. The model uses the part of its interface that the
  program calls, as a record of functions: the accessors \<open>get\<close>, indexing, \<open>as_str\<close>, \<open>as_bool\<close>,
  \<open>as_u64\<close>, \<open>as_i64\<close>, \<open>as_array\<close>, \<open>as_object\<close> and the constructors \<open>Null\<close>, \<open>String\<close>, \<open>Array\<close>
  and \<open>Object\<close>.
\<close>

record 'v json_api =
  j_get :: "'v \<Rightarrow> string \<Rightarrow> 'v option"
  j_index :: "'v \<Rightarrow> string \<Rightarrow> 'v"
  j_as_str :: "'v \<Rightarrow> string option"
  j_as_bool :: "'v \<Rightarrow> bool option"
  j_as_u64 :: "'v \<Rightarrow> nat option"
  j_as_i64 :: "'v \<Rightarrow> int option"
  j_as_array :: "'v \<Rightarrow> 'v list option"
  j_as_object :: "'v \<Rightarrow> (string \<rightharpoonup> 'v) option"
  j_null :: 'v
  j_string :: "string \<Rightarrow> 'v"
  j_array :: "'v list \<Rightarrow> 'v"
  j_object :: "(string \<rightharpoonup> 'v) \<Rightarrow> 'v"

section \<open>Messages\<close>

datatype role = User | Agent

record text_part =
  tp_text :: string
  tp_content_type :: "string option"

record file_content =
  fc_name :: "string option"
  fc_media_type :: string
  fc_uri :: "string option"
  fc_bytes :: "string option"

record file_part =
  fp_file :: file_content

record 'v data_part =
  dp_data :: 'v
  dp_schema :: "string option"

datatype 'v message_part = TextP text_part | FileP file_part | DataP "'v data_part"

record 'v message =
  ms_message_id :: string
  ms_role :: role
  ms_parts :: "'v message_part list"
  ms_context_id :: "string option"
  ms_task_id :: "string option"
  ms_reference_id :: "string option"
  ms_metadata :: "'v option"

definition message_part_text :: "string \<Rightarrow> 'v message_part" where
  "message_part_text content = TextP \<lparr>tp_text = content, tp_content_type = None\<rparr>"

definition message_part_text_with_type :: "string \<Rightarrow> string \<Rightarrow> 'v message_part" where
  "message_part_text_with_type content ty = TextP \<lparr>tp_text = content, tp_content_type = Some ty\<rparr>"

definition message_part_file_uri :: "string \<Rightarrow> string \<Rightarrow> 'v message_part" where
  "message_part_file_uri uri media = FileP \<lparr>fp_file =
     \<lparr>fc_name = None, fc_media_type = media, fc_uri = Some uri, fc_bytes = None\<rparr>\<rparr>"

text \<open>The base64 encoder is the library's, an argument.\<close>

definition message_part_file_bytes ::
  "(string \<Rightarrow> string) \<Rightarrow> string \<Rightarrow> string \<Rightarrow> string option \<Rightarrow> 'v message_part" where
  "message_part_file_bytes encode bytes media name = FileP \<lparr>fp_file =
     \<lparr>fc_name = name, fc_media_type = media, fc_uri = None, fc_bytes = Some (encode bytes)\<rparr>\<rparr>"

definition message_part_data :: "'v \<Rightarrow> 'v message_part" where
  "message_part_data v = DataP \<lparr>dp_data = v, dp_schema = None\<rparr>"

definition message_part_data_with_schema :: "'v \<Rightarrow> string \<Rightarrow> 'v message_part" where
  "message_part_data_with_schema v sch = DataP \<lparr>dp_data = v, dp_schema = Some sch\<rparr>"

definition message_new :: "string \<Rightarrow> role \<Rightarrow> 'v message_part list \<Rightarrow> 'v message" where
  "message_new uuid r parts = \<lparr>ms_message_id = uuid, ms_role = r, ms_parts = parts,
     ms_context_id = None, ms_task_id = None, ms_reference_id = None, ms_metadata = None\<rparr>"

definition message_user :: "string \<Rightarrow> string \<Rightarrow> 'v message" where
  "message_user uuid text = \<lparr>ms_message_id = uuid, ms_role = User, ms_parts = [message_part_text text],
     ms_context_id = None, ms_task_id = None, ms_reference_id = None, ms_metadata = None\<rparr>"

definition message_agent :: "string \<Rightarrow> string \<Rightarrow> 'v message" where
  "message_agent uuid text = \<lparr>ms_message_id = uuid, ms_role = Agent, ms_parts = [message_part_text text],
     ms_context_id = None, ms_task_id = None, ms_reference_id = None, ms_metadata = None\<rparr>"

definition message_with_context :: "string \<Rightarrow> 'v message \<Rightarrow> 'v message" where
  "message_with_context c m = m\<lparr>ms_context_id := Some c\<rparr>"

definition message_with_task :: "string \<Rightarrow> 'v message \<Rightarrow> 'v message" where
  "message_with_task t m = m\<lparr>ms_task_id := Some t\<rparr>"

definition message_in_reply_to :: "string \<Rightarrow> 'v message \<Rightarrow> 'v message" where
  "message_in_reply_to r m = m\<lparr>ms_reference_id := Some r\<rparr>"

definition message_with_metadata :: "'v \<Rightarrow> 'v message \<Rightarrow> 'v message" where
  "message_with_metadata v m = m\<lparr>ms_metadata := Some v\<rparr>"

definition message_add_part :: "'v message_part \<Rightarrow> 'v message \<Rightarrow> 'v message" where
  "message_add_part p m = m\<lparr>ms_parts := ms_parts m @ [p]\<rparr>"

definition message_text_content :: "'v message \<Rightarrow> string" where
  "message_text_content m =
     join ''\<newline>'' (List.map_filter (\<lambda>p. case p of TextP t \<Rightarrow> Some (tp_text t) | _ \<Rightarrow> None) (ms_parts m))"

definition message_has_files :: "'v message \<Rightarrow> bool" where
  "message_has_files m = list_ex (\<lambda>p. case p of FileP _ \<Rightarrow> True | _ \<Rightarrow> False) (ms_parts m)"

definition message_files :: "'v message \<Rightarrow> file_part list" where
  "message_files m = List.map_filter (\<lambda>p. case p of FileP f \<Rightarrow> Some f | _ \<Rightarrow> None) (ms_parts m)"

definition message_data :: "'v message \<Rightarrow> 'v data_part list" where
  "message_data m = List.map_filter (\<lambda>p. case p of DataP d \<Rightarrow> Some d | _ \<Rightarrow> None) (ms_parts m)"

lemma message_has_files_iff: "message_has_files m \<longleftrightarrow> message_files m \<noteq> []"
proof -
  have "list_ex (\<lambda>p. case p of FileP _ \<Rightarrow> True | _ \<Rightarrow> False) ps \<longleftrightarrow>
      List.map_filter (\<lambda>p. case p of FileP f \<Rightarrow> Some f | _ \<Rightarrow> None) ps \<noteq> []" for ps :: "'a message_part list"
    by (induction ps) (auto simp: map_filter_simps split: message_part.splits)
  then show ?thesis by (simp add: message_has_files_def message_files_def)
qed

section \<open>Artifacts\<close>

datatype 'v artifact_part = ATextP text_part | AFileP file_part | ADataP "'v data_part"

record 'v artifact =
  ar_artifact_id :: string
  ar_name :: "string option"
  ar_description :: "string option"
  ar_parts :: "'v artifact_part list"
  ar_index :: "nat option"
  ar_streaming :: bool
  ar_complete :: bool
  ar_metadata :: "'v option"

definition artifact_with_parts :: "string \<Rightarrow> 'v artifact_part list \<Rightarrow> 'v artifact" where
  "artifact_with_parts uuid parts = \<lparr>ar_artifact_id = uuid, ar_name = None, ar_description = None,
     ar_parts = parts, ar_index = None, ar_streaming = False, ar_complete = True, ar_metadata = None\<rparr>"

definition artifact_new :: "string \<Rightarrow> 'v artifact" where
  "artifact_new uuid = artifact_with_parts uuid []"

definition artifact_text :: "string \<Rightarrow> string \<Rightarrow> 'v artifact" where
  "artifact_text uuid content =
     artifact_with_parts uuid [ATextP \<lparr>tp_text = content, tp_content_type = None\<rparr>]"

definition artifact_file :: "string \<Rightarrow> string \<Rightarrow> string \<Rightarrow> 'v artifact" where
  "artifact_file uuid uri media = artifact_with_parts uuid [AFileP \<lparr>fp_file =
     \<lparr>fc_name = None, fc_media_type = media, fc_uri = Some uri, fc_bytes = None\<rparr>\<rparr>]"

definition artifact_data :: "string \<Rightarrow> 'v \<Rightarrow> 'v artifact" where
  "artifact_data uuid v = artifact_with_parts uuid [ADataP \<lparr>dp_data = v, dp_schema = None\<rparr>]"

definition artifact_with_name :: "string \<Rightarrow> 'v artifact \<Rightarrow> 'v artifact" where
  "artifact_with_name n a = a\<lparr>ar_name := Some n\<rparr>"

definition artifact_with_description :: "string \<Rightarrow> 'v artifact \<Rightarrow> 'v artifact" where
  "artifact_with_description d a = a\<lparr>ar_description := Some d\<rparr>"

definition artifact_with_index :: "nat \<Rightarrow> 'v artifact \<Rightarrow> 'v artifact" where
  "artifact_with_index i a = a\<lparr>ar_index := Some i\<rparr>"

definition artifact_as_streaming :: "'v artifact \<Rightarrow> 'v artifact" where
  "artifact_as_streaming a = a\<lparr>ar_streaming := True, ar_complete := False\<rparr>"

definition artifact_with_metadata :: "'v \<Rightarrow> 'v artifact \<Rightarrow> 'v artifact" where
  "artifact_with_metadata v a = a\<lparr>ar_metadata := Some v\<rparr>"

definition artifact_add_part :: "'v artifact_part \<Rightarrow> 'v artifact \<Rightarrow> 'v artifact" where
  "artifact_add_part p a = a\<lparr>ar_parts := ar_parts a @ [p]\<rparr>"

definition artifact_mark_complete :: "'v artifact \<Rightarrow> 'v artifact" where
  "artifact_mark_complete a = a\<lparr>ar_streaming := False, ar_complete := True\<rparr>"

definition artifact_text_content :: "'v artifact \<Rightarrow> string" where
  "artifact_text_content a =
     join ''\<newline>'' (List.map_filter (\<lambda>p. case p of ATextP t \<Rightarrow> Some (tp_text t) | _ \<Rightarrow> None) (ar_parts a))"

text \<open>An artifact is streaming or complete, never both: every constructor and setter keeps this.\<close>

definition artifact_flags_ok :: "'v artifact \<Rightarrow> bool" where
  "artifact_flags_ok a \<longleftrightarrow> ar_complete a = (\<not> ar_streaming a)"

lemma artifact_flags_kept:
  "artifact_flags_ok (artifact_with_parts u ps)" "artifact_flags_ok (artifact_as_streaming a)"
  "artifact_flags_ok (artifact_mark_complete a)"
  "artifact_flags_ok (artifact_add_part p a) = artifact_flags_ok a"
  "artifact_flags_ok (artifact_with_index i a) = artifact_flags_ok a"
  "artifact_flags_ok (artifact_with_name n a) = artifact_flags_ok a"
  "artifact_flags_ok (artifact_with_description n a) = artifact_flags_ok a"
  "artifact_flags_ok (artifact_with_metadata v a) = artifact_flags_ok a"
  by (simp_all add: artifact_flags_ok_def artifact_with_parts_def artifact_as_streaming_def
      artifact_mark_complete_def artifact_add_part_def artifact_with_index_def artifact_with_name_def
      artifact_with_description_def artifact_with_metadata_def)

section \<open>Tasks\<close>

datatype task_state =
    TaSubmitted | TaWorking | TaInputRequired | TaCompleted | TaFailed | TaCancelled | TaRejected
  | TaAuthRequired

definition task_state_is_terminal :: "task_state \<Rightarrow> bool" where
  "task_state_is_terminal s \<longleftrightarrow> s = TaCompleted \<or> s = TaFailed \<or> s = TaCancelled \<or> s = TaRejected"

definition task_state_is_active :: "task_state \<Rightarrow> bool" where
  "task_state_is_active s \<longleftrightarrow> s = TaSubmitted \<or> s = TaWorking"

record 'v task_error =
  te_code :: int
  te_message :: string
  te_data :: "'v option"

record 'v task_status =
  tk_state :: task_state
  tk_timestamp :: "time option"
  tk_message :: "string option"
  tk_error :: "'v task_error option"

record 'v task_status_update =
  tu_status :: "'v task_status"
  tu_timestamp :: time

record 'v task_metadata =
  tm_spec_sheet :: "'v option"
  tm_summary :: "'v option"
  tm_extra :: "string \<rightharpoonup> 'v"

record 'v task =
  t_id :: string
  t_context_id :: "string option"
  t_status :: "'v task_status"
  t_messages :: "'v message list"
  t_artifacts :: "'v artifact list"
  t_history :: "'v task_status_update list option"
  t_metadata :: "'v task_metadata option"

record 'v task_status_update_event =
  se_task_id :: string
  se_context_id :: "string option"
  se_status :: "'v task_status"
  se_final_update :: bool

record 'v task_artifact_update_event =
  ae_task_id :: string
  ae_context_id :: "string option"
  ae_artifact :: "'v artifact"
  ae_index :: nat
  ae_complete :: bool

definition task_metadata_default :: "'v task_metadata" where
  "task_metadata_default = \<lparr>tm_spec_sheet = None, tm_summary = None, tm_extra = Map.empty\<rparr>"

text \<open>
  \<open>TaskMetadata::spec_sheet\<close> and \<open>::summary\<close> decode the stored JSON value; the decoder that
  \<open>serde\<close> derives is an argument, \<open>Inl\<close> being its error.
\<close>

definition metadata_spec_sheet ::
  "('v \<Rightarrow> string + 'v spec_sheet) \<Rightarrow> 'v task_metadata \<Rightarrow> string + 'v spec_sheet option" where
  "metadata_spec_sheet dec m = (case tm_spec_sheet m of
      None \<Rightarrow> Inr None
    | Some v \<Rightarrow> (case dec v of Inl e \<Rightarrow> Inl e | Inr s \<Rightarrow> Inr (Some s)))"

definition metadata_summary ::
  "('v \<Rightarrow> string + task_summary) \<Rightarrow> 'v task_metadata \<Rightarrow> string + task_summary option" where
  "metadata_summary dec m = (case tm_summary m of
      None \<Rightarrow> Inr None
    | Some v \<Rightarrow> (case dec v of Inl e \<Rightarrow> Inl e | Inr s \<Rightarrow> Inr (Some s)))"

subsection \<open>The life cycle\<close>

definition task_new :: "string \<Rightarrow> time \<Rightarrow> 'v task" where
  "task_new uuid now = \<lparr>t_id = uuid, t_context_id = None,
     t_status = \<lparr>tk_state = TaSubmitted, tk_timestamp = Some now, tk_message = None, tk_error = None\<rparr>,
     t_messages = [], t_artifacts = [], t_history = None, t_metadata = None\<rparr>"

definition task_with_context :: "string \<Rightarrow> time \<Rightarrow> string \<Rightarrow> 'v task" where
  "task_with_context uuid now c = (task_new uuid now)\<lparr>t_context_id := Some c\<rparr>"

definition task_with_id :: "string \<Rightarrow> time \<Rightarrow> string \<Rightarrow> 'v task" where
  "task_with_id uuid now i = (task_new uuid now)\<lparr>t_id := i\<rparr>"

definition task_set_state :: "time \<Rightarrow> time \<Rightarrow> task_state \<Rightarrow> string option \<Rightarrow> 'v task \<Rightarrow> 'v task" where
  "task_set_state now1 now2 st msg t =
     (let update = \<lparr>tu_status = t_status t, tu_timestamp = now1\<rparr>;
          t1 = t\<lparr>t_status := \<lparr>tk_state = st, tk_timestamp = Some now2, tk_message = msg, tk_error = None\<rparr>\<rparr>
      in case t_history t1 of
           None \<Rightarrow> t1
         | Some h \<Rightarrow> t1\<lparr>t_history := Some (h @ [update])\<rparr>)"

definition task_start :: "time \<Rightarrow> time \<Rightarrow> 'v task \<Rightarrow> 'v task" where
  "task_start n1 n2 t = task_set_state n1 n2 TaWorking (Some ''Processing...'') t"

definition task_complete :: "time \<Rightarrow> time \<Rightarrow> string option \<Rightarrow> 'v task \<Rightarrow> 'v task" where
  "task_complete n1 n2 msg t = task_set_state n1 n2 TaCompleted msg t"

definition task_fail :: "time \<Rightarrow> 'v task_error \<Rightarrow> 'v task \<Rightarrow> 'v task" where
  "task_fail now err t =
     t\<lparr>t_status := \<lparr>tk_state = TaFailed, tk_timestamp = Some now,
                     tk_message = Some (te_message err), tk_error = Some err\<rparr>\<rparr>"

definition task_cancel :: "time \<Rightarrow> time \<Rightarrow> 'v task \<Rightarrow> 'v task" where
  "task_cancel n1 n2 t = task_set_state n1 n2 TaCancelled (Some ''Task cancelled by user'') t"

definition task_request_input :: "time \<Rightarrow> time \<Rightarrow> string \<Rightarrow> 'v task \<Rightarrow> 'v task" where
  "task_request_input n1 n2 prompt t = task_set_state n1 n2 TaInputRequired (Some prompt) t"

definition task_add_message :: "'v message \<Rightarrow> 'v task \<Rightarrow> 'v task" where
  "task_add_message m t = t\<lparr>t_messages := t_messages t @ [m]\<rparr>"

definition task_add_artifact :: "'v artifact \<Rightarrow> 'v task \<Rightarrow> 'v task" where
  "task_add_artifact a t = t\<lparr>t_artifacts := t_artifacts t @ [a]\<rparr>"

definition task_enable_history :: "'v task \<Rightarrow> 'v task" where
  "task_enable_history t = (if t_history t = None then t\<lparr>t_history := Some []\<rparr> else t)"

definition task_is_terminal :: "'v task \<Rightarrow> bool" where
  "task_is_terminal t = task_state_is_terminal (tk_state (t_status t))"

definition task_is_active :: "'v task \<Rightarrow> bool" where
  "task_is_active t = task_state_is_active (tk_state (t_status t))"

text \<open>The life cycle calls as data, so that a whole life can be run.\<close>

datatype 'v task_op =
    OpStart time time
  | OpComplete time time "string option"
  | OpFail time "'v task_error"
  | OpCancel time time
  | OpRequestInput time time string

primrec task_apply :: "'v task_op \<Rightarrow> 'v task \<Rightarrow> 'v task" where
  "task_apply (OpStart a b) t = task_start a b t"
| "task_apply (OpComplete a b m) t = task_complete a b m t"
| "task_apply (OpFail a e) t = task_fail a e t"
| "task_apply (OpCancel a b) t = task_cancel a b t"
| "task_apply (OpRequestInput a b p) t = task_request_input a b p t"

primrec op_is_fail :: "'v task_op \<Rightarrow> bool" where
  "op_is_fail (OpStart a b) = False"
| "op_is_fail (OpComplete a b m) = False"
| "op_is_fail (OpFail a e) = True"
| "op_is_fail (OpCancel a b) = False"
| "op_is_fail (OpRequestInput a b p) = False"

text \<open>The statuses a run passes through before its last one, in order.\<close>

primrec statuses_left :: "'v task_op list \<Rightarrow> 'v task \<Rightarrow> ('v task_op \<times> 'v task_status) list" where
  "statuses_left [] t = []"
| "statuses_left (x # xs) t = (x, t_status t) # statuses_left xs (task_apply x t)"

lemmas task_op_defs = task_start_def task_complete_def task_fail_def task_cancel_def
  task_request_input_def task_set_state_def

lemma task_apply_history:
  "t_history t = Some h \<Longrightarrow>
     \<exists>now. t_history (task_apply x t) =
       Some (if op_is_fail x then h else h @ [\<lparr>tu_status = t_status t, tu_timestamp = now\<rparr>])"
  by (cases x) (auto simp: task_op_defs Let_def)

lemma task_run_history:
  "t_history t = Some h \<Longrightarrow>
     \<exists>h'. t_history (fold task_apply xs t) = Some (h @ h') \<and>
       map tu_status h' = map snd (filter (\<lambda>p. \<not> op_is_fail (fst p)) (statuses_left xs t))"
proof (induction xs arbitrary: t h)
  case (Cons x xs)
  obtain now where now: "t_history (task_apply x t) =
      Some (if op_is_fail x then h else h @ [\<lparr>tu_status = t_status t, tu_timestamp = now\<rparr>])"
    using task_apply_history [OF Cons.prems] by blast
  from Cons.IH [OF now] show ?case
    by (auto split: if_splits)
qed simp

lemma task_set_state_identity:
  "t_id (task_set_state a b s m t) = t_id t" "t_context_id (task_set_state a b s m t) = t_context_id t"
  "t_messages (task_set_state a b s m t) = t_messages t"
  "tk_state (t_status (task_set_state a b s m t)) = s"
  by (auto simp: task_set_state_def Let_def split: option.splits)

text \<open>With history enabled, a life of a task appends to it the status left by every transition, in
  order, except those of \<open>fail\<close>, which overwrites the status without recording it.\<close>

theorem task_history_skips_failures:
  assumes "t_history t = Some h"
  shows "\<exists>h'. t_history (fold task_apply xs t) = Some (h @ h') \<and>
     map tu_status h' = map snd (filter (\<lambda>p. \<not> op_is_fail (fst p)) (statuses_left xs t))"
  using task_run_history [OF assms] .

theorem task_history_skips_failures_witness:
  "\<exists>h'. t_history (fold task_apply [OpStart 4 2, OpFail 3 \<lparr>te_code = 7, te_message = [], te_data = None\<rparr>]
       (task_enable_history (task_new ''a'' 0 :: nat task))) = Some ([] @ h') \<and> length h' = 1"
proof -
  have "t_history (task_enable_history (task_new ''a'' 0 :: nat task)) = Some []"
    by (simp add: task_enable_history_def task_new_def)
  from task_history_skips_failures [OF this,
      of "[OpStart 4 2, OpFail 3 \<lparr>te_code = 7, te_message = [], te_data = None\<rparr>]"]
  obtain h' where h': "t_history (fold task_apply [OpStart 4 2, OpFail 3 \<lparr>te_code = 7, te_message = [], te_data = None\<rparr>]
       (task_enable_history (task_new ''a'' 0 :: nat task))) = Some ([] @ h')"
    and m: "map tu_status h' = map snd (filter (\<lambda>p. \<not> op_is_fail (fst p))
       (statuses_left [OpStart 4 2, OpFail 3 \<lparr>te_code = 7, te_message = [], te_data = None\<rparr>]
         (task_enable_history (task_new ''a'' 0 :: nat task))))"
    by blast
  have "length h' = 1" using arg_cong [OF m, of length] by simp
  with h' show ?thesis by blast
qed

end
