(* ===== verification/Orch_Support.thy ===== *)
theory Orch_Support
  imports Task_Types
begin

text \<open>
  \<open>crates/agent_core/src/orchestrator_support.rs\<close>: the outcome of a verification, the sheets built
  for the summarizer and the verifier agents, and what the orchestrator reads back from the tool log
  of the verifier's task.

  The JSON and YAML parsers of the verification payload are arguments (\<open>Inl\<close> is their error).
\<close>

section \<open>Data\<close>

datatype verification_outcome = Verified | NeedsRevision | Rejected

record verification_tool_payload =
  vp_status :: string
  vp_feedback :: "string option"
  vp_end_convo :: bool

text \<open>\<open>VerificationContext\<close> and \<open>SummarizerContext\<close> have the same fields.\<close>

record 'v verification_context =
  vc_spec_id :: string
  vc_spec_title :: string
  vc_step :: "'v spec_step"
  vc_prefix :: string
  vc_summary :: task_summary
  vc_tool_log :: string
  vc_workspace_root :: string

type_synonym 'v summarizer_context = "'v verification_context"

datatype step_disposition = Retry | Success task_summary | Fail task_summary

section \<open>The verifier chain\<close>

text \<open>A verifier accepts a summary or answers with feedback.\<close>

type_synonym verifier = "task_summary \<Rightarrow> feedback_entry + unit"

fun verifier_chain_run :: "verifier list \<Rightarrow> task_summary \<Rightarrow> feedback_entry + unit" where
  "verifier_chain_run [] summary = Inr ()"
| "verifier_chain_run (v # vs) summary =
     (case v summary of Inl feedback \<Rightarrow> Inl feedback | Inr _ \<Rightarrow> verifier_chain_run vs summary)"

definition command_verifier :: verifier where
  "command_verifier _ = Inr ()"

definition lint_verifier :: verifier where
  "lint_verifier _ = Inr ()"

definition policy_verifier :: verifier where
  "policy_verifier _ = Inr ()"

definition default_chain :: "verifier list" where
  "default_chain = [command_verifier, lint_verifier, policy_verifier]"

definition map_verification_outcome :: "string \<Rightarrow> verification_outcome" where
  "map_verification_outcome status =
     (let s = to_ascii_lowercase (trim status)
      in if s = ''verified'' then Verified
         else if s = ''needs_revision'' \<or> s = ''needs-revision'' \<or> s = ''revision'' \<or> s = ''retry''
         then NeedsRevision
         else Rejected)"

section \<open>Reading the tool log\<close>

definition tool_log_entries :: "'v json_api \<Rightarrow> 'v task \<Rightarrow> 'v list option" where
  "tool_log_entries J t =
     Option.bind (t_metadata t) (\<lambda>m. Option.bind (tm_extra m ''toolLog'') (j_as_array J))"

definition entry_name :: "'v json_api \<Rightarrow> 'v \<Rightarrow> string option" where
  "entry_name J e = Option.bind (j_get J e ''name'') (j_as_str J)"

definition entry_arguments :: "'v json_api \<Rightarrow> 'v \<Rightarrow> string" where
  "entry_arguments J e =
     (case Option.bind (j_get J e ''arguments'') (j_as_str J) of None \<Rightarrow> ''{}'' | Some a \<Rightarrow> a)"

definition extract_verification_payload ::
  "'v json_api \<Rightarrow> (string \<Rightarrow> string + verification_tool_payload) \<Rightarrow>
   (string \<Rightarrow> string + verification_tool_payload) \<Rightarrow> 'v task \<Rightarrow> string + verification_tool_payload" where
  "extract_verification_payload J from_json from_yaml t =
     (case tool_log_entries J t of
        None \<Rightarrow> Inl ''Verifier did not record tool calls''
      | Some log \<Rightarrow>
          (case find (\<lambda>e. entry_name J e = Some ''submit_verification'') (rev log) of
             None \<Rightarrow> Inl ''Verifier must call submit_verification''
           | Some e \<Rightarrow>
               (case from_json (entry_arguments J e) of
                  Inr p \<Rightarrow> Inr p
                | Inl _ \<Rightarrow> (case from_yaml (entry_arguments J e) of
                     Inr p \<Rightarrow> Inr p
                   | Inl _ \<Rightarrow> Inl ''Failed to parse submit_verification payload''))))"

definition format_tool_log :: "'v json_api \<Rightarrow> 'v task \<Rightarrow> string" where
  "format_tool_log J t =
     (case map_option
         (\<lambda>entries. join ''\<newline>''
            (List.map_filter
               (\<lambda>e. map_option (\<lambda>name. ''- '' @ name @ '' '' @ entry_arguments J e) (entry_name J e))
               entries))
         (tool_log_entries J t) of
        None \<Rightarrow> ''(no tool calls recorded)''
      | Some v \<Rightarrow> (if v = [] then ''(no tool calls recorded)'' else v))"

section \<open>The sheets of the helper agents\<close>

text \<open>The en dash of the titles, as UTF-8, and the quotation mark.\<close>

definition en_dash :: string where
  "en_dash = [CHR 0xE2, CHR 0x80, CHR 0x93]"

definition quote :: string where
  "quote = [CHR 0x22]"

definition bullet_list :: "string \<Rightarrow> string list \<Rightarrow> string" where
  "bullet_list none items =
     (if items = [] then none else join ''\<newline>'' (map (\<lambda>item. ''- '' @ item) items))"

definition instructions_body :: "'v verification_context \<Rightarrow> string" where
  "instructions_body c = concat
     [''### Workspace Root\<newline>'', vc_workspace_root c,
      ''\<newline>\<newline>### Step Instructions\<newline>'', st_instructions (vc_step c),
      ''\<newline>\<newline>### Acceptance Criteria\<newline>'',
      bullet_list ''(no acceptance criteria provided)'' (st_acceptance_criteria (vc_step c)),
      ''\<newline>\<newline>### Constraints\<newline>'',
      bullet_list ''(no additional constraints)'' (st_constraints (vc_step c)),
      ''\<newline>\<newline>### Implementor Summary\<newline>'', ts_summary_text (vc_summary c),
      ''\<newline>\<newline>### Tool Calls Used\<newline>'', vc_tool_log c, ''\<newline>\<newline>'']"

definition build_summarizer_instructions :: "'v summarizer_context \<Rightarrow> string" where
  "build_summarizer_instructions c = concat
     [''## Role\<newline>You are summarizing spec '', quote, vc_spec_title c, quote, '' step '',
      st_index (vc_step c), '' '', en_dash, '' '', st_title (vc_step c), '' for verification.\<newline>\<newline>'',
      instructions_body c,
      ''Produce a concise summary that a verifier can use to validate the changes. '',
      ''Focus on the key modifications, commands run, and artifacts touched.'']"

definition build_verifier_instructions :: "'v verification_context \<Rightarrow> string" where
  "build_verifier_instructions c = concat
     [''## Role\<newline>You are verifying spec '', quote, vc_spec_title c, quote, '' step '',
      st_index (vc_step c), '' '', en_dash, '' '', st_title (vc_step c), ''.\<newline>\<newline>'',
      instructions_body c,
      ''Use tools to inspect the codebase, run any relevant checks (tests, builds, linters), '',
      ''and confirm the implementation matches the instructions. Do not modify files.\<newline>\<newline>'',
      ''When verification is complete, call submit_verification with status verified, '',
      ''needs_revision, or failed, include feedback, and set end_convo to true.'']"

definition build_summarizer_step :: "'v summarizer_context \<Rightarrow> 'v spec_step" where
  "build_summarizer_step c = SpecStep ''summary''
     (''Summarize '' @ en_dash @ '' '' @ st_title (vc_step c))
     (build_summarizer_instructions c)
     [''Provide a concise, verifier-ready summary'',
      ''Mention any tests run and files touched if known'']
     []
     [''Do not modify files during summarization'', ''Use tools only for inspection if needed'']
     [] False False None StPending None None"

definition build_summarizer_spec :: "'v \<Rightarrow> time \<Rightarrow> 'v summarizer_context \<Rightarrow> 'v spec_sheet" where
  "build_summarizer_spec null now c = SpecSheet (vc_spec_id c @ ''::summary'')
     (''Summary for '' @ vc_spec_title c) ''Summarize implementation for verification''
     [build_summarizer_step c] ''summarizer'' now null"

definition build_verifier_step :: "'v verification_context \<Rightarrow> 'v spec_step" where
  "build_verifier_step c = SpecStep ''1''
     (''Verify '' @ en_dash @ '' '' @ st_title (vc_step c))
     (build_verifier_instructions c)
     [''Inspect the implementation using tools and run relevant checks'',
      ''Call submit_verification with the final outcome'']
     [''submit_verification'']
     [''Do not modify files during verification'',
      ''Use tools to read files and run commands as needed'']
     [] False False None StPending None None"

definition build_verifier_spec :: "'v \<Rightarrow> time \<Rightarrow> 'v verification_context \<Rightarrow> 'v spec_sheet" where
  "build_verifier_spec null now c = SpecSheet (vc_spec_id c @ ''::verifier'')
     (''Verification for '' @ vc_spec_title c) ''Verification step''
     [build_verifier_step c] ''verifier'' now null"

section \<open>Facts\<close>

lemma verifier_chain_run_Inr:
  "verifier_chain_run vs s = Inr () \<longleftrightarrow> (\<forall>v \<in> set vs. v s = Inr ())"
  by (induction vs) (auto split: sum.splits)

text \<open>The chain's verdict is that of the first verifier that rejects.\<close>

lemma verifier_chain_run_Inl:
  "verifier_chain_run vs s = Inl f \<longleftrightarrow>
     (\<exists>us v ws. vs = us @ v # ws \<and> (\<forall>u \<in> set us. u s = Inr ()) \<and> v s = Inl f)"
proof (induction vs)
  case (Cons v vs)
  have split: "(\<exists>us w ws. v # vs = us @ w # ws \<and> Q us w) \<longleftrightarrow>
      Q [] v \<or> (\<exists>us w ws. vs = us @ w # ws \<and> Q (v # us) w)" (is "?l \<longleftrightarrow> ?r") for Q
  proof
    show "?l \<Longrightarrow> ?r"
      by (auto simp: Cons_eq_append_conv)
    have "v # vs = [] @ v # vs" by simp
    moreover have "vs = us @ w # ws \<Longrightarrow> v # vs = (v # us) @ w # ws" for us w ws by simp
    ultimately show "?r \<Longrightarrow> ?l" by blast
  qed
  show ?case
    unfolding split by (auto simp: Cons.IH split: sum.splits)
qed simp

lemma default_chain_accepts [simp]: "verifier_chain_run default_chain s = Inr ()"
  by (simp add: default_chain_def command_verifier_def lint_verifier_def policy_verifier_def)

lemma find_rev_last:
  assumes "find P (rev xs) = Some x"
  shows "\<exists>us ws. xs = us @ x # ws \<and> P x \<and> (\<forall>w \<in> set ws. \<not> P w)"
proof -
  obtain i where i: "i < length xs" "P (rev xs ! i)" "x = rev xs ! i" "\<forall>j<i. \<not> P (rev xs ! j)"
    using assms by (auto simp: find_Some_iff)
  have eq: "xs = rev (drop (Suc i) (rev xs)) @ x # rev (take i (rev xs))"
    using i id_take_nth_drop [of i "rev xs"]
    by (metis append.assoc append_Cons append_Nil length_rev rev.simps(2) rev_append rev_rev_ident)
  moreover have "\<forall>w \<in> set (rev (take i (rev xs))). \<not> P w"
    using i by (auto simp: in_set_conv_nth)
  ultimately show ?thesis using i by blast
qed

text \<open>A payload always comes from the last \<open>submit_verification\<close> call of the log.\<close>

lemma extract_verification_payload_last:
  assumes "extract_verification_payload J fj fy t = Inr p"
  shows "\<exists>us e ws. tool_log_entries J t = Some (us @ e # ws) \<and>
     entry_name J e = Some ''submit_verification'' \<and>
     (\<forall>w \<in> set ws. entry_name J w \<noteq> Some ''submit_verification'') \<and>
     (fj (entry_arguments J e) = Inr p \<or> fy (entry_arguments J e) = Inr p)"
  using assms
  by (fastforce simp: extract_verification_payload_def dest: find_rev_last
      split: option.splits sum.splits)

lemma format_tool_log_nonempty: "format_tool_log J t \<noteq> []"
  by (auto simp: format_tool_log_def split: option.splits)

lemma build_verifier_spec_valid: "validate (build_verifier_spec null now c) = Inr ()"
  by (simp add: build_verifier_spec_def build_verifier_step_def nat_to_string_1)

lemma build_summarizer_spec_invalid:
  "validate (build_summarizer_spec null now c) = Inl (InvalidIndex ''1'' ''summary'')"
  by (simp add: build_summarizer_spec_def build_summarizer_step_def nat_to_string_1)

end
