(* ===== verification/Orchestrator.thy ===== *)
theory Orchestrator
  imports Orch_Support "HOL-Library.Word"
begin

text \<open>
  \<open>crates/agent_core/src/orchestrator.rs\<close>: the orchestrator that walks a stack of specification
  sheets depth first, runs every step through a sub-agent, summarises and verifies it, and reacts to
  pause, resume, abort, cancel, resume-step, inject and re-verify commands that other threads send
  through an \<open>OrchestratorControl\<close>.

  \<^item> The state \<open>orch\<close> has the fields of \<open>struct Orchestrator\<close> and of the control handle's shared
    cells. The stack is kept with its top at the head. The event channel is the list of events sent
    so far, the command channel the list of commands not yet received; a cancel channel is a number,
    and the signals sent over such channels are recorded.
  \<^item> The agents (\<open>dyn OrchestratorAgent\<close>), the JSON codecs and the clock are the fields of an
    environment record over a world \<open>'w\<close>. Every call of an agent also returns what the other
    threads did while the call was awaited: control calls and the sub-agent's own progress events.
    So commands interleave with the run at every \<open>await\<close>, in any order.
  \<^item> \<open>?\<close> is the early return of \<open>prog\<close>. The two loops (\<open>wait_while_paused\<close> and \<open>run\<close>) may run
    for ever and take fuel; the outcome \<open>Stuck\<close> is "still running".
\<close>

section \<open>Events and commands\<close>

datatype step_role = Implementor | Summarizer | VerifierRole | MergeRole

datatype sub_agent_message =
    SamUserPrompt string
  | SamText string
  | SamThinking string nat
  | SamToolCall string string "string option" bool
  | SamGenerationStats "32 word" nat nat
  | SamDone
  | SamError string

datatype orchestrator_event =
    StepStatusChanged string string string string string step_role step_status
  | SummaryUpdated task_summary
  | VerifierFailed task_summary string
  | ChildSpecPushed string string nat
  | ChannelClosed string time
  | Paused
  | Resumed
  | Aborted
  | StepCancelled string
  | RunCompleted
  | ErrorEvent string
  | ToolCallStarted string string string
  | ToolCallCompleted string string string bool
  | AgentMessage string sub_agent_message

datatype 'v orchestrator_command =
    CmdPause
  | CmdResume
  | CmdAbort
  | CmdRerunVerifiers
  | CmdInjectSplit string "'v spec_sheet"
  | CmdCancelStep string
  | CmdResumeStep string string

section \<open>State\<close>

type_synonym 'v stack_entry = "'v spec_sheet \<times> nat \<times> string"

record ('v, 'w) orch =
  oc_stack :: "'v stack_entry list"
  oc_event_tx :: bool
  oc_events :: "orchestrator_event list"
  oc_command_rx :: bool
  oc_queue :: "'v orchestrator_command list"
  oc_paused :: bool
  oc_aborted :: bool
  oc_last_summary :: "task_summary option"
  oc_last_verification :: "'v verification_context option"
  oc_current_prefix :: "string option"
  oc_current_cancel :: "nat option"
  oc_shared_current_prefix :: "string option"
  oc_shared_current_cancel :: "nat option"
  oc_pending_resume :: "'v stack_entry option"
  oc_cancel_prefix :: "string option"
  oc_cancel_signals :: "nat list"
  oc_next_channel :: nat
  oc_world :: 'w

definition orchestrator_new :: "'w \<Rightarrow> 'v spec_sheet \<Rightarrow> ('v, 'w) orch" where
  "orchestrator_new w spec = \<lparr>oc_stack = [(spec, 0, [])], oc_event_tx = False, oc_events = [],
     oc_command_rx = False, oc_queue = [], oc_paused = False, oc_aborted = False,
     oc_last_summary = None, oc_last_verification = None, oc_current_prefix = None,
     oc_current_cancel = None, oc_shared_current_prefix = None, oc_shared_current_cancel = None,
     oc_pending_resume = None, oc_cancel_prefix = None, oc_cancel_signals = [], oc_next_channel = 0,
     oc_world = w\<rparr>"

definition orchestrator_new_with_control :: "'w \<Rightarrow> 'v spec_sheet \<Rightarrow> ('v, 'w) orch" where
  "orchestrator_new_with_control w spec = \<lparr>oc_stack = [(spec, 0, [])], oc_event_tx = True, oc_events = [],
     oc_command_rx = True, oc_queue = [], oc_paused = False, oc_aborted = False,
     oc_last_summary = None, oc_last_verification = None, oc_current_prefix = None,
     oc_current_cancel = None, oc_shared_current_prefix = None, oc_shared_current_cancel = None,
     oc_pending_resume = None, oc_cancel_prefix = None, oc_cancel_signals = [], oc_next_channel = 0,
     oc_world = w\<rparr>"

section \<open>The control handle\<close>

definition signal_current_cancel :: "('v, 'w) orch \<Rightarrow> ('v, 'w) orch" where
  "signal_current_cancel s = (case oc_shared_current_cancel s of
      None \<Rightarrow> s
    | Some c \<Rightarrow> s\<lparr>oc_cancel_signals := oc_cancel_signals s @ [c]\<rparr>)"

definition signal_cancel_if_matches :: "string \<Rightarrow> ('v, 'w) orch \<Rightarrow> ('v, 'w) orch" where
  "signal_cancel_if_matches p s =
     (if oc_shared_current_prefix s = Some p then signal_current_cancel s else s)"

definition send_command :: "'v orchestrator_command \<Rightarrow> ('v, 'w) orch \<Rightarrow> ('v, 'w) orch" where
  "send_command c s = s\<lparr>oc_queue := oc_queue s @ [c]\<rparr>"

definition control_pause :: "('v, 'w) orch \<Rightarrow> ('v, 'w) orch" where
  "control_pause s = send_command CmdPause (s\<lparr>oc_paused := True\<rparr>)"

definition control_resume :: "('v, 'w) orch \<Rightarrow> ('v, 'w) orch" where
  "control_resume s = send_command CmdResume (s\<lparr>oc_paused := False\<rparr>)"

definition control_abort :: "('v, 'w) orch \<Rightarrow> ('v, 'w) orch" where
  "control_abort s = send_command CmdAbort (signal_current_cancel (s\<lparr>oc_aborted := True\<rparr>))"

definition control_rerun_verifiers :: "('v, 'w) orch \<Rightarrow> ('v, 'w) orch" where
  "control_rerun_verifiers s = send_command CmdRerunVerifiers s"

definition control_cancel_step :: "string \<Rightarrow> ('v, 'w) orch \<Rightarrow> ('v, 'w) orch" where
  "control_cancel_step p s = send_command (CmdCancelStep p) (signal_cancel_if_matches p s)"

definition control_resume_step :: "string \<Rightarrow> string \<Rightarrow> ('v, 'w) orch \<Rightarrow> ('v, 'w) orch" where
  "control_resume_step p message s = send_command (CmdResumeStep p message) s"

definition control_inject_split :: "string \<Rightarrow> 'v spec_sheet \<Rightarrow> ('v, 'w) orch \<Rightarrow> ('v, 'w) orch" where
  "control_inject_split idx child s = send_command (CmdInjectSplit idx child) s"

definition control_is_paused :: "('v, 'w) orch \<Rightarrow> bool" where
  "control_is_paused s = oc_paused s"

definition control_is_aborted :: "('v, 'w) orch \<Rightarrow> bool" where
  "control_is_aborted s = oc_aborted s"

text \<open>What other threads do while the orchestrator awaits something.\<close>

datatype 'v activity =
    ActPause
  | ActResume
  | ActAbort
  | ActRerunVerifiers
  | ActCancelStep string
  | ActResumeStep string string
  | ActInjectSplit string "'v spec_sheet"
  | ActToolCallStarted string string string
  | ActToolCallCompleted string string string bool
  | ActAgentMessage string sub_agent_message

definition send_event :: "orchestrator_event \<Rightarrow> ('v, 'w) orch \<Rightarrow> ('v, 'w) orch" where
  "send_event e s = (if oc_event_tx s then s\<lparr>oc_events := oc_events s @ [e]\<rparr> else s)"

text \<open>Without a command channel there is no control handle.\<close>

definition via_control :: "(('v, 'w) orch \<Rightarrow> ('v, 'w) orch) \<Rightarrow> ('v, 'w) orch \<Rightarrow> ('v, 'w) orch" where
  "via_control f s = (if oc_command_rx s then f s else s)"

primrec apply_activity :: "'v activity \<Rightarrow> ('v, 'w) orch \<Rightarrow> ('v, 'w) orch" where
  "apply_activity ActPause s = via_control control_pause s"
| "apply_activity ActResume s = via_control control_resume s"
| "apply_activity ActAbort s = via_control control_abort s"
| "apply_activity ActRerunVerifiers s = via_control control_rerun_verifiers s"
| "apply_activity (ActCancelStep p) s = via_control (control_cancel_step p) s"
| "apply_activity (ActResumeStep p m) s = via_control (control_resume_step p m) s"
| "apply_activity (ActInjectSplit i c) s = via_control (control_inject_split i c) s"
| "apply_activity (ActToolCallStarted p n a) s = send_event (ToolCallStarted p n a) s"
| "apply_activity (ActToolCallCompleted p n r e) s = send_event (ToolCallCompleted p n r e) s"
| "apply_activity (ActAgentMessage p m) s = send_event (AgentMessage p m) s"

section \<open>The environment\<close>

type_synonym ('v, 'w, 'a) agent_fn = "'w \<Rightarrow> (string + 'a) \<times> 'v activity list \<times> 'w"

text \<open>Time that passes in the loop itself: no result, only what the other threads did.\<close>

type_synonym ('v, 'w) idle_fn = "'w \<Rightarrow> 'v activity list \<times> 'w"

record ('v, 'w) orch_env =
  oe_json :: "'v json_api"
  oe_de_summary :: "'v \<Rightarrow> string + task_summary"
  oe_de_spec :: "'v \<Rightarrow> string + 'v spec_sheet"
  oe_ser_summary :: "task_summary \<Rightarrow> string + 'v"
  oe_payload_json :: "string \<Rightarrow> string + verification_tool_payload"
  oe_payload_yaml :: "string \<Rightarrow> string + verification_tool_payload"
  oe_update_spec_status :: "'v spec_sheet \<Rightarrow> 'v spec_step \<Rightarrow> string \<Rightarrow> ('v, 'w, unit) agent_fn"
  oe_update_task_summary :: "task_summary \<Rightarrow> ('v, 'w, unit) agent_fn"
  oe_send_task_message :: "string \<Rightarrow> string \<Rightarrow> ('v, 'w, unit) agent_fn"
  oe_notify_step_success :: "task_summary \<Rightarrow> ('v, 'w, unit) agent_fn"
  oe_close_task_channel :: "string \<Rightarrow> ('v, 'w, unit) agent_fn"
  oe_execute :: "'v spec_step \<Rightarrow> 'v spec_sheet \<Rightarrow> string \<Rightarrow> nat \<Rightarrow> ('v, 'w, 'v task) agent_fn"
  oe_execute_summarizer :: "'v spec_step \<Rightarrow> 'v spec_sheet \<Rightarrow> string \<Rightarrow> ('v, 'w, 'v task) agent_fn"
  oe_execute_verifier :: "'v spec_step \<Rightarrow> 'v spec_sheet \<Rightarrow> string \<Rightarrow> ('v, 'w, 'v task) agent_fn"
  oe_sleep :: "('v, 'w) idle_fn"
  oe_poll :: "('v, 'w) idle_fn"
  oe_now :: "'w \<Rightarrow> time"
  oe_workspace_root :: "'w \<Rightarrow> string"

definition agent_call :: "('v, 'w, 'a) agent_fn \<Rightarrow> (('v, 'w) orch, 'a) prog" where
  "agent_call f = (\<lambda>s. case f (oc_world s) of (r, acts, w) \<Rightarrow>
     ((case r of Inl e \<Rightarrow> Throw e | Inr x \<Rightarrow> Ret x), fold apply_activity acts (s\<lparr>oc_world := w\<rparr>)))"

definition idle :: "('v, 'w) idle_fn \<Rightarrow> (('v, 'w) orch, unit) prog" where
  "idle f = upd (\<lambda>s. case f (oc_world s) of (acts, w) \<Rightarrow> fold apply_activity acts (s\<lparr>oc_world := w\<rparr>))"

definition now :: "('v, 'w) orch_env \<Rightarrow> (('v, 'w) orch, time) prog" where
  "now E = asks (\<lambda>s. oe_now E (oc_world s))"

definition workspace_root :: "('v, 'w) orch_env \<Rightarrow> (('v, 'w) orch, string) prog" where
  "workspace_root E = asks (\<lambda>s. oe_workspace_root E (oc_world s))"

section \<open>Small operations\<close>

definition emit_event :: "orchestrator_event \<Rightarrow> (('v, 'w) orch, unit) prog" where
  "emit_event e = upd (send_event e)"

definition set_current_prefix_state :: "string option \<Rightarrow> (('v, 'w) orch, unit) prog" where
  "set_current_prefix_state p = upd (\<lambda>s. s\<lparr>oc_current_prefix := p, oc_shared_current_prefix := p\<rparr>)"

definition set_current_cancel_state :: "nat option \<Rightarrow> (('v, 'w) orch, unit) prog" where
  "set_current_cancel_state c = upd (\<lambda>s. s\<lparr>oc_current_cancel := c, oc_shared_current_cancel := c\<rparr>)"

definition take_current_cancel_sender :: "(('v, 'w) orch, nat option) prog" where
  "take_current_cancel_sender = bindp (asks oc_current_cancel) (\<lambda>sender.
     seqp (upd (\<lambda>s. s\<lparr>oc_current_cancel := None\<rparr>))
     (seqp (if sender \<noteq> None then upd (\<lambda>s. s\<lparr>oc_shared_current_cancel := None\<rparr>) else ret ())
     (ret sender)))"

definition compose_prefix :: "string \<Rightarrow> string \<Rightarrow> string" where
  "compose_prefix p idx = (if p = [] then idx else p @ ''.'' @ idx)"

definition push_stack :: "'v stack_entry \<Rightarrow> (('v, 'w) orch, unit) prog" where
  "push_stack e = upd (\<lambda>s. s\<lparr>oc_stack := e # oc_stack s\<rparr>)"

definition set_paused :: "bool \<Rightarrow> (('v, 'w) orch, unit) prog" where
  "set_paused b = upd (\<lambda>s. s\<lparr>oc_paused := b\<rparr>)"

definition update_step :: "('v spec_step \<Rightarrow> 'v spec_step) \<Rightarrow> nat \<Rightarrow> 'v spec_sheet \<Rightarrow> 'v spec_sheet" where
  "update_step f i spec = sp_set_steps ((sp_steps spec)[i := f (sp_steps spec ! i)]) spec"

definition mark_step :: "step_status \<Rightarrow> time option \<Rightarrow> nat \<Rightarrow> 'v spec_sheet \<Rightarrow> 'v spec_sheet" where
  "mark_step v c = update_step (\<lambda>st. st_set_completed_at c (st_set_status v st))"

definition emit_status :: "'v spec_sheet \<Rightarrow> 'v spec_step \<Rightarrow> string \<Rightarrow> step_role \<Rightarrow> step_status \<Rightarrow>
    (('v, 'w) orch, unit) prog" where
  "emit_status spec st p r v =
     emit_event (StepStatusChanged (sp_id spec) (sp_title spec) (st_index st) (st_title st) p r v)"

definition add_feedback :: "string \<Rightarrow> string \<Rightarrow> time \<Rightarrow> task_summary \<Rightarrow> task_summary" where
  "add_feedback author message t sm = sm\<lparr>ts_verification :=
     \<lparr>tv_status = VsFailed,
      tv_feedback = tv_feedback (ts_verification sm) @
        [\<lparr>fe_author = author, fe_message = message, fe_timestamp = t\<rparr>]\<rparr>\<rparr>"

definition set_verification :: "verification_status \<Rightarrow> task_summary \<Rightarrow> task_summary" where
  "set_verification v sm = sm\<lparr>ts_verification := (ts_verification sm)\<lparr>tv_status := v\<rparr>\<rparr>"

definition extract_summary :: "('v, 'w) orch_env \<Rightarrow> 'v task \<Rightarrow> string + task_summary" where
  "extract_summary E t = (case t_metadata t of
      None \<Rightarrow> Inl (''task '' @ t_id t @ '' missing metadata'')
    | Some m \<Rightarrow> (case metadata_summary (oe_de_summary E) m of
        Inl _ \<Rightarrow> Inl ''failed to deserialize task summary''
      | Inr None \<Rightarrow> Inl (''task '' @ t_id t @ '' missing summary metadata'')
      | Inr (Some sm) \<Rightarrow> Inr sm))"

definition extract_sub_spec :: "('v, 'w) orch_env \<Rightarrow> 'v task \<Rightarrow> string + 'v spec_sheet option" where
  "extract_sub_spec E t = (case t_metadata t of
      None \<Rightarrow> Inr None
    | Some m \<Rightarrow> (case metadata_spec_sheet (oe_de_spec E) m of
        Inl _ \<Rightarrow> Inl ''failed to deserialize nested spec''
      | Inr r \<Rightarrow> Inr r))"

definition append_summary_to_history ::
  "('v, 'w) orch_env \<Rightarrow> 'v spec_sheet \<Rightarrow> task_summary \<Rightarrow> string + 'v spec_sheet" where
  "append_summary_to_history E spec sm = (case oe_ser_summary E sm of
      Inl e \<Rightarrow> Inl e
    | Inr v \<Rightarrow>
        (let J = oe_json E;
             obj = (case j_as_object J (sp_metadata spec) of None \<Rightarrow> Map.empty | Some m \<Rightarrow> m);
             entry = (case obj ''history'' of
                 None \<Rightarrow> j_array J [v]
               | Some old \<Rightarrow> (case j_as_array J old of
                     Some items \<Rightarrow> j_array J (items @ [v])
                   | None \<Rightarrow> j_array J [old, v]))
         in Inr (sp_set_metadata (j_object J (obj(''history'' \<mapsto> entry))) spec)))"

section \<open>The summarizer and the verifier agents\<close>

definition run_summarizer_agent ::
  "('v, 'w) orch_env \<Rightarrow> 'v summarizer_context \<Rightarrow> (('v, 'w) orch, task_summary) prog" where
  "run_summarizer_agent E c =
     bindp (now E) (\<lambda>t.
     let spec = build_summarizer_spec (j_null (oe_json E)) t c;
         p = vc_prefix c @ ''.summary'';
         status = (\<lambda>st v. emit_event (StepStatusChanged (vc_spec_id c) (vc_spec_title c)
                     (st_index st) (st_title st) p Summarizer v))
     in case sp_steps spec of
          [] \<Rightarrow> throw ''Summarizer spec had no steps''
        | st # _ \<Rightarrow>
            seqp (status st StInProgress)
            (bindp (agent_call (oe_execute_summarizer E st spec p)) (\<lambda>task.
             if tk_state (t_status task) = TaFailed
             then seqp (status st StFailed) (throw ''Summarizer task failed'')
             else bindp (lift_result (extract_summary E task)) (\<lambda>sm.
               seqp (status st StCompleted)
               (ret (sm\<lparr>ts_task_id := ts_task_id (vc_summary c),
                        ts_artifacts_touched := ts_artifacts_touched (vc_summary c),
                        ts_tests_run := ts_tests_run (vc_summary c),
                        ts_worktree := ts_worktree (vc_summary c)\<rparr>))))))"

definition run_verifier_agent ::
  "('v, 'w) orch_env \<Rightarrow> 'v verification_context \<Rightarrow> (('v, 'w) orch, verification_tool_payload) prog" where
  "run_verifier_agent E c =
     bindp (now E) (\<lambda>t.
     let spec = build_verifier_spec (j_null (oe_json E)) t c;
         p = vc_prefix c @ ''.verify'';
         status = (\<lambda>st v. emit_event (StepStatusChanged (vc_spec_id c) (vc_spec_title c)
                     (st_index st) (st_title st) p VerifierRole v))
     in case sp_steps spec of
          [] \<Rightarrow> throw ''Verifier spec had no steps''
        | st # _ \<Rightarrow>
            seqp (status st StInProgress)
            (bindp (agent_call (oe_execute_verifier E st spec p)) (\<lambda>task.
             if tk_state (t_status task) = TaFailed
             then seqp (status st StFailed) (throw ''Verifier task failed'')
             else bindp (lift_result (extract_verification_payload (oe_json E)
                           (oe_payload_json E) (oe_payload_yaml E) task)) (\<lambda>payload.
               if \<not> vp_end_convo payload
               then throw ''submit_verification must set end_convo=true''
               else seqp (status st StCompleted) (ret payload)))))"

text \<open>\<open>match payload\<close>: the error of the verifier agent counts as a rejection.\<close>

definition verification_verdict ::
  "string + verification_tool_payload \<Rightarrow> verification_outcome \<times> string option" where
  "verification_verdict r = (case r of
      Inr p \<Rightarrow> (map_verification_outcome (vp_status p), vp_feedback p)
    | Inl e \<Rightarrow> (Rejected, Some e))"

definition remember_verified :: "task_summary \<Rightarrow> (('v, 'w) orch, unit) prog" where
  "remember_verified sm =
     upd (\<lambda>s. s\<lparr>oc_last_verification := map_option (\<lambda>c. c\<lparr>vc_summary := sm\<rparr>) (oc_last_verification s)\<rparr>)"

text \<open>The rejection of a summary: feedback added, published, and sent to the task.\<close>

definition publish_rejection ::
  "('v, 'w) orch_env \<Rightarrow> string \<Rightarrow> string \<Rightarrow> task_summary \<Rightarrow> (('v, 'w) orch, task_summary) prog" where
  "publish_rejection E author message sm =
     bindp (now E) (\<lambda>t.
     let sm' = add_feedback author message t sm
     in seqp (agent_call (oe_update_task_summary E sm'))
        (seqp (emit_event (SummaryUpdated sm'))
        (seqp (emit_event (VerifierFailed sm' message))
        (seqp (agent_call (oe_send_task_message E (ts_task_id sm') message))
        (ret sm')))))"

definition publish_success ::
  "('v, 'w) orch_env \<Rightarrow> task_summary \<Rightarrow> (('v, 'w) orch, task_summary) prog" where
  "publish_success E sm =
     (let sm' = set_verification VsPassed sm
      in seqp (agent_call (oe_update_task_summary E sm'))
         (seqp (emit_event (SummaryUpdated sm'))
         (seqp (agent_call (oe_close_task_channel E (ts_task_id sm')))
         (bindp (now E) (\<lambda>t.
          seqp (emit_event (ChannelClosed (ts_task_id sm') t))
         (seqp (agent_call (oe_notify_step_success E sm'))
         (ret sm')))))))"

definition or_message :: "string option \<Rightarrow> string \<Rightarrow> string" where
  "or_message fb d = (case fb of None \<Rightarrow> d | Some m \<Rightarrow> m)"

definition rerun_last_verifier :: "('v, 'w) orch_env \<Rightarrow> (('v, 'w) orch, unit) prog" where
  "rerun_last_verifier E = bindp (asks oc_last_verification) (\<lambda>lv. case lv of
      None \<Rightarrow> ret ()
    | Some c \<Rightarrow>
        bindp (attempt (run_verifier_agent E c)) (\<lambda>r.
        case verification_verdict r of (outcome, feedback) \<Rightarrow>
        bindp (if outcome = Verified
               then (let sm = set_verification VsPassed (vc_summary c)
                     in seqp (agent_call (oe_update_task_summary E sm))
                        (seqp (emit_event (SummaryUpdated sm))
                        (seqp (agent_call (oe_notify_step_success E sm))
                        (ret sm))))
               else publish_rejection E ''verifier''
                      (or_message feedback ''Verifier rejected the changes'') (vc_summary c)) (\<lambda>sm.
        seqp (upd (\<lambda>s. s\<lparr>oc_last_summary := Some sm\<rparr>))
        (remember_verified sm))))"

section \<open>Commands\<close>

definition resume_step_entry :: "string \<Rightarrow> 'v spec_step \<Rightarrow> 'v spec_step" where
  "resume_step_entry message st =
     (let st1 = st_set_completed_at None (st_set_status StPending st)
      in if trim message \<noteq> []
         then st_set_instructions (trim_end (st_instructions st1) @ ''\<newline>\<newline>User note: '' @ message) st1
         else st1)"

definition run_resume_step :: "string \<Rightarrow> string \<Rightarrow> (('v, 'w) orch, unit) prog" where
  "run_resume_step p message = bindp (asks oc_pending_resume) (\<lambda>pr.
     seqp (upd (\<lambda>s. s\<lparr>oc_pending_resume := None\<rparr>))
     (case pr of
        None \<Rightarrow> seqp (set_paused False) (emit_event Resumed)
      | Some (spec, i, rp) \<Rightarrow>
          if rp = p
          then (if i < length (sp_steps spec)
                then seqp (push_stack (update_step (resume_step_entry message) i spec, i, rp))
                     (seqp (set_paused False) (emit_event Resumed))
                else throw ''index out of bounds'')
          else upd (\<lambda>s. s\<lparr>oc_pending_resume := Some (spec, i, rp)\<rparr>)))"

definition run_inject_split :: "string \<Rightarrow> 'v spec_sheet \<Rightarrow> (('v, 'w) orch, unit) prog" where
  "run_inject_split idx child = bindp (asks oc_stack) (\<lambda>stk.
     let p = (case stk of [] \<Rightarrow> idx | (_, _, q) # _ \<Rightarrow> compose_prefix q idx)
     in seqp (push_stack (child, 0, p))
        (emit_event (ChildSpecPushed idx (sp_id child) (length (sp_steps child)))))"

definition run_cancel_step :: "string \<Rightarrow> (('v, 'w) orch, unit) prog" where
  "run_cancel_step p =
     seqp (upd (\<lambda>s. s\<lparr>oc_cancel_prefix := Some p\<rparr>))
     (bindp (asks oc_current_prefix) (\<lambda>cur.
      if cur = Some p
      then bindp take_current_cancel_sender (\<lambda>tx. case tx of
             None \<Rightarrow> ret ()
           | Some c \<Rightarrow> upd (\<lambda>s. s\<lparr>oc_cancel_signals := oc_cancel_signals s @ [c]\<rparr>))
      else ret ()))"

text \<open>One command; the result says whether the run has to stop.\<close>

fun run_command :: "('v, 'w) orch_env \<Rightarrow> 'v orchestrator_command \<Rightarrow> (('v, 'w) orch, bool) prog" where
  "run_command E CmdPause = seqp (set_paused True) (seqp (emit_event Paused) (ret False))"
| "run_command E CmdResume = seqp (set_paused False) (seqp (emit_event Resumed) (ret False))"
| "run_command E CmdAbort =
     seqp (upd (\<lambda>s. s\<lparr>oc_aborted := True\<rparr>)) (seqp (emit_event Aborted) (ret True))"
| "run_command E CmdRerunVerifiers =
     bindp (attempt (rerun_last_verifier E)) (\<lambda>r. case r of
         Inl err \<Rightarrow> seqp (emit_event (ErrorEvent (''Failed to rerun verifier: '' @ err))) (ret False)
       | Inr _ \<Rightarrow> ret False)"
| "run_command E (CmdInjectSplit idx child) = seqp (run_inject_split idx child) (ret False)"
| "run_command E (CmdCancelStep p) = seqp (run_cancel_step p) (ret False)"
| "run_command E (CmdResumeStep p message) = seqp (run_resume_step p message) (ret False)"

fun run_commands :: "('v, 'w) orch_env \<Rightarrow> 'v orchestrator_command list \<Rightarrow> (('v, 'w) orch, bool) prog" where
  "run_commands E [] = ret False"
| "run_commands E (c # cs) =
     bindp (run_command E c) (\<lambda>stop. if stop then ret True else run_commands E cs)"

definition drain_queue :: "(('v, 'w) orch, 'v orchestrator_command list) prog" where
  "drain_queue = bindp (asks oc_command_rx) (\<lambda>rx.
     if rx then bindp (asks oc_queue) (\<lambda>cmds. seqp (upd (\<lambda>s. s\<lparr>oc_queue := []\<rparr>)) (ret cmds))
     else ret [])"

definition process_commands :: "('v, 'w) orch_env \<Rightarrow> (('v, 'w) orch, bool) prog" where
  "process_commands E =
     seqp (idle (oe_poll E)) (bindp drain_queue (\<lambda>cmds. run_commands E cmds))"

fun wait_while_paused :: "nat \<Rightarrow> ('v, 'w) orch_env \<Rightarrow> (('v, 'w) orch, bool) prog" where
  "wait_while_paused 0 E = stuck"
| "wait_while_paused (Suc n) E = bindp (asks oc_paused) (\<lambda>paused.
     if paused
     then bindp (process_commands E) (\<lambda>stop.
            if stop then ret True
            else seqp (idle (oe_sleep E)) (wait_while_paused n E))
     else ret False)"

section \<open>Verification of a finished step\<close>

definition verify_and_feedback ::
  "('v, 'w) orch_env \<Rightarrow> task_summary \<Rightarrow> 'v spec_sheet \<Rightarrow> 'v spec_step \<Rightarrow> string \<Rightarrow> string \<Rightarrow>
   (('v, 'w) orch, step_disposition) prog" where
  "verify_and_feedback E summary spec st p tool_log =
     (if \<not> st_requires_verification st
      then bindp (publish_success E summary) (\<lambda>sm. ret (Success sm))
      else
        let sm0 = set_verification VsPending summary
        in seqp (agent_call (oe_update_task_summary E sm0))
           (seqp (emit_event (SummaryUpdated sm0))
           (bindp (workspace_root E) (\<lambda>root.
            let c = \<lparr>vc_spec_id = sp_id spec, vc_spec_title = sp_title spec, vc_step = st,
                     vc_prefix = p, vc_summary = sm0, vc_tool_log = tool_log,
                     vc_workspace_root = root\<rparr>
            in seqp (upd (\<lambda>s. s\<lparr>oc_last_verification := Some c\<rparr>))
               (bindp (attempt (run_verifier_agent E c)) (\<lambda>r.
                case verification_verdict r of
                  (Verified, _) \<Rightarrow>
                    bindp (publish_success E sm0) (\<lambda>sm.
                    seqp (remember_verified sm) (ret (Success sm)))
                | (NeedsRevision, feedback) \<Rightarrow>
                    bindp (publish_rejection E ''verifier''
                       (or_message feedback ''Verifier requested changes before completion'') sm0) (\<lambda>sm.
                    seqp (remember_verified sm) (ret Retry))
                | (Rejected, feedback) \<Rightarrow>
                    bindp (publish_rejection E ''verifier''
                       (or_message feedback ''Verifier rejected the changes'') sm0) (\<lambda>sm.
                    seqp (remember_verified sm) (ret (Fail sm)))))))))"

section \<open>The run\<close>

text \<open>
  The body of the loop of \<open>run\<close>, cut at its early exits. A \<open>bool\<close> result says whether \<open>run\<close>
  returns (\<open>True\<close>) or goes on with the stack. \<open>cur\<close> is the composed prefix of the step.
\<close>

definition announce_step ::
  "('v, 'w) orch_env \<Rightarrow> 'v spec_sheet \<Rightarrow> nat \<Rightarrow> string \<Rightarrow> step_status \<Rightarrow> (('v, 'w) orch, unit) prog" where
  "announce_step E spec i cur v =
     seqp (emit_status spec (sp_steps spec ! i) cur Implementor v)
       (agent_call (oe_update_spec_status E spec (sp_steps spec ! i) cur))"

definition open_step :: "string \<Rightarrow> (('v, 'w) orch, nat) prog" where
  "open_step cur = bindp (asks oc_next_channel) (\<lambda>c.
     seqp (upd (\<lambda>s. s\<lparr>oc_next_channel := Suc c\<rparr>))
     (seqp (set_current_prefix_state (Some cur))
     (seqp (set_current_cancel_state (Some c))
     (ret c))))"

definition close_step :: "(('v, 'w) orch, unit) prog" where
  "close_step = seqp (set_current_cancel_state None) (set_current_prefix_state None)"

definition suspend_step :: "'v spec_sheet \<Rightarrow> nat \<Rightarrow> string \<Rightarrow> (('v, 'w) orch, unit) prog" where
  "suspend_step spec i p =
     upd (\<lambda>s. s\<lparr>oc_pending_resume := Some (mark_step StPending None i spec, i, p)\<rparr>)"

definition clear_cancel_prefix :: "(('v, 'w) orch, unit) prog" where
  "clear_cancel_prefix = upd (\<lambda>s. s\<lparr>oc_cancel_prefix := None\<rparr>)"

definition announce_cancel :: "string \<Rightarrow> (('v, 'w) orch, unit) prog" where
  "announce_cancel cur = seqp (emit_event (StepCancelled cur)) (set_paused True)"

definition cancel_before :: "'v spec_sheet \<Rightarrow> nat \<Rightarrow> string \<Rightarrow> string \<Rightarrow> (('v, 'w) orch, unit) prog" where
  "cancel_before spec i p cur = seqp (suspend_step spec i p) (seqp clear_cancel_prefix
     (seqp close_step (announce_cancel cur)))"

definition cancel_after :: "'v spec_sheet \<Rightarrow> nat \<Rightarrow> string \<Rightarrow> string \<Rightarrow> (('v, 'w) orch, unit) prog" where
  "cancel_after spec i p cur = seqp (suspend_step spec i p) (seqp clear_cancel_prefix
     (announce_cancel cur))"

definition task_was_cancelled :: "'v spec_sheet \<Rightarrow> nat \<Rightarrow> string \<Rightarrow> string \<Rightarrow> (('v, 'w) orch, unit) prog" where
  "task_was_cancelled spec i p cur = seqp (suspend_step spec i p) (announce_cancel cur)"

definition split_step ::
  "'v spec_sheet \<Rightarrow> nat \<Rightarrow> string \<Rightarrow> string \<Rightarrow> 'v spec_sheet \<Rightarrow> (('v, 'w) orch, unit) prog" where
  "split_step spec i p cur child =
     (let spec' = update_step (st_set_sub_spec (Some child)) i (mark_step StPending None i spec)
      in seqp (emit_event (ChildSpecPushed (st_index (sp_steps spec' ! i)) (sp_id child)
                (length (sp_steps child))))
         (seqp (push_stack (spec', i, p)) (push_stack (child, 0, cur))))"

definition task_failed ::
  "('v, 'w) orch_env \<Rightarrow> 'v spec_sheet \<Rightarrow> nat \<Rightarrow> string \<Rightarrow> string \<Rightarrow> (('v, 'w) orch, unit) prog" where
  "task_failed E spec i p cur = bindp (now E) (\<lambda>t.
     let spec' = mark_step StFailed (Some t) i spec
     in seqp (announce_step E spec' i cur StFailed) (push_stack (spec', i + 1, p)))"

text \<open>The summary to verify, and the summarizer's error if it had one.\<close>

definition summarise_task ::
  "('v, 'w) orch_env \<Rightarrow> 'v task \<Rightarrow> 'v spec_sheet \<Rightarrow> nat \<Rightarrow> string \<Rightarrow>
   (('v, 'w) orch, task_summary \<times> string option) prog" where
  "summarise_task E task spec i cur =
     bindp (lift_result (extract_summary E task)) (\<lambda>summary.
     if \<not> st_requires_verification (sp_steps spec ! i) then ret (summary, None)
     else bindp (workspace_root E) (\<lambda>root.
       let c = \<lparr>vc_spec_id = sp_id spec, vc_spec_title = sp_title spec, vc_step = sp_steps spec ! i,
                vc_prefix = cur, vc_summary = summary, vc_tool_log = format_tool_log (oe_json E) task,
                vc_workspace_root = root\<rparr>
       in bindp (attempt (run_summarizer_agent E c)) (\<lambda>r. case r of
            Inr summarized \<Rightarrow>
              ret (summarized\<lparr>ts_step_index := st_index (sp_steps spec ! i),
                     ts_task_id := ts_task_id summary,
                     ts_artifacts_touched := ts_artifacts_touched summary,
                     ts_tests_run := ts_tests_run summary,
                     ts_worktree := ts_worktree summary\<rparr>, None)
          | Inl err \<Rightarrow> ret (summary, Some err))))"

definition retry_step ::
  "('v, 'w) orch_env \<Rightarrow> 'v spec_sheet \<Rightarrow> nat \<Rightarrow> string \<Rightarrow> string \<Rightarrow> (('v, 'w) orch, unit) prog" where
  "retry_step E spec i p cur =
     (let spec' = mark_step StPending None i spec
      in seqp (announce_step E spec' i cur StPending) (push_stack (spec', i, p)))"

definition push_next :: "'v spec_sheet \<Rightarrow> nat \<Rightarrow> string \<Rightarrow> (('v, 'w) orch, unit) prog" where
  "push_next spec i p =
     (if i + 1 < length (sp_steps spec) then push_stack (spec, i + 1, p) else ret ())"

definition step_succeeded ::
  "('v, 'w) orch_env \<Rightarrow> 'v task \<Rightarrow> 'v spec_sheet \<Rightarrow> nat \<Rightarrow> string \<Rightarrow> string \<Rightarrow> task_summary \<Rightarrow>
   (('v, 'w) orch, unit) prog" where
  "step_succeeded E task spec i p cur summary =
     seqp (upd (\<lambda>s. s\<lparr>oc_last_summary := Some summary\<rparr>))
     (bindp (lift_result (extract_sub_spec E task)) (\<lambda>child.
      bindp (now E) (\<lambda>t.
      let spec1 = (case child of None \<Rightarrow> spec
                   | Some c \<Rightarrow> update_step (st_set_sub_spec (Some c)) i spec)
      in bindp (lift_result (append_summary_to_history E (mark_step StCompleted (Some t) i spec1) summary))
         (\<lambda>spec2.
         seqp (announce_step E spec2 i cur StCompleted)
         (seqp (push_next spec2 i p)
         (case child of None \<Rightarrow> ret () | Some c \<Rightarrow> push_stack (c, 0, cur)))))))"

definition step_rejected ::
  "('v, 'w) orch_env \<Rightarrow> 'v spec_sheet \<Rightarrow> nat \<Rightarrow> string \<Rightarrow> task_summary \<Rightarrow> (('v, 'w) orch, unit) prog" where
  "step_rejected E spec i cur summary =
     seqp (upd (\<lambda>s. s\<lparr>oc_last_summary := Some summary\<rparr>))
     (bindp (now E) (\<lambda>t.
      bindp (lift_result (append_summary_to_history E (mark_step StFailed (Some t) i spec) summary))
      (\<lambda>spec2. announce_step E spec2 i cur StFailed)))"

definition settle_step ::
  "('v, 'w) orch_env \<Rightarrow> 'v task \<Rightarrow> 'v spec_sheet \<Rightarrow> nat \<Rightarrow> string \<Rightarrow> string \<Rightarrow> (('v, 'w) orch, unit) prog" where
  "settle_step E task spec i p cur =
     bindp (summarise_task E task spec i cur) (\<lambda>r. case r of (summary, err) \<Rightarrow>
     bindp (case err of
              Some message \<Rightarrow> seqp (publish_rejection E ''summarizer'' message summary) (ret Retry)
            | None \<Rightarrow> verify_and_feedback E summary spec (sp_steps spec ! i) cur
                        (format_tool_log (oe_json E) task)) (\<lambda>d. case d of
         Retry \<Rightarrow> retry_step E spec i p cur
       | Success sm \<Rightarrow> step_succeeded E task spec i p cur sm
       | Fail sm \<Rightarrow> step_rejected E spec i cur sm))"

definition finish_task ::
  "('v, 'w) orch_env \<Rightarrow> 'v task \<Rightarrow> 'v spec_sheet \<Rightarrow> nat \<Rightarrow> string \<Rightarrow> string \<Rightarrow> (('v, 'w) orch, unit) prog" where
  "finish_task E task spec i p cur =
     (let state = tk_state (t_status task)
      in if state = TaCancelled then task_was_cancelled spec i p cur
         else bindp (if state = TaSubmitted then lift_result (extract_sub_spec E task) else ret None)
           (\<lambda>child. case child of
              Some c \<Rightarrow> split_step spec i p cur c
            | None \<Rightarrow> if state = TaFailed then task_failed E spec i p cur
                      else settle_step E task spec i p cur))"

definition run_step ::
  "('v, 'w) orch_env \<Rightarrow> 'v spec_sheet \<Rightarrow> nat \<Rightarrow> string \<Rightarrow> string \<Rightarrow> (('v, 'w) orch, bool) prog" where
  "run_step E spec i p cur =
     seqp (announce_step E spec i cur StInProgress)
     (bindp (open_step cur) (\<lambda>chan.
      bindp (asks oc_cancel_prefix) (\<lambda>cp.
      if cp = Some cur then seqp (cancel_before spec i p cur) (ret False)
      else bindp (agent_call (oe_execute E (sp_steps spec ! i) spec cur chan)) (\<lambda>task.
        seqp close_step
        (bindp (process_commands E) (\<lambda>stop.
         if stop then ret True
         else bindp (asks oc_cancel_prefix) (\<lambda>cp'.
           if cp' = Some cur then seqp (cancel_after spec i p cur) (ret False)
           else seqp (finish_task E task spec i p cur) (ret False))))))))"

fun run_entry :: "nat \<Rightarrow> ('v, 'w) orch_env \<Rightarrow> 'v stack_entry \<Rightarrow> (('v, 'w) orch, bool) prog" where
  "run_entry n E (spec, i, p) =
     bindp (process_commands E) (\<lambda>stop.
     if stop then ret True
     else bindp (wait_while_paused n E) (\<lambda>stop'.
       if stop' then ret True
       else if length (sp_steps spec) \<le> i then ret False
       else run_step E (mark_step StInProgress None i spec) i p
              (compose_prefix p (st_index (sp_steps spec ! i)))))"

fun run :: "nat \<Rightarrow> ('v, 'w) orch_env \<Rightarrow> (('v, 'w) orch, unit) prog" where
  "run 0 E = stuck"
| "run (Suc n) E = bindp (asks oc_stack) (\<lambda>stk. case stk of
       [] \<Rightarrow> emit_event RunCompleted
     | e # rest \<Rightarrow>
         seqp (upd (\<lambda>s. s\<lparr>oc_stack := rest\<rparr>))
         (bindp (run_entry n E e) (\<lambda>stop. if stop then ret () else run n E)))"

definition run_parallel :: "nat \<Rightarrow> ('v, 'w) orch_env \<Rightarrow> (('v, 'w) orch, unit) prog" where
  "run_parallel n E = run n E"

end
