(* ===== verification/Orchestrator_Frames.thy ===== *)
theory Orchestrator_Frames
  imports Orchestrator
begin

text \<open>
  What no run of the orchestrator changes. The locale \<open>agent_frame\<close> asks for a reflexive and
  transitive relation that the primitive steps of agent calls and of verification respect,
  \<open>command_frame\<close> adds those of command processing, \<open>orch_frame\<close> those of the run loop, and each
  gives it for every composition of them. They are interpreted for the stack (\<open>stack\<close>, agents only),
  for the work of the implementing agent (\<open>work\<close>, commands only), for the event log and the sticky
  flags (\<open>log\<close>), for the two copies of the current prefix and cancel sender (\<open>mirror\<close>), and for the
  bounds of the suspended step (\<open>pending\<close>).
\<close>

text \<open>The status changes of the implementing agent, as opposed to those of its helpers.\<close>

fun implementor_event :: "orchestrator_event \<Rightarrow> bool" where
  "implementor_event (StepStatusChanged _ _ _ _ _ r _) \<longleftrightarrow> r = Implementor"
| "implementor_event _ \<longleftrightarrow> False"

locale agent_frame = frame_relation R
  for R :: "('v, 'w) orch \<Rightarrow> ('v, 'w) orch \<Rightarrow> bool" +
  assumes R_send: "\<not> implementor_event e \<Longrightarrow> R s (send_event e s)"
    and R_act: "R s (apply_activity a s)"
    and R_world: "R s (s\<lparr>oc_world := w\<rparr>)"
    and R_last_verification: "R s (s\<lparr>oc_last_verification := lv\<rparr>)"
begin

lemmas frames_context [frame_intros] = frames_upd [OF R_last_verification]

lemma R_acts: "R s (fold apply_activity acts s)"
  by (induction acts arbitrary: s) (auto intro: refl R_act trans)

lemma frames_idle [frame_intros]: "frames R (idle f)"
  by (auto simp: idle_def frames_def split: prod.splits intro: trans R_world R_acts)

lemma frames_agent_call [frame_intros]: "frames R (agent_call f)"
  by (auto simp: agent_call_def frames_def split: prod.splits intro: trans R_world R_acts)

lemma frames_now [frame_intros]: "frames R (now E)"
  by (simp add: now_def frames_asks)

lemma frames_root [frame_intros]: "frames R (workspace_root E)"
  by (simp add: workspace_root_def frames_asks)

lemma frames_emit [frame_intros]: "\<not> implementor_event e \<Longrightarrow> frames R (emit_event e)"
  by (simp add: emit_event_def frames_def R_send)

lemma frames_remember [frame_intros]: "frames R (remember_verified sm)"
  by (simp add: remember_verified_def frames_upd R_last_verification)

lemma frames_summarizer [frame_intros]: "frames R (run_summarizer_agent E c)"
  by (auto simp: run_summarizer_agent_def Let_def intro!: frame_intros split: list.splits)

lemma frames_verifier [frame_intros]: "frames R (run_verifier_agent E c)"
  by (auto simp: run_verifier_agent_def Let_def intro!: frame_intros split: list.splits)

lemma frames_rejection [frame_intros]: "frames R (publish_rejection E a m sm)"
  by (auto simp: publish_rejection_def Let_def intro!: frame_intros)

lemma frames_success [frame_intros]: "frames R (publish_success E sm)"
  by (auto simp: publish_success_def Let_def intro!: frame_intros)

lemma frames_verify [frame_intros]: "frames R (verify_and_feedback E sm spec st p tlog)"
  by (auto simp: verify_and_feedback_def Let_def intro!: frame_intros
      split: prod.splits verification_outcome.splits)

lemma frames_summarise [frame_intros]: "frames R (summarise_task E task spec i cur)"
  by (auto simp: summarise_task_def Let_def intro!: frame_intros split: sum.splits)

end

locale command_frame = agent_frame R
  for R :: "('v, 'w) orch \<Rightarrow> ('v, 'w) orch \<Rightarrow> bool" +
  assumes R_queue: "R s (s\<lparr>oc_queue := q\<rparr>)"
    and R_push: "R s (s\<lparr>oc_stack := entry # oc_stack s\<rparr>)"
    and R_paused: "R s (s\<lparr>oc_paused := b\<rparr>)"
    and R_aborted: "R s (s\<lparr>oc_aborted := True\<rparr>)"
    and R_last_summary: "R s (s\<lparr>oc_last_summary := ls\<rparr>)"
    and R_cancel_prefix: "R s (s\<lparr>oc_cancel_prefix := cp\<rparr>)"
    and R_signal: "R s (s\<lparr>oc_cancel_signals := oc_cancel_signals s @ [c]\<rparr>)"
    and frames_take [frame_intros]: "frames R take_current_cancel_sender"
    and frames_resume [frame_intros]: "frames R (run_resume_step p m)"
begin

lemma frames_push [frame_intros]: "frames R (push_stack e)"
  by (simp add: push_stack_def frames_def R_push)

lemma frames_paused [frame_intros]: "frames R (set_paused b)"
  by (simp add: set_paused_def frames_def R_paused)

lemmas frames_updates [frame_intros] =
  frames_upd [OF R_aborted] frames_upd [OF R_signal] frames_upd [OF R_last_summary]
  frames_upd [OF R_cancel_prefix] frames_upd [OF R_queue]

lemma frames_rerun [frame_intros]: "frames R (rerun_last_verifier E)"
  by (auto simp: rerun_last_verifier_def Let_def intro!: frame_intros split: option.splits prod.splits)

lemma frames_inject [frame_intros]: "frames R (run_inject_split idx child)"
  by (auto simp: run_inject_split_def Let_def intro!: frame_intros)

lemma frames_cancel_step [frame_intros]: "frames R (run_cancel_step p)"
  by (auto simp: run_cancel_step_def intro!: frame_intros split: option.splits)

lemma frames_command [frame_intros]: "frames R (run_command E c)"
  by (cases c) (auto intro!: frame_intros split: sum.splits)

lemma frames_commands [frame_intros]: "frames R (run_commands E cs)"
  by (induction cs) (auto intro!: frame_intros simp del: prog_simps)

lemma frames_drain [frame_intros]: "frames R drain_queue"
  by (auto simp: drain_queue_def intro!: frame_intros)

lemma frames_process [frame_intros]: "frames R (process_commands E)"
  by (auto simp: process_commands_def intro!: frame_intros)

lemma frames_wait [frame_intros]: "frames R (wait_while_paused n E)"
  by (induction n) (auto intro!: frame_intros simp del: prog_simps)

end

locale orch_frame = command_frame R
  for R :: "('v, 'w) orch \<Rightarrow> ('v, 'w) orch \<Rightarrow> bool" +
  assumes R_implementor: "implementor_event e \<Longrightarrow> R s (send_event e s)"
    and R_pop: "R s (s\<lparr>oc_stack := k\<rparr>)"
    and R_fresh: "R s (s\<lparr>oc_next_channel := Suc (oc_next_channel s)\<rparr>)"
    and frames_prefix [frame_intros]: "frames R (set_current_prefix_state cur)"
    and frames_cancel [frame_intros]: "frames R (set_current_cancel_state cc)"
    and frames_suspend: "i < length (sp_steps spec) \<Longrightarrow> frames R (suspend_step spec i p)"
begin

lemma frames_any_event [frame_intros]: "frames R (emit_event e)"
  using R_send R_implementor by (cases "implementor_event e") (simp_all add: emit_event_def frames_def)

lemmas frames_pop [frame_intros] = frames_upd [OF R_pop]

lemma frames_announce [frame_intros]: "frames R (announce_step E spec i cur v)"
  by (auto simp: announce_step_def emit_status_def intro!: frame_intros)

lemma frames_open [frame_intros]: "frames R (open_step cur)"
proof (rule framesI)
  fix s :: "('v, 'w) orch"
  let ?s = "s\<lparr>oc_next_channel := Suc (oc_next_channel s)\<rparr>"
  have "frames R (seqp (set_current_prefix_state (Some cur))
      (seqp (set_current_cancel_state (Some (oc_next_channel s))) (ret (oc_next_channel s))))"
    by (auto intro!: frame_intros)
  then have "R ?s (snd (open_step cur s))"
    by (simp add: open_step_def frames_def)
  then show "R s (snd (open_step cur s))"
    using R_fresh trans by blast
qed

lemma frames_close [frame_intros]: "frames R close_step"
  by (auto simp: close_step_def intro!: frame_intros)

lemma frames_settle [frame_intros]: "frames R (settle_step E task spec i p cur)"
  by (auto simp: settle_step_def retry_step_def step_succeeded_def step_rejected_def push_next_def Let_def
      intro!: frame_intros split: prod.splits option.splits step_disposition.splits)

lemma frames_finish:
  assumes "i < length (sp_steps spec)"
  shows "frames R (finish_task E task spec i p cur)"
  using assms
  by (auto simp: finish_task_def task_was_cancelled_def announce_cancel_def split_step_def
      task_failed_def Let_def intro!: frame_intros frames_suspend split: option.splits)

lemma frames_run_step:
  assumes "i < length (sp_steps spec)"
  shows "frames R (run_step E spec i p cur)"
  using assms
  by (auto simp: run_step_def cancel_before_def cancel_after_def clear_cancel_prefix_def announce_cancel_def
      intro!: frame_intros frames_suspend frames_finish)

lemma frames_run_entry: "frames R (run_entry n E e)"
  by (cases e) (auto simp: mark_step_def update_step_def intro!: frame_intros frames_run_step)

lemma frames_run: "frames R (run n E)"
  by (induction n) (auto intro!: frame_intros frames_run_entry split: list.splits
      simp del: prog_simps run_entry.simps)

lemma run_respects: "R s (snd (run n E s))"
  using frames_run by (simp add: frames_def)

end

lemmas control_defs = control_pause_def control_resume_def control_abort_def control_rerun_verifiers_def
  control_cancel_step_def control_resume_step_def control_inject_split_def send_command_def
  signal_current_cancel_def signal_cancel_if_matches_def

lemmas orch_small_defs = set_current_prefix_state_def set_current_cancel_state_def
  take_current_cancel_sender_def suspend_step_def run_resume_step_def send_event_def via_control_def
  push_stack_def set_paused_def emit_event_def seqp_def bindp_def

section \<open>Agents do not touch the stack\<close>

definition stack_kept :: "('v, 'w) orch \<Rightarrow> ('v, 'w) orch \<Rightarrow> bool" where
  "stack_kept s t \<longleftrightarrow> oc_stack t = oc_stack s \<and> oc_pending_resume t = oc_pending_resume s \<and>
     filter implementor_event (oc_events t) = filter implementor_event (oc_events s)"

lemma stack_kept_act: "stack_kept s (apply_activity a s)"
  by (cases a) (auto simp: stack_kept_def control_defs orch_small_defs split: option.splits)

interpretation stack: agent_frame stack_kept
  by unfold_locales
    ((rule stack_kept_act; fail) | (simp add: stack_kept_def orch_small_defs; fail))+

section \<open>Processing commands does no work\<close>

definition work_kept :: "('v, 'w) orch \<Rightarrow> ('v, 'w) orch \<Rightarrow> bool" where
  "work_kept s t \<longleftrightarrow> filter implementor_event (oc_events t) = filter implementor_event (oc_events s) \<and>
     suffix (oc_stack s) (oc_stack t) \<and> oc_current_prefix t = oc_current_prefix s"

lemma work_kept_act: "work_kept s (apply_activity a s)"
  by (cases a) (auto simp: work_kept_def control_defs orch_small_defs split: option.splits)

lemma work_kept_resume: "frames work_kept (run_resume_step p m)"
  by (auto simp: work_kept_def frames_def orch_small_defs prog_defs suffix_Cons split: option.splits)

lemma work_kept_trans: "work_kept s t \<Longrightarrow> work_kept t u \<Longrightarrow> work_kept s u"
  by (auto simp: work_kept_def intro: suffix_order.trans)

interpretation work: command_frame work_kept
  by unfold_locales
    ((rule work_kept_act work_kept_resume; fail) | (erule (1) work_kept_trans; fail) |
     (simp add: work_kept_def frames_def orch_small_defs prog_defs suffix_Cons split: option.splits; fail))+

section \<open>The event log and the sticky flags\<close>

definition log_extends :: "('v, 'w) orch \<Rightarrow> ('v, 'w) orch \<Rightarrow> bool" where
  "log_extends s t \<longleftrightarrow> prefix (oc_events s) (oc_events t) \<and> prefix (oc_cancel_signals s) (oc_cancel_signals t) \<and>
     oc_event_tx t = oc_event_tx s \<and> oc_command_rx t = oc_command_rx s \<and>
     (oc_aborted s \<longrightarrow> oc_aborted t) \<and> oc_next_channel s \<le> oc_next_channel t"

lemma log_extends_act: "log_extends s (apply_activity a s)"
  by (cases a) (auto simp: log_extends_def control_defs orch_small_defs split: option.splits)

lemma log_extends_resume: "frames log_extends (run_resume_step p m)"
  by (auto simp: log_extends_def frames_def orch_small_defs prog_defs split: option.splits)

lemma log_extends_trans: "log_extends s t \<Longrightarrow> log_extends t u \<Longrightarrow> log_extends s u"
  by (auto simp: log_extends_def intro: prefix_order.trans)

interpretation log: orch_frame log_extends
  by unfold_locales
    ((rule log_extends_act log_extends_resume; fail) | (erule (1) log_extends_trans; fail) |
     (simp add: log_extends_def frames_def orch_small_defs prog_defs split: option.splits; fail))+

section \<open>The shared view of the current step\<close>

definition mirrored :: "('v, 'w) orch \<Rightarrow> bool" where
  "mirrored s \<longleftrightarrow> oc_shared_current_prefix s = oc_current_prefix s \<and>
     oc_shared_current_cancel s = oc_current_cancel s"

definition keeps_mirror :: "('v, 'w) orch \<Rightarrow> ('v, 'w) orch \<Rightarrow> bool" where
  "keeps_mirror s t \<longleftrightarrow> (mirrored s \<longrightarrow> mirrored t)"

lemma keeps_mirror_act: "keeps_mirror s (apply_activity a s)"
  by (cases a) (auto simp: keeps_mirror_def mirrored_def control_defs orch_small_defs split: option.splits)

lemma keeps_mirror_resume: "frames keeps_mirror (run_resume_step p m)"
  by (auto simp: keeps_mirror_def mirrored_def frames_def orch_small_defs prog_defs split: option.splits)

interpretation mirror: orch_frame keeps_mirror
  by unfold_locales
    ((rule keeps_mirror_act keeps_mirror_resume; fail) | (simp add: keeps_mirror_def; fail) |
     (simp add: keeps_mirror_def mirrored_def frames_def orch_small_defs prog_defs; fail))+

section \<open>The suspended step\<close>

definition pending_ok :: "('v, 'w) orch \<Rightarrow> bool" where
  "pending_ok s \<longleftrightarrow> (case oc_pending_resume s of None \<Rightarrow> True
     | Some (spec, i, p) \<Rightarrow> i < length (sp_steps spec))"

definition keeps_pending :: "('v, 'w) orch \<Rightarrow> ('v, 'w) orch \<Rightarrow> bool" where
  "keeps_pending s t \<longleftrightarrow> (pending_ok s \<longrightarrow> pending_ok t)"

lemma keeps_pending_act: "keeps_pending s (apply_activity a s)"
  by (cases a) (auto simp: keeps_pending_def pending_ok_def control_defs orch_small_defs split: option.splits)

lemma keeps_pending_resume: "frames keeps_pending (run_resume_step p m)"
  by (auto simp: keeps_pending_def pending_ok_def frames_def orch_small_defs prog_defs split: option.splits)

interpretation pending: orch_frame keeps_pending
  by unfold_locales
    ((rule keeps_pending_act keeps_pending_resume; fail) | (simp add: keeps_pending_def; fail) |
     (simp add: keeps_pending_def pending_ok_def frames_def orch_small_defs prog_defs mark_step_def
        update_step_def; fail))+

text \<open>With a suspended step in range, resuming never panics.\<close>

lemma resume_no_panic: "pending_ok s \<Longrightarrow> fst (run_resume_step p m s) = Ret ()"
  by (auto simp: pending_ok_def orch_small_defs prog_defs split: option.splits)

section \<open>Invariants of every run\<close>

text \<open>The event log and the record of cancel signals only ever grow, an abort flag once set stays
  set, and no cancel channel is used twice: whatever the agents answer and whatever the control handle
  does meanwhile.\<close>

theorem run_log_grows:
  "prefix (oc_events s) (oc_events (snd (run n E s))) \<and>
   prefix (oc_cancel_signals s) (oc_cancel_signals (snd (run n E s))) \<and>
   oc_aborted s \<le> oc_aborted (snd (run n E s)) \<and>
   oc_next_channel s \<le> oc_next_channel (snd (run n E s))"
  using log.run_respects [of s n E] by (simp add: log_extends_def le_bool_def)

text \<open>The control handle always sees the orchestrator's own current prefix and cancel sender: the
  two copies that \<open>set_current_prefix_state\<close>, \<open>set_current_cancel_state\<close> and
  \<open>take_current_cancel_sender\<close> maintain agree after any run.\<close>

theorem run_keeps_mirror:
  "oc_shared_current_prefix (snd (run n E (orchestrator_new_with_control w spec))) =
     oc_current_prefix (snd (run n E (orchestrator_new_with_control w spec))) \<and>
   oc_shared_current_cancel (snd (run n E (orchestrator_new_with_control w spec))) =
     oc_current_cancel (snd (run n E (orchestrator_new_with_control w spec)))"
  using mirror.run_respects [of "orchestrator_new_with_control w spec" n E]
  by (simp add: keeps_mirror_def mirrored_def orchestrator_new_with_control_def)

text \<open>C28: the suspended step of a reachable state is always within its sheet, so handling a resume-step
  command never panics on an index out of bounds.\<close>

theorem resume_never_panics:
  "fst (run_resume_step p message (snd (run n E (orchestrator_new_with_control w spec)))) = Ret ()"
proof (rule resume_no_panic)
  show "pending_ok (snd (run n E (orchestrator_new_with_control w spec)))"
    using pending.run_respects [of "orchestrator_new_with_control w spec" n E]
    by (simp add: keeps_pending_def pending_ok_def orchestrator_new_with_control_def)
qed

end
