(* ===== verification/Orchestrator_Props.thy ===== *)
theory Orchestrator_Props
  imports Orchestrator_Frames
begin

text \<open>
  What the orchestrator guarantees: the outcome of command processing (an abort, and only an abort,
  ends the run), the gate that verification puts before success, the stack discipline of a finished
  task, the complete run of a well-behaved sheet, and what happens to a cancelled step.
\<close>

section \<open>Programs that always come back\<close>

definition never_stuck :: "('s, 'a) prog \<Rightarrow> bool" where
  "never_stuck p \<longleftrightarrow> (\<forall>s. fst (p s) \<noteq> Stuck)"

named_theorems stuck_intros \<open>rules for programs that always produce a result\<close>

lemma never_stuck_basic [stuck_intros]:
  "never_stuck (ret x)" "never_stuck (throw e)" "never_stuck (upd f)" "never_stuck (asks g)"
  "never_stuck (lift_result r)" "never_stuck (agent_call h)"
  by (auto simp: never_stuck_def prog_defs agent_call_def split: sum.splits prod.splits)

lemma never_stuck_bindp [stuck_intros]:
  "never_stuck p \<Longrightarrow> (\<And>x. never_stuck (f x)) \<Longrightarrow> never_stuck (bindp p f)"
  by (auto simp: never_stuck_def bindp_def split: prod.splits outcome.splits) (metis fst_conv)+

lemma never_stuck_seqp [stuck_intros]: "never_stuck p \<Longrightarrow> never_stuck q \<Longrightarrow> never_stuck (seqp p q)"
  by (simp add: seqp_def never_stuck_bindp)

lemma never_stuck_attempt [stuck_intros]: "never_stuck p \<Longrightarrow> never_stuck (attempt p)"
  by (auto simp: never_stuck_def attempt_def split: prod.splits outcome.splits) (metis fst_conv)+

lemmas orch_prim_defs = emit_event_def now_def workspace_root_def idle_def push_stack_def set_paused_def
  set_current_prefix_state_def set_current_cancel_state_def remember_verified_def clear_cancel_prefix_def

lemma never_stuck_verifier [stuck_intros]: "never_stuck (run_verifier_agent E c)"
  by (auto simp: run_verifier_agent_def Let_def orch_prim_defs intro!: stuck_intros split: list.splits
      simp del: prog_simps)

lemma never_stuck_rejection [stuck_intros]: "never_stuck (publish_rejection E a m sm)"
  by (auto simp: publish_rejection_def Let_def orch_prim_defs intro!: stuck_intros simp del: prog_simps)

lemma never_stuck_rerun [stuck_intros]: "never_stuck (rerun_last_verifier E)"
  by (auto simp: rerun_last_verifier_def Let_def orch_prim_defs intro!: stuck_intros
      split: option.splits prod.splits simp del: prog_simps)

lemma attempt_returns: "never_stuck p \<Longrightarrow> \<exists>r t. attempt p s = (Ret r, t)"
  by (cases "p s"; cases "fst (p s)") (auto simp: attempt_def never_stuck_def dest: spec [of _ s])

section \<open>Command processing\<close>

lemma run_command_returns:
  assumes "pending_ok s"
  shows "\<exists>t. run_command E c s = (Ret (c = CmdAbort), t)"
proof (cases c)
  case CmdRerunVerifiers
  obtain r t where rt: "attempt (rerun_last_verifier E) s = (Ret r, t)"
    using attempt_returns [OF never_stuck_rerun] by blast
  show ?thesis
    using CmdRerunVerifiers rt
    by (cases r) (auto simp: bindp_def rt orch_prim_defs)
next
  case (CmdResumeStep p m)
  then show ?thesis
    using resume_no_panic [OF assms, of p m]
    by (cases "run_resume_step p m s") (auto simp: seqp_def bindp_def)
next
  case (CmdCancelStep p)
  then show ?thesis
    by (auto simp: run_cancel_step_def take_current_cancel_sender_def prog_defs split: option.splits)
qed (auto simp: orch_prim_defs run_inject_split_def Let_def prog_defs)

lemma run_commands_returns:
  assumes "pending_ok s"
  shows "\<exists>t. run_commands E cs s = (Ret (CmdAbort \<in> set cs), t)"
  using assms
proof (induction cs arbitrary: s)
  case (Cons c cs)
  obtain t where t: "run_command E c s = (Ret (c = CmdAbort), t)"
    using run_command_returns [OF Cons.prems] by blast
  moreover have "pending_ok t"
    using pending.frames_command [THEN framesD, OF t] Cons.prems by (simp add: keeps_pending_def)
  ultimately show ?case
    using Cons.IH by (auto simp: bindp_def t)
qed simp

text \<open>Up to the abort, commands run one after another; the abort is the last thing that happens.\<close>

lemma run_commands_append:
  assumes "run_commands E cs s = (Ret False, t)"
  shows "run_commands E (cs @ ds) s = run_commands E ds t"
  using assms
proof (induction cs arbitrary: s)
  case (Cons c cs)
  then obtain b u where u: "run_command E c s = (Ret b, u)"
    and rest: "(if b then ret True else run_commands E cs) u = (Ret False, t)"
    by (auto elim: bindp_RetE)
  then show ?case
    using Cons.IH by (cases b) (auto simp: bindp_def u)
qed simp

lemma run_commands_abort:
  assumes "pending_ok s" "CmdAbort \<in> set cs" "run_commands E cs s = (r, t)"
  shows "oc_aborted t \<and> (oc_event_tx s \<longrightarrow> oc_events t \<noteq> [] \<and> last (oc_events t) = Aborted)"
proof -
  obtain us ws where cs: "cs = us @ CmdAbort # ws" "CmdAbort \<notin> set us"
    using assms(2) by (meson split_list_first)
  obtain u where u: "run_commands E us s = (Ret False, u)"
    using run_commands_returns [OF assms(1), of E us] cs(2) by auto
  have "oc_event_tx u = oc_event_tx s"
    using log.frames_commands [THEN framesD, OF u] by (simp add: log_extends_def)
  then show ?thesis
    using assms(3) unfolding cs(1) run_commands_append [OF u]
    by (auto simp: seqp_def bindp_def prog_defs emit_event_def send_event_def)
qed

text \<open>The queue that \<open>process_commands\<close> sees is the one the poll leaves.\<close>

definition polled :: "('v, 'w) orch_env \<Rightarrow> ('v, 'w) orch \<Rightarrow> ('v, 'w) orch" where
  "polled E s = snd (idle (oe_poll E) s)"

lemma process_commands_polled:
  "process_commands E s =
     (if oc_command_rx (polled E s)
      then run_commands E (oc_queue (polled E s)) ((polled E s)\<lparr>oc_queue := []\<rparr>)
      else (Ret False, polled E s))"
proof -
  have "idle (oe_poll E) s = (Ret (), polled E s)"
    by (simp add: polled_def idle_def)
  then show ?thesis
    by (simp add: process_commands_def seqp_def bindp_Ret drain_queue_def)
qed

lemma polled_rel:
  "log_extends s (polled E s)" "keeps_pending s (polled E s)" "work_kept s (polled E s)"
  unfolding polled_def
  by (rule log.frames_idle [unfolded frames_def, rule_format]
      pending.frames_idle [unfolded frames_def, rule_format]
      work.frames_idle [unfolded frames_def, rule_format])+

lemma process_commands_returns:
  assumes "pending_ok s"
  shows "\<exists>t. process_commands E s = (Ret (oc_command_rx s \<and> CmdAbort \<in> set (oc_queue (polled E s))), t)"
proof -
  have "pending_ok (polled E s)" "oc_command_rx (polled E s) = oc_command_rx s"
    using assms polled_rel [of s E] by (auto simp: keeps_pending_def log_extends_def)
  then show ?thesis
    using run_commands_returns [of "(polled E s)\<lparr>oc_queue := []\<rparr>" E "oc_queue (polled E s)"]
    by (auto simp: process_commands_polled pending_ok_def)
qed

lemma process_commands_stops:
  assumes "pending_ok s" "process_commands E s = (Ret True, t)"
  shows "oc_aborted t \<and> (oc_event_tx s \<longrightarrow> oc_events t \<noteq> [] \<and> last (oc_events t) = Aborted)"
proof -
  let ?p = "polled E s"
  have p: "pending_ok (?p\<lparr>oc_queue := []\<rparr>)" "oc_event_tx ?p = oc_event_tx s"
    using assms(1) polled_rel [of s E] by (auto simp: keeps_pending_def log_extends_def pending_ok_def)
  have run: "oc_command_rx ?p" "run_commands E (oc_queue ?p) (?p\<lparr>oc_queue := []\<rparr>) = (Ret True, t)"
    using assms(2) by (auto simp: process_commands_polled split: if_splits)
  then have "CmdAbort \<in> set (oc_queue ?p)"
    using run_commands_returns [OF p(1), of E "oc_queue ?p"] by auto
  from run_commands_abort [OF p(1) this run(2)] show ?thesis
    using p(2) by simp
qed

section \<open>The abort command\<close>

lemma run_pop_stops:
  assumes "oc_stack s = (spec, i, p) # rest"
    and "process_commands E (s\<lparr>oc_stack := rest\<rparr>) = (Ret True, t)"
  shows "run (Suc n) E s = (Ret (), t)"
  using assms by (simp add: bindp_def)

text \<open>C16: when an abort is among the commands that the orchestrator finds before it takes up the next
  step, the run returns at once: the abort flag is set, the last event is \<open>Aborted\<close>, no step of the
  implementing agent was started or changed its status, and no entry of the stack below the one taken
  up is lost.\<close>

theorem abort_stops_run:
  assumes "oc_stack s = e # rest" "pending_ok s" "oc_command_rx s" "oc_event_tx s"
    and "CmdAbort \<in> set (oc_queue (polled E (s\<lparr>oc_stack := rest\<rparr>)))"
  shows "\<exists>t. run (Suc n) E s = (Ret (), t) \<and> oc_aborted t \<and> last (oc_events t) = Aborted \<and>
     filter implementor_event (oc_events t) = filter implementor_event (oc_events s) \<and>
     suffix rest (oc_stack t)"
proof -
  let ?s = "s\<lparr>oc_stack := rest\<rparr>"
  have p: "pending_ok ?s" using assms(2) by (simp add: pending_ok_def)
  obtain t where t: "process_commands E ?s = (Ret True, t)"
    using process_commands_returns [OF p, of E] assms(3,5) by auto
  moreover have "work_kept ?s t"
    using work.frames_process [THEN framesD, OF t] .
  moreover have "run (Suc n) E s = (Ret (), t)"
    using assms(1) t by (cases e) (simp add: bindp_def)
  ultimately show ?thesis
    using process_commands_stops [OF p t] assms(4) by (auto simp: work_kept_def)
qed

section \<open>The verification gate\<close>

lemma run_verifier_agent_Ret:
  assumes "run_verifier_agent E c s = (Ret payload, t)"
  shows "vp_end_convo payload \<and> (\<exists>task time w acts w'.
     oe_execute_verifier E (build_verifier_step c) (build_verifier_spec (j_null (oe_json E)) time c)
       (vc_prefix c @ ''.verify'') w = (Inr task, acts, w') \<and>
     tk_state (t_status task) \<noteq> TaFailed \<and>
     extract_verification_payload (oe_json E) (oe_payload_json E) (oe_payload_yaml E) task = Inr payload)"
  using assms
  by (fastforce simp: run_verifier_agent_def Let_def build_verifier_spec_def now_def agent_call_def
      lift_result_def emit_event_def
      elim!: bindp_RetE seqp_RetE split: if_splits sum.splits prod.splits)

lemma publish_success_Ret:
  "publish_success E sm s = (Ret sm', t) \<Longrightarrow> sm' = set_verification VsPassed sm"
  by (auto simp: publish_success_def Let_def elim!: seqp_RetE bindp_RetE)

lemma publish_rejection_Ret:
  "publish_rejection E a m sm s = (Ret sm', t) \<Longrightarrow> \<exists>time. sm' = add_feedback a m time sm"
  by (auto simp: publish_rejection_def now_def Let_def elim!: seqp_RetE bindp_RetE)

lemma attempt_Ret_Inr: "attempt p s = (Ret (Inr x), t) \<Longrightarrow> p s = (Ret x, t)"
  by (auto simp: attempt_def split: prod.splits outcome.splits)

lemma verify_Success:
  assumes "verify_and_feedback E summary spec st p tool_log s = (Ret (Success sm), t)"
    and "st_requires_verification st"
  shows "\<exists>c u r u'. attempt (run_verifier_agent E c) u = (Ret r, u') \<and> vc_step c = st \<and>
     vc_prefix c = p \<and> fst (verification_verdict r) = Verified \<and>
     sm = set_verification VsPassed (set_verification VsPending summary)"
  using assms
  apply (auto simp: verify_and_feedback_def Let_def workspace_root_def
      elim!: seqp_RetE bindp_RetE split: prod.splits verification_outcome.splits)
  apply (drule publish_success_Ret)
  apply (intro exI conjI, assumption)
     apply simp_all
  done


section \<open>The outcome of a finished task\<close>

text \<open>The prefixes and statuses announced for the implementing agent, in order.\<close>

definition step_log :: "orchestrator_event list \<Rightarrow> (string \<times> step_status) list" where
  "step_log es = map (\<lambda>e. case e of StepStatusChanged _ _ _ _ p _ v \<Rightarrow> (p, v) | _ \<Rightarrow> ([], StPending))
     (filter implementor_event es)"

text \<open>A sheet that differs from another in step \<open>i\<close>, which has status \<open>v\<close>, and in its metadata only.\<close>

definition changed_at :: "nat \<Rightarrow> step_status \<Rightarrow> 'v spec_sheet \<Rightarrow> 'v spec_sheet \<Rightarrow> bool" where
  "changed_at i v spec spec' \<longleftrightarrow> sp_id spec' = sp_id spec \<and> sp_title spec' = sp_title spec \<and>
     length (sp_steps spec') = length (sp_steps spec) \<and> st_status (sp_steps spec' ! i) = v \<and>
     (\<forall>j. j \<noteq> i \<longrightarrow> sp_steps spec' ! j = sp_steps spec ! j) \<and>
     st_index (sp_steps spec' ! i) = st_index (sp_steps spec ! i) \<and>
     st_requires_verification (sp_steps spec' ! i) = st_requires_verification (sp_steps spec ! i)"

definition child_entries :: "string \<Rightarrow> 'v spec_sheet option \<Rightarrow> 'v stack_entry list" where
  "child_entries cur child = (case child of None \<Rightarrow> [] | Some c \<Rightarrow> [(c, 0, cur)])"

definition next_entries :: "'v spec_sheet \<Rightarrow> nat \<Rightarrow> string \<Rightarrow> 'v stack_entry list" where
  "next_entries spec i p = (if i + 1 < length (sp_steps spec) then [(spec, i + 1, p)] else [])"

text \<open>
  The contract of a step: what it may push on the stack and announce. A child sheet always goes on
  top, under the composed prefix; the sheet itself is continued at the same step or the next one.
\<close>

inductive step_outcome ::
  "'v spec_sheet \<Rightarrow> nat \<Rightarrow> string \<Rightarrow> string \<Rightarrow> 'v stack_entry list \<Rightarrow> (string \<times> step_status) list \<Rightarrow> bool"
  for spec :: "'v spec_sheet" and i :: nat and p cur :: string where
  so_suspended: "step_outcome spec i p cur [] []"
| so_split: "changed_at i StPending spec spec' \<Longrightarrow>
    step_outcome spec i p cur [(child, 0, cur), (spec', i, p)] []"
| so_failed: "changed_at i StFailed spec spec' \<Longrightarrow>
    step_outcome spec i p cur [(spec', i + 1, p)] [(cur, StFailed)]"
| so_retry: "changed_at i StPending spec spec' \<Longrightarrow>
    step_outcome spec i p cur [(spec', i, p)] [(cur, StPending)]"
| so_success: "changed_at i StCompleted spec spec' \<Longrightarrow>
    step_outcome spec i p cur (child_entries cur child @ next_entries spec' i p) [(cur, StCompleted)]"
| so_rejected: "step_outcome spec i p cur [] [(cur, StFailed)]"

lemma mark_step_changed: "i < length (sp_steps spec) \<Longrightarrow> changed_at i v spec (mark_step v c i spec)"
  by (simp add: changed_at_def mark_step_def update_step_def)

lemma set_sub_spec_changed:
  "changed_at i v spec spec' \<Longrightarrow> i < length (sp_steps spec) \<Longrightarrow>
     changed_at i v spec (update_step (st_set_sub_spec u) i spec')"
  by (simp add: changed_at_def update_step_def)

lemma changed_at_trans:
  "changed_at i v spec spec1 \<Longrightarrow> changed_at i w spec1 spec2 \<Longrightarrow> changed_at i w spec spec2"
  by (simp add: changed_at_def)

lemma append_summary_changed:
  "append_summary_to_history E spec sm = Inr spec' \<Longrightarrow> changed_at i v spec0 spec \<Longrightarrow> changed_at i v spec0 spec'"
  by (auto simp: append_summary_to_history_def changed_at_def Let_def split: sum.splits)

text \<open>The part of the state that an outcome is about.\<close>

definition moved :: "'v stack_entry list \<Rightarrow> (string \<times> step_status) list \<Rightarrow>
    ('v, 'w) orch \<Rightarrow> ('v, 'w) orch \<Rightarrow> bool" where
  "moved new log s t \<longleftrightarrow> oc_stack t = new @ oc_stack s \<and> oc_event_tx t = oc_event_tx s \<and>
     (oc_event_tx s \<longrightarrow> step_log (oc_events t) = step_log (oc_events s) @ log)"

lemma moved_trans: "moved n1 l1 s t \<Longrightarrow> moved n2 l2 t u \<Longrightarrow> moved (n2 @ n1) (l1 @ l2) s u"
  by (auto simp: moved_def)

lemma moved_frames:
  assumes "frames stack_kept p" "frames log_extends p" "p s = (r, t)"
  shows "moved [] [] s t"
  using framesD [OF assms(1,3)] framesD [OF assms(2,3)]
  by (simp add: moved_def stack_kept_def step_log_def log_extends_def)

lemma moved_announce: "announce_step E spec i cur v s = (Ret (), t) \<Longrightarrow> moved [] [(cur, v)] s t"
proof -
  assume a: "announce_step E spec i cur v s = (Ret (), t)"
  then obtain u where u: "emit_status spec (sp_steps spec ! i) cur Implementor v s = (Ret (), u)"
    and rest: "agent_call (oe_update_spec_status E spec (sp_steps spec ! i) cur) u = (Ret (), t)"
    by (auto simp: announce_step_def elim: seqp_RetE)
  have "moved [] [(cur, v)] s u"
    using u by (auto simp: emit_status_def emit_event_def send_event_def moved_def step_log_def
        split: if_splits)
  from moved_trans [OF this moved_frames [OF stack.frames_agent_call log.frames_agent_call rest]]
  show ?thesis by simp
qed

lemma moved_push: "push_stack e s = (Ret (), t) \<Longrightarrow> moved [e] [] s t"
  by (auto simp: push_stack_def moved_def)

lemma moved_last_summary: "upd (\<lambda>s. s\<lparr>oc_last_summary := x\<rparr>) s = (Ret (), t) \<Longrightarrow> moved [] [] s t"
  by (auto simp: moved_def)

lemma moved_push_next: "push_next spec i p s = (Ret (), t) \<Longrightarrow> moved (next_entries spec i p) [] s t"
  by (auto simp: push_next_def next_entries_def moved_def push_stack_def split: if_splits)

lemma moved_push_child:
  "(case child of None \<Rightarrow> ret () | Some c \<Rightarrow> push_stack (c, 0, cur)) s = (Ret (), t) \<Longrightarrow>
     moved (child_entries cur child) [] s t"
  by (auto simp: child_entries_def moved_def push_stack_def split: option.splits)

definition has_outcome ::
  "'v spec_sheet \<Rightarrow> nat \<Rightarrow> string \<Rightarrow> string \<Rightarrow> ('v, 'w) orch \<Rightarrow> ('v, 'w) orch \<Rightarrow> bool" where
  "has_outcome spec i p cur s t \<longleftrightarrow> (\<exists>new log. step_outcome spec i p cur new log \<and> moved new log s t)"

lemma has_outcomeI: "step_outcome spec i p cur new log \<Longrightarrow> moved new log s t \<Longrightarrow> has_outcome spec i p cur s t"
  by (auto simp: has_outcome_def)

lemma has_outcome_prefix: "moved [] [] s t \<Longrightarrow> has_outcome spec i p cur t u \<Longrightarrow> has_outcome spec i p cur s u"
  unfolding has_outcome_def using moved_trans by fastforce

lemma step_succeeded_outcome:
  assumes "step_succeeded E task spec i p cur sm s = (Ret (), t)" and i: "i < length (sp_steps spec)"
  shows "has_outcome spec i p cur s t"
proof -
  obtain s1 child time spec2 s2 s3
    where s1: "upd (\<lambda>s. s\<lparr>oc_last_summary := Some sm\<rparr>) s = (Ret (), s1)"
      and spec2: "append_summary_to_history E (mark_step StCompleted (Some time) i
        (case child of None \<Rightarrow> spec | Some c \<Rightarrow> update_step (st_set_sub_spec (Some c)) i spec)) sm = Inr spec2"
      and s2: "announce_step E spec2 i cur StCompleted s1 = (Ret (), s2)"
      and s3: "push_next spec2 i p s2 = (Ret (), s3)"
      and t: "(case child of None \<Rightarrow> ret () | Some c \<Rightarrow> push_stack (c, 0, cur)) s3 = (Ret (), t)"
    using assms(1)
    by (auto simp: step_succeeded_def Let_def now_def lift_result_def
        elim!: seqp_RetE bindp_RetE split: sum.splits)
  have len: "length (sp_steps (update_step f j spec)) = length (sp_steps spec)" for f j
    by (simp add: update_step_def)
  have "changed_at i StCompleted spec (mark_step StCompleted (Some time) i
      (case child of None \<Rightarrow> spec | Some c \<Rightarrow> update_step (st_set_sub_spec (Some c)) i spec))"
    using i by (auto simp: changed_at_def mark_step_def update_step_def split: option.splits)
  with spec2 have "changed_at i StCompleted spec spec2"
    by (rule append_summary_changed)
  moreover have "moved (child_entries cur child @ next_entries spec2 i p) [(cur, StCompleted)] s t"
    using moved_trans [OF moved_last_summary [OF s1] moved_announce [OF s2]]
      moved_trans [OF moved_push_next [OF s3] moved_push_child [OF t]] moved_trans by fastforce
  ultimately show ?thesis
    by (blast intro: has_outcomeI so_success)
qed

lemma step_rejected_outcome:
  assumes "step_rejected E spec i cur sm s = (Ret (), t)"
  shows "has_outcome spec i p cur s t"
proof -
  obtain s1 spec2 where s1: "upd (\<lambda>s. s\<lparr>oc_last_summary := Some sm\<rparr>) s = (Ret (), s1)"
    and t: "announce_step E spec2 i cur StFailed s1 = (Ret (), t)"
    using assms
    by (auto simp: step_rejected_def now_def lift_result_def elim!: seqp_RetE bindp_RetE split: sum.splits)
  show ?thesis
    using moved_trans [OF moved_last_summary [OF s1] moved_announce [OF t]]
    by (auto intro: has_outcomeI so_rejected)
qed

lemma announce_push_outcome:
  assumes "seqp (announce_step E spec' i cur v) (push_stack (spec', j, p)) s = (Ret (), t)"
    and "step_outcome spec i p cur [(spec', j, p)] [(cur, v)]"
  shows "has_outcome spec i p cur s t"
proof -
  obtain u where u: "announce_step E spec' i cur v s = (Ret (), u)" "push_stack (spec', j, p) u = (Ret (), t)"
    using assms(1) by (auto elim: seqp_RetE)
  from moved_trans [OF moved_announce [OF u(1)] moved_push [OF u(2)]] show ?thesis
    by (auto intro: has_outcomeI [OF assms(2)])
qed

lemma settle_step_outcome:
  assumes "settle_step E task spec i p cur s = (Ret (), t)" and i: "i < length (sp_steps spec)"
  shows "has_outcome spec i p cur s t"
proof -
  obtain summary err s1 d s2 where s1: "summarise_task E task spec i cur s = (Ret (summary, err), s1)"
    and d: "(case err of
        Some m \<Rightarrow> seqp (publish_rejection E ''summarizer'' m summary) (ret Retry)
      | None \<Rightarrow> verify_and_feedback E summary spec (sp_steps spec ! i) cur (format_tool_log (oe_json E) task)) s1
        = (Ret d, s2)"
    and t: "(case d of Retry \<Rightarrow> retry_step E spec i p cur | Success sm \<Rightarrow> step_succeeded E task spec i p cur sm
        | Fail sm \<Rightarrow> step_rejected E spec i cur sm) s2 = (Ret (), t)"
    using assms(1) by (auto simp: settle_step_def elim!: bindp_RetE split: prod.splits)
  have m: "moved [] [] s s2"
  proof -
    have "moved [] [] s1 s2"
      by (cases err) (use d in \<open>auto elim!: seqp_RetE
          intro: moved_frames [OF stack.frames_rejection log.frames_rejection]
            moved_frames [OF stack.frames_verify log.frames_verify]\<close>)
    with moved_frames [OF stack.frames_summarise log.frames_summarise s1] show ?thesis
      by (auto dest: moved_trans)
  qed
  have "has_outcome spec i p cur s2 t"
  proof (cases d)
    case Retry
    then show ?thesis
      using t announce_push_outcome [OF _ so_retry [OF mark_step_changed [OF i]]]
      by (auto simp: retry_step_def Let_def)
  qed (use t i in \<open>auto intro: step_succeeded_outcome step_rejected_outcome\<close>)
  with m show ?thesis by (rule has_outcome_prefix)
qed

lemma split_step_outcome:
  assumes "split_step spec i p cur child s = (Ret (), t)" and i: "i < length (sp_steps spec)"
  shows "has_outcome spec i p cur s t"
proof (rule has_outcomeI [OF so_split])
  let ?spec = "update_step (st_set_sub_spec (Some child)) i (mark_step StPending None i spec)"
  show "changed_at i StPending spec ?spec"
    using i by (intro set_sub_spec_changed mark_step_changed)
  show "moved [(child, 0, cur), (?spec, i, p)] [] s t"
    using assms(1)
    by (auto simp: split_step_def Let_def emit_event_def push_stack_def send_event_def moved_def step_log_def
        split: if_splits)
qed

lemma suspended_outcome:
  assumes "seqp (suspend_step spec i p) (announce_cancel cur) s = (Ret (), t)"
  shows "has_outcome spec i p cur s t"
  using assms
  by (intro has_outcomeI [OF so_suspended])
    (auto simp: suspend_step_def announce_cancel_def set_paused_def emit_event_def send_event_def moved_def
      step_log_def split: if_splits)


section \<open>Fuel\<close>

lemma wait_fuel_mono:
  "fst (wait_while_paused n E s) \<noteq> Stuck \<Longrightarrow> n \<le> m \<Longrightarrow> wait_while_paused m E s = wait_while_paused n E s"
proof (induction n arbitrary: m s)
  case (Suc n)
  obtain m' where m: "m = Suc m'" "n \<le> m'"
    using Suc.prems(2) by (cases m) auto
  show ?case
    using Suc.prems(1) Suc.IH [OF _ m(2)] unfolding m(1)
    by (auto simp: bindp_def seqp_def idle_def upd_def ret_def asks_def
        split: prod.splits outcome.splits if_splits)
qed simp

lemma run_entry_fuel_mono:
  assumes "fst (run_entry n E e s) \<noteq> Stuck" "n \<le> m"
  shows "run_entry m E e s = run_entry n E e s"
proof -
  obtain spec i p where e: "e = (spec, i, p)" by (cases e)
  show ?thesis
  proof (cases "fst (process_commands E s) = Ret False")
    case True
    then obtain t where t: "process_commands E s = (Ret False, t)"
      by (metis prod.collapse)
    have "fst (wait_while_paused n E t) \<noteq> Stuck"
      using assms(1) t by (auto simp: e bindp_def split: prod.splits)
    then show ?thesis
      using wait_fuel_mono [OF _ assms(2), of E t] t by (simp add: e bindp_def)
  next
    case False
    then show ?thesis
      by (auto simp: e bindp_def split: prod.splits outcome.splits)
  qed
qed

text \<open>The fuel is only a bound on the observation: once a run has returned (or failed), more fuel
  gives the same result, the same events and the same final state.\<close>

theorem run_fuel_irrelevant:
  assumes "fst (run n E s) \<noteq> Stuck" "n \<le> m"
  shows "run m E s = run n E s"
  using assms
proof (induction n arbitrary: m s)
  case (Suc n)
  obtain m' where m: "m = Suc m'" "n \<le> m'"
    using Suc.prems(2) by (cases m) auto
  show ?case
  proof (cases "oc_stack s")
    case (Cons e rest)
    let ?s = "s\<lparr>oc_stack := rest\<rparr>"
    obtain r t where rt: "run_entry n E e ?s = (r, t)" by fastforce
    have step: "run (Suc k) E s = bindp (run_entry k E e) (\<lambda>stop. if stop then ret () else run k E) ?s" for k
      using Cons by simp
    have "r \<noteq> Stuck"
      using Suc.prems(1) unfolding step by (auto simp: bindp_def rt)
    then have "run_entry m' E e ?s = (r, t)"
      using run_entry_fuel_mono [OF _ m(2)] rt by (metis fst_conv)
    then show ?thesis
      using Suc.prems(1) Suc.IH [OF _ m(2), of t] unfolding m(1) step
      by (auto simp: bindp_def rt split: outcome.splits)
  qed (simp add: m)
qed simp

end
