(* ===== verification/Orchestrator_Run.thy ===== *)
theory Orchestrator_Run
  imports Orchestrator_Props
begin

text \<open>
  Complete runs of the orchestrator. \<open>calmly p Q\<close> is a total-correctness judgement for runs during
  which nobody else interferes: from every calm state \<open>p\<close> returns, and \<open>Q\<close> holds of the result, the
  entries pushed and the statuses announced. With agents that do their job every step of a sheet is
  run in order and the run ends; the last part follows a cancelled step.
\<close>

section \<open>Undisturbed runs\<close>

definition calm :: "('v, 'w) orch \<Rightarrow> bool" where
  "calm s \<longleftrightarrow> oc_event_tx s \<and> \<not> oc_paused s \<and> oc_queue s = [] \<and> oc_cancel_prefix s = None"

type_synonym ('v, 'a) effect = "'a \<Rightarrow> 'v stack_entry list \<Rightarrow> (string \<times> step_status) list \<Rightarrow> bool"

definition calmly :: "(('v, 'w) orch, 'a) prog \<Rightarrow> ('v, 'a) effect \<Rightarrow> bool" where
  "calmly p Q \<longleftrightarrow> (\<forall>s. calm s \<longrightarrow>
     (\<exists>x t new log. p s = (Ret x, t) \<and> calm t \<and> moved new log s t \<and> Q x new log))"

definition silent :: "('a \<Rightarrow> bool) \<Rightarrow> ('v, 'a) effect" where
  "silent P = (\<lambda>x new log. new = [] \<and> log = [] \<and> P x)"

lemma calmlyI:
  "(\<And>s. calm s \<Longrightarrow> \<exists>x t new log. p s = (Ret x, t) \<and> calm t \<and> moved new log s t \<and> Q x new log) \<Longrightarrow> calmly p Q"
  by (simp add: calmly_def)

lemma calmlyE:
  assumes "calmly p Q" "calm s"
  obtains x t new log where "p s = (Ret x, t)" "calm t" "moved new log s t" "Q x new log"
  using assms unfolding calmly_def by blast

lemma calmly_conseq: "calmly p P \<Longrightarrow> (\<And>x n l. P x n l \<Longrightarrow> Q x n l) \<Longrightarrow> calmly p Q"
  unfolding calmly_def by blast

lemma silentI: "P x \<Longrightarrow> silent P x [] []"
  by (simp add: silent_def)

lemma bindp_ret_left: "bindp (ret x) f = f x" "seqp (ret x) q = q"
  by (simp_all add: fun_eq_iff)

lemma calmly_ret: "Q x [] [] \<Longrightarrow> calmly (ret x) Q"
  by (auto simp: calmly_def moved_def)

lemma calmly_bindp:
  assumes "calmly p P" and "\<And>x n1 l1. P x n1 l1 \<Longrightarrow> calmly (f x) (\<lambda>y n2 l2. Q y (n2 @ n1) (l1 @ l2))"
  shows "calmly (bindp p f) Q"
proof (rule calmlyI)
  fix s :: "('a, 'b) orch"
  assume "calm s"
  with assms(1) obtain x t n1 l1 where t: "p s = (Ret x, t)" "calm t" "moved n1 l1 s t" "P x n1 l1"
    unfolding calmly_def by blast
  with assms(2) obtain y u n2 l2 where "f x t = (Ret y, u)" "calm u" "moved n2 l2 t u"
    "Q y (n2 @ n1) (l1 @ l2)"
    unfolding calmly_def by blast
  with t show "\<exists>y u new log. bindp p f s = (Ret y, u) \<and> calm u \<and> moved new log s u \<and> Q y new log"
    by (auto simp: bindp_def intro: moved_trans)
qed

lemma calmly_silent_bindp:
  assumes "calmly p (silent P)" and "\<And>x. P x \<Longrightarrow> calmly (f x) Q"
  shows "calmly (bindp p f) Q"
  by (rule calmly_bindp [OF assms(1)]) (use assms(2) in \<open>simp add: silent_def\<close>)

lemma calmly_seqp:
  assumes "calmly p P" and "\<And>x n1 l1. P x n1 l1 \<Longrightarrow> calmly q (\<lambda>y n2 l2. Q y (n2 @ n1) (l1 @ l2))"
  shows "calmly (seqp p q) Q"
  unfolding seqp_def using assms by (rule calmly_bindp)

lemma calmly_silent_seqp:
  "calmly p (silent P) \<Longrightarrow> calmly q Q \<Longrightarrow> calmly (seqp p q) Q"
  unfolding seqp_def by (rule calmly_silent_bindp)

text \<open>An agent's call that succeeds while nobody else acts.\<close>

definition quiet_call :: "('v, 'w, 'a) agent_fn \<Rightarrow> ('a \<Rightarrow> bool) \<Rightarrow> bool" where
  "quiet_call f P \<longleftrightarrow> (\<forall>w. \<exists>x w'. f w = (Inr x, [], w') \<and> P x)"

lemma calmly_agent_call:
  fixes f :: "('c, 'a, 'b) agent_fn"
  shows "quiet_call f P \<Longrightarrow> calmly (agent_call f) (silent P)"
proof (rule calmlyI)
  fix s :: "('c, 'a) orch"
  assume q: "quiet_call f P" and c: "calm s"
  obtain x w' where "f (oc_world s) = (Inr x, [], w')" "P x"
    using q unfolding quiet_call_def by blast
  with c show "\<exists>x t new log. agent_call f s = (Ret x, t) \<and> calm t \<and> moved new log s t \<and> silent P x new log"
    by (simp add: silent_def agent_call_def calm_def moved_def)
qed

lemma calmly_asks: "(\<And>s. calm s \<Longrightarrow> P (g s)) \<Longrightarrow> calmly (asks g) (silent P)"
  by (auto simp: calmly_def moved_def silent_def)

lemma calmly_upd:
  "(\<And>s. calm s \<Longrightarrow> calm (h s) \<and> moved [] [] s (h s)) \<Longrightarrow> calmly (upd h) (silent (\<lambda>_. True))"
  by (auto simp: calmly_def silent_def)

lemma calmly_emit: "\<not> implementor_event e \<Longrightarrow> calmly (emit_event e) (silent (\<lambda>_. True))"
  by (auto simp: calmly_def emit_event_def calm_def moved_def send_event_def step_log_def silent_def)

lemma calmly_attempt:
  "calmly p (silent P) \<Longrightarrow> calmly (attempt p) (silent (\<lambda>r. \<exists>x. r = Inr x \<and> P x))"
  unfolding calmly_def attempt_def silent_def by fastforce

lemma calmly_lift: "r = Inr x \<Longrightarrow> Q x [] [] \<Longrightarrow> calmly (lift_result r) Q"
  by (simp add: calmly_ret)

lemma calmly_announce:
  assumes "quiet_call (oe_update_spec_status E spec (sp_steps spec ! i) cur) (\<lambda>_. True)"
  shows "calmly (announce_step E spec i cur v) (\<lambda>_ n l. n = [] \<and> l = [(cur, v)])"
proof -
  have "calmly (emit_status spec st cur Implementor v) (\<lambda>_ n l. n = [] \<and> l = [(cur, v)])" for st
    by (auto simp: calmly_def emit_status_def emit_event_def calm_def moved_def send_event_def step_log_def)
  then show ?thesis
    unfolding announce_step_def
    by (rule calmly_seqp) (auto simp: silent_def intro: calmly_conseq [OF calmly_agent_call [OF assms]])
qed

section \<open>Agents that do their job\<close>

definition good_task :: "('v, 'w) orch_env \<Rightarrow> 'v task \<Rightarrow> bool" where
  "good_task E t \<longleftrightarrow> tk_state (t_status t) = TaCompleted \<and> (\<exists>sm. extract_summary E t = Inr sm) \<and>
     extract_sub_spec E t = Inr None"

definition approving_task :: "('v, 'w) orch_env \<Rightarrow> 'v task \<Rightarrow> bool" where
  "approving_task E t \<longleftrightarrow> tk_state (t_status t) \<noteq> TaFailed \<and>
     (\<exists>p. extract_verification_payload (oe_json E) (oe_payload_json E) (oe_payload_yaml E) t = Inr p \<and>
       vp_end_convo p \<and> map_verification_outcome (vp_status p) = Verified)"

text \<open>Nobody interferes, every step's task completes with a summary, and the verifier approves.\<close>

definition cooperative :: "('v, 'w) orch_env \<Rightarrow> bool" where
  "cooperative E \<longleftrightarrow>
     (\<forall>sp st p. quiet_call (oe_update_spec_status E sp st p) (\<lambda>_. True)) \<and>
     (\<forall>sm. quiet_call (oe_update_task_summary E sm) (\<lambda>_. True)) \<and>
     (\<forall>sm. quiet_call (oe_notify_step_success E sm) (\<lambda>_. True)) \<and>
     (\<forall>i. quiet_call (oe_close_task_channel E i) (\<lambda>_. True)) \<and>
     (\<forall>st sp p c. quiet_call (oe_execute E st sp p c) (good_task E)) \<and>
     (\<forall>st sp p. quiet_call (oe_execute_summarizer E st sp p) (good_task E)) \<and>
     (\<forall>st sp p. quiet_call (oe_execute_verifier E st sp p) (approving_task E)) \<and>
     (\<forall>sm. \<exists>v. oe_ser_summary E sm = Inr v) \<and>
     (\<forall>w. fst (oe_poll E w) = [])"

lemma calmly_now: "calmly (now E) (silent (\<lambda>_. True))"
  by (simp add: now_def calmly_asks)

lemma calmly_root: "calmly (workspace_root E) (silent (\<lambda>_. True))"
  by (simp add: workspace_root_def calmly_asks)

lemma calmly_context: "calmly (upd (\<lambda>s. s\<lparr>oc_last_verification := c\<rparr>)) (silent (\<lambda>_. True))"
  by (rule calmly_upd) (simp add: calm_def moved_def)

lemma calmly_remember: "calmly (remember_verified sm) (silent (\<lambda>_. True))"
  unfolding remember_verified_def by (rule calmly_upd) (simp add: calm_def moved_def)

lemmas quiet_defs = Let_def build_summarizer_spec_def build_verifier_spec_def

lemma calmly_summarizer:
  assumes E: "cooperative E"
  shows "calmly (run_summarizer_agent E c) (silent (\<lambda>_. True))"
proof -
  have call: "calmly (agent_call (oe_execute_summarizer E st sp p)) (silent (good_task E))" for st sp p
    using E by (intro calmly_agent_call) (simp add: cooperative_def)
  show ?thesis
    unfolding run_summarizer_agent_def quiet_defs
    by (rule calmly_silent_bindp [OF calmly_now])
      (auto simp: good_task_def bindp_ret_left intro!: calmly_silent_seqp [OF calmly_emit]
        calmly_silent_bindp [OF call] calmly_ret silentI)
qed

lemma calmly_verifier:
  assumes E: "cooperative E"
  shows "calmly (run_verifier_agent E c)
    (silent (\<lambda>p. map_verification_outcome (vp_status p) = Verified))"
proof -
  have call: "calmly (agent_call (oe_execute_verifier E st sp p)) (silent (approving_task E))" for st sp p
    using E by (intro calmly_agent_call) (simp add: cooperative_def)
  show ?thesis
    unfolding run_verifier_agent_def quiet_defs
    by (rule calmly_silent_bindp [OF calmly_now])
      (auto simp: approving_task_def bindp_ret_left intro!: calmly_silent_seqp [OF calmly_emit]
        calmly_silent_bindp [OF call] calmly_ret silentI)
qed

lemma calmly_publish_success:
  assumes E: "cooperative E"
  shows "calmly (publish_success E sm) (silent (\<lambda>_. True))"
proof -
  have "calmly (agent_call (oe_update_task_summary E x)) (silent (\<lambda>_. True))"
    "calmly (agent_call (oe_notify_step_success E x)) (silent (\<lambda>_. True))"
    "calmly (agent_call (oe_close_task_channel E i)) (silent (\<lambda>_. True))" for x i
    using E by (auto simp: cooperative_def intro: calmly_agent_call)
  note calls = this
  show ?thesis
    unfolding publish_success_def Let_def
    by (intro calmly_silent_seqp [OF calls(1)] calmly_silent_seqp [OF calls(2)]
        calmly_silent_seqp [OF calls(3)] calmly_silent_bindp [OF calmly_now]
        calmly_silent_seqp [OF calmly_emit] calmly_ret silentI) simp_all
qed

lemma calmly_verify:
  assumes E: "cooperative E"
  shows "calmly (verify_and_feedback E sm spec st p tlog) (silent (\<lambda>d. \<exists>sm'. d = Success sm'))"
proof -
  have call: "calmly (agent_call (oe_update_task_summary E x)) (silent (\<lambda>_. True))" for x
    using E by (auto simp: cooperative_def intro: calmly_agent_call)
  show ?thesis
  proof (cases "st_requires_verification st")
    case True
    then show ?thesis
      unfolding verify_and_feedback_def Let_def
      by (auto simp: verification_verdict_def split: prod.splits
          intro!: calmly_silent_seqp [OF call] calmly_silent_seqp [OF calmly_emit]
            calmly_silent_bindp [OF calmly_root] calmly_silent_seqp [OF calmly_context]
            calmly_silent_bindp [OF calmly_attempt [OF calmly_verifier [OF E]]]
            calmly_silent_bindp [OF calmly_publish_success [OF E]]
            calmly_silent_seqp [OF calmly_remember] calmly_ret silentI)
  next
    case False
    then show ?thesis
      by (auto simp: verify_and_feedback_def
          intro!: calmly_silent_bindp [OF calmly_publish_success [OF E]] calmly_ret silentI)
  qed
qed

lemma calmly_summarise:
  assumes E: "cooperative E" and task: "good_task E task"
  shows "calmly (summarise_task E task spec i cur) (silent (\<lambda>r. snd r = None))"
  using task
  by (auto simp: summarise_task_def good_task_def bindp_ret_left Let_def
      intro!: calmly_silent_bindp [OF calmly_root]
        calmly_silent_bindp [OF calmly_attempt [OF calmly_summarizer [OF E]]] calmly_ret silentI)

text \<open>One step done: its completion announced, the next one of the changed sheet on the stack.\<close>

definition step_done :: "'v spec_sheet \<Rightarrow> nat \<Rightarrow> string \<Rightarrow> string \<Rightarrow> ('v, 'a) effect" where
  "step_done spec i p cur = (\<lambda>_ new log. log = [(cur, StCompleted)] \<and>
     (\<exists>spec'. changed_at i StCompleted spec spec' \<and> new = next_entries spec' i p))"

lemma calmly_announce_good:
  "cooperative E \<Longrightarrow> calmly (announce_step E spec i cur v) (\<lambda>_ n l. n = [] \<and> l = [(cur, v)])"
  by (intro calmly_announce) (simp add: cooperative_def)

lemma calmly_push_next:
  "calmly (push_next spec i p) (\<lambda>_ n l. l = [] \<and> n = next_entries spec i p)"
  by (auto simp: calmly_def push_next_def push_stack_def next_entries_def calm_def moved_def)

lemma calmly_step_succeeded:
  assumes E: "cooperative E" and task: "good_task E task" and i: "i < length (sp_steps spec)"
  shows "calmly (step_succeeded E task spec i p cur sm) (step_done spec i p cur)"
proof -
  have last: "calmly (upd (\<lambda>s. s\<lparr>oc_last_summary := Some sm\<rparr>)) (silent (\<lambda>_. True))"
    by (rule calmly_upd) (simp add: calm_def moved_def)
  have "calmly (bindp (lift_result (append_summary_to_history E (mark_step StCompleted (Some t) i spec) sm))
      (\<lambda>spec2. seqp (announce_step E spec2 i cur StCompleted) (seqp (push_next spec2 i p) (ret ()))))
      (step_done spec i p cur)" for t
  proof -
    obtain v where v: "oe_ser_summary E sm = Inr v"
      using E unfolding cooperative_def by blast
    obtain spec2 where spec2: "append_summary_to_history E (mark_step StCompleted (Some t) i spec) sm = Inr spec2"
      by (simp add: append_summary_to_history_def v Let_def)
    have "changed_at i StCompleted spec spec2"
      using append_summary_changed [OF spec2] mark_step_changed [OF i] by blast
    then have "calmly (seqp (announce_step E spec2 i cur StCompleted) (seqp (push_next spec2 i p) (ret ())))
        (step_done spec i p cur)"
      by (intro calmly_seqp [OF calmly_announce_good [OF E]] calmly_seqp [OF calmly_push_next] calmly_ret)
        (auto simp: step_done_def)
    then show ?thesis by (simp add: spec2 bindp_ret_left)
  qed
  then show ?thesis
    using task
    by (auto simp: step_succeeded_def good_task_def bindp_ret_left Let_def
        intro!: calmly_silent_seqp [OF last] calmly_silent_bindp [OF calmly_now])
qed

lemma calmly_finish:
  assumes E: "cooperative E" and task: "good_task E task" and i: "i < length (sp_steps spec)"
  shows "calmly (finish_task E task spec i p cur) (step_done spec i p cur)"
proof -
  have "calmly (settle_step E task spec i p cur) (step_done spec i p cur)"
    unfolding settle_step_def
    by (rule calmly_silent_bindp [OF calmly_summarise [OF E task]])
      (auto intro!: calmly_silent_bindp [OF calmly_verify [OF E]] calmly_step_succeeded [OF E task i])
  then show ?thesis
    using task by (simp add: finish_task_def good_task_def bindp_ret_left)
qed

definition step_run :: "'v spec_sheet \<Rightarrow> nat \<Rightarrow> string \<Rightarrow> string \<Rightarrow> ('v, bool) effect" where
  "step_run spec i p cur = (\<lambda>stop new log. \<not> stop \<and> log = [(cur, StInProgress), (cur, StCompleted)] \<and>
     (\<exists>spec'. changed_at i StCompleted spec spec' \<and> new = next_entries spec' i p))"

lemma calmly_process:
  assumes E: "cooperative E"
  shows "calmly (process_commands E) (silent (\<lambda>stop. \<not> stop))"
proof (rule calmlyI)
  fix s :: "('a, 'b) orch"
  assume c: "calm s"
  have "polled E s = s\<lparr>oc_world := snd (oe_poll E (oc_world s))\<rparr>"
    using E by (auto simp: polled_def idle_def cooperative_def split: prod.splits) (metis fst_conv fold_simps(1) id_apply)
  then show "\<exists>x t new log. process_commands E s = (Ret x, t) \<and> calm t \<and> moved new log s t \<and>
      silent (\<lambda>stop. \<not> stop) x new log"
    using c by (auto simp: process_commands_polled calm_def moved_def silent_def)
qed

lemma calmly_wait: "calmly (wait_while_paused (Suc n) E) (silent (\<lambda>stop. \<not> stop))"
  by (auto simp: calmly_def calm_def moved_def silent_def)

lemma calmly_open: "calmly (open_step cur) (silent (\<lambda>_. True))"
  by (auto simp: calmly_def open_step_def set_current_prefix_state_def set_current_cancel_state_def
      calm_def moved_def silent_def)

lemma calmly_close: "calmly close_step (silent (\<lambda>_. True))"
  by (auto simp: calmly_def close_step_def set_current_prefix_state_def set_current_cancel_state_def
      calm_def moved_def silent_def)

lemma calmly_cancel_prefix: "calmly (asks oc_cancel_prefix) (silent (\<lambda>cp. cp = None))"
  by (rule calmly_asks) (simp add: calm_def)

lemma calmly_run_step:
  assumes E: "cooperative E" and i: "i < length (sp_steps spec)"
  shows "calmly (run_step E spec i p cur) (step_run spec i p cur)"
proof -
  have call: "calmly (agent_call (oe_execute E st sp q c)) (silent (good_task E))" for st sp q c
    using E by (intro calmly_agent_call) (simp add: cooperative_def)
  show ?thesis
    unfolding run_step_def
    by (rule calmly_seqp [OF calmly_announce_good [OF E]])
      (auto intro!: calmly_silent_bindp [OF calmly_open] calmly_silent_bindp [OF calmly_cancel_prefix]
        calmly_silent_bindp [OF call] calmly_silent_seqp [OF calmly_close]
        calmly_silent_bindp [OF calmly_process [OF E]] calmly_seqp [OF calmly_finish [OF E _ i]] calmly_ret
        simp: step_done_def step_run_def)
qed

text \<open>The part of an iteration after the commands have been processed.\<close>

definition after_commands :: "nat \<Rightarrow> ('v, 'w) orch_env \<Rightarrow> 'v stack_entry \<Rightarrow> (('v, 'w) orch, bool) prog" where
  "after_commands n E e = (case e of (spec, i, p) \<Rightarrow> bindp (wait_while_paused n E) (\<lambda>stop.
     if stop then ret True
     else if length (sp_steps spec) \<le> i then ret False
     else run_step E (mark_step StInProgress None i spec) i p
            (compose_prefix p (st_index (sp_steps spec ! i)))))"

lemma run_entry_after: "run_entry n E e =
  bindp (process_commands E) (\<lambda>stop. if stop then ret True else after_commands n E e)"
  by (cases e) (simp add: after_commands_def cong: if_cong)

lemma calmly_after_commands:
  assumes E: "cooperative E" and i: "i < length (sp_steps spec)"
  shows "calmly (after_commands (Suc n) E (spec, i, p))
    (step_run spec i p (compose_prefix p (st_index (sp_steps spec ! i))))"
proof -
  have "calmly (run_step E (mark_step StInProgress None i spec) i p cur) (step_run spec i p cur)" for cur
  proof (rule calmly_conseq [OF calmly_run_step [OF E]])
    show "i < length (sp_steps (mark_step StInProgress None i spec))"
      using i by (simp add: mark_step_def update_step_def)
    show "step_run (mark_step StInProgress None i spec) i p cur x n l \<Longrightarrow> step_run spec i p cur x n l" for x n l
      unfolding step_run_def using changed_at_trans [OF mark_step_changed [OF i]] by blast
  qed
  then show ?thesis
    using i by (auto simp: after_commands_def intro!: calmly_silent_bindp [OF calmly_wait]
        simp del: wait_while_paused.simps)
qed

lemma step_log_Nil: "step_log [] = []"
  by (simp add: step_log_def)

lemma changed_at_drop:
  "changed_at i v spec spec' \<Longrightarrow> drop (Suc i) (sp_steps spec') = drop (Suc i) (sp_steps spec)"
  by (rule nth_equalityI) (auto simp: changed_at_def)

section \<open>The whole run\<close>

definition full_log :: "string \<Rightarrow> 'v spec_step list \<Rightarrow> (string \<times> step_status) list" where
  "full_log p steps = concat (map (\<lambda>st. let cur = compose_prefix p (st_index st)
     in [(cur, StInProgress), (cur, StCompleted)]) steps)"

lemma full_log_Cons:
  assumes "i < length (sp_steps spec)" "changed_at i v spec spec'"
  shows "full_log p (drop i (sp_steps spec)) =
    (let cur = compose_prefix p (st_index (sp_steps spec ! i))
     in [(cur, StInProgress), (cur, StCompleted)]) @ full_log p (drop (Suc i) (sp_steps spec'))"
  using assms(1) changed_at_drop [OF assms(2)]
  by (simp add: full_log_def Let_def Cons_nth_drop_Suc [symmetric])

lemma full_log_end: "length (sp_steps spec) \<le> i \<Longrightarrow> full_log p (drop i (sp_steps spec)) = []"
  by (simp add: full_log_def)

lemma run_entry_calm:
  assumes E: "cooperative E" and i: "i < length (sp_steps spec)"
    and s1: "process_commands E s = (Ret False, s1)" "calm s1"
  shows "\<exists>t spec'. run_entry (Suc n) E (spec, i, p) s = (Ret False, t) \<and> calm t \<and>
     changed_at i StCompleted spec spec' \<and> oc_stack t = next_entries spec' i p @ oc_stack s1 \<and>
     step_log (oc_events t) = step_log (oc_events s1) @
       (let cur = compose_prefix p (st_index (sp_steps spec ! i)) in [(cur, StInProgress), (cur, StCompleted)])"
proof -
  from calmly_after_commands [OF E i, of n p] s1(2) obtain stop t new log
    where t: "after_commands (Suc n) E (spec, i, p) s1 = (Ret stop, t)" "calm t" "moved new log s1 t"
      "step_run spec i p (compose_prefix p (st_index (sp_steps spec ! i))) stop new log"
    by (rule calmlyE)
  then have "run_entry (Suc n) E (spec, i, p) s = (Ret False, t)"
    using s1(1) by (simp add: run_entry_after step_run_def bindp_def del: run_entry.simps)
  with t s1(2) show ?thesis
    by (auto simp: step_run_def moved_def calm_def Let_def simp del: run_entry.simps)
qed

text \<open>A sheet on top of the stack is worked off before anything below it.\<close>

lemma run_sheet:
  assumes E: "cooperative E" and "i < length (sp_steps spec)" "oc_stack s = (spec, i, p) # rest"
    and "process_commands E (s\<lparr>oc_stack := rest\<rparr>) = (Ret False, s1)" "calm s1"
  shows "\<exists>t. run (length (sp_steps spec) - i + Suc n) E s = run (Suc n) E t \<and> calm t \<and>
     oc_stack t = oc_stack s1 \<and>
     step_log (oc_events t) = step_log (oc_events s1) @ full_log p (drop i (sp_steps spec))"
  using assms(2-)
proof (induction "length (sp_steps spec) - i" arbitrary: i spec s s1 rest)
  case (Suc m)
  obtain t spec' where t: "run_entry (Suc (m + n)) E (spec, i, p) (s\<lparr>oc_stack := rest\<rparr>) = (Ret False, t)" "calm t"
      "changed_at i StCompleted spec spec'" "oc_stack t = next_entries spec' i p @ oc_stack s1"
      "step_log (oc_events t) = step_log (oc_events s1) @
        (let cur = compose_prefix p (st_index (sp_steps spec ! i)) in [(cur, StInProgress), (cur, StCompleted)])"
    using run_entry_calm [OF E Suc.prems(1,3,4)] by blast
  have run: "run (length (sp_steps spec) - i + Suc n) E s = run (m + Suc n) E t"
    unfolding Suc.hyps(2) [symmetric] using Suc.prems(2) t(1) by (simp add: bindp_def del: run_entry.simps)
  have len: "length (sp_steps spec') = length (sp_steps spec)"
    using t(3) by (simp add: changed_at_def)
  note split = full_log_Cons [OF Suc.prems(1) t(3), of p]
  show ?case
  proof (cases "Suc i < length (sp_steps spec)")
    case True
    have m: "m = length (sp_steps spec') - Suc i" using Suc.hyps(2) len by simp
    have "calm (t\<lparr>oc_stack := oc_stack s1\<rparr>)" using t(2) by (simp add: calm_def)
    with calmly_process [OF E] obtain stop u new log
      where u: "process_commands E (t\<lparr>oc_stack := oc_stack s1\<rparr>) = (Ret stop, u)" "calm u"
        "moved new log (t\<lparr>oc_stack := oc_stack s1\<rparr>) u" "silent (\<lambda>stop. \<not> stop) stop new log"
      by (rule calmlyE)
    then have "process_commands E (t\<lparr>oc_stack := oc_stack s1\<rparr>) = (Ret False, u)"
      "oc_stack u = oc_stack s1" "step_log (oc_events u) = step_log (oc_events t)"
      using t(2) by (auto simp: silent_def moved_def calm_def)
    with Suc.hyps(1) [OF m _ _ this(1) u(2)] t(4) True len show ?thesis
      unfolding run split by (auto simp: next_entries_def t(5) m)
  next
    case False
    moreover have "m = 0" using False Suc.hyps(2) by simp
    ultimately show ?thesis
      using t run split Suc.hyps(2) full_log_end [of spec' "Suc i" p] len
      by (intro exI [of _ t]) (simp add: next_entries_def del: run.simps run_entry.simps)
  qed
qed simp

lemma run_empty_stack:
  assumes "calm t" "oc_stack t = []"
  shows "run (Suc n) E t = (Ret (), t\<lparr>oc_events := oc_events t @ [RunCompleted]\<rparr>) \<and>
    step_log (oc_events t @ [RunCompleted]) = step_log (oc_events t)"
  using assms by (simp add: emit_event_def send_event_def calm_def step_log_def)

lemma process_calm:
  assumes "cooperative E" "calm s"
  obtains u where "process_commands E s = (Ret False, u)" "calm u" "oc_stack u = oc_stack s"
    "step_log (oc_events u) = step_log (oc_events s)"
proof -
  from calmly_process [OF assms(1)] assms(2) obtain stop u new log
    where u: "process_commands E s = (Ret stop, u)" "calm u" "moved new log s u"
      "silent (\<lambda>stop. \<not> stop) stop new log"
    by (rule calmlyE)
  then show thesis
    using assms(2) that by (auto simp: silent_def moved_def calm_def)
qed


section \<open>An injected sheet\<close>

text \<open>A sheet injected at step \<open>idx\<close> before the run takes up its first step runs after all steps of
  the sheet, not at that step: the entry being taken up is off the stack when the command is handled,
  so the rest of its sheet is always pushed above the injected one, whose prefix is \<open>idx\<close> alone.\<close>

theorem injected_sheet_runs_last:
  assumes E: "cooperative E" and "sp_steps spec \<noteq> []" "sp_steps child \<noteq> []" and idx: "idx \<noteq> []"
  shows "\<exists>t. run (length (sp_steps spec) + length (sp_steps child) + 1) E
       (control_inject_split idx child (orchestrator_new_with_control w spec)) = (Ret (), t) \<and>
     oc_stack t = [] \<and> last (oc_events t) = RunCompleted \<and>
     step_log (oc_events t) =
       concat (map (\<lambda>st. [(st_index st, StInProgress), (st_index st, StCompleted)]) (sp_steps spec)) @
       concat (map (\<lambda>st. [(idx @ ''.'' @ st_index st, StInProgress), (idx @ ''.'' @ st_index st, StCompleted)])
         (sp_steps child))"
proof -
  let ?s = "control_inject_split idx child (orchestrator_new_with_control w spec)"
  let ?n = "length (sp_steps child)"
  have s: "oc_stack ?s = [(spec, 0, [])]"
    by (simp add: control_inject_split_def send_command_def orchestrator_new_with_control_def)
  have "fst (oe_poll E w) = []" using E by (simp add: cooperative_def)
  then have "polled E (?s\<lparr>oc_stack := []\<rparr>) = ?s\<lparr>oc_stack := [], oc_world := snd (oe_poll E w)\<rparr>"
    by (cases "oe_poll E w") (simp add: polled_def idle_def control_inject_split_def send_command_def
        orchestrator_new_with_control_def)
  then obtain s1 where s1: "process_commands E (?s\<lparr>oc_stack := []\<rparr>) = (Ret False, s1)" "calm s1"
    "oc_stack s1 = [(child, 0, idx)]" "step_log (oc_events s1) = []"
    by (simp add: process_commands_polled control_inject_split_def send_command_def
        orchestrator_new_with_control_def run_inject_split_def push_stack_def emit_event_def send_event_def
        calm_def step_log_def seqp_def bindp_def upd_def ret_def asks_def)
  obtain t where t: "run (length (sp_steps spec) - 0 + Suc ?n) E ?s = run (Suc ?n) E t" "calm t"
    "oc_stack t = [(child, 0, idx)]" "step_log (oc_events t) = full_log [] (drop 0 (sp_steps spec))"
    using run_sheet [OF E _ s s1(1,2), of ?n] assms(2) s1(3,4) by auto
  have "calm (t\<lparr>oc_stack := []\<rparr>)" using t(2) by (simp add: calm_def)
  then obtain t1 where t1: "process_commands E (t\<lparr>oc_stack := []\<rparr>) = (Ret False, t1)" "calm t1"
    "oc_stack t1 = []" "step_log (oc_events t1) = step_log (oc_events t)"
    using process_calm [OF E] by (metis orch.select_convs(1,3) orch.update_convs(1) orch.surjective)
  obtain u where u: "run (?n - 0 + Suc 0) E t = run (Suc 0) E u" "calm u" "oc_stack u = []"
    "step_log (oc_events u) = step_log (oc_events t) @ full_log idx (drop 0 (sp_steps child))"
    using run_sheet [OF E _ t(3) t1(1,2), of 0] assms(3) t1(3,4) by auto
  show ?thesis
    using t u run_empty_stack [OF u(2,3), of 0 E] idx
    by (simp add: full_log_def compose_prefix_def Let_def del: run.simps)
qed

section \<open>A cancelled step\<close>

lemma compose_prefix_neq: "idx \<noteq> [] \<Longrightarrow> compose_prefix p idx \<noteq> p"
  by (simp add: compose_prefix_def)

text \<open>A resume request under the prefix that \<open>StepCancelled\<close> announced for a step never matches the
  suspended step, which is filed under its parent's prefix: the command changes nothing and the run
  stays paused.\<close>

theorem resume_announced_prefix_ignored:
  assumes "oc_pending_resume s = Some (spec, i, p)" and "idx \<noteq> []"
  shows "run_command E (CmdResumeStep (compose_prefix p idx) message) s = (Ret False, s)"
  using assms compose_prefix_neq [OF assms(2), of p]
  by (auto simp: run_resume_step_def seqp_def bindp_def prog_defs split: option.splits)

text \<open>Cancelling the step of the only sheet on the stack ends the run as \<open>Completed\<close>: the step is
  announced in progress and cancelled, its entry is suspended as pending and nothing else is on the
  stack, so the loop stops (paused) instead of waiting for the resume.\<close>

theorem cancelled_root_step_completes_run:
  assumes E: "cooperative E" and steps: "sp_steps spec = st # rest"
  shows "\<exists>t spec'. run 2 E (control_cancel_step (st_index st) (orchestrator_new_with_control w spec)) = (Ret (), t) \<and>
     oc_events t = [StepStatusChanged (sp_id spec) (sp_title spec) (st_index st) (st_title st) (st_index st)
        Implementor StInProgress, StepCancelled (st_index st), RunCompleted] \<and>
     oc_stack t = [] \<and> oc_paused t \<and> oc_pending_resume t = Some (spec', 0, []) \<and>
     st_status (sp_steps spec' ! 0) = StPending"
proof -
  let ?s = "control_cancel_step (st_index st) (orchestrator_new_with_control w spec)"
  let ?spec = "mark_step StInProgress None 0 spec"
  have spec: "sp_id ?spec = sp_id spec" "sp_title ?spec = sp_title spec" "st_index (sp_steps ?spec ! 0) = st_index st"
    "st_title (sp_steps ?spec ! 0) = st_title st" "sp_steps ?spec \<noteq> []"
    by (simp_all add: mark_step_def update_step_def steps)
  define w1 where "w1 = snd (oe_poll E w)"
  have poll: "oe_poll E w = ([], w1)"
    using E by (simp add: cooperative_def w1_def prod_eq_iff)
  have "quiet_call (oe_update_spec_status E ?spec (sp_steps ?spec ! 0) (st_index st)) (\<lambda>_. True)"
    using E by (simp add: cooperative_def)
  then obtain w2 where upd: "oe_update_spec_status E ?spec (sp_steps ?spec ! 0) (st_index st) w1 = (Inr (), [], w2)"
    unfolding quiet_call_def by (metis old.unit.exhaust)
  define s1 where "s1 = ?s\<lparr>oc_stack := [], oc_queue := [], oc_cancel_prefix := Some (st_index st), oc_world := w1\<rparr>"
  have process: "process_commands E (?s\<lparr>oc_stack := []\<rparr>) = (Ret False, s1)"
    by (simp add: process_commands_polled polled_def idle_def poll s1_def control_cancel_step_def
        signal_cancel_if_matches_def send_command_def orchestrator_new_with_control_def run_cancel_step_def
        seqp_def bindp_def upd_def ret_def asks_def)
  have wait: "wait_while_paused (Suc 0) E s1 = (Ret False, s1)"
    by (simp add: s1_def control_cancel_step_def signal_cancel_if_matches_def send_command_def
        orchestrator_new_with_control_def)
  note s1_simps = s1_def control_cancel_step_def signal_cancel_if_matches_def send_command_def
    orchestrator_new_with_control_def
  obtain t1 where t1: "run_step E ?spec 0 [] (st_index st) s1 = (Ret False, t1)"
    and t1_state: "oc_events t1 = [StepStatusChanged (sp_id spec) (sp_title spec) (st_index st) (st_title st)
        (st_index st) Implementor StInProgress, StepCancelled (st_index st)]" "oc_stack t1 = []" "oc_paused t1"
      "oc_event_tx t1" "oc_pending_resume t1 = Some (mark_step StPending None 0 ?spec, 0, [])"
    by (simp add: run_step_def announce_step_def emit_status_def emit_event_def send_event_def agent_call_def
        s1_simps spec upd open_step_def set_current_prefix_state_def set_current_cancel_state_def
        cancel_before_def suspend_step_def clear_cancel_prefix_def close_step_def announce_cancel_def set_paused_def
        seqp_def bindp_def upd_def ret_def asks_def)
  have stack: "oc_stack ?s = [(spec, 0, [])]"
    by (simp add: s1_simps)
  have entry: "run_entry (Suc 0) E (spec, 0, []) (?s\<lparr>oc_stack := []\<rparr>) = (Ret False, t1)"
    using t1 wait process by (simp add: bindp_def steps compose_prefix_def del: wait_while_paused.simps)
  have "run 2 E ?s = run (Suc 0) E t1"
    using stack entry by (simp add: bindp_def numeral_2_eq_2 del: run_entry.simps)
  then show ?thesis
    using t1_state spec(5)
    by (simp add: emit_event_def send_event_def mark_step_def update_step_def nth_list_update)
qed

end
