(* ===== verification/Sample_World.thy ===== *)
theory Sample_World
  imports Orchestrator_Run
begin

text \<open>
  A concrete environment: JSON values as a datatype, a clock that stands still, agents that complete
  every task with one summary and a verifier that answers \<open>verified\<close>. It shows that the hypotheses
  of the theorems about the orchestrator can hold together; the witnesses apply the theorems to it.
\<close>

datatype sample_json =
    SNull | SStr string | SArr "sample_json list" | SObj "string \<Rightarrow> sample_json option"

definition sample_api :: "sample_json json_api" where
  "sample_api = \<lparr>
     j_get = (\<lambda>v k. case v of SObj m \<Rightarrow> m k | _ \<Rightarrow> None),
     j_index = (\<lambda>v k. case v of SObj m \<Rightarrow> (case m k of Some x \<Rightarrow> x | None \<Rightarrow> SNull) | _ \<Rightarrow> SNull),
     j_as_str = (\<lambda>v. case v of SStr s \<Rightarrow> Some s | _ \<Rightarrow> None),
     j_as_bool = (\<lambda>_. None), j_as_u64 = (\<lambda>_. None), j_as_i64 = (\<lambda>_. None),
     j_as_array = (\<lambda>v. case v of SArr xs \<Rightarrow> Some xs | _ \<Rightarrow> None),
     j_as_object = (\<lambda>v. case v of SObj m \<Rightarrow> Some m | _ \<Rightarrow> None),
     j_null = SNull, j_string = SStr, j_array = SArr, j_object = SObj\<rparr>"

definition sample_summary :: task_summary where
  "sample_summary = \<lparr>ts_task_id = ''t1'', ts_step_index = ''1'', ts_summary_text = ''done'',
     ts_artifacts_touched = [], ts_tests_run = [],
     ts_verification = \<lparr>tv_status = VsPending, tv_feedback = []\<rparr>, ts_worktree = None\<rparr>"

definition sample_step :: "string \<Rightarrow> bool \<Rightarrow> sample_json spec_step" where
  "sample_step ix verify = SpecStep ix ''build'' ''do it'' [] [] [] [] False verify None StPending None None"

definition sample_spec :: "sample_json spec_sheet" where
  "sample_spec = SpecSheet ''s'' ''Sheet'' '''' [sample_step ''1'' False, sample_step ''2'' True] ''me'' 0 SNull"

definition sample_child :: "sample_json spec_sheet" where
  "sample_child = SpecSheet ''c'' ''Child'' '''' [sample_step ''1'' False] ''me'' 0 SNull"

definition sample_call :: sample_json where
  "sample_call = SObj [''name'' \<mapsto> SStr ''submit_verification'', ''arguments'' \<mapsto> SStr ''{}'']"

definition sample_task :: "task_state \<Rightarrow> sample_json task" where
  "sample_task st = (task_new ''t1'' 0)\<lparr>
     t_status := \<lparr>tk_state = st, tk_timestamp = None, tk_message = None, tk_error = None\<rparr>,
     t_metadata := Some \<lparr>tm_spec_sheet = None, tm_summary = Some SNull,
                        tm_extra = [''toolLog'' \<mapsto> SArr [sample_call]]\<rparr>\<rparr>"

definition sample_payload :: verification_tool_payload where
  "sample_payload = \<lparr>vp_status = ''verified'', vp_feedback = None, vp_end_convo = True\<rparr>"

definition sample_env :: "(sample_json, unit) orch_env" where
  "sample_env = \<lparr>oe_json = sample_api, oe_de_summary = (\<lambda>_. Inr sample_summary),
     oe_de_spec = (\<lambda>_. Inr sample_child), oe_ser_summary = (\<lambda>_. Inr SNull),
     oe_payload_json = (\<lambda>_. Inr sample_payload), oe_payload_yaml = (\<lambda>_. Inr sample_payload),
     oe_update_spec_status = (\<lambda>_ _ _ w. (Inr (), [], w)),
     oe_update_task_summary = (\<lambda>_ w. (Inr (), [], w)), oe_send_task_message = (\<lambda>_ _ w. (Inr (), [], w)),
     oe_notify_step_success = (\<lambda>_ w. (Inr (), [], w)), oe_close_task_channel = (\<lambda>_ w. (Inr (), [], w)),
     oe_execute = (\<lambda>_ _ _ _ w. (Inr (sample_task TaCompleted), [], w)),
     oe_execute_summarizer = (\<lambda>_ _ _ w. (Inr (sample_task TaCompleted), [], w)),
     oe_execute_verifier = (\<lambda>_ _ _ w. (Inr (sample_task TaCompleted), [], w)),
     oe_sleep = (\<lambda>w. ([], w)), oe_poll = (\<lambda>w. ([], w)), oe_now = (\<lambda>_. 0),
     oe_workspace_root = (\<lambda>_. ''/w'')\<rparr>"

lemma sample_verified: "map_verification_outcome ''verified'' = Verified"
  by code_simp

lemma sample_task_state [simp]: "tk_state (t_status (sample_task st)) = st"
  by (simp add: sample_task_def)

lemma sample_good: "good_task sample_env (sample_task TaCompleted)"
  by (simp add: good_task_def extract_summary_def extract_sub_spec_def metadata_summary_def
      metadata_spec_sheet_def sample_env_def sample_task_def)

lemma sample_tool_log: "tool_log_entries sample_api (sample_task st) = Some [sample_call]"
  by (simp add: tool_log_entries_def sample_task_def sample_api_def)

lemma sample_entry: "entry_name sample_api sample_call = Some ''submit_verification''"
  by (simp add: entry_name_def sample_api_def sample_call_def)

lemma sample_approves: "approving_task sample_env (sample_task TaCompleted)"
  by (simp add: approving_task_def extract_verification_payload_def sample_env_def sample_tool_log
      sample_entry sample_payload_def sample_verified)

lemma sample_cooperative: "cooperative sample_env"
  using sample_good sample_approves
  by (simp add: cooperative_def quiet_call_def sample_env_def [symmetric])
    (simp add: sample_env_def)

section \<open>Witnesses\<close>

abbreviation sample_start :: "(sample_json, unit) orch" where
  "sample_start \<equiv> orchestrator_new_with_control () sample_spec"

lemma sample_steps: "sp_steps sample_spec = [sample_step ''1'' False, sample_step ''2'' True]"
  "sp_steps sample_child = [sample_step ''1'' False]"
  by (simp_all add: sample_spec_def sample_child_def)

lemma sample_start_simps:
  "oc_stack sample_start = [(sample_spec, 0, [])]" "oc_queue sample_start = []" "oc_event_tx sample_start"
  "oc_command_rx sample_start" "calm sample_start" "pending_ok sample_start"
  by (simp_all add: orchestrator_new_with_control_def calm_def pending_ok_def)


theorem injected_sheet_runs_last_witness:
  "\<exists>t. run 4 sample_env (control_inject_split ''1'' sample_child sample_start) = (Ret (), t) \<and>
     step_log (oc_events t) =
       [(''1'', StInProgress), (''1'', StCompleted), (''2'', StInProgress), (''2'', StCompleted),
        (''1.1'', StInProgress), (''1.1'', StCompleted)]"
  using injected_sheet_runs_last [OF sample_cooperative, of sample_spec sample_child "''1''" "()"]
  by (auto simp: sample_steps sample_step_def eval_nat_numeral)

theorem resume_announced_prefix_ignored_witness:
  "run_command sample_env (CmdResumeStep (compose_prefix [] ''1'') ''go'')
     (sample_start\<lparr>oc_pending_resume := Some (sample_spec, 0, [])\<rparr>) =
   (Ret False, sample_start\<lparr>oc_pending_resume := Some (sample_spec, 0, [])\<rparr>)"
  by (rule resume_announced_prefix_ignored) simp_all

theorem cancelled_root_step_completes_run_witness:
  "\<exists>t. run 2 sample_env (control_cancel_step ''1'' sample_start) = (Ret (), t) \<and> oc_paused t \<and>
     last (oc_events t) = RunCompleted"
  using cancelled_root_step_completes_run [OF sample_cooperative sample_steps(1), of "()"]
  by (auto simp: sample_step_def)

theorem abort_stops_run_witness:
  "\<exists>t. run 1 sample_env (control_abort sample_start) = (Ret (), t) \<and> last (oc_events t) = Aborted"
proof -
  have st: "oc_stack (control_abort sample_start) = (sample_spec, 0, []) # []"
    "pending_ok (control_abort sample_start)" "oc_command_rx (control_abort sample_start)"
    "oc_event_tx (control_abort sample_start)"
    by (simp_all add: control_abort_def send_command_def signal_current_cancel_def
        orchestrator_new_with_control_def pending_ok_def)
  have "CmdAbort \<in> set (oc_queue (polled sample_env (control_abort sample_start\<lparr>oc_stack := []\<rparr>)))"
    by (simp add: polled_def idle_def sample_env_def control_abort_def send_command_def
        signal_current_cancel_def orchestrator_new_with_control_def)
  from abort_stops_run [OF st this, of 0] show ?thesis by auto
qed



theorem run_fuel_irrelevant_witness:
  "run 9 sample_env (control_abort sample_start) = run 1 sample_env (control_abort sample_start)"
proof (rule run_fuel_irrelevant)
  have "process_commands sample_env (control_abort sample_start\<lparr>oc_stack := []\<rparr>) =
      (Ret True, snd (process_commands sample_env (control_abort sample_start\<lparr>oc_stack := []\<rparr>)))"
    by (simp add: process_commands_polled polled_def idle_def sample_env_def control_abort_def send_command_def
        signal_current_cancel_def orchestrator_new_with_control_def bindp_def seqp_def emit_event_def upd_def ret_def)
  then show "fst (run 1 sample_env (control_abort sample_start)) \<noteq> Stuck"
    using run_pop_stops [of "control_abort sample_start" sample_spec 0 "[]" "[]" sample_env _ 0]
    by (simp add: control_abort_def send_command_def signal_current_cancel_def orchestrator_new_with_control_def)
qed simp

end
