(* ===== verification/Scheduler.thy ===== *)
theory Scheduler
  imports Rust_Prelude "HOL-Library.Word" "HOL-Library.Product_Lexorder"
begin

text \<open>
  \<open>mistralrs-server-scheduler/src/lib.rs\<close>: the least-recently-used scheduler that advises which
  models to evict and guards the video memory. The record has the fields of \<open>InnerState\<close>, the set of
  pinned models, the keep-alive lookup, the memory limit and the metrics. Sizes are 64-bit words with
  Rust's saturating operations; an \<open>Instant\<close> is a number. Every operation runs under its locks and is
  one step; the clock reading is an argument.
\<close>

section \<open>Saturating arithmetic\<close>

definition saturating_add :: "64 word \<Rightarrow> 64 word \<Rightarrow> 64 word" where
  "saturating_add a b = (if unat a + unat b < 2 ^ 64 then a + b else - 1)"

definition saturating_sub :: "64 word \<Rightarrow> 64 word \<Rightarrow> 64 word" where
  "saturating_sub a b = (if b \<le> a then a - b else 0)"

lemma unat_saturating_add: "unat (saturating_add a b) = min (unat a + unat b) (2 ^ 64 - 1)"
proof -
  have "unat (- 1 :: 64 word) = 2 ^ 64 - 1" by (simp add: unsigned_minus_1_eq_mask mask_eq_exp_minus_1)
  then show ?thesis
    by (auto simp: saturating_add_def unat_word_ariths)
qed

lemma unat_saturating_sub: "unat (saturating_sub a b) = unat a - unat b"
  by (auto simp: saturating_sub_def unat_sub word_le_nat_alt)

section \<open>State\<close>

record 'j model_metadata =
  md_name :: string
  md_size_bytes :: "64 word"
  md_context_length :: "32 word"
  md_quantization :: "string option"
  md_loaded :: bool
  md_keep_alive :: nat
  md_pinned :: bool
  md_parameters :: "string \<rightharpoonup> 'j"

record sched_metrics =
  mt_loaded :: nat
  mt_evicted :: nat
  mt_active :: int
  mt_vram :: int

record sched =
  sc_max_models :: nat
  sc_order :: "string list"
  sc_last_access :: "string \<rightharpoonup> nat"
  sc_sizes :: "string \<rightharpoonup> 64 word"
  sc_total :: "64 word"
  sc_pinned :: "string set"
  sc_keep_alive :: "string \<Rightarrow> nat option"
  sc_max_vram :: "64 word"
  sc_metrics :: sched_metrics

definition sched_new :: "nat \<Rightarrow> sched" where
  "sched_new n = \<lparr>sc_max_models = n, sc_order = [], sc_last_access = Map.empty, sc_sizes = Map.empty,
     sc_total = 0, sc_pinned = {}, sc_keep_alive = (\<lambda>_. None), sc_max_vram = 0,
     sc_metrics = \<lparr>mt_loaded = 0, mt_evicted = 0, mt_active = 0, mt_vram = 0\<rparr>\<rparr>"

section \<open>Operations\<close>

definition without :: "string \<Rightarrow> string list \<Rightarrow> string list" where
  "without m xs = filter (\<lambda>name. name \<noteq> m) xs"

definition touch :: "nat \<Rightarrow> string \<Rightarrow> sched \<Rightarrow> sched" where
  "touch now m s = s\<lparr>sc_order := without m (sc_order s) @ [m],
     sc_last_access := (sc_last_access s)(m \<mapsto> now)\<rparr>"

definition register_activity :: "nat \<Rightarrow> string \<Rightarrow> sched \<Rightarrow> sched" where
  "register_activity now m s = touch now m s"

text \<open>The bookkeeping of sizes when a model is loaded: the old size out, the new one in.\<close>

definition track_size :: "string \<Rightarrow> 64 word \<Rightarrow> sched \<Rightarrow> sched" where
  "track_size m sz s =
     (let t0 = (case sc_sizes s m of None \<Rightarrow> sc_total s | Some old \<Rightarrow> saturating_sub (sc_total s) old);
          t1 = saturating_add t0 sz
      in s\<lparr>sc_sizes := (sc_sizes s)(m \<mapsto> sz), sc_total := t1,
           sc_metrics := (sc_metrics s)\<lparr>mt_vram := sint t1\<rparr>\<rparr>)"

definition on_model_loaded :: "nat \<Rightarrow> 'j model_metadata \<Rightarrow> sched \<Rightarrow> sched" where
  "on_model_loaded now md s =
     (let s1 = track_size (md_name md) (md_size_bytes md) (touch now (md_name md) s);
          s2 = s1\<lparr>sc_pinned := (if md_pinned md then insert (md_name md) (sc_pinned s1)
                               else sc_pinned s1 - {md_name md})\<rparr>
      in s2\<lparr>sc_metrics := (sc_metrics s2)\<lparr>mt_loaded := mt_loaded (sc_metrics s2) + 1,
                                         mt_active := int (length (sc_order s2))\<rparr>\<rparr>)"

definition forget_size :: "string \<Rightarrow> sched \<Rightarrow> sched" where
  "forget_size m s = (case sc_sizes s m of
      None \<Rightarrow> s
    | Some sz \<Rightarrow>
        (let t = saturating_sub (sc_total s) sz
         in s\<lparr>sc_sizes := (sc_sizes s)(m := None), sc_total := t,
              sc_metrics := (sc_metrics s)\<lparr>mt_vram := sint t\<rparr>\<rparr>))"

definition on_model_unloaded :: "string \<Rightarrow> sched \<Rightarrow> sched" where
  "on_model_unloaded m s =
     (let s1 = forget_size m (s\<lparr>sc_order := without m (sc_order s),
                               sc_last_access := (sc_last_access s)(m := None)\<rparr>)
      in s1\<lparr>sc_pinned := sc_pinned s1 - {m},
            sc_metrics := (sc_metrics s1)\<lparr>mt_active := int (length (sc_order s1))\<rparr>\<rparr>)"

definition deadline :: "nat \<Rightarrow> sched \<Rightarrow> string \<Rightarrow> nat" where
  "deadline now s m = (case sc_keep_alive s m of None \<Rightarrow> now - 0 | Some t \<Rightarrow> t)"

definition last_use :: "nat \<Rightarrow> sched \<Rightarrow> string \<Rightarrow> nat" where
  "last_use now s m = (case sc_last_access s m of None \<Rightarrow> now | Some t \<Rightarrow> t)"

definition evict_key :: "nat \<Rightarrow> sched \<Rightarrow> string \<Rightarrow> bool \<times> nat \<times> nat" where
  "evict_key now s m = (m \<in> sc_pinned s, deadline now s m, last_use now s m)"

definition evict_one :: "string \<Rightarrow> sched \<Rightarrow> sched" where
  "evict_one m s = s\<lparr>sc_order := without m (sc_order s), sc_last_access := (sc_last_access s)(m := None),
     sc_metrics := (sc_metrics s)\<lparr>mt_evicted := mt_evicted (sc_metrics s) + 1\<rparr>\<rparr>"

fun evict_loop :: "nat \<Rightarrow> string list \<Rightarrow> sched \<Rightarrow> sched \<times> string list" where
  "evict_loop now [] s = (s, [])"
| "evict_loop now (m # ms) s =
     (if length (sc_order s) \<le> sc_max_models s then (s, [])
      else if m \<in> sc_pinned s then evict_loop now ms s
      else if now < deadline now s m then evict_loop now ms s
      else let (s2, es) = evict_loop now ms (evict_one m s) in (s2, m # es))"

definition advise_evict :: "nat \<Rightarrow> sched \<Rightarrow> sched \<times> string list" where
  "advise_evict now s =
     (if length (sc_order s) \<le> sc_max_models s then (s, [])
      else evict_loop now (sort_key (evict_key now s) (sc_order s)) s)"

definition set_keep_alive_lookup :: "(string \<Rightarrow> nat option) \<Rightarrow> sched \<Rightarrow> sched" where
  "set_keep_alive_lookup f s = s\<lparr>sc_keep_alive := f\<rparr>"

definition set_max_vram_bytes :: "64 word \<Rightarrow> sched \<Rightarrow> sched" where
  "set_max_vram_bytes b s = s\<lparr>sc_max_vram := b\<rparr>"

text \<open>\<open>Inl\<close> carries the numbers of the error message: usage, size and limit in megabytes.\<close>

definition can_load_model :: "string \<Rightarrow> 64 word \<Rightarrow> sched \<Rightarrow> string \<times> 64 word \<times> 64 word \<times> 64 word + unit" where
  "can_load_model m sz s =
     (if sc_max_vram s = 0 then Inr ()
      else if saturating_add (sc_total s) sz > sc_max_vram s
      then Inl (m, sc_total s div 1024 div 1024, sz div 1024 div 1024, sc_max_vram s div 1024 div 1024)
      else Inr ())"

datatype 'j sched_op =
    ScLoaded nat "'j model_metadata"
  | ScUnloaded string
  | ScEvict nat
  | ScActivity nat string
  | ScKeepAlive "string \<Rightarrow> nat option"
  | ScMaxVram "64 word"

primrec sched_step :: "'j sched_op \<Rightarrow> sched \<Rightarrow> sched" where
  "sched_step (ScLoaded t md) s = on_model_loaded t md s"
| "sched_step (ScUnloaded m) s = on_model_unloaded m s"
| "sched_step (ScEvict t) s = fst (advise_evict t s)"
| "sched_step (ScActivity t m) s = register_activity t m s"
| "sched_step (ScKeepAlive f) s = set_keep_alive_lookup f s"
| "sched_step (ScMaxVram b) s = set_max_vram_bytes b s"

lemmas sched_defs = touch_def register_activity_def track_size_def on_model_loaded_def forget_size_def
  on_model_unloaded_def set_keep_alive_lookup_def set_max_vram_bytes_def without_def

section \<open>The invariant\<close>

text \<open>
  The order has no duplicates, exactly its members have a last access, pinned models are in it and
  have a size, and the total never exceeds the sum of the recorded sizes.
\<close>

definition vram_sum :: "(string \<rightharpoonup> 64 word) \<Rightarrow> nat" where
  "vram_sum sizes = (\<Sum>m \<in> dom sizes. unat (the (sizes m)))"

definition sched_inv :: "sched \<Rightarrow> bool" where
  "sched_inv s \<longleftrightarrow> distinct (sc_order s) \<and> dom (sc_last_access s) = set (sc_order s) \<and>
     sc_pinned s \<subseteq> set (sc_order s) \<and> sc_pinned s \<subseteq> dom (sc_sizes s) \<and>
     finite (dom (sc_sizes s)) \<and> unat (sc_total s) \<le> vram_sum (sc_sizes s)"

lemma without_set [simp]: "set (without m xs) = set xs - {m}" "distinct xs \<Longrightarrow> distinct (without m xs)"
  by (auto simp: without_def)

lemma vram_sum_insert:
  assumes "finite (dom sizes)"
  shows "vram_sum (sizes(m \<mapsto> sz)) =
    vram_sum sizes - (case sizes m of None \<Rightarrow> 0 | Some old \<Rightarrow> unat old) + unat sz"
proof -
  have rest: "(\<Sum>x \<in> dom sizes - {m}. unat (the ((sizes(m \<mapsto> sz)) x))) = (\<Sum>x \<in> dom sizes - {m}. unat (the (sizes x)))"
    by (rule sum.cong) auto
  have "vram_sum (sizes(m \<mapsto> sz)) = unat sz + (\<Sum>x \<in> dom sizes - {m}. unat (the (sizes x)))"
    using assms by (simp add: vram_sum_def sum.insert_remove rest)
  moreover have "vram_sum sizes = (case sizes m of None \<Rightarrow> 0 | Some old \<Rightarrow> unat old) +
      (\<Sum>x \<in> dom sizes - {m}. unat (the (sizes x)))"
    using assms by (cases "sizes m") (auto simp: vram_sum_def sum.remove [of _ m] domIff)
  ultimately show ?thesis by simp
qed

lemma vram_sum_delete:
  assumes "finite (dom sizes)"
  shows "vram_sum (sizes(m := None)) = vram_sum sizes - (case sizes m of None \<Rightarrow> 0 | Some old \<Rightarrow> unat old)"
proof -
  have rest: "(\<Sum>x \<in> dom sizes - {m}. unat (the ((sizes(m := None)) x))) = (\<Sum>x \<in> dom sizes - {m}. unat (the (sizes x)))"
    by (rule sum.cong) auto
  show ?thesis
    using assms rest by (cases "sizes m") (auto simp: vram_sum_def sum.remove [of "dom sizes" m] domIff)
qed

lemma vram_sum_ge: "finite (dom sizes) \<Longrightarrow> sizes m = Some old \<Longrightarrow> unat old \<le> vram_sum sizes"
  unfolding vram_sum_def by (rule order_trans [OF _ member_le_sum [of m]]) auto

lemma touch_inv: "sched_inv s \<Longrightarrow> sched_inv (touch t m s)"
  by (auto simp: sched_inv_def touch_def)

lemma track_size_inv:
  "sched_inv s \<Longrightarrow> sched_inv (track_size m sz s)"
  by (auto simp: sched_inv_def track_size_def Let_def unat_saturating_add unat_saturating_sub vram_sum_insert
      split: option.splits)

lemma on_model_loaded_inv: "sched_inv s \<Longrightarrow> sched_inv (on_model_loaded t md s)"
  using track_size_inv [OF touch_inv [of s t "md_name md"], of "md_name md" "md_size_bytes md"]
  by (auto simp: sched_inv_def on_model_loaded_def track_size_def touch_def Let_def)

lemma on_model_unloaded_inv: "sched_inv s \<Longrightarrow> sched_inv (on_model_unloaded m s)"
  by (auto simp: sched_inv_def on_model_unloaded_def forget_size_def Let_def unat_saturating_sub
      vram_sum_delete split: option.splits)

section \<open>Eviction\<close>

definition evictable :: "nat \<Rightarrow> sched \<Rightarrow> string \<Rightarrow> bool" where
  "evictable now s m \<longleftrightarrow> m \<notin> sc_pinned s \<and> deadline now s m \<le> now"

lemma evict_one_simps [simp]:
  "sc_order (evict_one m s) = without m (sc_order s)" "sc_pinned (evict_one m s) = sc_pinned s"
  "sc_sizes (evict_one m s) = sc_sizes s" "sc_total (evict_one m s) = sc_total s"
  "sc_max_models (evict_one m s) = sc_max_models s"
  "dom (sc_last_access (evict_one m s)) = dom (sc_last_access s) - {m}"
  "evictable now (evict_one m s) = evictable now s"
  by (auto simp: evict_one_def evictable_def deadline_def fun_eq_iff)

lemma filter_without: "filter P (without m xs) = filter (\<lambda>x. x \<noteq> m \<and> P x) xs"
  by (auto simp: without_def intro: filter_cong)

lemma length_without: "distinct xs \<Longrightarrow> m \<in> set xs \<Longrightarrow> length xs = Suc (length (without m xs))"
proof (induction xs)
  case (Cons x xs)
  have "x = m \<Longrightarrow> without m xs = xs"
    using Cons.prems(1) by (auto simp: without_def filter_id_conv)
  then show ?case
    using Cons by (auto simp: without_def)
qed simp

lemma evict_loop_induct [consumes 1, case_names Nil enough skip evict]:
  assumes "evict_loop now ms s = (s', es)"
    and "\<And>s. P [] s s []"
    and "\<And>m ms s. length (sc_order s) \<le> sc_max_models s \<Longrightarrow> P (m # ms) s s []"
    and "\<And>m ms s s' es. \<not> evictable now s m \<Longrightarrow> evict_loop now ms s = (s', es) \<Longrightarrow> P ms s s' es \<Longrightarrow>
      P (m # ms) s s' es"
    and "\<And>m ms s s' es. sc_max_models s < length (sc_order s) \<Longrightarrow> evictable now s m \<Longrightarrow>
      evict_loop now ms (evict_one m s) = (s', es) \<Longrightarrow> P ms (evict_one m s) s' es \<Longrightarrow> P (m # ms) s s' (m # es)"
  shows "P ms s s' es"
  using assms(1)
proof (induction ms arbitrary: s s' es)
  case (Cons m ms)
  consider "length (sc_order s) \<le> sc_max_models s" | "sc_max_models s < length (sc_order s)" "\<not> evictable now s m"
    | "sc_max_models s < length (sc_order s)" "evictable now s m"
    by linarith
  then show ?case
  proof cases
    case 1
    then show ?thesis using Cons.prems assms(3) by simp
  next
    case 2
    then have "evict_loop now ms s = (s', es)"
      using Cons.prems by (auto simp: evictable_def split: if_splits)
    with 2 Cons.IH assms(4) show ?thesis by blast
  next
    case 3
    then obtain es' where "evict_loop now ms (evict_one m s) = (s', es')" "es = m # es'"
      using Cons.prems by (auto simp: evictable_def split: prod.splits)
    with 3 Cons.IH assms(5) show ?thesis by blast
  qed
qed (use assms(2) in simp)

text \<open>What the loop removes and what it leaves alone.\<close>

lemma evict_loop_frame:
  assumes "evict_loop now ms s = (s', es)"
  shows "sc_order s' = filter (\<lambda>m. m \<notin> set es) (sc_order s) \<and> set es \<subseteq> set ms \<and> (distinct ms \<longrightarrow> distinct es) \<and>
     (\<forall>m \<in> set es. evictable now s m) \<and> dom (sc_last_access s') = dom (sc_last_access s) - set es \<and>
     sc_pinned s' = sc_pinned s \<and> sc_sizes s' = sc_sizes s \<and> sc_total s' = sc_total s \<and>
     sc_max_models s' = sc_max_models s"
  using assms by (induction rule: evict_loop_induct) (auto simp: filter_without)

text \<open>It goes on until enough is freed, or nothing evictable is left, and no further.\<close>

lemma evict_loop_progress:
  assumes "evict_loop now ms s = (s', es)" "distinct (sc_order s)" "distinct ms" "set ms \<subseteq> set (sc_order s)"
  shows "(length (sc_order s') \<le> sc_max_models s \<or> (\<forall>m \<in> set ms. m \<notin> set es \<longrightarrow> \<not> evictable now s m)) \<and>
     (es \<noteq> [] \<longrightarrow> sc_max_models s \<le> length (sc_order s'))"
  using assms
proof (induction rule: evict_loop_induct)
  case (evict m ms s s' es)
  then have len: "sc_max_models s \<le> length (without m (sc_order s))"
    using length_without [of "sc_order s" m] by simp
  have "sc_max_models s \<le> length (sc_order s')" if "es = []"
    using evict_loop_frame [OF evict(3)] that len by simp
  with evict show ?case by auto
qed auto

lemma evict_loop_lru:
  assumes "evict_loop now ms s = (s', es)" "sorted (map k ms)" "e \<in> set es" "x \<in> set ms" "x \<notin> set es"
    "evictable now s x"
  shows "(k e :: bool \<times> nat \<times> nat) \<le> k x"
  using assms
proof (induction rule: evict_loop_induct)
  case (evict m ms s s' es)
  then show ?case
    using evict_loop_frame [OF evict(3)] by auto
qed auto

lemma advise_evict_inv: "sched_inv s \<Longrightarrow> sched_inv (fst (advise_evict now s))"
proof -
  assume inv: "sched_inv s"
  obtain s' es where e: "evict_loop now (sort_key (evict_key now s) (sc_order s)) s = (s', es)"
    by fastforce
  show ?thesis
    using inv evict_loop_frame [OF e] by (auto simp: advise_evict_def e sched_inv_def evictable_def)
qed

interpretation sched: op_invariant sched_step sched_inv
proof
  show "sched_inv s \<Longrightarrow> sched_inv (sched_step x s)" for s x
    by (cases x) (auto simp: on_model_loaded_inv on_model_unloaded_inv advise_evict_inv register_activity_def
        touch_inv; simp add: sched_inv_def set_keep_alive_lookup_def set_max_vram_bytes_def)+
qed

section \<open>What the scheduler guarantees\<close>

text \<open>C36: over any sequence of loads, unloads, evictions, activity and configuration, the access order
  has no duplicates, exactly its members have a last access, every pinned model is in it, and the
  tracked memory never exceeds the sum of the recorded model sizes.\<close>

theorem scheduler_invariant:
  "distinct (sc_order (fold sched_step ops (sched_new n))) \<and>
   dom (sc_last_access (fold sched_step ops (sched_new n))) = set (sc_order (fold sched_step ops (sched_new n))) \<and>
   sc_pinned (fold sched_step ops (sched_new n)) \<subseteq> set (sc_order (fold sched_step ops (sched_new n))) \<and>
   unat (sc_total (fold sched_step ops (sched_new n))) \<le> vram_sum (sc_sizes (fold sched_step ops (sched_new n)))"
proof -
  have "sched_inv (sched_new n)"
    by (simp add: sched_inv_def sched_new_def)
  from sched.run_inv [OF this, of ops] show ?thesis
    by (simp add: sched_inv_def)
qed

text \<open>C35: eviction advice frees as many models as needed and no more: it names each model once, only
  loaded ones that are neither pinned nor kept alive, the least recently needed first; the others keep
  their order; afterwards the limit is met, or only pinned and kept-alive models are left.\<close>

theorem advise_evict_correct:
  assumes inv: "sched_inv s" and e: "advise_evict now s = (s', es)"
  shows "distinct es \<and> set es \<subseteq> set (sc_order s) \<and> (\<forall>m \<in> set es. evictable now s m) \<and>
     sc_order s' = filter (\<lambda>m. m \<notin> set es) (sc_order s) \<and>
     (length (sc_order s') \<le> sc_max_models s \<or> (\<forall>m \<in> set (sc_order s'). \<not> evictable now s m)) \<and>
     (es \<noteq> [] \<longrightarrow> sc_max_models s \<le> length (sc_order s')) \<and>
     (\<forall>m \<in> set es. \<forall>x \<in> set (sc_order s'). evictable now s x \<longrightarrow>
        (deadline now s m, last_use now s m) \<le> (deadline now s x, last_use now s x))"
proof (cases "length (sc_order s) \<le> sc_max_models s")
  case True
  then show ?thesis using e by (simp add: advise_evict_def)
next
  case False
  let ?ms = "sort_key (evict_key now s) (sc_order s)"
  have l: "evict_loop now ?ms s = (s', es)"
    using e False by (simp add: advise_evict_def)
  have d: "distinct (sc_order s)" "distinct ?ms"
    using inv by (simp_all add: sched_inv_def)
  note frame = evict_loop_frame [OF l] and progress = evict_loop_progress [OF l d(1,2)]
  have lru: "(deadline now s m, last_use now s m) \<le> (deadline now s x, last_use now s x)"
    if "m \<in> set es" "x \<in> set (sc_order s')" "evictable now s x" for m x
  proof -
    have "evict_key now s m \<le> evict_key now s x"
      using that frame by (intro evict_loop_lru [OF l]) auto
    moreover have "m \<notin> sc_pinned s" "x \<notin> sc_pinned s"
      using that frame by (auto simp: evictable_def)
    ultimately show ?thesis by (simp add: evict_key_def)
  qed
  show ?thesis
    using frame progress d lru by auto
qed

definition sample_model :: "string \<Rightarrow> 64 word \<Rightarrow> bool \<Rightarrow> unit model_metadata" where
  "sample_model name bytes pinned = \<lparr>md_name = name, md_size_bytes = bytes, md_context_length = 4096,
     md_quantization = None, md_loaded = True, md_keep_alive = 0, md_pinned = pinned, md_parameters = Map.empty\<rparr>"

theorem advise_evict_correct_witness:
  "\<exists>s'. advise_evict 9 (fold sched_step
        [ScLoaded 1 (sample_model ''a'' 5 True),
         ScLoaded 2 (sample_model ''b'' 7 False)] (sched_new 1)) = (s', [''b'']) \<and>
     sc_order s' = [''a'']"
proof -
  define s where "s = fold sched_step
        [ScLoaded 1 (sample_model ''a'' 5 True),
         ScLoaded 2 (sample_model ''b'' 7 False)] (sched_new 1)"
  have inv: "sched_inv s"
    unfolding s_def by (rule sched.run_inv) (simp add: sched_inv_def sched_new_def)
  have st: "sc_order s = [''a'', ''b'']" "sc_pinned s = {''a''}" "sc_max_models s = 1"
    "sc_keep_alive s = (\<lambda>_. None)"
    by (simp_all add: s_def sched_defs sched_new_def Let_def sample_model_def)
  obtain s' es where e: "advise_evict 9 s = (s', es)" by fastforce
  note correct = advise_evict_correct [OF inv e]
  have ev: "\<not> evictable 9 s ''a''" "evictable 9 s ''b''"
    using st by (simp_all add: evictable_def deadline_def)
  have ord: "sc_order s' = filter (\<lambda>m. m \<notin> set es) [''a'', ''b'']" "distinct es" "set es \<subseteq> set [''a'', ''b'']"
    "length (sc_order s') \<le> 1 \<or> (\<forall>m \<in> set (sc_order s'). \<not> evictable 9 s m)"
    using correct [unfolded st(1,3)] by - (elim conjE, assumption)+
  have a: "''a'' \<notin> set es" using correct ev by blast
  moreover have "''b'' \<in> set es" using ord(1,4) a ev(2) by (cases "''b'' \<in> set es") simp_all
  ultimately have es: "set es = {''b''}" using ord(3) by auto
  have "es = [''b'']"
  proof (cases es)
    case (Cons x xs)
    with es ord(2) have x: "x = ''b''" and "set xs \<subseteq> {''b''}" "''b'' \<notin> set xs" by auto
    then have "set xs = {}" by (metis singletonI subset_singletonD)
    with Cons x show ?thesis by simp
  qed (use es in simp)
  with e ord(1) show ?thesis by (simp add: s_def)
qed

text \<open>A load is allowed exactly when there is no limit or the tracked memory plus the estimate,
  computed without wrap-around, stays within it.\<close>

theorem can_load_model_iff:
  "can_load_model m sz s = Inr () \<longleftrightarrow>
     sc_max_vram s = 0 \<or> min (unat (sc_total s) + unat sz) (2 ^ 64 - 1) \<le> unat (sc_max_vram s)"
  using unsigned_less [of "sc_max_vram s"]
  by (auto simp: can_load_model_def unat_saturating_add word_less_nat_alt not_less min_le_iff_disj)

end
