(* ===== verification/Osc133.thy ===== *)
theory Osc133
  imports Rust_Prelude
begin

text \<open>
  \<open>crates/sessionizer/src/osc133.rs\<close>: the streaming parser of the OSC 133 shell markers and the
  function that strips them from the output. Bytes are 8-bit characters. The parameter buffer is the
  list of the bytes stored so far (\<open>param_buf[..param_len]\<close>); an exit code is an integer in the range
  of \<open>i32\<close>.
\<close>

definition ESC :: char where "ESC = CHR 0x1B"
definition BEL :: char where "BEL = CHR 0x07"
definition BACKSLASH :: char where "BACKSLASH = CHR 0x5C"
definition RIGHT_BRACKET :: char where "RIGHT_BRACKET = CHR 0x5D"
definition PARAM_BUF_CAP :: nat where "PARAM_BUF_CAP = 64"

lemmas byte_defs = ESC_def BEL_def BACKSLASH_def RIGHT_BRACKET_def

datatype osc_state = Ground | Esc | OscParam | OscEsc

datatype osc_event = PromptStart | CommandStart | CommandExecuted | CommandFinished "int option"

datatype osc_zone = ZoneUnknown | ZonePrompt | ZoneInput | ZoneOutput

record osc_parser =
  op_state :: osc_state
  op_zone :: osc_zone
  op_params :: string

definition parser_new :: osc_parser where
  "parser_new = \<lparr>op_state = Ground, op_zone = ZoneUnknown, op_params = []\<rparr>"

section \<open>Dispatch\<close>

text \<open>\<open>str::parse::<i32>\<close>: an optional sign, at least one digit, nothing else, and in range.\<close>

definition parse_digits :: "string \<Rightarrow> int option" where
  "parse_digits ds = (if ds \<noteq> [] \<and> list_all is_digit ds then Some (int (decimal_value ds)) else None)"

definition parse_i32 :: "string \<Rightarrow> int option" where
  "parse_i32 s =
     (let r = (case s of
          [] \<Rightarrow> None
        | c # ds \<Rightarrow> if c = CHR ''-'' then map_option uminus (parse_digits ds)
                   else if c = CHR ''+'' then parse_digits ds
                   else parse_digits s)
      in case r of None \<Rightarrow> None | Some n \<Rightarrow> if - (2 ^ 31) \<le> n \<and> n < 2 ^ 31 then Some n else None)"

definition finished_code :: "string \<Rightarrow> int option" where
  "finished_code params =
     (if 6 < length params \<and> params ! 5 = CHR '';'' then parse_i32 (drop 6 params) else None)"

definition dispatch :: "osc_parser \<Rightarrow> osc_parser \<times> osc_event list" where
  "dispatch p =
     (let params = op_params p
      in if length params < 5 \<or> take 4 params \<noteq> ''133;'' then (p, [])
         else let cmd = params ! 4
           in if cmd = CHR ''A'' then (p\<lparr>op_zone := ZonePrompt\<rparr>, [PromptStart])
              else if cmd = CHR ''B'' then (p\<lparr>op_zone := ZoneInput\<rparr>, [CommandStart])
              else if cmd = CHR ''C'' then (p\<lparr>op_zone := ZoneOutput\<rparr>, [CommandExecuted])
              else if cmd = CHR ''D'' then (p\<lparr>op_zone := ZoneUnknown\<rparr>, [CommandFinished (finished_code params)])
              else (p, []))"

section \<open>The state machine\<close>

definition push_byte :: "osc_parser \<Rightarrow> char \<Rightarrow> osc_parser \<times> osc_event list" where
  "push_byte p byte = (case op_state p of
      Ground \<Rightarrow> (if byte = ESC then p\<lparr>op_state := Esc\<rparr> else p, [])
    | Esc \<Rightarrow>
        (if byte = RIGHT_BRACKET then p\<lparr>op_state := OscParam, op_params := []\<rparr>
         else p\<lparr>op_state := Ground\<rparr>, [])
    | OscParam \<Rightarrow>
        if byte = BEL then (case dispatch p of (q, es) \<Rightarrow> (q\<lparr>op_state := Ground\<rparr>, es))
        else if byte = ESC then (p\<lparr>op_state := OscEsc\<rparr>, [])
        else if length (op_params p) < PARAM_BUF_CAP then (p\<lparr>op_params := op_params p @ [byte]\<rparr>, [])
        else (p, [])
    | OscEsc \<Rightarrow>
        case (if byte = BACKSLASH then dispatch p else (p, [])) of (q, es) \<Rightarrow> (q\<lparr>op_state := Ground\<rparr>, es))"

fun osc_push :: "osc_parser \<Rightarrow> string \<Rightarrow> osc_parser \<times> osc_event list" where
  "osc_push p [] = (p, [])"
| "osc_push p (b # bs) = (let (p1, es) = push_byte p b; (p2, fs) = osc_push p1 bs in (p2, es @ fs))"

section \<open>Stripping\<close>

text \<open>The rest of the input after the terminator, as the inner loop finds it.\<close>

fun skip_sequence :: "string \<Rightarrow> string" where
  "skip_sequence [] = []"
| "skip_sequence (b # bs) =
     (if b = BEL then bs
      else if b = ESC \<and> starts_with [BACKSLASH] bs then drop 1 bs
      else skip_sequence bs)"

lemma skip_sequence_length: "length (skip_sequence bs) \<le> length bs"
  by (induction bs rule: skip_sequence.induct) auto

function strip_osc133 :: "string \<Rightarrow> string" where
  "strip_osc133 [] = []"
| "strip_osc133 (b # bs) =
     (if b = ESC \<and> starts_with [RIGHT_BRACKET] bs \<and> starts_with ''133;'' (drop 1 bs)
      then strip_osc133 (skip_sequence (drop 1 bs))
      else b # strip_osc133 bs)"
  by pat_completeness auto
termination
proof (relation "measure length")
  fix b :: char and bs :: string
  have "length (skip_sequence (drop 1 bs)) \<le> length (drop 1 bs)" by (rule skip_sequence_length)
  then show "(skip_sequence (drop 1 bs), b # bs) \<in> measure length" by simp
qed simp_all

section \<open>Chunks\<close>

lemma osc_push_append:
  "osc_push p (xs @ ys) = (let (p1, es) = osc_push p xs; (p2, fs) = osc_push p1 ys in (p2, es @ fs))"
  by (induction xs arbitrary: p) (simp_all split: prod.splits)

interpretation osc: incremental osc_push
  by unfold_locales (simp_all add: osc_push_append)


section \<open>The zone and the buffer\<close>

primrec zone_after :: "osc_event \<Rightarrow> osc_zone" where
  "zone_after PromptStart = ZonePrompt"
| "zone_after CommandStart = ZoneInput"
| "zone_after CommandExecuted = ZoneOutput"
| "zone_after (CommandFinished c) = ZoneUnknown"

lemma dispatch_cases:
  "dispatch p = (q, es) \<Longrightarrow> (q = p \<and> es = []) \<or> (\<exists>e. es = [e] \<and> q = p\<lparr>op_zone := zone_after e\<rparr>)"
  by (auto simp: dispatch_def Let_def split: if_splits)

lemma push_byte_cases:
  "push_byte p b = (q, es) \<Longrightarrow>
     (es = [] \<and> op_zone q = op_zone p) \<or> (\<exists>e. es = [e] \<and> op_zone q = zone_after e)"
  by (auto simp: push_byte_def split: osc_state.splits if_splits prod.splits dest!: dispatch_cases)

lemma osc_push_zone:
  "osc_push p bs = (q, es) \<Longrightarrow> op_zone q = (if es = [] then op_zone p else zone_after (last es))"
proof (induction bs arbitrary: p es)
  case (Cons b bs)
  then show ?case
    by (fastforce simp: Let_def split: prod.splits dest!: push_byte_cases)
qed simp

definition params_ok :: "osc_parser \<Rightarrow> bool" where
  "params_ok p \<longleftrightarrow> length (op_params p) \<le> PARAM_BUF_CAP"

lemma push_byte_params_ok: "params_ok p \<Longrightarrow> params_ok (fst (push_byte p b))"
  by (auto simp: params_ok_def push_byte_def PARAM_BUF_CAP_def split: osc_state.splits prod.splits
      dest!: dispatch_cases)

interpretation osc_buffer: op_invariant "\<lambda>b p. fst (push_byte p b)" params_ok
  by unfold_locales (rule push_byte_params_ok)

lemma osc_push_fold: "fst (osc_push p bs) = fold (\<lambda>b p. fst (push_byte p b)) bs p"
proof (induction bs arbitrary: p)
  case (Cons b bs)
  obtain q es where q: "push_byte p b = (q, es)" by fastforce
  show ?case
    using Cons.IH [of q] by (cases "osc_push q bs") (simp add: q)
qed simp

text \<open>C39: whatever bytes arrive, the parameter buffer never holds more than its 64 bytes, and the zone
  is that of the last event reported (or the old one if there was none).\<close>

theorem osc_buffer_and_zone:
  "length (op_params (fst (osc_push parser_new bs))) \<le> 64 \<and>
   op_zone (fst (osc_push parser_new bs)) =
     (if snd (osc_push parser_new bs) = [] then ZoneUnknown else zone_after (last (snd (osc_push parser_new bs))))"
proof
  have "params_ok (fold (\<lambda>b p. fst (push_byte p b)) bs parser_new)"
    by (rule osc_buffer.run_inv) (simp add: params_ok_def parser_new_def)
  then show "length (op_params (fst (osc_push parser_new bs))) \<le> 64"
    by (simp add: osc_push_fold params_ok_def PARAM_BUF_CAP_def)
  show "op_zone (fst (osc_push parser_new bs)) =
     (if snd (osc_push parser_new bs) = [] then ZoneUnknown else zone_after (last (snd (osc_push parser_new bs))))"
    using osc_push_zone [of parser_new bs] by (cases "osc_push parser_new bs") (simp add: parser_new_def)
qed

section \<open>Recognising what a shell prints\<close>

text \<open>The wire format: the parameters of each marker and its two terminators.\<close>

primrec marker_params :: "osc_event \<Rightarrow> string" where
  "marker_params PromptStart = ''133;A''"
| "marker_params CommandStart = ''133;B''"
| "marker_params CommandExecuted = ''133;C''"
| "marker_params (CommandFinished c) = (case c of None \<Rightarrow> ''133;D'' | Some n \<Rightarrow> ''133;D;'' @ int_to_string n)"

definition terminator :: "bool \<Rightarrow> string" where
  "terminator bel = (if bel then [BEL] else [ESC, BACKSLASH])"

definition marker :: "osc_event \<Rightarrow> bool \<Rightarrow> string" where
  "marker e bel = ESC # RIGHT_BRACKET # marker_params e @ terminator bel"

definition event_ok :: "osc_event \<Rightarrow> bool" where
  "event_ok e \<longleftrightarrow> (case e of CommandFinished (Some n) \<Rightarrow> - (2 ^ 31) \<le> n \<and> n < 2 ^ 31 | _ \<Rightarrow> True)"

lemma parse_digits_nat [simp]: "parse_digits (nat_to_string n) = Some (int n)"
  using nat_to_string_digits [of n] by (simp add: parse_digits_def list_all_iff)

lemma parse_i32_int:
  assumes "- (2 ^ 31) \<le> n" "n < 2 ^ 31"
  shows "parse_i32 (int_to_string n) = Some n"
proof (cases "n < 0")
  case True
  then show ?thesis using assms by (simp add: int_to_string_def parse_i32_def)
next
  case False
  obtain c ds where c: "nat_to_string (nat n) = c # ds"
    by (cases "nat_to_string (nat n)") auto
  then have "is_digit c" using nat_to_string_digits [of "nat n"] by simp
  then have "c \<noteq> CHR ''-''" "c \<noteq> CHR ''+''"
    by (auto simp: is_digit_def)
  then show ?thesis
    using False assms parse_digits_nat [of "nat n"] by (simp add: int_to_string_def parse_i32_def c)
qed

lemma length_nat_to_string: "n < 10 ^ k \<Longrightarrow> 0 < k \<Longrightarrow> length (nat_to_string n) \<le> k"
proof (induction n arbitrary: k rule: nat_to_string.induct)
  case (1 n)
  show ?case
  proof (cases "n < 10")
    case True
    then show ?thesis using 1(3) by (simp add: nat_to_string.simps)
  next
    case False
    then obtain j where j: "k = Suc j" "0 < j"
      using 1(2,3) by (cases k; cases "k - 1") auto
    then have "n div 10 < 10 ^ j" using 1(2) by auto
    from 1(1) [OF False this j(2)] show ?thesis
      using False by (subst nat_to_string.simps) (simp add: j)
  qed
qed

lemma digit_not_control: "is_digit c \<Longrightarrow> c \<noteq> ESC \<and> c \<noteq> BEL"
  by (auto simp: is_digit_def byte_defs)

lemma int_to_string_clean: "c \<in> set (int_to_string n) \<Longrightarrow> c \<noteq> ESC \<and> c \<noteq> BEL"
  using nat_to_string_digits [of "nat n"] nat_to_string_digits [of "nat (- n)"] digit_not_control
  by (auto simp: int_to_string_def byte_defs split: if_splits)

lemma int_to_string_length:
  assumes "- (2 ^ 31) \<le> n" "n < 2 ^ 31"
  shows "length (int_to_string n) \<le> 11"
  using length_nat_to_string [of "nat n" 10] length_nat_to_string [of "nat (- n)" 10] assms
  by (auto simp: int_to_string_def nat_less_iff)

lemma marker_params_clean: "c \<in> set (marker_params e) \<Longrightarrow> c \<noteq> ESC \<and> c \<noteq> BEL"
  using int_to_string_clean by (cases e) (auto simp: byte_defs split: option.splits)

lemma marker_params_length: "event_ok e \<Longrightarrow> length (marker_params e) \<le> PARAM_BUF_CAP"
  using int_to_string_length
  by (cases e) (fastforce simp: event_ok_def PARAM_BUF_CAP_def split: option.splits)+

lemma dispatch_marker:
  assumes "event_ok e" "op_params p = marker_params e"
  shows "dispatch p = (p\<lparr>op_zone := zone_after e\<rparr>, [e])"
proof (cases e)
  case (CommandFinished c)
  show ?thesis
  proof (cases c)
    case (Some n)
    have "0 < length (int_to_string n)" by (simp add: int_to_string_def)
    then show ?thesis
      using assms CommandFinished Some parse_i32_int [of n]
      by (simp add: dispatch_def finished_code_def event_ok_def)
  qed (use assms CommandFinished in \<open>simp add: dispatch_def finished_code_def\<close>)
qed (use assms in \<open>simp_all add: dispatch_def\<close>)

lemma push_params:
  "op_state p = OscParam \<Longrightarrow> \<forall>c \<in> set bs. c \<noteq> ESC \<and> c \<noteq> BEL \<Longrightarrow>
     length (op_params p) + length bs \<le> PARAM_BUF_CAP \<Longrightarrow>
     osc_push p bs = (p\<lparr>op_params := op_params p @ bs\<rparr>, [])"
  by (induction bs arbitrary: p) (simp_all add: push_byte_def)

lemma push_text: "op_state p = Ground \<Longrightarrow> ESC \<notin> set t \<Longrightarrow> osc_push p t = (p, [])"
  by (induction t arbitrary: p) (auto simp: push_byte_def)

lemma push_terminator:
  "op_state p = OscParam \<Longrightarrow> osc_push p (terminator bel) =
     (case dispatch p of (q, es) \<Rightarrow> (q\<lparr>op_state := Ground\<rparr>, es))"
  by (cases "dispatch p"; cases "dispatch (p\<lparr>op_state := OscEsc\<rparr>)")
    (auto simp: terminator_def push_byte_def byte_defs dispatch_def Let_def finished_code_def split: if_splits)

lemma push_marker:
  assumes e: "event_ok e" and g: "op_state p = Ground"
  shows "osc_push p (marker e bel) =
     (p\<lparr>op_zone := zone_after e, op_params := marker_params e\<rparr>, [e])"
proof -
  let ?p = "p\<lparr>op_state := OscParam, op_params := []\<rparr>"
  have "osc_push ?p (marker_params e) = (?p\<lparr>op_params := marker_params e\<rparr>, [])"
    using push_params [of ?p "marker_params e"] marker_params_clean marker_params_length [OF e] by simp
  moreover have "dispatch (?p\<lparr>op_params := marker_params e\<rparr>) =
      (?p\<lparr>op_params := marker_params e, op_zone := zone_after e\<rparr>, [e])"
    by (rule dispatch_marker [OF e]) simp
  ultimately have "osc_push ?p (marker_params e @ terminator bel) =
      (p\<lparr>op_zone := zone_after e, op_params := marker_params e\<rparr>, [e])"
    using g by (simp add: osc_push_append push_terminator)
  then show ?thesis
    using g by (simp add: marker_def push_byte_def Let_def)
qed

section \<open>Parsing and stripping agree\<close>

type_synonym osc_segment = "string \<times> osc_event \<times> bool"

primrec shell_stream :: "osc_segment list \<Rightarrow> string" where
  "shell_stream [] = []"
| "shell_stream (x # xs) = (case x of (t, e, bel) \<Rightarrow> t @ marker e bel) @ shell_stream xs"

lemma skip_marker:
  "\<forall>c \<in> set bs. c \<noteq> ESC \<and> c \<noteq> BEL \<Longrightarrow> skip_sequence (bs @ terminator bel @ rest) = rest"
  by (induction bs) (auto simp: terminator_def byte_defs)

lemma strip_text: "ESC \<notin> set t \<Longrightarrow> strip_osc133 (t @ rest) = t @ strip_osc133 rest"
  by (induction t) auto

lemma marker_params_start: "\<exists>r. marker_params e = ''133;'' @ r"
  by (cases e) (auto split: option.splits)

lemma strip_marker: "strip_osc133 (marker e bel @ rest) = strip_osc133 rest"
proof -
  obtain r where r: "marker_params e = ''133;'' @ r" using marker_params_start by blast
  have "skip_sequence (marker_params e @ terminator bel @ rest) = rest"
    using marker_params_clean by (intro skip_marker) blast
  then show ?thesis
    using r by (simp add: marker_def)
qed

lemma osc_stream_parse:
  assumes "\<forall>x \<in> set xs. ESC \<notin> set (fst x) \<and> event_ok (fst (snd x))" and "op_state p = Ground"
  shows "snd (osc_push p (shell_stream xs)) = map (fst \<circ> snd) xs \<and>
    op_state (fst (osc_push p (shell_stream xs))) = Ground"
  using assms
proof (induction xs arbitrary: p)
  case (Cons x xs)
  obtain t e bel where x: "x = (t, e, bel)" by (cases x)
  let ?q = "p\<lparr>op_zone := zone_after e, op_params := marker_params e\<rparr>"
  have "osc_push p (shell_stream (x # xs)) = (let (q, fs) = osc_push ?q (shell_stream xs) in (q, e # fs))"
    using Cons.prems push_marker [of e p bel] push_text [of p t]
    by (simp add: x osc_push_append split: prod.splits)
  then show ?case
    using Cons.IH [of ?q] Cons.prems by (simp add: x split: prod.splits)
qed simp

lemma osc_stream_strip:
  "\<forall>x \<in> set xs. ESC \<notin> set (fst x) \<Longrightarrow> strip_osc133 (shell_stream xs) = concat (map fst xs)"
  by (induction xs) (auto simp: strip_text strip_marker)

text \<open>C34: from output in which text without escape characters is interleaved with markers (either
  terminator, exit codes in the range of \<open>i32\<close>), the parser reports exactly the markers, in order,
  with their exit codes, and stripping leaves exactly the text.\<close>

theorem osc_stream_roundtrip:
  assumes "\<forall>x \<in> set xs. ESC \<notin> set (fst x) \<and> event_ok (fst (snd x))"
  shows "snd (osc_push parser_new (shell_stream xs)) = map (fst \<circ> snd) xs \<and>
     strip_osc133 (shell_stream xs) = concat (map fst xs)"
  using osc_stream_parse [OF assms, of parser_new] osc_stream_strip [of xs] assms
  by (simp add: parser_new_def)

theorem osc_stream_roundtrip_witness:
  "snd (osc_push parser_new (shell_stream [(''ls'', CommandExecuted, True), (''a.txt'', CommandFinished (Some (- 1)), False)])) =
     [CommandExecuted, CommandFinished (Some (- 1))]"
  using osc_stream_roundtrip [of "[(''ls'', CommandExecuted, True), (''a.txt'', CommandFinished (Some (- 1)), False)]"]
  by (simp add: event_ok_def byte_defs)

text \<open>On a stray escape character before a marker the two disagree: the parser drops the marker
  (the second escape sends it back to the ground state), the stripper still removes it, so a completed
  command can vanish from the output without its event.\<close>

theorem stray_escape_loses_event:
  assumes "ESC \<notin> set t"
  shows "snd (osc_push parser_new (ESC # marker e True @ t)) = [] \<and>
     strip_osc133 (ESC # marker e True @ t) = ESC # t"
proof
  have m: "osc_push parser_new (ESC # marker e True) = (parser_new, [])"
  proof -
    have "ESC \<notin> set (RIGHT_BRACKET # marker_params e @ [BEL])"
      using marker_params_clean by (auto simp: byte_defs)
    from push_text [OF _ this, of parser_new] show ?thesis
      by (simp add: marker_def terminator_def push_byte_def parser_new_def byte_defs Let_def)
  qed
  show "snd (osc_push parser_new (ESC # marker e True @ t)) = []"
    using osc_push_append [of parser_new "ESC # marker e True" t] push_text [of parser_new t] assms
    unfolding m by (simp add: parser_new_def)
  show "strip_osc133 (ESC # marker e True @ t) = ESC # t"
    using strip_marker [of e True t] strip_text [OF assms, of "[]"]
    by (subst strip_osc133.simps) (simp add: marker_def byte_defs)
qed

theorem stray_escape_loses_event_witness:
  "snd (osc_push parser_new (ESC # marker (CommandFinished (Some 0)) True @ ''x'')) = []"
  using stray_escape_loses_event [of "''x''"] by (simp add: ESC_def)

end
