(* ===== verification/Shell_Session.thy ===== *)
theory Shell_Session
  imports Osc133
begin

text \<open>
  The pure part of \<open>crates/sessionizer/src/manager.rs\<close>: how a persistent shell session decides that a
  command has finished (from the OSC 133 events), how its output is cleaned, how environment updates
  are tracked and quoted, and how the snapshot blocks are cut out of the shell's output.

  \<open>strip_ansi_escapes\<close> and \<open>shlex::split\<close> are libraries, arguments of the definitions that use them.
\<close>

section \<open>Completion tracking\<close>

record cmd_tracker =
  ct_started :: bool
  ct_finished :: bool
  ct_exit_code :: "int option"

definition apply_osc133_event :: "osc_event \<Rightarrow> cmd_tracker \<Rightarrow> cmd_tracker" where
  "apply_osc133_event e s = (case e of
      CommandStart \<Rightarrow> s\<lparr>ct_started := True\<rparr>
    | CommandExecuted \<Rightarrow> s\<lparr>ct_started := True\<rparr>
    | CommandFinished c \<Rightarrow> s\<lparr>ct_exit_code := c, ct_finished := True\<rparr>
    | PromptStart \<Rightarrow> if ct_started s then s\<lparr>ct_finished := True\<rparr> else s)"

definition apply_osc133_events :: "osc_event list \<Rightarrow> cmd_tracker \<Rightarrow> cmd_tracker" where
  "apply_osc133_events es s = fold apply_osc133_event es s"

definition tracker_init :: cmd_tracker where
  "tracker_init = \<lparr>ct_started = False, ct_finished = False, ct_exit_code = None\<rparr>"

text \<open>\<open>Path::file_name\<close>: the last component that is not empty or a dot, none for two dots.\<close>

definition path_file_name :: "string \<Rightarrow> string option" where
  "path_file_name path =
     (let comps = filter (\<lambda>c. c \<noteq> [] \<and> c \<noteq> ''.'') (split_on (CHR ''/'') path)
      in if comps = [] \<or> last comps = ''..'' then None else Some (last comps))"

definition shell_has_prompt_osc133 :: "string \<Rightarrow> bool" where
  "shell_has_prompt_osc133 shell_path = (case path_file_name shell_path of
      None \<Rightarrow> False | Some name \<Rightarrow> to_ascii_lowercase name = ''bash'')"

definition wrap_command_for_completion :: "string \<Rightarrow> string \<Rightarrow> string" where
  "wrap_command_for_completion shell_path command =
     (if shell_has_prompt_osc133 shell_path then command
      else concat [''{ '', command, ''; __nite_cmd_status=$?; printf '', [CHR 0x27], [BACKSLASH], ''033]133;D;%s'',
             [BACKSLASH], ''007'', [BACKSLASH], ''033]133;A'', [BACKSLASH], ''007'', [BACKSLASH], ''033]133;B'',
             [BACKSLASH], ''007'', [CHR 0x27], '' '', [CHR 0x22], ''$__nite_cmd_status'', [CHR 0x22],
             ''; unset __nite_cmd_status; }''])"

section \<open>Cleaning the output\<close>

text \<open>\<open>replace("\r\n", "\n").replace("\r", "\n")\<close>\<close>

fun normalize_newlines :: "string \<Rightarrow> string" where
  "normalize_newlines [] = []"
| "normalize_newlines (c # cs) =
     (if c = CR then LF # normalize_newlines (if starts_with [LF] cs then tl cs else cs)
      else c # normalize_newlines cs)"

text \<open>\<open>str::lines\<close> on text without carriage returns.\<close>

definition text_lines :: "string \<Rightarrow> string list" where
  "text_lines s = (let ls = split_on LF s in if last ls = [] then butlast ls else ls)"

definition is_marker_line :: "string \<Rightarrow> bool" where
  "is_marker_line l \<longleftrightarrow> contains ''__CMD_DONE_'' l \<or> contains ''__NITE_CTL__'' l"

definition is_prompt :: "string \<Rightarrow> bool" where
  "is_prompt t \<longleftrightarrow> t \<in> {''$'', ''#'', ''>'', ''%''} \<or>
     ((contains ''@'' t \<or> contains ''~'' t \<or> starts_with ''/'' t \<or> starts_with ''~/'' t) \<and>
      (ends_with ''$'' t \<or> ends_with ''#'' t \<or> ends_with ''%'' t)) \<or> t \<in> {''>'', ''>>''}"

definition is_wrapper_noise :: "string \<Rightarrow> bool" where
  "is_wrapper_noise t \<longleftrightarrow> contains ''__nite_cmd'' t \<or> contains ''__nite_code'' t \<or>
     contains ''__SHELL_READY__'' t \<or> contains ''stty -echo -echoctl'' t \<or> contains ''__START__'' t \<or>
     contains ''__DONE__'' t \<or> contains ''__NITE_CTL__'' t \<or> contains ''CMD_DONE_'' t \<or>
     (contains ''printf'' t \<and> contains ''__CMD_DONE_'' t) \<or>
     (starts_with ''<'' t \<and> (contains ''printf'' t \<or> contains ''__nite'' t \<or> contains ''__START__'' t \<or>
        contains ''__DONE__'' t))"

text \<open>
  \<open>chars().filter(|ch| !ch.is_whitespace() && quotes)\<close>: white space may be several bytes, so the scan
  goes code by code.
\<close>

function squeeze :: "string \<Rightarrow> string" where
  "squeeze [] = []"
| "squeeze (c # cs) =
     (case find (\<lambda>w. w \<noteq> [] \<and> starts_with w (c # cs)) ws_codes of
        Some w \<Rightarrow> squeeze (drop (length w) (c # cs))
      | None \<Rightarrow> if c = CHR 0x27 \<or> c = CHR 0x22 then squeeze cs else c # squeeze cs)"
  by pat_completeness auto
termination
  by (relation "measure length") (auto simp: find_Some_iff)

definition is_echo_fragment :: "string \<Rightarrow> string \<Rightarrow> bool" where
  "is_echo_fragment normalized_command t \<longleftrightarrow> starts_with ''<'' t \<and>
     (let fragment = squeeze (dropWhile (\<lambda>c. c = CHR ''<'') t)
      in fragment \<noteq> [] \<and> contains fragment normalized_command)"

text \<open>The loop over the lines; the flag is \<open>skipped_command_echo\<close>.\<close>

fun clean_lines :: "string \<Rightarrow> bool \<Rightarrow> string list \<Rightarrow> string list" where
  "clean_lines command echoed [] = []"
| "clean_lines command echoed (l # ls) =
     (let t = trim l
      in if t = [] \<or> is_prompt t \<or> is_wrapper_noise t then clean_lines command echoed ls
         else if \<not> echoed \<and> t = trim command then clean_lines command True ls
         else if is_echo_fragment (squeeze command) t then clean_lines command echoed ls
         else t # clean_lines command echoed ls)"

definition clean_shell_output :: "(string \<Rightarrow> string) \<Rightarrow> string \<Rightarrow> string \<Rightarrow> string" where
  "clean_shell_output strip_ansi output command =
     join [LF] (clean_lines command False
       (map (\<lambda>l. if is_marker_line l then [] else l) (text_lines (strip_ansi (normalize_newlines output)))))"

section \<open>Environment updates\<close>

definition shell_single_quote :: "string \<Rightarrow> string" where
  "shell_single_quote value =
     [CHR 0x27] @ concat (map (\<lambda>c. if c = CHR 0x27 then [CHR 0x27, CHR 0x22, CHR 0x27, CHR 0x22, CHR 0x27] else [c]) value)
       @ [CHR 0x27]"

definition is_ascii_alphabetic :: "char \<Rightarrow> bool" where
  "is_ascii_alphabetic c \<longleftrightarrow>
     (65 \<le> (of_char c :: nat) \<and> (of_char c :: nat) \<le> 90) \<or> (97 \<le> (of_char c :: nat) \<and> (of_char c :: nat) \<le> 122)"

definition is_valid_env_var_name :: "string \<Rightarrow> bool" where
  "is_valid_env_var_name name = (case name of
      [] \<Rightarrow> False
    | c # cs \<Rightarrow> (c = CHR ''_'' \<or> is_ascii_alphabetic c) \<and>
        list_all (\<lambda>d. d = CHR ''_'' \<or> is_ascii_alphabetic d \<or> is_digit d) cs)"

datatype env_mode = EnvNone | EnvExport | EnvUnset

text \<open>\<open>split_once('=')\<close>\<close>

definition split_once :: "char \<Rightarrow> string \<Rightarrow> (string \<times> string) option" where
  "split_once c s = (if c \<in> set s then Some (takeWhile (\<lambda>x. x \<noteq> c) s, tl (dropWhile (\<lambda>x. x \<noteq> c) s)) else None)"

fun env_updates :: "env_mode \<Rightarrow> string list \<Rightarrow> (string \<times> string option) list" where
  "env_updates mode [] = []"
| "env_updates mode (tok # toks) =
     (if tok = ''export'' then env_updates EnvExport toks
      else if tok = ''unset'' then env_updates EnvUnset toks
      else if tok \<in> {'';'', ''&&'', ''||'', ''|''} then env_updates EnvNone toks
      else (case mode of
              EnvExport \<Rightarrow> (case split_once (CHR ''='') tok of
                  Some (key, val) \<Rightarrow> if is_valid_env_var_name key then [(key, Some val)] else []
                | None \<Rightarrow> [])
            | EnvUnset \<Rightarrow> if is_valid_env_var_name tok then [(tok, None)] else []
            | EnvNone \<Rightarrow> []) @ env_updates mode toks)"

definition tracked_env_updates_from_command ::
  "(string \<Rightarrow> string list option) \<Rightarrow> string \<Rightarrow> (string \<times> string option) list" where
  "tracked_env_updates_from_command shlex command = (case shlex command of
      None \<Rightarrow> [] | Some toks \<Rightarrow> env_updates EnvNone toks)"

section \<open>Snapshot blocks\<close>

text \<open>\<open>str::rsplit_once\<close>: split at the last occurrence.\<close>

fun rsplit_once :: "'a list \<Rightarrow> 'a list \<Rightarrow> ('a list \<times> 'a list) option" where
  "rsplit_once p [] = (if p = [] then Some ([], []) else None)"
| "rsplit_once p (x # xs) = (case rsplit_once p xs of
      Some (a, b) \<Rightarrow> Some (x # a, b)
    | None \<Rightarrow> if starts_with p (x # xs) then Some ([], drop (length p) (x # xs)) else None)"

definition extract_last_marked_block :: "string \<Rightarrow> string \<Rightarrow> string \<Rightarrow> string + string" where
  "extract_last_marked_block output start_marker end_marker =
     (case rsplit_once end_marker output of
        None \<Rightarrow> Inl (''shell snapshot missing end marker '' @ end_marker)
      | Some (before_end, _) \<Rightarrow> (case rsplit_once start_marker before_end of
          None \<Rightarrow> Inl (''shell snapshot missing start marker '' @ start_marker)
        | Some (_, block) \<Rightarrow> Inr (trim block)))"

definition parse_shell_runtime_cwd :: "string \<Rightarrow> string + string" where
  "parse_shell_runtime_cwd output =
     (case rsplit_once ''__NITE_CWD_END__'' output of
        None \<Rightarrow> Inl ''shell snapshot missing cwd end marker''
      | Some (before_end, _) \<Rightarrow> (case rsplit_once ''__NITE_CWD_BEGIN__'' before_end of
          None \<Rightarrow> Inl ''shell snapshot missing cwd start marker''
        | Some (_, cwd) \<Rightarrow> Inr (trim cwd)))"

section \<open>Completion is detected\<close>

lemma apply_osc133_append:
  "apply_osc133_events (es @ fs) s = apply_osc133_events fs (apply_osc133_events es s)"
  by (simp add: apply_osc133_events_def)

text \<open>What the wrapper of \<open>wrap_command_for_completion\<close> prints after the command.\<close>

definition wrapper_output :: "int \<Rightarrow> string" where
  "wrapper_output code = marker (CommandFinished (Some code)) True @ marker PromptStart True @
     marker CommandStart True"

lemma wrapper_stream: "t @ wrapper_output code =
    shell_stream [(t, CommandFinished (Some code), True), ([], PromptStart, True), ([], CommandStart, True)]"
  by (simp add: wrapper_output_def)



section \<open>Cleaned output\<close>

lemma clean_lines_lines:
  "subseq (clean_lines command echoed ls) (map trim ls) \<and>
   (\<forall>t \<in> set (clean_lines command echoed ls). t \<noteq> [] \<and> \<not> is_prompt t \<and> \<not> is_wrapper_noise t)"
proof (induction ls arbitrary: echoed)
  case (Cons l ls)
  have "(\<exists>e. clean_lines command echoed (l # ls) = clean_lines command e ls) \<or>
      (clean_lines command echoed (l # ls) = trim l # clean_lines command echoed ls \<and>
       \<not> (trim l = [] \<or> is_prompt (trim l) \<or> is_wrapper_noise (trim l)))"
    unfolding clean_lines.simps Let_def by (metis (full_types))
  then show ?case
    using Cons.IH by (elim disjE exE) (simp_all add: list_emb_Cons)
qed simp

text \<open>Cleaning never invents or reorders output: the result consists of trimmed lines of the input,
  in order, none of them blank, a shell prompt or an internal control line of the session.\<close>

theorem clean_shell_output_lines:
  "\<exists>ts. clean_shell_output strip_ansi output command = join [LF] ts \<and>
     subseq ts (map trim (map (\<lambda>l. if is_marker_line l then [] else l)
       (text_lines (strip_ansi (normalize_newlines output))))) \<and>
     [] \<notin> set ts \<and> filter is_prompt ts = [] \<and> filter is_wrapper_noise ts = []"
  using clean_lines_lines [of command False "map (\<lambda>l. if is_marker_line l then [] else l)
      (text_lines (strip_ansi (normalize_newlines output)))"]
  by (intro exI [of _ "clean_lines command False (map (\<lambda>l. if is_marker_line l then [] else l)
      (text_lines (strip_ansi (normalize_newlines output))))"])
    (auto simp: clean_shell_output_def filter_empty_conv)

section \<open>Quoting\<close>

text \<open>A word of the POSIX shell language made of single- and double-quoted parts (no expansions).\<close>

datatype quote_state = Unquoted | InSingle | InDouble

fun sh_unquote :: "quote_state \<Rightarrow> string \<Rightarrow> string option" where
  "sh_unquote Unquoted [] = Some []"
| "sh_unquote InSingle [] = None"
| "sh_unquote InDouble [] = None"
| "sh_unquote Unquoted (c # cs) =
     (if c = CHR 0x27 then sh_unquote InSingle cs
      else if c = CHR 0x22 then sh_unquote InDouble cs
      else None)"
| "sh_unquote InSingle (c # cs) =
     (if c = CHR 0x27 then sh_unquote Unquoted cs else map_option ((#) c) (sh_unquote InSingle cs))"
| "sh_unquote InDouble (c # cs) =
     (if c = CHR 0x22 then sh_unquote Unquoted cs
      else if c = CHR ''$'' \<or> c = CHR 0x60 \<or> c = BACKSLASH then None
      else map_option ((#) c) (sh_unquote InDouble cs))"

lemma sh_unquote_body:
  "sh_unquote InSingle (concat (map (\<lambda>c. if c = CHR 0x27 then [CHR 0x27, CHR 0x22, CHR 0x27, CHR 0x22, CHR 0x27]
     else [c]) value) @ [CHR 0x27]) = Some value"
  by (induction "value") (auto simp: BACKSLASH_def)

text \<open>Quoting is faithful: the shell reads a single-quoted value, whatever bytes it contains, back as
  exactly that value, with nothing left open and nothing expanded.\<close>

theorem shell_single_quote_roundtrip: "sh_unquote Unquoted (shell_single_quote v) = Some v"
  using sh_unquote_body [of v] by (simp add: shell_single_quote_def)

lemma env_updates_valid: "(k, v) \<in> set (env_updates mode toks) \<Longrightarrow> is_valid_env_var_name k"
  by (induction mode toks rule: env_updates.induct) (auto split: if_splits env_mode.splits option.splits)

section \<open>Snapshot blocks are found\<close>

lemma rsplit_once_append:
  assumes "rsplit_once p (drop 1 (p @ post)) = None" "p \<noteq> []"
  shows "rsplit_once p (pre @ p @ post) = Some (pre, post)"
proof (induction pre)
  case Nil
  obtain c cs where p: "p = c # cs" using assms(2) by (cases p) auto
  then have "rsplit_once p (cs @ post) = None" using assms(1) by simp
  moreover have "starts_with p (c # cs @ post)" using p by (metis append_Cons starts_with_append)
  ultimately show ?case
    by (simp add: p)
qed simp

lemma rsplit_once_Some: "rsplit_once p s = Some (a, b) \<Longrightarrow> s = a @ p @ b"
proof (induction p s arbitrary: a b rule: rsplit_once.induct)
  case (2 p x xs)
  then show ?case
    by (auto split: option.splits if_splits) (metis append_take_drop_id append.left_neutral starts_with_def)
qed (simp split: if_splits)

text \<open>The block between the last pair of markers is found and trimmed, whatever the shell printed
  before it and after it, as long as the end marker does not occur again later nor the start marker
  inside the block.\<close>

theorem marked_block_found:
  assumes "start_marker \<noteq> []" "end_marker \<noteq> []"
    and "rsplit_once end_marker (drop 1 (end_marker @ post)) = None"
    and "rsplit_once start_marker (drop 1 (start_marker @ block)) = None"
  shows "extract_last_marked_block (pre @ start_marker @ block @ end_marker @ post) start_marker end_marker =
     Inr (trim block)"
  using rsplit_once_append [OF assms(3,2), of "pre @ start_marker @ block"]
    rsplit_once_append [OF assms(4,1), of pre]
  by (simp add: extract_last_marked_block_def)

theorem marked_block_found_witness:
  "extract_last_marked_block (''noise<<'' @ ''<<'' @ ''/tmp'' @ ''>>'' @ ''$'') ''<<'' ''>>'' = Inr (trim ''/tmp'')"
  by (rule marked_block_found) simp_all

end
