(* ===== verification/Managed_Nu.thy ===== *)
theory Managed_Nu
  imports Shell_Session
begin

text \<open>
  The pure part of \<open>crates/sessionizer/src/managed_nu.rs\<close>: the splitter that cuts a Nushell command line
  into top-level segments, and the registries of custom commands and aliases of a managed session. The
  embedded Nushell engine itself is a library and not modelled; \<open>shlex::split\<close> is an argument.
\<close>

section \<open>Splitting at the top level\<close>

record nu_split =
  ns_segments :: "string list"
  ns_current :: string
  ns_paren :: nat
  ns_brace :: nat
  ns_bracket :: nat
  ns_single :: bool
  ns_double :: bool
  ns_backtick :: bool
  ns_escaped :: bool
  ns_comment :: bool

definition split_start :: nu_split where
  "split_start = \<lparr>ns_segments = [], ns_current = [], ns_paren = 0, ns_brace = 0, ns_bracket = 0,
     ns_single = False, ns_double = False, ns_backtick = False, ns_escaped = False, ns_comment = False\<rparr>"

definition in_string :: "nu_split \<Rightarrow> bool" where
  "in_string s \<longleftrightarrow> ns_single s \<or> ns_double s \<or> ns_backtick s"

definition nested :: "nu_split \<Rightarrow> bool" where
  "nested s \<longleftrightarrow> 0 < ns_paren s \<or> 0 < ns_brace s \<or> 0 < ns_bracket s"

definition push_char :: "char \<Rightarrow> nu_split \<Rightarrow> nu_split" where
  "push_char c s = s\<lparr>ns_current := ns_current s @ [c]\<rparr>"

text \<open>Ends the current segment, dropping it when blank.\<close>

definition flush_segment :: "nu_split \<Rightarrow> nu_split" where
  "flush_segment s = s\<lparr>ns_segments := ns_segments s @ filter (\<lambda>t. t \<noteq> []) [trim (ns_current s)], ns_current := []\<rparr>"

definition split_char :: "char \<Rightarrow> nu_split \<Rightarrow> nu_split" where
  "split_char c s =
     (if ns_comment s then (if c = LF then s\<lparr>ns_comment := False\<rparr> else s)
      else if ns_escaped s then (push_char c s)\<lparr>ns_escaped := False\<rparr>
      else if c = BACKSLASH \<and> (ns_double s \<or> ns_backtick s) then (push_char c s)\<lparr>ns_escaped := True\<rparr>
      else if c = CHR ''#'' \<and> \<not> in_string s \<and> \<not> nested s then s\<lparr>ns_comment := True\<rparr>
      else if c = CHR 0x27 \<and> \<not> ns_double s \<and> \<not> ns_backtick s
      then push_char c (s\<lparr>ns_single := \<not> ns_single s\<rparr>)
      else if c = CHR 0x22 \<and> \<not> ns_single s \<and> \<not> ns_backtick s
      then push_char c (s\<lparr>ns_double := \<not> ns_double s\<rparr>)
      else if c = CHR 0x60 \<and> \<not> ns_single s \<and> \<not> ns_double s
      then push_char c (s\<lparr>ns_backtick := \<not> ns_backtick s\<rparr>)
      else if c = CHR ''{'' \<and> \<not> in_string s then push_char c (s\<lparr>ns_brace := ns_brace s + 1\<rparr>)
      else if c = CHR ''}'' \<and> \<not> in_string s then push_char c (s\<lparr>ns_brace := ns_brace s - 1\<rparr>)
      else if c = CHR ''('' \<and> \<not> in_string s then push_char c (s\<lparr>ns_paren := ns_paren s + 1\<rparr>)
      else if c = CHR '')'' \<and> \<not> in_string s then push_char c (s\<lparr>ns_paren := ns_paren s - 1\<rparr>)
      else if c = CHR ''['' \<and> \<not> in_string s then push_char c (s\<lparr>ns_bracket := ns_bracket s + 1\<rparr>)
      else if c = CHR '']'' \<and> \<not> in_string s then push_char c (s\<lparr>ns_bracket := ns_bracket s - 1\<rparr>)
      else if c = CHR '';'' \<and> \<not> in_string s \<and> \<not> nested s then flush_segment s
      else push_char c s)"

definition split_top_level_segments :: "string \<Rightarrow> string list" where
  "split_top_level_segments source = ns_segments (flush_segment (fold split_char source split_start))"

section \<open>Definitions and aliases\<close>

definition strip_prefix :: "'a list \<Rightarrow> 'a list \<Rightarrow> 'a list option" where
  "strip_prefix p s = (if starts_with p s then Some (drop (length p) s) else None)"

definition or_else :: "'a option \<Rightarrow> 'a option \<Rightarrow> 'a option" where
  "or_else a b = (case a of None \<Rightarrow> b | Some x \<Rightarrow> Some x)"

text \<open>\<open>str::split_whitespace\<close>; the first argument is the token being read.\<close>

function split_ws :: "string \<Rightarrow> string \<Rightarrow> string list" where
  "split_ws cur [] = (if cur = [] then [] else [cur])"
| "split_ws cur (c # cs) =
     (case find (\<lambda>w. w \<noteq> [] \<and> starts_with w (c # cs)) ws_codes of
        Some w \<Rightarrow> (if cur = [] then [] else [cur]) @ split_ws [] (drop (length w) (c # cs))
      | None \<Rightarrow> split_ws (cur @ [c]) cs)"
  by pat_completeness auto
termination
  by (relation "measure (\<lambda>(cur, s). length s)") (auto simp: find_Some_iff)

definition extract_def_name :: "string \<Rightarrow> string option" where
  "extract_def_name source =
     Option.bind (or_else (strip_prefix ''export def '' source) (strip_prefix ''def '' source))
       (\<lambda>rest. find (\<lambda>tok. \<not> starts_with ''-'' tok) (split_ws [] rest))"

definition extract_alias_parts :: "string \<Rightarrow> (string \<times> string) option" where
  "extract_alias_parts source =
     Option.bind (or_else (strip_prefix ''export alias '' source) (strip_prefix ''alias '' source))
       (\<lambda>rest. map_option (\<lambda>(name_part, expansion). (trim name_part, trim expansion)) (split_once (CHR ''='') rest))"

record nu_registry =
  nr_custom_commands :: "string list"
  nr_aliases :: "(string \<times> string) list"

definition register_def :: "string \<Rightarrow> nu_registry \<Rightarrow> nu_registry" where
  "register_def source r = (case extract_def_name source of
      None \<Rightarrow> r
    | Some name \<Rightarrow> r\<lparr>nr_custom_commands :=
        filter (\<lambda>existing. extract_def_name existing \<noteq> Some name) (nr_custom_commands r) @ [source]\<rparr>)"

definition register_alias :: "string \<Rightarrow> string \<Rightarrow> nu_registry \<Rightarrow> nu_registry" where
  "register_alias name expansion r =
     r\<lparr>nr_aliases := filter (\<lambda>a. fst a \<noteq> name) (nr_aliases r) @ [(name, expansion)]\<rparr>"

datatype nu_op = NuDef string | NuAlias string string

primrec nu_step :: "nu_op \<Rightarrow> nu_registry \<Rightarrow> nu_registry" where
  "nu_step (NuDef source) r = register_def source r"
| "nu_step (NuAlias name expansion) r = register_alias name expansion r"

definition is_persistent_variable_name :: "string \<Rightarrow> bool" where
  "is_persistent_variable_name name \<longleftrightarrow> name \<notin> {''$env'', ''$nu'', ''$in''}"

definition is_replay_journal_segment :: "string \<Rightarrow> bool" where
  "is_replay_journal_segment t \<longleftrightarrow>
     starts_with ''overlay '' t \<or> starts_with ''module '' t \<or> starts_with ''use '' t \<or>
     starts_with ''source '' t \<or> starts_with ''source-env '' t \<or> starts_with ''export use '' t \<or>
     starts_with ''export module '' t \<or> starts_with ''export extern '' t \<or> starts_with ''export const '' t \<or>
     starts_with ''const '' t \<or> t = ''hide-env PWD'' \<or> t = ''hide-env '' @ [CHR 0x27] @ ''PWD'' @ [CHR 0x27] \<or>
     t = ''hide-env '' @ [CHR 0x22] @ ''PWD'' @ [CHR 0x22]"

definition token_at :: "string list \<Rightarrow> nat \<Rightarrow> string option" where
  "token_at toks i = (if i < length toks then Some (toks ! i) else None)"

definition replay_dependency_candidates :: "(string \<Rightarrow> string list option) \<Rightarrow> string \<Rightarrow> string list" where
  "replay_dependency_candidates shlex t = (case shlex t of
      None \<Rightarrow> []
    | Some [] \<Rightarrow> []
    | Some (first # toks) \<Rightarrow>
        (let all = first # toks;
             candidate =
               (if first = ''source'' \<or> first = ''source-env'' \<or> first = ''use'' then token_at all 1
                else if first = ''export'' \<or> first = ''overlay''
                then (if token_at all 1 = Some ''use'' then token_at all 2 else None)
                else None)
         in case candidate of
              None \<Rightarrow> []
            | Some path \<Rightarrow> if CHR ''/'' \<in> set path \<or> ends_with ''.nu'' path \<or> starts_with ''.'' path
                          then [path] else []))"

section \<open>The state of the splitter\<close>

text \<open>At most one kind of quote is open, and an escape is pending only inside a double or backtick
  quote; no finished segment is blank.\<close>

definition split_inv :: "nu_split \<Rightarrow> bool" where
  "split_inv s \<longleftrightarrow> \<not> (ns_single s \<and> ns_double s) \<and> \<not> (ns_single s \<and> ns_backtick s) \<and>
     \<not> (ns_double s \<and> ns_backtick s) \<and>
     (ns_escaped s \<longrightarrow> ns_double s \<or> ns_backtick s) \<and> (ns_comment s \<longrightarrow> \<not> in_string s \<and> \<not> nested s) \<and>
     [] \<notin> set (ns_segments s)"

lemma push_char_inv [simp]: "split_inv (push_char c s) = split_inv s"
  by (simp add: split_inv_def push_char_def in_string_def nested_def)

lemma flush_segment_inv: "split_inv s \<Longrightarrow> split_inv (flush_segment s)"
  by (simp add: split_inv_def flush_segment_def in_string_def nested_def)

lemma split_inv_if: "(b \<Longrightarrow> split_inv x) \<Longrightarrow> (\<not> b \<Longrightarrow> split_inv y) \<Longrightarrow> split_inv (if b then x else y)"
  by simp

lemma split_char_inv:
  assumes "split_inv s"
  shows "split_inv (split_char c s)"
proof -
  have upd: "split_inv (s\<lparr>ns_brace := n\<rparr>)" "split_inv (s\<lparr>ns_paren := n\<rparr>)" "split_inv (s\<lparr>ns_bracket := n\<rparr>)"
    if "\<not> ns_comment s" for n
    using assms that by (simp_all add: split_inv_def)
  have quote: "split_inv (s\<lparr>ns_single := b\<rparr>)" if "\<not> ns_comment s" "\<not> ns_escaped s" "\<not> ns_double s" "\<not> ns_backtick s" for b
    using assms that by (simp add: split_inv_def)
  have dquote: "split_inv (s\<lparr>ns_double := b\<rparr>)" if "\<not> ns_comment s" "\<not> ns_escaped s" "\<not> ns_single s" "\<not> ns_backtick s" for b
    using assms that by (simp add: split_inv_def)
  have bquote: "split_inv (s\<lparr>ns_backtick := b\<rparr>)" if "\<not> ns_comment s" "\<not> ns_escaped s" "\<not> ns_single s" "\<not> ns_double s" for b
    using assms that by (simp add: split_inv_def)
  have esc: "split_inv ((push_char c s)\<lparr>ns_escaped := False\<rparr>)" "split_inv (s\<lparr>ns_comment := False\<rparr>)"
    using assms by (simp_all add: split_inv_def push_char_def in_string_def nested_def)
  have esc2: "split_inv ((push_char d s)\<lparr>ns_escaped := True\<rparr>)" if "ns_double s \<or> ns_backtick s" for d
    using assms that by (simp add: split_inv_def push_char_def in_string_def nested_def)
  have com: "split_inv (s\<lparr>ns_comment := True\<rparr>)" if "\<not> in_string s" "\<not> nested s"
    using assms that by (simp add: split_inv_def in_string_def nested_def)
  show ?thesis
    unfolding split_char_def
    by (intro split_inv_if)
      (simp_all only: push_char_inv assms esc upd esc2 com quote dquote bquote flush_segment_inv [OF assms] simp_thms)
qed

interpretation nu_split: op_invariant split_char split_inv
  by unfold_locales (rule split_char_inv)

section \<open>What the splitter returns\<close>

definition shift :: "string list \<Rightarrow> nu_split \<Rightarrow> nu_split" where
  "shift xs s = s\<lparr>ns_segments := xs @ ns_segments s\<rparr>"

lemma shift_simps [simp]:
  "ns_comment (shift xs s) = ns_comment s" "ns_escaped (shift xs s) = ns_escaped s"
  "ns_single (shift xs s) = ns_single s" "ns_double (shift xs s) = ns_double s"
  "ns_backtick (shift xs s) = ns_backtick s" "ns_brace (shift xs s) = ns_brace s"
  "ns_paren (shift xs s) = ns_paren s" "ns_bracket (shift xs s) = ns_bracket s"
  "in_string (shift xs s) = in_string s" "nested (shift xs s) = nested s"
  "push_char c (shift xs s) = shift xs (push_char c s)"
  "flush_segment (shift xs s) = shift xs (flush_segment s)"
  "(shift xs s)\<lparr>ns_comment := b\<rparr> = shift xs (s\<lparr>ns_comment := b\<rparr>)"
  "(shift xs s)\<lparr>ns_escaped := b\<rparr> = shift xs (s\<lparr>ns_escaped := b\<rparr>)"
  "(shift xs s)\<lparr>ns_single := b\<rparr> = shift xs (s\<lparr>ns_single := b\<rparr>)"
  "(shift xs s)\<lparr>ns_double := b\<rparr> = shift xs (s\<lparr>ns_double := b\<rparr>)"
  "(shift xs s)\<lparr>ns_backtick := b\<rparr> = shift xs (s\<lparr>ns_backtick := b\<rparr>)"
  "(shift xs s)\<lparr>ns_brace := n\<rparr> = shift xs (s\<lparr>ns_brace := n\<rparr>)"
  "(shift xs s)\<lparr>ns_paren := n\<rparr> = shift xs (s\<lparr>ns_paren := n\<rparr>)"
  "(shift xs s)\<lparr>ns_bracket := n\<rparr> = shift xs (s\<lparr>ns_bracket := n\<rparr>)"
  by (simp_all add: shift_def in_string_def nested_def push_char_def flush_segment_def)

lemma split_char_shift: "split_char c (shift xs s) = shift xs (split_char c s)"
  unfolding split_char_def shift_simps by (simp only: if_distrib [of "shift xs"])

lemma fold_shift: "fold split_char t (shift xs s) = shift xs (fold split_char t s)"
  by (induction t arbitrary: s) (simp_all add: split_char_shift)

text \<open>Text that ends outside quotes, brackets and comments and has no separator of its own.\<close>

definition self_contained :: "string \<Rightarrow> bool" where
  "self_contained t \<longleftrightarrow> fold split_char t split_start = split_start\<lparr>ns_current := t\<rparr>"

lemma split_separator:
  "flush_segment (split_start\<lparr>ns_current := t\<rparr>) = shift (filter (\<lambda>x. x \<noteq> []) [trim t]) split_start"
  "split_char (CHR '';'') (split_start\<lparr>ns_current := t\<rparr>) = shift (filter (\<lambda>x. x \<noteq> []) [trim t]) split_start"
  by (simp_all add: split_char_def flush_segment_def shift_def split_start_def in_string_def nested_def BACKSLASH_def)

lemma fold_join_segments:
  "segs \<noteq> [] \<Longrightarrow> \<forall>t \<in> set segs. self_contained t \<Longrightarrow>
     flush_segment (fold split_char (join '';'' segs) split_start) =
       shift (filter (\<lambda>x. x \<noteq> []) (map trim segs)) split_start"
proof (induction segs)
  case (Cons t segs)
  then have t: "fold split_char t split_start = split_start\<lparr>ns_current := t\<rparr>"
    by (simp add: self_contained_def)
  show ?case
  proof (cases segs)
    case Nil
    then show ?thesis using t split_separator(1) [of t] by simp
  next
    case (Cons u us)
    then have "flush_segment (fold split_char (join '';'' (t # segs)) split_start) =
        shift (filter (\<lambda>x. x \<noteq> []) [trim t]) (flush_segment (fold split_char (join '';'' segs) split_start))"
      by (simp add: t split_separator(2) fold_shift del: filter.simps)
    then show ?thesis
      using Cons.IH Cons.prems Cons by (simp add: shift_def)
  qed
qed simp

text \<open>Segments that are complete in themselves (quotes, brackets and braces closed, separators only
  inside them) and are joined with semicolons are split apart again at exactly those semicolons:
  the result is their trimmed texts, in order, blank ones dropped.\<close>

theorem split_join_segments:
  assumes "segs \<noteq> []" "\<forall>t \<in> set segs. self_contained t"
  shows "split_top_level_segments (join '';'' segs) = filter (\<lambda>t. t \<noteq> []) (map trim segs)"
  using fold_join_segments [OF assms]
  by (simp add: split_top_level_segments_def shift_def split_start_def)

theorem split_join_segments_witness:
  "split_top_level_segments (join '';'' [''if x { cd a; pwd }'', ''echo (1; 2)'']) =
     filter (\<lambda>t. t \<noteq> []) (map trim [''if x { cd a; pwd }'', ''echo (1; 2)''])"
proof (rule split_join_segments)
  show "\<forall>t \<in> set [''if x { cd a; pwd }'', ''echo (1; 2)'']. self_contained t"
    by (simp add: self_contained_def split_char_def push_char_def in_string_def nested_def split_start_def
        BACKSLASH_def)
qed simp

text \<open>Whatever the input, at most one kind of quote is ever open, an escape is pending only inside a
  double or backtick quote, comments only start at the top level, and no blank segment is produced.\<close>

theorem splitter_invariant:
  "split_inv (fold split_char source split_start) \<and> [] \<notin> set (split_top_level_segments source)"
proof -
  have inv: "split_inv (fold split_char source split_start)"
    by (rule nu_split.run_inv) (simp add: split_inv_def split_start_def)
  then have "split_inv (flush_segment (fold split_char source split_start))"
    by (rule flush_segment_inv)
  then show ?thesis
    using inv by (simp add: split_top_level_segments_def split_inv_def)
qed

section \<open>The registries\<close>

definition registry_ok :: "nu_registry \<Rightarrow> bool" where
  "registry_ok r \<longleftrightarrow> distinct (map extract_def_name (nr_custom_commands r)) \<and>
     None \<notin> extract_def_name ` set (nr_custom_commands r) \<and> distinct (map fst (nr_aliases r))"

lemma registry_step: "registry_ok r \<Longrightarrow> registry_ok (nu_step x r)"
  by (cases x)
    (auto simp: registry_ok_def register_def_def register_alias_def distinct_map inj_on_def image_iff
      split: option.splits; metis)+

interpretation registry: op_invariant nu_step registry_ok
  by unfold_locales (rule registry_step)

text \<open>A managed session keeps at most one definition of each custom command and one alias of each
  name, whatever is defined in whatever order, and every kept command has a name.\<close>

theorem registry_one_per_name:
  "registry_ok (fold nu_step ops \<lparr>nr_custom_commands = [], nr_aliases = []\<rparr>)"
  by (rule registry.run_inv) (simp add: registry_ok_def)

end
