(* ===== verification/Session_Tree.thy ===== *)
theory Session_Tree
  imports Rust_Prelude "HOL-Library.List_Lexorder" "HOL-Library.Char_ord"
begin

text \<open>
  \<open>src/app/orchestrator/session_manager.rs\<close>: the tree of agent sessions that the terminal UI shows. The
  orchestrator's flat entries are grouped by sheet, sorted by prefix and inserted along their prefix;
  the selection is an index into the preorder of the tree. A session is its plain fields (a record) and
  its children; an \<open>Instant\<close> is a number of nanoseconds. The drawing of the list items is not modelled, only the order
  in which they are drawn (\<open>flatten\<close>).
\<close>

section \<open>Data\<close>

datatype session_status =
    SsAttached | SsDetached | SsRunning | SsPending | SsInProgress | SsCompleted | SsFailed

datatype session_role = SrImplementor | SrSummarizer | SrVerifier | SrMerge

record session_fields =
  sf_id :: nat
  sf_name :: string
  sf_status :: session_status
  sf_group :: "string option"
  sf_prefix :: "string option"
  sf_started_at :: "nat option"
  sf_completed_at :: "nat option"
  sf_role :: "session_role option"
  sf_worktree_branch :: "string option"
  sf_worktree_path :: "string option"

datatype session = Session (sn_fields: session_fields) (sn_children: "session list")

record orchestrator_entry =
  en_spec_id :: string
  en_spec_title :: string
  en_prefix :: string
  en_step_title :: string
  en_role :: session_role
  en_status :: session_status
  en_started_at :: "nat option"
  en_completed_at :: "nat option"
  en_worktree_branch :: "string option"
  en_worktree_path :: "string option"

record session_manager =
  sm_sessions :: "session list"
  sm_selected_index :: nat
  sm_list_state :: "nat option"
  sm_orchestrator_entries :: "orchestrator_entry list"

definition session_manager_new :: session_manager where
  "session_manager_new = \<lparr>sm_sessions = [], sm_selected_index = 0, sm_list_state = None,
     sm_orchestrator_entries = []\<rparr>"

section \<open>Building the tree\<close>

definition orchestrator_group :: string where
  "orchestrator_group = ''orchestrator''"

definition root_session :: "string \<Rightarrow> session" where
  "root_session title = Session \<lparr>sf_id = 0, sf_name = ''Spec: '' @ title, sf_status = SsPending,
     sf_group = Some orchestrator_group, sf_prefix = None, sf_started_at = None, sf_completed_at = None,
     sf_role = None, sf_worktree_branch = None, sf_worktree_path = None\<rparr> []"

definition new_child :: "string \<Rightarrow> orchestrator_entry \<Rightarrow> session" where
  "new_child key e = Session \<lparr>sf_id = 0, sf_name = ''Step '' @ key, sf_status = SsPending,
     sf_group = Some orchestrator_group, sf_prefix = Some key, sf_started_at = None, sf_completed_at = None,
     sf_role = Some (en_role e), sf_worktree_branch = en_worktree_branch e,
     sf_worktree_path = en_worktree_path e\<rparr> []"

text \<open>The separator of the name, a space, a single right-pointing quotation mark and a space.\<close>

definition name_separator :: string where
  "name_separator = [CHR 0x20, CHR 0xE2, CHR 0x80, CHR 0xBA, CHR 0x20]"

definition settle_node :: "orchestrator_entry \<Rightarrow> session_fields \<Rightarrow> session_fields" where
  "settle_node e f = f\<lparr>
     sf_name := en_prefix e @ name_separator @ en_step_title e,
     sf_status := en_status e, sf_role := Some (en_role e),
     sf_worktree_branch := en_worktree_branch e, sf_worktree_path := en_worktree_path e,
     sf_started_at := (if sf_started_at f = None then en_started_at e else sf_started_at f),
     sf_completed_at := (if en_completed_at e \<noteq> None then en_completed_at e else sf_completed_at f)\<rparr>"

definition child_index :: "string \<Rightarrow> session list \<Rightarrow> nat option" where
  "child_index key cs = find (\<lambda>i. sf_prefix (sn_fields (cs ! i)) = Some key) [0..<length cs]"

text \<open>The walk along the segments; the first list is the path walked so far.\<close>

fun insert_path :: "orchestrator_entry \<Rightarrow> string list \<Rightarrow> string list \<Rightarrow> session \<Rightarrow> session" where
  "insert_path e path [] (Session f cs) = Session (settle_node e f) cs"
| "insert_path e path (seg # segs) (Session f cs) =
     (let path' = path @ [seg]; key = join ''.'' path'
      in case child_index key cs of
           Some i \<Rightarrow> Session f (cs[i := insert_path e path' segs (cs ! i)])
         | None \<Rightarrow> Session f (cs @ [insert_path e path' segs (new_child key e)]))"

definition insert_entry :: "session \<Rightarrow> orchestrator_entry \<Rightarrow> session" where
  "insert_entry root e =
     (if en_prefix e = []
      then Session ((sn_fields root)\<lparr>sf_status := en_status e, sf_started_at := en_started_at e,
             sf_completed_at := en_completed_at e, sf_role := Some (en_role e),
             sf_worktree_branch := en_worktree_branch e, sf_worktree_path := en_worktree_path e\<rparr>)
             (sn_children root)
      else insert_path e [] (split_on (CHR ''.'') (en_prefix e)) root)"

fun assign_ids :: "nat \<Rightarrow> session list \<Rightarrow> session list \<times> nat" where
  "assign_ids n [] = ([], n)"
| "assign_ids n (Session f cs # ss) =
     (let (cs', m) = assign_ids (n + 1) cs; (ss', k) = assign_ids m ss
      in (Session (f\<lparr>sf_id := n\<rparr>) cs' # ss', k))"

fun count_nodes :: "session \<Rightarrow> nat" where
  "count_nodes (Session f cs) = 1 + sum_list (map count_nodes cs)"

definition get_total_session_count :: "session_manager \<Rightarrow> nat" where
  "get_total_session_count m = sum_list (map count_nodes (sm_sessions m))"

text \<open>The groups of \<open>BTreeMap\<close>, in the order of the sheet ids; the title is that of the first entry.\<close>

definition spec_tree :: "orchestrator_entry list \<Rightarrow> string \<Rightarrow> session" where
  "spec_tree entries spec_id =
     (let steps = filter (\<lambda>e. en_spec_id e = spec_id) entries
      in foldl insert_entry (root_session (en_spec_title (hd steps))) (sort_key en_prefix steps))"

definition update_from_orchestrator :: "orchestrator_entry list \<Rightarrow> session_manager \<Rightarrow> session_manager" where
  "update_from_orchestrator entries m0 =
     (let m = m0\<lparr>sm_orchestrator_entries := entries, sm_sessions := []\<rparr>
      in if entries = [] then m\<lparr>sm_list_state := None\<rparr>
         else let roots = map (spec_tree entries) (sort (remdups (map en_spec_id entries)));
                  m1 = m\<lparr>sm_sessions := fst (assign_ids 0 roots)\<rparr>;
                  total = get_total_session_count m1
              in if total = 0 then m1\<lparr>sm_selected_index := 0, sm_list_state := None\<rparr>
                 else let i = min (sm_selected_index m1) (total - 1)
                      in m1\<lparr>sm_selected_index := i, sm_list_state := Some i\<rparr>)"

definition clear_orchestrator_entries :: "session_manager \<Rightarrow> session_manager" where
  "clear_orchestrator_entries m =
     (let m1 = m\<lparr>sm_orchestrator_entries := [],
                 sm_sessions := filter (\<lambda>s. sf_group (sn_fields s) \<noteq> Some orchestrator_group) (sm_sessions m)\<rparr>
      in if sm_sessions m1 = [] then m1\<lparr>sm_list_state := None, sm_selected_index := 0\<rparr> else m1)"

section \<open>Navigation\<close>

definition select_index :: "nat \<Rightarrow> session_manager \<Rightarrow> session_manager" where
  "select_index i m = m\<lparr>sm_selected_index := i, sm_list_state := Some i\<rparr>"

definition next_session :: "session_manager \<Rightarrow> session_manager" where
  "next_session m =
     (let total = get_total_session_count m
      in if 0 < total then select_index ((sm_selected_index m + 1) mod total) m else m)"

definition previous_session :: "session_manager \<Rightarrow> session_manager" where
  "previous_session m =
     (let total = get_total_session_count m
      in if 0 < total
         then select_index (if sm_selected_index m = 0 then total - 1 else sm_selected_index m - 1) m else m)"

text \<open>The search for a preorder index: the path found, and the nodes counted so far.\<close>

fun dfs :: "nat \<Rightarrow> nat \<Rightarrow> nat \<Rightarrow> session list \<Rightarrow> nat list option \<times> nat" where
  "dfs target idx current [] = (None, current)"
| "dfs target idx current (Session f cs # ss) =
     (if current = target then (Some [idx], current)
      else case dfs target 0 (current + 1) cs of
          (Some p, c) \<Rightarrow> (Some (idx # p), c)
        | (None, c) \<Rightarrow> dfs target (idx + 1) c ss)"

definition index_path :: "session list \<Rightarrow> nat \<Rightarrow> nat list option" where
  "index_path ss target = fst (dfs target 0 0 ss)"

fun session_from_path :: "session list \<Rightarrow> nat list \<Rightarrow> session option" where
  "session_from_path ss [] = None"
| "session_from_path ss [i] = (if i < length ss then Some (ss ! i) else None)"
| "session_from_path ss (i # j # p) =
     (if i < length ss then session_from_path (sn_children (ss ! i)) (j # p) else None)"

text \<open>\<open>session_from_path_mut\<close> followed by an assignment: the node at the path replaced.\<close>

fun update_at_path :: "(session \<Rightarrow> session) \<Rightarrow> nat list \<Rightarrow> session list \<Rightarrow> session list" where
  "update_at_path g [] ss = ss"
| "update_at_path g [i] ss = (if i < length ss then ss[i := g (ss ! i)] else ss)"
| "update_at_path g (i # j # p) ss =
     (if i < length ss
      then ss[i := Session (sn_fields (ss ! i)) (update_at_path g (j # p) (sn_children (ss ! i)))] else ss)"

fun remove_at_path :: "nat list \<Rightarrow> session list \<Rightarrow> session list" where
  "remove_at_path [] ss = ss"
| "remove_at_path [i] ss = take i ss @ drop (i + 1) ss"
| "remove_at_path (i # j # p) ss =
     (if i < length ss
      then ss[i := Session (sn_fields (ss ! i)) (remove_at_path (j # p) (sn_children (ss ! i)))] else ss)"

definition get_selected_session :: "session_manager \<Rightarrow> session option" where
  "get_selected_session m =
     Option.bind (index_path (sm_sessions m) (sm_selected_index m)) (session_from_path (sm_sessions m))"

primrec toggle_status :: "session_status \<Rightarrow> session_status" where
  "toggle_status SsAttached = SsDetached"
| "toggle_status SsDetached = SsAttached"
| "toggle_status SsRunning = SsRunning"
| "toggle_status SsPending = SsPending"
| "toggle_status SsInProgress = SsInProgress"
| "toggle_status SsCompleted = SsCompleted"
| "toggle_status SsFailed = SsFailed"

definition toggle_node :: "session \<Rightarrow> session" where
  "toggle_node s = Session ((sn_fields s)\<lparr>sf_status := toggle_status (sf_status (sn_fields s))\<rparr>) (sn_children s)"

definition toggle_detach :: "session_manager \<Rightarrow> session_manager" where
  "toggle_detach m = (case index_path (sm_sessions m) (sm_selected_index m) of
      None \<Rightarrow> m
    | Some p \<Rightarrow> m\<lparr>sm_sessions := update_at_path toggle_node p (sm_sessions m)\<rparr>)"

definition kill_selected :: "session_manager \<Rightarrow> session_manager \<times> string option" where
  "kill_selected m = (case index_path (sm_sessions m) (sm_selected_index m) of
      None \<Rightarrow> (m, None)
    | Some [] \<Rightarrow> (m, None)
    | Some (i # p) \<Rightarrow>
        (let removed = session_from_path (sm_sessions m) (i # p);
             m1 = m\<lparr>sm_sessions := remove_at_path (i # p) (sm_sessions m)\<rparr>;
             total = get_total_session_count m1;
             m2 = (if total = 0 then m1\<lparr>sm_selected_index := 0, sm_list_state := None\<rparr>
                   else if total \<le> sm_selected_index m1 then select_index (total - 1) m1
                   else m1)
         in (m2, map_option (\<lambda>s. sf_name (sn_fields s)) removed)))"

primrec status_badge :: "session_status \<Rightarrow> string" where
  "status_badge SsAttached = ''[attached]''"
| "status_badge SsDetached = ''[detached]''"
| "status_badge SsRunning = ''[running]''"
| "status_badge SsPending = ''[pending]''"
| "status_badge SsInProgress = ''[in-progress]''"
| "status_badge SsCompleted = ''[completed]''"
| "status_badge SsFailed = ''[failed]''"

definition get_selected_status_badge :: "session_manager \<Rightarrow> string option" where
  "get_selected_status_badge m = map_option (\<lambda>s. status_badge (sf_status (sn_fields s))) (get_selected_session m)"

definition format_duration :: "nat \<Rightarrow> string" where
  "format_duration secs =
     (if secs < 60 then nat_to_string secs @ ''s''
      else nat_to_string (secs div 60) @ ''m '' @ nat_to_string (secs mod 60) @ ''s'')"

definition runtime_for :: "nat \<Rightarrow> session \<Rightarrow> string option" where
  "runtime_for now s = map_option (\<lambda>start. format_duration
     (((case sf_completed_at (sn_fields s) of Some t \<Rightarrow> t | None \<Rightarrow> now) - start) div 1000000000))
     (sf_started_at (sn_fields s))"

section \<open>The preorder\<close>

text \<open>The order in which \<open>build_list_items\<close> draws the sessions.\<close>

fun preorder :: "session list \<Rightarrow> session_fields list" where
  "preorder [] = []"
| "preorder (Session f cs # ss) = f # preorder cs @ preorder ss"

definition tree_size :: "session list \<Rightarrow> nat" where
  "tree_size ss = sum_list (map count_nodes ss)"

lemma tree_size_simps [simp]:
  "tree_size [] = 0" "tree_size (s # ss) = count_nodes s + tree_size ss"
  "tree_size (xs @ ys) = tree_size xs + tree_size ys"
  by (simp_all add: tree_size_def)

lemma count_nodes_tree [simp]: "count_nodes (Session f cs) = Suc (tree_size cs)"
  by (simp add: tree_size_def)

declare count_nodes.simps [simp del]

lemma length_preorder [simp]: "length (preorder ss) = tree_size ss"
  by (induction ss rule: preorder.induct) simp_all

lemma preorder_append [simp]: "preorder (xs @ ys) = preorder xs @ preorder ys"
  by (induction xs rule: preorder.induct) simp_all

lemma preorder_split: "preorder (xs @ s # ys) = preorder xs @ preorder [s] @ preorder ys"
  by (cases s) simp

lemma session_from_path_Cons [simp]:
  "session_from_path (s # ss) (Suc k # q) = session_from_path ss (k # q)"
  by (cases q) auto

text \<open>The position of a path in the preorder.\<close>

fun path_position :: "session list \<Rightarrow> nat list \<Rightarrow> nat" where
  "path_position ss [] = 0"
| "path_position ss [i] = tree_size (take i ss)"
| "path_position ss (i # j # p) = tree_size (take i ss) + Suc (path_position (sn_children (ss ! i)) (j # p))"

lemma path_position_Cons [simp]:
  "path_position (s # ss) (Suc k # q) = count_nodes s + path_position ss (k # q)"
  by (cases q) auto

lemma dfs_correct:
  "c \<le> t \<Longrightarrow> (if t < c + tree_size ss
     then \<exists>k q s. fst (dfs t i c ss) = Some ((i + k) # q) \<and> session_from_path ss (k # q) = Some s \<and>
            path_position ss (k # q) = t - c
     else dfs t i c ss = (None, c + tree_size ss))"
proof (induction t i c ss rule: dfs.induct)
  case (2 t i c f cs ss)
  show ?case
  proof (cases "c = t")
    case True
    have "session_from_path (Session f cs # ss) [0] = Some (Session f cs)" by simp
    moreover have "path_position (Session f cs # ss) [0] = 0" by simp
    ultimately show ?thesis using True by force
  next
    case False
    then have c: "c + 1 \<le> t" using 2(3) by simp
    show ?thesis
    proof (cases "t < c + 1 + tree_size cs")
      case True
      with 2(1) [OF False c] obtain k q s where k: "fst (dfs t 0 (c + 1) cs) = Some (k # q)"
        "session_from_path cs (k # q) = Some s" "path_position cs (k # q) = t - (c + 1)"
        by auto
      then obtain m where "dfs t 0 (c + 1) cs = (Some (k # q), m)" by (metis prod.collapse)
      then have "fst (dfs t i c (Session f cs # ss)) = Some ((i + 0) # k # q)" using False by simp
      moreover have "session_from_path (Session f cs # ss) (0 # k # q) = Some s" using k(2) by simp
      moreover have "path_position (Session f cs # ss) (0 # k # q) = t - c" using k(3) c by simp
      ultimately show ?thesis using True by auto
    next
      case outside: False
      then have d: "dfs t 0 (c + 1) cs = (None, c + 1 + tree_size cs)"
        using 2(1) [OF False c] by simp
      have IH: "if t < c + 1 + tree_size cs + tree_size ss
        then \<exists>k q s. fst (dfs t (i + 1) (c + 1 + tree_size cs) ss) = Some ((i + 1 + k) # q) \<and>
            session_from_path ss (k # q) = Some s \<and> path_position ss (k # q) = t - (c + 1 + tree_size cs)
        else dfs t (i + 1) (c + 1 + tree_size cs) ss = (None, c + 1 + tree_size cs + tree_size ss)"
        using 2(2) [OF False d [symmetric]] outside by simp
      have step: "dfs t i c (Session f cs # ss) = dfs t (i + 1) (c + 1 + tree_size cs) ss"
        using False d by simp
      show ?thesis
      proof (cases "t < c + 1 + tree_size cs + tree_size ss")
        case True
        with IH obtain k q s where k: "fst (dfs t (i + 1) (c + 1 + tree_size cs) ss) = Some ((i + 1 + k) # q)"
          "session_from_path ss (k # q) = Some s" "path_position ss (k # q) = t - (c + 1 + tree_size cs)"
          by auto
        have "fst (dfs t i c (Session f cs # ss)) = Some ((i + Suc k) # q)" using k(1) step by simp
        moreover have "session_from_path (Session f cs # ss) (Suc k # q) = Some s" using k(2) by simp
        moreover have "path_position (Session f cs # ss) (Suc k # q) = t - c" using k(3) outside by simp
        ultimately show ?thesis using True by auto
      next
        case False
        then show ?thesis using IH step by simp
      qed
    qed
  qed
qed simp

lemma index_path_Some:
  assumes "t < tree_size ss"
  obtains i p s where "index_path ss t = Some (i # p)" "session_from_path ss (i # p) = Some s"
    "path_position ss (i # p) = t"
  using dfs_correct [of 0 t ss 0] assms that by (auto simp: index_path_def)

lemma index_path_None: "tree_size ss \<le> t \<Longrightarrow> index_path ss t = None"
  using dfs_correct [of 0 t ss 0] by (simp add: index_path_def)

text \<open>Cutting the preorder at a path: before it, its own subtree, and after it.\<close>

lemma preorder_at_path:
  assumes "session_from_path ss p = Some s"
  shows "\<exists>pre post. preorder ss = pre @ preorder [s] @ post \<and> length pre = path_position ss p \<and>
     preorder (remove_at_path p ss) = pre @ post \<and>
     (\<forall>g. preorder (update_at_path g p ss) = pre @ preorder [g s] @ post)"
  using assms
proof (induction ss p rule: session_from_path.induct)
  case (2 ss i)
  then have i: "i < length ss" "s = ss ! i" by (auto split: if_splits)
  have ss: "ss = take i ss @ s # drop (Suc i) ss" using i by (simp add: id_take_nth_drop)
  have "preorder ss = preorder (take i ss) @ preorder [s] @ preorder (drop (Suc i) ss)"
    using preorder_split [of "take i ss" s "drop (Suc i) ss"] ss by simp
  moreover have "preorder (ss[i := x]) = preorder (take i ss) @ preorder [x] @ preorder (drop (Suc i) ss)" for x
    using i preorder_split [of "take i ss" x "drop (Suc i) ss"] by (simp only: upd_conv_take_nth_drop)
  ultimately show ?case
    using i by (intro exI [of _ "preorder (take i ss)"] exI [of _ "preorder (drop (Suc i) ss)"]) simp
next
  case (3 ss i j p)
  then have i: "i < length ss" and sub: "session_from_path (sn_children (ss ! i)) (j # p) = Some s"
    by (auto split: if_splits)
  obtain f cs where c: "ss ! i = Session f cs" by (cases "ss ! i")
  from 3(1) [OF i sub] obtain pre post where IH: "preorder cs = pre @ preorder [s] @ post"
    "length pre = path_position cs (j # p)" "preorder (remove_at_path (j # p) cs) = pre @ post"
    "\<forall>g. preorder (update_at_path g (j # p) cs) = pre @ preorder [g s] @ post"
    unfolding c session.sel by blast
  have ss: "ss = take i ss @ Session f cs # drop (Suc i) ss" using i c by (metis id_take_nth_drop)
  have "preorder ss = (preorder (take i ss) @ f # pre) @ preorder [s] @ post @ preorder (drop (Suc i) ss)"
    by (subst ss) (simp add: IH(1))
  moreover have upd: "preorder (ss[i := Session f ds]) =
      preorder (take i ss) @ f # preorder ds @ preorder (drop (Suc i) ss)" for ds
    using i by (simp add: upd_conv_take_nth_drop)
  ultimately show ?case
    using i IH(2-4)
    by (intro exI [of _ "preorder (take i ss) @ f # pre"] exI [of _ "post @ preorder (drop (Suc i) ss)"])
      (simp add: c upd)
qed simp

section \<open>Selection\<close>

text \<open>C38: the selected session is the one drawn at the selected row: the search over the tree returns the
  session at that position of the preorder, and nothing exactly when the index is past the end.\<close>

theorem selected_is_preorder_nth:
  "map_option sn_fields (get_selected_session m) =
     (if sm_selected_index m < get_total_session_count m
      then Some (preorder (sm_sessions m) ! sm_selected_index m) else None)"
proof (cases "sm_selected_index m < tree_size (sm_sessions m)")
  case True
  then obtain i p s where p: "index_path (sm_sessions m) (sm_selected_index m) = Some (i # p)"
    "session_from_path (sm_sessions m) (i # p) = Some s" "path_position (sm_sessions m) (i # p) = sm_selected_index m"
    by (rule index_path_Some)
  obtain pre post where "preorder (sm_sessions m) = pre @ preorder [s] @ post" "length pre = sm_selected_index m"
    using preorder_at_path [OF p(2)] p(3) by auto
  then have "preorder (sm_sessions m) ! sm_selected_index m = sn_fields s"
    by (cases s) (simp add: nth_append)
  then show ?thesis
    using True p by (simp add: get_selected_session_def get_total_session_count_def tree_size_def)
next
  case False
  then show ?thesis
    by (simp add: get_selected_session_def get_total_session_count_def index_path_None
        flip: tree_size_def)
qed

lemma kill_selected_at:
  assumes p: "index_path (sm_sessions m) (sm_selected_index m) = Some (i # p)"
      "session_from_path (sm_sessions m) (i # p) = Some s"
    and k: "kill_selected m = (m', name)"
  shows "sm_sessions m' = remove_at_path (i # p) (sm_sessions m)" "name = Some (sf_name (sn_fields s))"
    "sum_list (map count_nodes (remove_at_path (i # p) (sm_sessions m))) = 0 \<Longrightarrow> sm_list_state m' = None"
    "sum_list (map count_nodes (remove_at_path (i # p) (sm_sessions m))) \<noteq> 0 \<Longrightarrow>
       sm_selected_index m' =
         min (sm_selected_index m) (sum_list (map count_nodes (remove_at_path (i # p) (sm_sessions m))) - 1)"
  using k unfolding kill_selected_def p(1) option.case list.case Let_def p(2) get_total_session_count_def
    select_index_def
  by (simp_all only: prod.inject split: if_splits) (elim conjE; hypsubst; simp; fail)+

text \<open>Killing the selected session removes exactly it and its descendants from the drawn list,
  returns its name, and leaves the selection on an existing row (or on none when nothing is left).\<close>

theorem kill_selected_removes_subtree:
  assumes "sm_selected_index m < get_total_session_count m" and k: "kill_selected m = (m', name)"
  shows "\<exists>s pre post. get_selected_session m = Some s \<and> name = Some (sf_name (sn_fields s)) \<and>
     preorder (sm_sessions m) = pre @ preorder [s] @ post \<and> length pre = sm_selected_index m \<and>
     preorder (sm_sessions m') = pre @ post \<and>
     (if pre @ post = [] then sm_list_state m' = None
      else sm_selected_index m' < length (pre @ post) \<and> sm_selected_index m' \<le> sm_selected_index m)"
proof -
  let ?ss = "sm_sessions m"
  have t: "sm_selected_index m < tree_size ?ss"
    using assms(1) by (simp add: get_total_session_count_def tree_size_def)
  then obtain i p s where p: "index_path ?ss (sm_selected_index m) = Some (i # p)"
    "session_from_path ?ss (i # p) = Some s" "path_position ?ss (i # p) = sm_selected_index m"
    by (rule index_path_Some)
  obtain pre post where cut: "preorder ?ss = pre @ preorder [s] @ post" "length pre = sm_selected_index m"
    "preorder (remove_at_path (i # p) ?ss) = pre @ post"
    using preorder_at_path [OF p(2)] p(3) by auto
  have total: "sum_list (map count_nodes (remove_at_path (i # p) ?ss)) = length (pre @ post)"
    by (metis cut(3) length_preorder tree_size_def)
  note kill = kill_selected_at [OF p(1,2) k]
  have "get_selected_session m = Some s" using p(1,2) by (simp add: get_selected_session_def)
  moreover have "if pre @ post = [] then sm_list_state m' = None
      else sm_selected_index m' < length (pre @ post) \<and> sm_selected_index m' \<le> sm_selected_index m"
  proof (cases "length (pre @ post) = 0")
    case False
    then obtain n where n: "length (pre @ post) = Suc n" by (metis not0_implies_Suc)
    have "sm_selected_index m' < length (pre @ post) \<and> sm_selected_index m' \<le> sm_selected_index m"
      using kill(4) unfolding total n by simp
    then show ?thesis using False by auto
  qed (use kill(3) total in simp)
  ultimately show ?thesis using kill(1,2) cut by metis
qed

section \<open>The invariant of the operations\<close>

datatype session_op =
    OpUpdate "orchestrator_entry list" | OpClear | OpNext | OpPrevious | OpToggle | OpKill

fun run_session_op :: "session_op \<Rightarrow> session_manager \<Rightarrow> session_manager" where
  "run_session_op (OpUpdate es) m = update_from_orchestrator es m"
| "run_session_op OpClear m = clear_orchestrator_entries m"
| "run_session_op OpNext m = next_session m"
| "run_session_op OpPrevious m = previous_session m"
| "run_session_op OpToggle m = toggle_detach m"
| "run_session_op OpKill m = fst (kill_selected m)"

definition session_manager_ok :: "session_manager \<Rightarrow> bool" where
  "session_manager_ok m \<longleftrightarrow>
     (\<forall>s \<in> set (sm_sessions m). sf_group (sn_fields s) = Some orchestrator_group) \<and>
     (if sm_sessions m = [] then sm_list_state m = None
      else sm_list_state m = Some (sm_selected_index m) \<and> sm_selected_index m < get_total_session_count m)"

lemma total_is_tree_size: "get_total_session_count m = tree_size (sm_sessions m)"
  by (simp add: get_total_session_count_def tree_size_def)

lemma tree_size_0 [simp]: "tree_size ss = 0 \<longleftrightarrow> ss = []"
  by (induction ss rule: preorder.induct) simp_all

lemma tree_size_pos: "tree_size ss - Suc 0 < tree_size ss \<longleftrightarrow> ss \<noteq> []"
  by (metis diff_less gr0I less_zeroE tree_size_0 zero_less_Suc diff_0_eq_0)

lemma assign_ids_shape: "length (fst (assign_ids n ss)) = length ss \<and>
    map (sf_group \<circ> sn_fields) (fst (assign_ids n ss)) = map (sf_group \<circ> sn_fields) ss"
proof (induction n ss rule: assign_ids.induct)
  case (2 n f cs ss)
  obtain cs' a ss' b where "assign_ids (n + 1) cs = (cs', a)" "assign_ids a ss = (ss', b)"
    by (metis surj_pair)
  then show ?case using 2(2) [of "(cs', a)" cs' a] by simp
qed simp

lemma assign_ids_tree: "map sf_id (preorder (fst (assign_ids n ss))) = [n..<n + tree_size ss] \<and>
    snd (assign_ids n ss) = n + tree_size ss \<and> tree_size (fst (assign_ids n ss)) = tree_size ss"
proof (induction n ss rule: assign_ids.induct)
  case (2 n f cs ss)
  obtain cs' a ss' b where e: "assign_ids (n + 1) cs = (cs', a)" "assign_ids a ss = (ss', b)"
    by (metis surj_pair)
  have cs: "map sf_id (preorder cs') = [n + 1..<n + 1 + tree_size cs]" "a = n + 1 + tree_size cs"
    "tree_size cs' = tree_size cs" using 2(1) e(1) by simp_all
  have ss: "map sf_id (preorder ss') = [a..<a + tree_size ss]" "b = a + tree_size ss"
    "tree_size ss' = tree_size ss" using 2(2) [of "(cs', a)" cs' a] e by simp_all
  have "[n..<b] = n # [n + 1..<a] @ [a..<b]"
    using upt_add_eq_append [of "n + 1" a "tree_size ss"] upt_conv_Cons [of n b]
    by (simp add: cs(2) ss(2) del: upt_Suc)
  moreover have "assign_ids n (Session f cs # ss) = (Session (f\<lparr>sf_id := n\<rparr>) cs' # ss', b)"
    using e by simp
  ultimately show ?case using cs ss by (simp add: add.assoc del: upt_Suc)
qed simp

lemma insert_entry_group: "sf_group (sn_fields (insert_entry s e)) = sf_group (sn_fields s)"
proof -
  have "sf_group (sn_fields (insert_path e path segs s)) = sf_group (sn_fields s)" for path segs
    by (induction e path segs s rule: insert_path.induct)
      (simp_all add: settle_node_def Let_def split: option.splits)
  then show ?thesis by (simp add: insert_entry_def)
qed

lemma spec_tree_group: "sf_group (sn_fields (spec_tree es i)) = Some orchestrator_group"
proof -
  have "sf_group (sn_fields (foldl insert_entry s es)) = sf_group (sn_fields s)" for s es
    by (induction es arbitrary: s) (simp_all add: insert_entry_group)
  then show ?thesis by (simp add: spec_tree_def root_session_def Let_def)
qed

lemma update_from_orchestrator_ok: "session_manager_ok (update_from_orchestrator es m)"
proof (cases "es = []")
  case True
  then show ?thesis by (simp add: update_from_orchestrator_def session_manager_ok_def)
next
  case False
  define roots where "roots = map (spec_tree es) (sort (remdups (map en_spec_id es)))"
  define ss where "ss = fst (assign_ids 0 roots)"
  have "roots \<noteq> []" using False by (simp add: roots_def) (metis length_0_conv length_sort remdups_eq_nil_iff map_is_Nil_conv)
  then have "ss \<noteq> []" using assign_ids_shape [of 0 roots] by (auto simp: ss_def)
  then have pos: "0 < tree_size ss" by (metis gr0I tree_size_0)
  have "\<forall>s \<in> set roots. (sf_group \<circ> sn_fields) s = Some orchestrator_group"
    by (simp add: roots_def spec_tree_group)
  then have "set (map (sf_group \<circ> sn_fields) ss) \<subseteq> {Some orchestrator_group}"
    using assign_ids_shape [of 0 roots] by (auto simp: ss_def)
  then have "\<forall>s \<in> set ss. sf_group (sn_fields s) = Some orchestrator_group" by auto
  moreover have "sm_sessions (update_from_orchestrator es m) = ss"
    "sm_selected_index (update_from_orchestrator es m) = min (sm_selected_index m) (tree_size ss - 1)"
    "sm_list_state (update_from_orchestrator es m) = Some (min (sm_selected_index m) (tree_size ss - 1))"
    using False pos \<open>ss \<noteq> []\<close>
    by (simp_all add: update_from_orchestrator_def Let_def total_is_tree_size flip: roots_def ss_def)
  ultimately show ?thesis using pos \<open>ss \<noteq> []\<close> by (simp add: session_manager_ok_def total_is_tree_size)
qed

lemma update_at_path_group:
  "(\<And>s. sf_group (sn_fields (g s)) = sf_group (sn_fields s)) \<Longrightarrow>
     map (sf_group \<circ> sn_fields) (update_at_path g p ss) = map (sf_group \<circ> sn_fields) ss"
  by (induction g p ss rule: update_at_path.induct) (simp_all add: map_update list_update_same_conv)

lemma remove_at_path_group:
  "set (map (sf_group \<circ> sn_fields) (remove_at_path p ss)) \<subseteq> set (map (sf_group \<circ> sn_fields) ss)"
proof (induction p ss rule: remove_at_path.induct)
  case (2 i ss)
  then show ?case by (auto dest: in_set_takeD in_set_dropD)
next
  case (3 i j p ss)
  then show ?case by (auto simp: map_update list_update_same_conv dest!: set_update_subset_insert [THEN subsetD])
qed simp

lemma update_at_no_path: "session_from_path ss p = None \<Longrightarrow> update_at_path g p ss = ss"
proof (induction g p ss rule: update_at_path.induct)
  case (3 g i j p ss)
  then show ?case by (cases "i < length ss") (simp_all add: list_update_same_conv)
qed (simp_all split: if_splits)

lemma update_at_path_size:
  assumes "\<And>s. count_nodes (g s) = count_nodes s"
  shows "tree_size (update_at_path g p ss) = tree_size ss"
proof (cases "session_from_path ss p")
  case None
  then show ?thesis by (simp add: update_at_no_path)
next
  case (Some s)
  obtain pre post where "preorder ss = pre @ preorder [s] @ post"
    "preorder (update_at_path g p ss) = pre @ preorder [g s] @ post"
    using preorder_at_path [OF Some] by blast
  then have "length (preorder ss) = length (preorder (update_at_path g p ss))"
    by (simp only: length_append length_preorder) (simp add: assms)
  then show ?thesis by simp
qed

lemma next_previous_ok:
  "session_manager_ok m \<Longrightarrow> session_manager_ok (next_session m)"
  "session_manager_ok m \<Longrightarrow> session_manager_ok (previous_session m)"
  by (auto simp: next_session_def previous_session_def session_manager_ok_def select_index_def Let_def
      total_is_tree_size)

lemma clear_ok: "session_manager_ok m \<Longrightarrow> session_manager_ok (clear_orchestrator_entries m)"
  by (auto simp: clear_orchestrator_entries_def session_manager_ok_def Let_def filter_empty_conv)

lemma toggle_detach_ok:
  assumes "session_manager_ok m"
  shows "session_manager_ok (toggle_detach m)"
proof (cases "index_path (sm_sessions m) (sm_selected_index m)")
  case (Some p)
  let ?ss = "update_at_path toggle_node p (sm_sessions m)"
  have "map (sf_group \<circ> sn_fields) ?ss = map (sf_group \<circ> sn_fields) (sm_sessions m)"
    by (rule update_at_path_group) (simp add: toggle_node_def)
  then have roots: "set (map (sf_group \<circ> sn_fields) ?ss) = set (map (sf_group \<circ> sn_fields) (sm_sessions m))"
    by simp
  have size: "tree_size ?ss = tree_size (sm_sessions m)"
    by (rule update_at_path_size) (metis count_nodes_tree session.collapse toggle_node_def)
  have nil: "?ss = [] \<longleftrightarrow> sm_sessions m = []" using size by (metis tree_size_0)
  from roots have "(\<forall>s \<in> set ?ss. sf_group (sn_fields s) = Some orchestrator_group) \<longleftrightarrow>
      (\<forall>s \<in> set (sm_sessions m). sf_group (sn_fields s) = Some orchestrator_group)"
    unfolding set_map comp_def by (metis (no_types, lifting) imageE image_eqI)
  then show ?thesis
    using assms Some nil size
    by (simp add: session_manager_ok_def toggle_detach_def total_is_tree_size split: if_splits)
qed (use assms in \<open>simp add: toggle_detach_def\<close>)

lemma kill_selected_ok:
  assumes "session_manager_ok m"
  shows "session_manager_ok (fst (kill_selected m))"
proof (cases "sm_selected_index m < tree_size (sm_sessions m)")
  case True
  then obtain i p s where p: "index_path (sm_sessions m) (sm_selected_index m) = Some (i # p)"
    "session_from_path (sm_sessions m) (i # p) = Some s"
    by (rule index_path_Some)
  let ?ss = "remove_at_path (i # p) (sm_sessions m)"
  have sel: "sm_list_state m = Some (sm_selected_index m)"
    using assms True by (auto simp: session_manager_ok_def split: if_splits)
  have "\<forall>s \<in> set ?ss. sf_group (sn_fields s) = Some orchestrator_group"
    using assms remove_at_path_group [of "i # p" "sm_sessions m"]
    by (fastforce simp: session_manager_ok_def simp del: remove_at_path.simps)
  then show ?thesis
    using p(1) sel
    by (simp add: session_manager_ok_def kill_selected_def Let_def select_index_def total_is_tree_size
        not_le tree_size_pos del: remove_at_path.simps)
next
  case False
  then show ?thesis using assms by (simp add: kill_selected_def index_path_None)
qed

interpretation session_ops: op_invariant run_session_op session_manager_ok
proof
  fix m x
  assume "session_manager_ok m"
  then show "session_manager_ok (run_session_op x m)"
    by (cases x) (simp_all add: update_from_orchestrator_ok clear_ok next_previous_ok toggle_detach_ok kill_selected_ok)
qed

text \<open>Whatever sequence of updates, navigation, toggles and kills is applied to a new manager, the
  highlighted row is the selected index, that index is a row of the tree whenever there is one, and nothing
  is highlighted when the tree is empty.\<close>

theorem session_manager_invariant:
  "session_manager_ok (fold run_session_op ops session_manager_new)"
proof -
  have "session_manager_ok session_manager_new"
    by (simp add: session_manager_ok_def session_manager_new_def)
  then show ?thesis by (rule session_ops.run_inv)
qed

text \<open>An update from the orchestrator numbers the sessions by their rows: the ids, read in the order in
  which the tree is drawn, are 0, 1, 2 up to the number of sessions.\<close>

theorem update_numbers_rows:
  "map sf_id (preorder (sm_sessions (update_from_orchestrator es m))) =
     [0..<get_total_session_count (update_from_orchestrator es m)]"
proof (cases "es = []")
  case True
  then show ?thesis by (simp add: update_from_orchestrator_def total_is_tree_size)
next
  case False
  have "sm_sessions (update_from_orchestrator es m) =
      fst (assign_ids 0 (map (spec_tree es) (sort (remdups (map en_spec_id es)))))"
    using False by (simp add: update_from_orchestrator_def Let_def)
  then show ?thesis by (simp add: total_is_tree_size assign_ids_tree)
qed

section \<open>Every step has its node\<close>

text \<open>The node reached from a session along the segments of a prefix, by the keys that \<open>insert_entry\<close> uses.\<close>

fun node_at :: "string list \<Rightarrow> string list \<Rightarrow> session \<Rightarrow> session_fields option" where
  "node_at path [] (Session f cs) = Some f"
| "node_at path (seg # segs) (Session f cs) =
     (case child_index (join ''.'' (path @ [seg])) cs of
        Some i \<Rightarrow> node_at (path @ [seg]) segs (cs ! i)
      | None \<Rightarrow> None)"

definition status_of_step :: "string \<Rightarrow> session \<Rightarrow> session_status option" where
  "status_of_step p root = map_option sf_status (node_at [] (split_on (CHR ''.'') p) root)"

lemma child_index_SomeD:
  "child_index key cs = Some i \<Longrightarrow> i < length cs \<and> sf_prefix (sn_fields (cs ! i)) = Some key"
  by (auto simp: child_index_def find_Some_iff)

lemma child_index_eq: "map (sf_prefix \<circ> sn_fields) xs = map (sf_prefix \<circ> sn_fields) ys \<Longrightarrow>
    child_index key xs = child_index key ys"
proof -
  assume a: "map (sf_prefix \<circ> sn_fields) xs = map (sf_prefix \<circ> sn_fields) ys"
  then have len: "length xs = length ys" by (metis length_map)
  have "sf_prefix (sn_fields (xs ! i)) = sf_prefix (sn_fields (ys ! i))" if "i < length ys" for i
    using a that len by (metis comp_apply nth_map)
  then show ?thesis unfolding child_index_def len by (intro find_cong) auto
qed

lemma find_upt_Suc: "find P [0..<Suc n] = (case find P [0..<n] of Some i \<Rightarrow> Some i | None \<Rightarrow> if P n then Some n else None)"
proof -
  have "find P (xs @ [n]) = (case find P xs of Some i \<Rightarrow> Some i | None \<Rightarrow> if P n then Some n else None)" for xs
    by (induction xs) auto
  then show ?thesis by simp
qed

lemma child_index_append: "child_index key (cs @ [c]) = (case child_index key cs of Some i \<Rightarrow> Some i
    | None \<Rightarrow> if sf_prefix (sn_fields c) = Some key then Some (length cs) else None)"
proof -
  have "find (\<lambda>i. sf_prefix (sn_fields ((cs @ [c]) ! i)) = Some key) [0..<length cs] = child_index key cs"
    unfolding child_index_def by (intro find_cong) (auto simp: nth_append)
  then show ?thesis by (simp add: child_index_def find_upt_Suc del: upt_Suc split: option.splits)
qed

lemma insert_path_prefix [simp]: "sf_prefix (sn_fields (insert_path e path segs s)) = sf_prefix (sn_fields s)"
  by (induction e path segs s rule: insert_path.induct)
    (simp_all add: settle_node_def Let_def split: option.splits)

lemma new_child_prefix [simp]: "sf_prefix (sn_fields (new_child key e)) = Some key"
  by (simp add: new_child_def)

lemma join_snoc_inj: "join sep (path @ [a]) = join sep (path @ [b]) \<longleftrightarrow> a = b"
  by (induction path) (simp_all add: join_Cons)

text \<open>The entry settles its own node, and the walk keeps every node that was there, with its status
  unless it is the settled one.\<close>

lemma node_at_insert_self:
  "map_option sf_status (node_at path segs (insert_path e path segs s)) = Some (en_status e)"
proof (induction e path segs s rule: insert_path.induct)
  case (1 e path f cs)
  then show ?case by (simp add: settle_node_def)
next
  case (2 e path seg segs f cs)
  let ?key = "join ''.'' (path @ [seg])"
  show ?case
  proof (cases "child_index ?key cs")
    case None
    then show ?thesis using 2(1) [OF refl refl None] by (simp add: Let_def child_index_append)
  next
    case (Some i)
    have "child_index ?key (cs[i := insert_path e (path @ [seg]) segs (cs ! i)]) = Some i"
      unfolding Some [symmetric] by (rule child_index_eq) (simp add: map_update list_update_same_conv Some child_index_SomeD [OF Some])
    then show ?thesis
      using 2(2) [OF refl refl Some] child_index_SomeD [OF Some] Some by (simp add: Let_def)
  qed
qed

lemma node_at_insert_other:
  "segs' \<noteq> segs \<Longrightarrow> map_option sf_status (node_at path segs' s) = Some st \<Longrightarrow>
    map_option sf_status (node_at path segs' (insert_path e path segs s)) = Some st"
proof (induction e path segs s arbitrary: segs' rule: insert_path.induct)
  case (1 e path f cs)
  then show ?case by (cases segs') simp_all
next
  case (2 e path seg segs f cs)
  let ?key = "join ''.'' (path @ [seg])"
  show ?case
  proof (cases segs')
    case Nil
    then show ?thesis using 2(4) by (simp add: Let_def split: option.splits)
  next
    case (Cons b bs)
    let ?b = "join ''.'' (path @ [b])"
    from 2(4) Cons obtain j where j: "child_index ?b cs = Some j"
      and st: "map_option sf_status (node_at (path @ [b]) bs (cs ! j)) = Some st"
      by (auto split: option.splits)
    show ?thesis
    proof (cases "child_index ?key cs")
      case None
      then show ?thesis
        using Cons j st child_index_SomeD [OF j] by (simp add: Let_def child_index_append nth_append)
    next
      case (Some i)
      let ?cs = "cs[i := insert_path e (path @ [seg]) segs (cs ! i)]"
      have j': "child_index ?b ?cs = Some j"
        unfolding j [symmetric] by (rule child_index_eq) (simp add: map_update list_update_same_conv child_index_SomeD [OF Some])
      show ?thesis
      proof (cases "b = seg")
        case True
        then have "i = j" "bs \<noteq> segs" using Some j 2(3) Cons by auto
        then show ?thesis
          using 2(2) [OF refl refl Some, of bs] True st Some j' Cons child_index_SomeD [OF Some]
          by (simp add: Let_def)
      next
        case False
        then have "i \<noteq> j"
          using child_index_SomeD [OF Some] child_index_SomeD [OF j] join_snoc_inj [of "''.''" path seg b] by auto
        then show ?thesis using st Some j' Cons by (simp add: Let_def)
      qed
    qed
  qed
qed

lemma status_of_step_insert:
  assumes "p \<noteq> []"
  shows "en_prefix e = p \<Longrightarrow> status_of_step p (insert_entry s e) = Some (en_status e)"
    "en_prefix e \<noteq> p \<Longrightarrow> status_of_step p s = Some st \<Longrightarrow> status_of_step p (insert_entry s e) = Some st"
proof -
  assume "en_prefix e = p"
  then show "status_of_step p (insert_entry s e) = Some (en_status e)"
    using assms by (simp add: insert_entry_def status_of_step_def node_at_insert_self)
next
  assume ne: "en_prefix e \<noteq> p" and st: "status_of_step p s = Some st"
  obtain a as where p: "split_on (CHR ''.'') p = a # as" by (cases "split_on (CHR ''.'') p") simp_all
  show "status_of_step p (insert_entry s e) = Some st"
  proof (cases "en_prefix e = []")
    case True
    then show ?thesis using st by (cases s) (simp add: insert_entry_def status_of_step_def p)
  next
    case False
    have "split_on (CHR ''.'') p \<noteq> split_on (CHR ''.'') (en_prefix e)" using ne by (metis join_split_on)
    then show ?thesis using False st by (simp add: insert_entry_def status_of_step_def node_at_insert_other)
  qed
qed

lemma status_of_step_foldl:
  assumes "p \<noteq> []" "\<forall>e \<in> set es. en_prefix e \<noteq> p" "status_of_step p s = Some st"
  shows "status_of_step p (foldl insert_entry s es) = Some st"
  using assms(2,3)
  by (induction es arbitrary: s) (simp_all add: status_of_step_insert(2) [OF assms(1)])

text \<open>C37: in the tree of a sheet every step has a node, at the place its dotted prefix names, and that node
  shows the status of the step's entry, whatever other steps and sub-steps the sheet has (the steps of the
  sheet having distinct prefixes).\<close>

theorem every_step_has_its_node:
  assumes "e \<in> set es" "en_prefix e \<noteq> []"
    "distinct (map en_prefix (filter (\<lambda>x. en_spec_id x = en_spec_id e) es))"
  shows "status_of_step (en_prefix e) (spec_tree es (en_spec_id e)) = Some (en_status e)"
proof -
  let ?steps = "filter (\<lambda>x. en_spec_id x = en_spec_id e) es"
  let ?sorted = "sort_key en_prefix ?steps"
  have "e \<in> set ?sorted" using assms(1) by simp
  then obtain xs ys where split: "?sorted = xs @ e # ys" by (meson split_list)
  have "distinct (map en_prefix ?sorted)" using assms(3) by (simp add: distinct_map)
  then have "\<forall>x \<in> set ys. en_prefix x \<noteq> en_prefix e" unfolding split by (auto simp: image_iff)
  then show ?thesis
    using assms(2) split
    by (simp add: spec_tree_def Let_def status_of_step_foldl status_of_step_insert(1) [OF assms(2)])
qed

lemma insert_flat:
  assumes "en_prefix e \<noteq> []" "CHR ''.'' \<notin> set (en_prefix e)"
    "Some (en_prefix e) \<notin> set (map (sf_prefix \<circ> sn_fields) (sn_children s))"
  shows "map (sf_prefix \<circ> sn_fields) (sn_children (insert_entry s e)) =
     map (sf_prefix \<circ> sn_fields) (sn_children s) @ [Some (en_prefix e)]"
proof -
  have "child_index (en_prefix e) (sn_children s) = None"
    using assms(3) by (force simp: child_index_def find_None_iff dest: nth_mem)
  then show ?thesis
    using assms(1,2) by (cases s) (simp add: insert_entry_def split_on_atom Let_def)
qed

lemma insert_flat_steps:
  assumes "\<forall>e \<in> set es. en_prefix e \<noteq> [] \<and> CHR ''.'' \<notin> set (en_prefix e)" "distinct (map en_prefix es)"
    "set (map (sf_prefix \<circ> sn_fields) (sn_children s)) \<inter> Some ` en_prefix ` set es = {}"
  shows "map (sf_prefix \<circ> sn_fields) (sn_children (foldl insert_entry s es)) =
     map (sf_prefix \<circ> sn_fields) (sn_children s) @ map (Some \<circ> en_prefix) es"
  using assms
proof (induction es arbitrary: s)
  case (Cons e es)
  have one: "map (sf_prefix \<circ> sn_fields) (sn_children (insert_entry s e)) =
     map (sf_prefix \<circ> sn_fields) (sn_children s) @ [Some (en_prefix e)]"
    using Cons.prems by (intro insert_flat) auto
  have d: "set (map (sf_prefix \<circ> sn_fields) (sn_children (insert_entry s e))) \<inter> Some ` en_prefix ` set es = {}"
    unfolding one using Cons.prems(2,3) by auto
  have "map (sf_prefix \<circ> sn_fields) (sn_children (foldl insert_entry (insert_entry s e) es)) =
     map (sf_prefix \<circ> sn_fields) (sn_children (insert_entry s e)) @ map (Some \<circ> en_prefix) es"
    by (rule Cons.IH [OF _ _ d]) (use Cons.prems in simp_all)
  then show ?case unfolding one by (simp add: comp_def)
qed simp

text \<open>The steps of a sheet without sub-steps are shown in the order of their prefixes as strings (not
  as numbers), so the tenth step of a sheet comes before its second.\<close>

theorem flat_steps_in_string_order:
  assumes "distinct (map en_prefix (filter (\<lambda>e. en_spec_id e = i) es))"
    "\<forall>e \<in> set (filter (\<lambda>e. en_spec_id e = i) es). en_prefix e \<noteq> [] \<and> CHR ''.'' \<notin> set (en_prefix e)"
  shows "map (sf_prefix \<circ> sn_fields) (sn_children (spec_tree es i)) =
     map Some (sort (map en_prefix (filter (\<lambda>e. en_spec_id e = i) es)))"
proof -
  let ?steps = "filter (\<lambda>e. en_spec_id e = i) es"
  have "distinct (map en_prefix (sort_key en_prefix ?steps))" using assms(1) by (simp add: distinct_map)
  then have "map en_prefix (sort_key en_prefix ?steps) = sort (map en_prefix ?steps)"
    using assms(1) by (intro sorted_distinct_set_unique) simp_all
  then have "map (Some \<circ> en_prefix) (sort_key en_prefix ?steps) = map Some (sort (map en_prefix ?steps))"
    by (metis map_map)
  then show ?thesis
    using assms by (simp add: spec_tree_def Let_def root_session_def insert_flat_steps distinct_map)
qed

section \<open>Examples\<close>

definition sample_entry :: "string \<Rightarrow> session_status \<Rightarrow> orchestrator_entry" where
  "sample_entry p st = \<lparr>en_spec_id = ''s'', en_spec_title = ''Plan'', en_prefix = p, en_step_title = ''work'',
     en_role = SrImplementor, en_status = st, en_started_at = None, en_completed_at = None,
     en_worktree_branch = None, en_worktree_path = None\<rparr>"

definition sample_entries :: "orchestrator_entry list" where
  "sample_entries = [sample_entry ''1'' SsCompleted, sample_entry ''2.1'' SsInProgress,
     sample_entry ''2'' SsPending, sample_entry ''10'' SsFailed]"

lemma every_step_has_its_node_witness:
  "status_of_step ''2.1'' (spec_tree sample_entries ''s'') = Some SsInProgress"
  using every_step_has_its_node [of "sample_entry ''2.1'' SsInProgress" sample_entries]
  by (simp add: sample_entries_def sample_entry_def)

definition sample_manager :: session_manager where
  "sample_manager = update_from_orchestrator sample_entries session_manager_new"

lemma flat_steps_in_string_order_witness:
  "map (sf_prefix \<circ> sn_fields) (sn_children (spec_tree
     [sample_entry ''2'' SsPending, sample_entry ''10'' SsPending] ''s'')) = [Some ''10'', Some ''2'']"
proof -
  have "sort [''2'', ''10''] = [''10'', ''2'']" by code_simp
  then show ?thesis
    using flat_steps_in_string_order
      [of "''s''" "[sample_entry ''2'' SsPending, sample_entry ''10'' SsPending]"]
    by (simp add: sample_entry_def)
qed

lemma kill_selected_removes_subtree_witness:
  "\<exists>s pre post. get_selected_session (select_index 3 sample_manager) = Some s \<and>
     snd (kill_selected (select_index 3 sample_manager)) = Some (sf_name (sn_fields s)) \<and>
     preorder (sm_sessions (fst (kill_selected (select_index 3 sample_manager)))) = pre @ post \<and> length pre = 3"
proof -
  have "sm_selected_index (select_index 3 sample_manager) < get_total_session_count (select_index 3 sample_manager)"
    by code_simp
  then show ?thesis
    using kill_selected_removes_subtree [of "select_index 3 sample_manager", OF _ surjective_pairing]
    by (auto simp: select_index_def)
qed

end
