(* ===== verification/Task_Summary.thy ===== *)
theory Task_Summary
  imports Task_Types
begin

text \<open>
  \<open>crates/agent_core/src/summary.rs\<close>: the summary of a finished task, the sheet that a step is split
  into, its summary, and the sheet that is made of a goal.

  \<open>git status --short\<close> is an argument (its standard output, or nothing when it fails), as is
  \<open>str::to_lowercase\<close>, which depends on the Unicode tables, and the empty JSON object and the JSON object
  of the metadata.
\<close>

section \<open>Summaries\<close>

text \<open>A line of the status output: trimmed, then without its first three code points.\<close>

definition changed_path :: "string \<Rightarrow> string option" where
  "changed_path line =
     (let trimmed = trim line
      in if trimmed = [] then None
         else let path = trim (concat (drop 3 (utf8_chars trimmed)))
           in if path = [] then None else Some path)"

definition gather_git_changes :: "string option \<Rightarrow> string list" where
  "gather_git_changes out = (case out of
      None \<Rightarrow> []
    | Some stdout \<Rightarrow> List.map_filter changed_path (str_lines stdout))"

definition gather_artifacts :: "string option \<Rightarrow> string list option \<Rightarrow> string list" where
  "gather_artifacts git override = (case override of Some vs \<Rightarrow> vs | None \<Rightarrow> gather_git_changes git)"

definition str_field :: "'v json_api \<Rightarrow> 'v \<Rightarrow> string \<Rightarrow> string \<Rightarrow> string" where
  "str_field J e key dflt =
     (case Option.bind (j_get J e key) (j_as_str J) of None \<Rightarrow> dflt | Some s \<Rightarrow> s)"

definition tool_command_line :: "'v json_api \<Rightarrow> 'v \<Rightarrow> string" where
  "tool_command_line J e =
     (let line = str_field J e ''name'' ''tool'' @ '' -> '' @ str_field J e ''arguments'' ''{}'';
          result = str_field J e ''result'' []
      in if result \<noteq> [] then line @ '' = '' @ result else line)"

definition extract_tool_commands :: "'v json_api \<Rightarrow> 'v task \<Rightarrow> string list" where
  "extract_tool_commands J t =
     (case Option.bind (Option.bind (t_metadata t) (\<lambda>m. tm_extra m ''toolLog'')) (j_as_array J) of
        None \<Rightarrow> []
      | Some entries \<Rightarrow> map (tool_command_line J) entries)"

definition extract_agent_message :: "'v task \<Rightarrow> string" where
  "extract_agent_message t = (case find (\<lambda>m. ms_role m = Agent) (rev (t_messages t)) of
      None \<Rightarrow> ''No agent response''
    | Some m \<Rightarrow> message_text_content m)"

definition extra_text :: "'v json_api \<Rightarrow> 'v task_metadata \<Rightarrow> string \<Rightarrow> string \<Rightarrow> string" where
  "extra_text J m key dflt =
     (case Option.bind (tm_extra m key) (j_as_str J) of None \<Rightarrow> dflt | Some s \<Rightarrow> s)"

definition extract_step_context :: "'v json_api \<Rightarrow> 'v task \<Rightarrow> string \<times> string" where
  "extract_step_context J t = (case t_metadata t of
      Some m \<Rightarrow> (extra_text J m ''stepIndex'' ''unknown'', extra_text J m ''stepInstructions'' ''(no instructions)'')
    | None \<Rightarrow> (''unknown'', ''(no instructions)''))"

definition build_summary :: "'v json_api \<Rightarrow> string option \<Rightarrow> 'v task \<Rightarrow> string list option \<Rightarrow> task_summary" where
  "build_summary J git t override =
     (let (step_index, instructions) = extract_step_context J t;
          artifacts = gather_artifacts git override;
          commands = extract_tool_commands J t;
          agent_response = extract_agent_message t;
          command_summary = (if commands = [] then ''none'' else join '' | '' commands);
          artifact_summary = (if artifacts = [] then ''none'' else join '', '' artifacts)
      in \<lparr>ts_task_id = t_id t, ts_step_index = step_index,
          ts_summary_text = concat [''Step '', step_index, '' summary:\<newline>Instructions: '', instructions,
            ''\<newline>Commands: '', command_summary, ''\<newline>Artifacts: '', artifact_summary,
            ''\<newline>Agent result: '', agent_response],
          ts_artifacts_touched = artifacts, ts_tests_run = [],
          ts_verification = \<lparr>tv_status = VsPending, tv_feedback = []\<rparr>, ts_worktree = None\<rparr>)"

definition build_split_summary :: "'v task \<Rightarrow> 'v spec_step \<Rightarrow> 'v spec_sheet \<Rightarrow> task_summary" where
  "build_split_summary t st child = \<lparr>ts_task_id = t_id t, ts_step_index = st_index st,
     ts_summary_text = concat [''Step '', st_index st, '' split into spec '', sp_id child, '' with '',
       nat_to_string (length (sp_steps child)), '' steps''],
     ts_artifacts_touched = [], ts_tests_run = [],
     ts_verification = \<lparr>tv_status = VsPending, tv_feedback = []\<rparr>, ts_worktree = None\<rparr>"

section \<open>Splitting a step\<close>

definition fresh_step :: "nat \<Rightarrow> string \<Rightarrow> string \<Rightarrow> string list \<Rightarrow> string list \<Rightarrow> 'v spec_step" where
  "fresh_step n title instructions criteria deps =
     SpecStep (nat_to_string n) title instructions criteria [] [] deps False True None StPending None None"

definition subtask :: "'v spec_step \<Rightarrow> nat \<Rightarrow> string \<Rightarrow> 'v spec_step" where
  "subtask st idx fragment = fresh_step (idx + 1)
     (st_title st @ '' - subtask '' @ nat_to_string (idx + 1)) fragment [] []"

definition fragments :: "'v spec_step \<Rightarrow> string list" where
  "fragments st = filter (\<lambda>f. f \<noteq> []) (map trim (split_on LF (st_instructions st)))"

definition split_steps :: "'v spec_step \<Rightarrow> 'v spec_step list" where
  "split_steps st =
     (let children = map (\<lambda>(i, f). subtask st i f) (enumerate 0 (fragments st))
      in if children = [] then [fresh_step 1 (st_title st @ '' - detail'') (st_instructions st) [] []]
         else children)"

definition build_split_spec :: "'v \<Rightarrow> time \<Rightarrow> 'v spec_step \<Rightarrow> spec_validation_error + 'v spec_sheet" where
  "build_split_spec source_split now st =
     (let child = SpecSheet (st_index st @ ''::split'') (st_title st @ '' (split)'')
            (''Split from parent step '' @ st_index st) (split_steps st) ''nite-agent'' now source_split
      in case validate child of Inl e \<Rightarrow> Inl e | Inr _ \<Rightarrow> Inr child)"

section \<open>A sheet from a goal\<close>

definition truncate_title :: "string \<Rightarrow> nat \<Rightarrow> string" where
  "truncate_title s n =
     (if length (utf8_chars s) \<le> n then s else concat (take (n - 3) (utf8_chars s)) @ ''...'')"

definition make_step :: "nat \<Rightarrow> string \<Rightarrow> string \<Rightarrow> string list \<Rightarrow> nat list \<Rightarrow> 'v spec_step" where
  "make_step n title instructions criteria deps =
     fresh_step n title instructions criteria (map nat_to_string deps)"

definition mentions :: "string \<Rightarrow> string list \<Rightarrow> bool" where
  "mentions lower ws = list_ex (\<lambda>w. contains w lower) ws"

text \<open>\<open>steps.push(make_step(next_idx, ..., vec![next_idx - 1])); next_idx += 1\<close>, under a condition.\<close>

definition push_goal_step :: "bool \<Rightarrow> string \<Rightarrow> string \<Rightarrow> string list \<Rightarrow>
    'v spec_step list \<times> nat \<Rightarrow> 'v spec_step list \<times> nat" where
  "push_goal_step wanted title instructions criteria st =
     (case st of (steps, next_idx) \<Rightarrow>
        if wanted then (steps @ [make_step next_idx title instructions criteria [next_idx - 1]], next_idx + 1)
        else st)"

definition backtick :: string where "backtick = [CHR 0x60]"

definition first_goal_steps :: "string \<Rightarrow> 'v spec_step list" where
  "first_goal_steps goal =
     [make_step 1 ''Initialize project structure''
        (concat [''Set up the project structure for: '', goal,
          ''\<newline>\<newline>Create necessary directories, initialize Cargo.toml with required dependencies, and set up the basic module structure.''])
        [''Project compiles with '' @ backtick @ ''cargo check'' @ backtick, ''All dependencies declared in Cargo.toml''] [],
      make_step 2 ''Define core data models''
        ''Create the core data structures and types needed for the application. Define structs, enums, and implement basic traits (Debug, Clone, Serialize/Deserialize as needed).''
        [''All core types defined'', ''Types implement required traits''] [1]]"

definition storage_step :: "string \<Rightarrow> 'v spec_step list \<times> nat \<Rightarrow> 'v spec_step list \<times> nat" where
  "storage_step lower = push_goal_step (mentions lower [''sqlite'', ''database'', ''storage'', ''persist''])
     ''Implement storage layer''
     ''Create the database/storage layer. Set up SQLite connection, define schema, implement CRUD operations for all entities.''
     [''Database schema created'', ''CRUD operations work correctly'', ''Data persists across restarts'']"

definition core_step :: "string \<Rightarrow> 'v spec_step list \<times> nat \<Rightarrow> 'v spec_step list \<times> nat" where
  "core_step goal = push_goal_step True ''Implement core functionality''
     (concat [''Implement the main business logic for: '', goal,
        ''\<newline>\<newline>This includes all core operations and algorithms.''])
     [''Core features work as specified'', ''Error handling is proper'']"

definition cli_step :: "string \<Rightarrow> 'v spec_step list \<times> nat \<Rightarrow> 'v spec_step list \<times> nat" where
  "cli_step lower = push_goal_step (mentions lower [''cli'', ''command'', ''terminal'']) ''Build CLI interface''
     (concat [''Create the command-line interface'', if contains ''color'' lower then '' with colored output'' else [],
        ''. Parse arguments, implement subcommands, format output nicely.''])
     [''CLI parses all required commands'', ''Help text is clear'', ''Output is well-formatted'']"

definition test_step :: "string \<Rightarrow> 'v spec_step list \<times> nat \<Rightarrow> 'v spec_step list \<times> nat" where
  "test_step lower = push_goal_step (contains ''test'' lower) ''Write tests''
     ''Write comprehensive tests for the application. Include unit tests for core logic and integration tests for the full workflow.''
     [''All tests pass'', ''Core functionality is covered'', ''Edge cases are tested'']"

definition doc_step :: "string \<Rightarrow> 'v spec_step list \<times> nat \<Rightarrow> 'v spec_step list \<times> nat" where
  "doc_step lower = push_goal_step (mentions lower [''readme'', ''documentation'', ''doc'']) ''Create documentation''
     ''Write README.md with installation instructions, usage examples, and feature documentation.''
     [''README is complete'', ''Examples are clear'', ''Installation steps work'']"

definition final_step :: "'v spec_step list \<times> nat \<Rightarrow> 'v spec_step list \<times> nat" where
  "final_step = push_goal_step True ''Final integration and polish''
     ''Ensure all components work together. Run full test suite, fix any issues, clean up code.''
     [''All tests pass'', ''cargo clippy has no warnings'', ''Application works end-to-end'']"

definition decompose_goal_into_steps :: "(string \<Rightarrow> string) \<Rightarrow> string \<Rightarrow> 'v spec_step list" where
  "decompose_goal_into_steps to_lowercase goal =
     (let lower = to_lowercase goal
      in fst (final_step (doc_step lower (test_step lower (cli_step lower
           (core_step goal (storage_step lower (first_goal_steps goal, 3))))))))"

definition line_step :: "nat \<Rightarrow> string \<Rightarrow> 'v spec_step" where
  "line_step idx line = fresh_step (idx + 1) (truncate_title line 50) line []
     (if 0 < idx then [nat_to_string idx] else [])"

definition goal_lines :: "string \<Rightarrow> string list" where
  "goal_lines goal = filter (\<lambda>l. l \<noteq> []) (map trim (str_lines goal))"

definition goal_steps :: "(string \<Rightarrow> string) \<Rightarrow> string \<Rightarrow> 'v spec_step list" where
  "goal_steps to_lowercase goal =
     (let ls = goal_lines goal
      in if ls = [] then [fresh_step 1 (truncate_title goal 50) goal [] []]
         else if length ls = 1 then decompose_goal_into_steps to_lowercase goal
         else map (\<lambda>(i, l). line_step i l) (enumerate 0 ls))"

definition build_spec_from_goal ::
  "(string \<Rightarrow> string) \<Rightarrow> 'v \<Rightarrow> time \<Rightarrow> nat \<Rightarrow> string \<Rightarrow> spec_validation_error + 'v spec_sheet" where
  "build_spec_from_goal to_lowercase empty_object now millis goal =
     (let spec = SpecSheet (''spec-'' @ nat_to_string millis)
            (case goal_lines goal of [] \<Rightarrow> truncate_title goal 80 | l # _ \<Rightarrow> truncate_title l 80)
            goal (goal_steps to_lowercase goal) ''cli'' now empty_object
      in case validate spec of Inl e \<Rightarrow> Inl e | Inr _ \<Rightarrow> Inr spec)"

section \<open>The sheets that are built are valid\<close>

text \<open>Step \<open>i\<close> of the list has number \<open>i + 1\<close>, depends at most on the step before it, has no nested sheet
  and no limit on parallel tasks.\<close>

definition chain_link :: "nat \<Rightarrow> 'v spec_step \<Rightarrow> bool" where
  "chain_link i s \<longleftrightarrow> st_index s = nat_to_string (i + 1) \<and> st_sub_spec s = None \<and>
     st_max_parallelism s = None \<and> set (st_dependencies s) \<subseteq> (if i = 0 then {} else {nat_to_string i})"

definition chained :: "'v spec_step list \<Rightarrow> bool" where
  "chained ss \<longleftrightarrow> (\<forall>i < length ss. chain_link i (ss ! i))"

lemma chain_link_accepted: "chain_link i s \<Longrightarrow> step_accepted i s"
  by (simp add: chain_link_def step_accepted_def)

lemma fresh_step_sel [simp]:
  "st_index (fresh_step n t i c d) = nat_to_string n" "st_sub_spec (fresh_step n t i c d) = None"
  "st_max_parallelism (fresh_step n t i c d) = None" "st_dependencies (fresh_step n t i c d) = d"
  "st_instructions (fresh_step n t i c d) = i"
  by (simp_all add: fresh_step_def)

lemma chained_valid:
  assumes "chained ss" "ss \<noteq> []"
  shows "validate (SpecSheet i t d ss b a m) = Inr ()"
proof -
  have link: "chain_link j (ss ! j)" if "j < length ss" for j
    using assms(1) that by (simp add: chained_def)
  have "set (st_dependencies (ss ! j)) \<subseteq> st_index ` set ss" if j: "j < length ss" for j
  proof (cases j)
    case 0
    then show ?thesis using link [OF j] by (simp add: chain_link_def)
  next
    case (Suc k)
    then have "nat_to_string j = st_index (ss ! k)" "ss ! k \<in> set ss"
      using link [of k] j by (simp_all add: chain_link_def)
    then show ?thesis using link [OF j] Suc unfolding chain_link_def by auto
  qed
  then have "\<forall>s \<in> set ss. set (st_dependencies s) \<subseteq> st_index ` set ss" by (metis in_set_conv_nth)
  then show ?thesis using assms(2) link by (simp add: validate_Inr chain_link_accepted del: validate.simps)
qed

lemma chained_enumerate:
  assumes "\<And>i x. chain_link i (f i x)"
  shows "chained (map (\<lambda>(i, x). f i x) (enumerate 0 xs))"
  using assms by (simp add: chained_def nth_enumerate_eq)

lemma chained_snoc:
  assumes "chained ss" "ss \<noteq> []"
  shows "chained (ss @ [make_step (length ss + 1) t i c [length ss]])"
proof -
  have "chain_link (length ss) (make_step (length ss + 1) t i c [length ss])"
    using assms(2) by (simp add: chain_link_def make_step_def)
  then show ?thesis
    using assms(1) by (auto simp: chained_def nth_append less_Suc_eq)
qed

definition chained_to :: "'v spec_step list \<times> nat \<Rightarrow> bool" where
  "chained_to st \<longleftrightarrow> chained (fst st) \<and> fst st \<noteq> [] \<and> snd st = length (fst st) + 1"

lemma chained_to_push [intro]: "chained_to st \<Longrightarrow> chained_to (push_goal_step b t i c st)"
proof -
  assume "chained_to st"
  moreover obtain ss n where st: "st = (ss, n)" by fastforce
  ultimately show ?thesis
    using chained_snoc [of ss t i c] by (cases b) (simp_all add: chained_to_def push_goal_step_def)
qed

lemma chained_to_stages:
  assumes "chained_to st"
  shows "chained_to (storage_step lw st)" "chained_to (core_step goal st)" "chained_to (cli_step lw st)"
    "chained_to (test_step lw st)" "chained_to (doc_step lw st)" "chained_to (final_step st)"
  unfolding storage_step_def core_step_def cli_step_def test_step_def doc_step_def final_step_def
  by (intro chained_to_push assms)+

lemma chained_one: "chained [fresh_step (Suc 0) t i c []]"
  by (simp add: chained_def chain_link_def)

lemma first_goal_steps_chained: "chained_to (first_goal_steps goal, 3)"
  by (auto simp: chained_to_def chained_def chain_link_def first_goal_steps_def make_step_def less_Suc_eq
      numeral_2_eq_2 numeral_3_eq_3)

lemma decompose_chained:
  "chained (decompose_goal_into_steps lw goal :: 'a spec_step list) \<and>
   (decompose_goal_into_steps lw goal :: 'a spec_step list) \<noteq> []"
proof -
  have split: "chained_to st \<Longrightarrow> chained (fst st) \<and> fst st \<noteq> []" for st :: "'a spec_step list \<times> nat"
    by (simp add: chained_to_def)
  have "chained_to (final_step (doc_step (lw goal) (test_step (lw goal) (cli_step (lw goal)
      (core_step goal (storage_step (lw goal) (first_goal_steps goal :: 'a spec_step list, 3)))))))"
    by (intro chained_to_stages first_goal_steps_chained)
  then show ?thesis unfolding decompose_goal_into_steps_def Let_def by (rule split)
qed

lemma goal_steps_chained: "chained (goal_steps lw goal :: 'a spec_step list) \<and>
   (goal_steps lw goal :: 'a spec_step list) \<noteq> []"
proof -
  have many: "chained (map (\<lambda>(i, l). line_step i l) (enumerate 0 ls) :: 'a spec_step list)" for ls
    by (rule chained_enumerate) (simp add: line_step_def chain_link_def)
  have "enumerate 0 ls = [] \<longleftrightarrow> ls = []" for ls :: "string list" by (simp add: enumerate_eq_zip)
  then show ?thesis
    using many by (simp add: goal_steps_def Let_def chained_one decompose_chained)
qed

lemma split_steps_chained: "chained (split_steps st) \<and> split_steps st \<noteq> []"
proof -
  have "chained (map (\<lambda>(i, f). subtask st i f) (enumerate 0 (fragments st)))"
    by (rule chained_enumerate) (simp add: subtask_def chain_link_def)
  then show ?thesis by (simp add: split_steps_def Let_def chained_one)
qed

text \<open>C30: splitting a step and building a sheet from a goal never fail: whatever the instructions or the goal
  (several lines, one line, only white space or nothing), the sheet that comes out is valid.\<close>

theorem built_sheets_are_valid:
  "(\<exists>child. build_split_spec source_split now st = Inr child \<and> well_formed_spec child \<and>
      sp_steps child = split_steps st) \<and>
   (\<exists>spec. build_spec_from_goal lw obj now millis goal = Inr spec \<and> well_formed_spec spec \<and>
      sp_steps spec = goal_steps lw goal)"
proof -
  have "build_split_spec source_split now st = Inr (SpecSheet (st_index st @ ''::split'') (st_title st @ '' (split)'')
      (''Split from parent step '' @ st_index st) (split_steps st) ''nite-agent'' now source_split)"
    by (simp add: build_split_spec_def Let_def chained_valid split_steps_chained del: validate.simps)
  moreover have "\<exists>i t d b a m. build_spec_from_goal lw obj now millis goal = Inr (SpecSheet i t d (goal_steps lw goal) b a m)"
    by (simp add: build_spec_from_goal_def Let_def chained_valid goal_steps_chained del: validate.simps)
  ultimately show ?thesis
    by (auto simp: chained_valid wf_of_validate split_steps_chained goal_steps_chained simp del: validate.simps)
qed

section \<open>The changed files\<close>

text \<open>The status line of a file that is modified and not staged begins with a space: trimming removes it,
  so the three code points dropped after it include the first letter of the path.\<close>

lemma unstaged_path_loses_first_letter:
  "gather_git_changes (Some ('' M src/main.rs'' @ [LF])) = [''rc/main.rs'']"
  "gather_git_changes (Some (''M  src/main.rs'' @ [LF])) = [''src/main.rs'']"
  by code_simp+

end
