(* ===== verification/Json_Value.thy ===== *)
theory Json_Value
  imports Task_Types
begin

text \<open>
  The laws of \<open>serde_json::Value\<close> that the code relies on when it builds a value and reads it back, as the
  locale \<open>json_value\<close>, and a value type that satisfies them. The accessors are the fields of
  \<open>json_api\<close>; \<open>json_edit\<close> adds \<open>is_null\<close> and the assignment through an index.
\<close>

record 'v json_edit =
  je_is_null :: "'v \<Rightarrow> bool"
  je_set :: "'v \<Rightarrow> string \<Rightarrow> 'v \<Rightarrow> 'v"

locale json_value =
  fixes J :: "'v json_api" and E :: "'v json_edit"
  assumes get_object: "j_get J (j_object J m) k = m k"
    and str_string: "j_as_str J (j_string J s) = Some s"
    and array_array: "j_as_array J (j_array J xs) = Some xs"
    and null_null: "je_is_null E (j_null J)"
    and null_string: "\<not> je_is_null E (j_string J s)"
    and set_object: "je_set E (j_object J m) k v = j_object J (m(k \<mapsto> v))"

datatype json =
    JNull | JBool bool | JNumber int | JString string | JArray "json list" | JObject "string \<Rightarrow> json option"

definition serde_api :: "json json_api" where
  "serde_api = \<lparr>
     j_get = (\<lambda>v k. case v of JObject m \<Rightarrow> m k | _ \<Rightarrow> None),
     j_index = (\<lambda>v k. case v of JObject m \<Rightarrow> (case m k of Some x \<Rightarrow> x | None \<Rightarrow> JNull) | _ \<Rightarrow> JNull),
     j_as_str = (\<lambda>v. case v of JString s \<Rightarrow> Some s | _ \<Rightarrow> None),
     j_as_bool = (\<lambda>v. case v of JBool b \<Rightarrow> Some b | _ \<Rightarrow> None),
     j_as_u64 = (\<lambda>v. case v of JNumber n \<Rightarrow> if 0 \<le> n \<and> n < 2 ^ 64 then Some (nat n) else None | _ \<Rightarrow> None),
     j_as_i64 = (\<lambda>v. case v of JNumber n \<Rightarrow> if - (2 ^ 63) \<le> n \<and> n < 2 ^ 63 then Some n else None | _ \<Rightarrow> None),
     j_as_array = (\<lambda>v. case v of JArray xs \<Rightarrow> Some xs | _ \<Rightarrow> None),
     j_as_object = (\<lambda>v. case v of JObject m \<Rightarrow> Some m | _ \<Rightarrow> None),
     j_null = JNull, j_string = JString, j_array = JArray, j_object = JObject\<rparr>"

definition serde_edit :: "json json_edit" where
  "serde_edit = \<lparr>
     je_is_null = (\<lambda>v. case v of JNull \<Rightarrow> True | _ \<Rightarrow> False),
     je_set = (\<lambda>v k x. case v of JObject m \<Rightarrow> JObject (m(k \<mapsto> x)) | JNull \<Rightarrow> JObject [k \<mapsto> x] | _ \<Rightarrow> v)\<rparr>"

lemma serde_json_value: "json_value serde_api serde_edit"
  by unfold_locales (simp_all add: serde_api_def serde_edit_def)

interpretation serde: json_value serde_api serde_edit
  by (rule serde_json_value)

end
