(* ===== verification/Step_Execution.thy ===== *)
theory Step_Execution
  imports Orchestrator Json_Value
begin

text \<open>
  \<open>crates/agent_core/src/step_execution.rs\<close>: how a sub-agent executes one step for the orchestrator. The
  agent's messages and the cancel signals arrive in one order, an argument of the model; the message
  channel is closed at the end of it. A clock reading comes with every message; the uuids, the other
  clock readings, the encoder of the summary and the outcome of the joined thread are arguments.
\<close>

section \<open>Messages of an agent\<close>

record generation_stats =
  gs_avg_completion_tok_per_sec :: "32 word"
  gs_completion_tokens :: nat
  gs_prompt_tokens :: nat
  gs_time_to_first_token_sec :: "32 word"
  gs_stop_reason :: string

datatype agent_message =
    AmUserInput string
  | AmAgentResponse string nat
  | AmThinkingContent string nat
  | AmThinkingSummary string
  | AmThinkingComplete nat
  | AmToolCallStarted string string
  | AmToolCallCompleted string string
  | AmError string
  | AmCancel
  | AmClearContext
  | AmInjectContext string
  | AmContextCleared
  | AmContextInjected
  | AmBackgroundTaskStarted string string string
  | AmDone
  | AmModelLoaded
  | AmGenerationStats generation_stats
  | AmReloadModel string
  | AmRequestApproval string
  | AmApprovalResponse bool

section \<open>Handling a message\<close>

text \<open>The mutable locals of the receiving loop; \<open>xs_events\<close> is what was sent on \<open>event_tx\<close>.\<close>

record 'v exec_state =
  xs_latest_response :: string
  xs_tool_log :: "'v list"
  xs_thinking_start :: nat
  xs_error :: "string option"
  xs_events :: "orchestrator_event list"

definition send_exec_events ::
  "bool \<Rightarrow> orchestrator_event list \<Rightarrow> 'v exec_state \<Rightarrow> 'v exec_state" where
  "send_exec_events tx es x = (if tx then x\<lparr>xs_events := xs_events x @ es\<rparr> else x)"

lemma send_exec_events_sel [simp]:
  "xs_error (send_exec_events tx es x) = xs_error x" "xs_tool_log (send_exec_events tx es x) = xs_tool_log x"
  by (simp_all add: send_exec_events_def)

definition is_error_result :: "string \<Rightarrow> bool" where
  "is_error_result r \<longleftrightarrow>
     starts_with ''Error:'' r \<or> starts_with ''error:'' r \<or> starts_with ''Failed:'' r \<or> starts_with ''failed:'' r \<or>
     starts_with ''Permission denied'' r \<or> starts_with ''No such file'' r \<or> starts_with ''Command failed'' r \<or>
     (length r < 500 \<and> contains (quote @ ''error'' @ quote) r) \<or>
     (length r < 500 \<and> contains (quote @ ''is_error'' @ quote @ '': true'') r) \<or>
     contains ''status: Failure'' r"

definition tool_entry :: "'v json_api \<Rightarrow> string \<Rightarrow> string \<Rightarrow> 'v" where
  "tool_entry J name args = j_object J
     [''name'' \<mapsto> j_string J name, ''arguments'' \<mapsto> j_string J args, ''result'' \<mapsto> j_null J]"

definition awaits_result :: "'v json_api \<Rightarrow> 'v json_edit \<Rightarrow> string \<Rightarrow> 'v \<Rightarrow> bool" where
  "awaits_result J E name e \<longleftrightarrow> Option.bind (j_get J e ''name'') (j_as_str J) = Some name \<and>
     (case j_get J e ''result'' of None \<Rightarrow> False | Some r \<Rightarrow> je_is_null E r)"

text \<open>\<open>iter_mut().rev().find(p)\<close> followed by an assignment to what it found.\<close>

fun update_last :: "('a \<Rightarrow> bool) \<Rightarrow> ('a \<Rightarrow> 'a) \<Rightarrow> 'a list \<Rightarrow> 'a list" where
  "update_last p f [] = []"
| "update_last p f (x # xs) =
     (if list_ex p xs then x # update_last p f xs else if p x then f x # xs else x # xs)"

definition complete_entry :: "'v json_api \<Rightarrow> 'v json_edit \<Rightarrow> string \<Rightarrow> string \<Rightarrow> 'v list \<Rightarrow> 'v list" where
  "complete_entry J E name result log =
     update_last (awaits_result J E name) (\<lambda>e. je_set E e ''result'' (j_string J result)) log"

fun handle_agent_message :: "'v json_api \<Rightarrow> 'v json_edit \<Rightarrow> bool \<Rightarrow> string \<Rightarrow> nat \<Rightarrow> agent_message \<Rightarrow>
    'v exec_state \<Rightarrow> bool \<times> 'v exec_state" where
  "handle_agent_message J E tx p clock (AmAgentResponse content _) x =
     (False, (send_exec_events tx [AgentMessage p (SamText content)] x)\<lparr>xs_latest_response := content\<rparr>)"
| "handle_agent_message J E tx p clock (AmThinkingContent content _) x =
     (False, send_exec_events tx [AgentMessage p (SamThinking content 0)] (x\<lparr>xs_thinking_start := clock\<rparr>))"
| "handle_agent_message J E tx p clock (AmThinkingComplete _) x =
     (False, send_exec_events tx
        [AgentMessage p (SamThinking [] ((clock - xs_thinking_start x) div 1000000000))] x)"
| "handle_agent_message J E tx p clock (AmError err) x =
     (True, send_exec_events tx [AgentMessage p (SamError err)] (x\<lparr>xs_error := Some err\<rparr>))"
| "handle_agent_message J E tx p clock (AmToolCallStarted name args) x =
     (False, (send_exec_events tx
        [ToolCallStarted p name args, AgentMessage p (SamToolCall name args None False)] x)
          \<lparr>xs_tool_log := xs_tool_log x @ [tool_entry J name args]\<rparr>)"
| "handle_agent_message J E tx p clock (AmToolCallCompleted name result) x =
     (False, (send_exec_events tx
        [ToolCallCompleted p name result (is_error_result result),
         AgentMessage p (SamToolCall name [] (Some result) (is_error_result result))] x)
          \<lparr>xs_tool_log := complete_entry J E name result (xs_tool_log x)\<rparr>)"
| "handle_agent_message J E tx p clock (AmGenerationStats g) x =
     (False, send_exec_events tx
        [AgentMessage p (SamGenerationStats (gs_avg_completion_tok_per_sec g) (gs_prompt_tokens g)
           (gs_completion_tokens g))] x)"
| "handle_agent_message J E tx p clock AmDone x = (True, send_exec_events tx [AgentMessage p SamDone] x)"
| "handle_agent_message J E tx p clock _ x = (False, x)"

section \<open>The receiving loop\<close>

text \<open>What \<open>select!\<close> can see: a message with the clock reading, a cancel signal, or the end of the cancel
  channel. While the loop does not listen to the cancel channel, the last two are not received.\<close>

datatype exec_input = InMessage nat agent_message | InCancel | InCancelClosed

fun exec_loop :: "'v json_api \<Rightarrow> 'v json_edit \<Rightarrow> bool \<Rightarrow> string \<Rightarrow> bool \<Rightarrow> bool \<Rightarrow> exec_input list \<Rightarrow>
    'v exec_state \<Rightarrow> bool \<times> 'v exec_state" where
  "exec_loop J E tx p cancel_rx requested [] x = (requested, x)"
| "exec_loop J E tx p cancel_rx requested (InMessage clock m # ins) x =
     (case handle_agent_message J E tx p clock m x of
        (True, x1) \<Rightarrow> (requested, x1)
      | (False, x1) \<Rightarrow> exec_loop J E tx p cancel_rx requested ins x1)"
| "exec_loop J E tx p cancel_rx requested (InCancel # ins) x =
     (if requested \<or> \<not> cancel_rx then exec_loop J E tx p cancel_rx requested ins x
      else exec_loop J E tx p False True ins x)"
| "exec_loop J E tx p cancel_rx requested (InCancelClosed # ins) x =
     (if requested \<or> \<not> cancel_rx then exec_loop J E tx p cancel_rx requested ins x
      else exec_loop J E tx p False requested ins x)"

section \<open>Executing a step\<close>

definition worktree_context :: "string option \<Rightarrow> string" where
  "worktree_context cwd = (case cwd of
      None \<Rightarrow> []
    | Some dir \<Rightarrow> concat
        [''\<newline>\<newline>**IMPORTANT - Working Directory:**\<newline>You are working in an isolated git worktree at: '', dir,
         ''\<newline>ALL file operations (create, edit, read) MUST use this directory as the base.'',
         ''\<newline>Use relative paths from this directory, or absolute paths starting with this path.'',
         ''\<newline>Do NOT use paths like ~/rust/todo or /home/user/... - use the worktree path instead.''])"

definition step_prompt :: "string \<Rightarrow> 'v spec_step \<Rightarrow> 'v spec_sheet \<Rightarrow> string" where
  "step_prompt context st spec = concat
     [''## Current Task: '', st_title st, ''\<newline>\<newline>**Spec:** '', sp_title spec,
      ''\<newline>\<newline>**Step '', st_index st, '' of '', nat_to_string (length (sp_steps spec)), '':** '', st_title st,
      ''\<newline>\<newline>**Instructions:**\<newline>'', st_instructions st, context,
      ''\<newline>\<newline>**Acceptance Criteria:**\<newline>'',
      join ''\<newline>'' (map (\<lambda>c. ''- '' @ c) (st_acceptance_criteria st))]"

definition step_summary :: "string \<Rightarrow> 'v spec_step \<Rightarrow> string \<Rightarrow> task_summary" where
  "step_summary task_id st text = \<lparr>ts_task_id = task_id, ts_step_index = st_index st, ts_summary_text = text,
     ts_artifacts_touched = [], ts_tests_run = [],
     ts_verification = \<lparr>tv_status = VsPassed, tv_feedback = []\<rparr>, ts_worktree = None\<rparr>"

definition completion_text :: "'v spec_step \<Rightarrow> string" where
  "completion_text st = concat [''Step '', st_index st, '' completed: '', st_title st]"

definition execute_step_simple :: "'v json_api \<Rightarrow> (task_summary \<Rightarrow> string + 'v) \<Rightarrow> string \<Rightarrow> time \<Rightarrow>
    time \<Rightarrow> time \<Rightarrow> 'v spec_step \<Rightarrow> 'v spec_sheet \<Rightarrow> string + 'v task" where
  "execute_step_simple J enc uuid clock n1 n2 st spec =
     (let task = (task_new uuid clock)\<lparr>t_context_id := Some (sp_id spec)\<rparr>;
          summary = step_summary uuid st (concat [completion_text st, ''\<newline>Instructions: '', st_instructions st])
      in case enc summary of
           Inl e \<Rightarrow> Inl e
         | Inr v \<Rightarrow> Inr (task_set_state n1 n2 TaCompleted (Some (completion_text st))
             (task\<lparr>t_metadata := Some (task_metadata_default\<lparr>tm_summary := Some v,
                tm_extra := [''step_index'' \<mapsto> j_string J (st_index st),
                  ''prompt'' \<mapsto> j_string J (step_prompt [] st spec),
                  ''step_title'' \<mapsto> j_string J (st_title st)]\<rparr>)\<rparr>)))"

record 'v exec_env =
  xe_json :: "'v json_api"
  xe_edit :: "'v json_edit"
  xe_encode :: "task_summary \<Rightarrow> string + 'v"
  xe_cwd :: "string option"
  xe_uuid :: string
  xe_uuid_cancelled :: string
  xe_now :: time
  xe_now_end :: time
  xe_start :: nat
  xe_inputs :: "exec_input list"
  xe_join :: "string option"

definition cancelled_task :: "'v exec_env \<Rightarrow> 'v spec_sheet \<Rightarrow> 'v task" where
  "cancelled_task X spec = (task_new (xe_uuid_cancelled X) (xe_now_end X))
     \<lparr>t_context_id := Some (sp_id spec),
      t_status := \<lparr>tk_state = TaCancelled, tk_timestamp = Some (xe_now_end X),
                   tk_message = Some ''Step cancelled by user'', tk_error = None\<rparr>\<rparr>"

definition completed_task :: "'v exec_env \<Rightarrow> 'v spec_step \<Rightarrow> 'v exec_state \<Rightarrow> string \<Rightarrow> 'v task \<Rightarrow>
    string + 'v task" where
  "completed_task X st x prompt task =
     (let J = xe_json X;
          summary = step_summary (t_id task) st
            (if xs_latest_response x = [] then completion_text st else xs_latest_response x)
      in case xe_encode X summary of
           Inl e \<Rightarrow> Inl e
         | Inr v \<Rightarrow> Inr (task_set_state (xe_now_end X) (xe_now_end X) TaCompleted
             (Some (concat [''Step '', st_index st, '' completed'']))
             (task\<lparr>t_metadata := Some (task_metadata_default\<lparr>tm_summary := Some v,
                tm_extra := [''step_index'' \<mapsto> j_string J (st_index st), ''prompt'' \<mapsto> j_string J prompt,
                  ''step_title'' \<mapsto> j_string J (st_title st), ''toolLog'' \<mapsto> j_array J (xs_tool_log x)]\<rparr>)\<rparr>)))"

definition execute_step_with_events_and_cancel :: "'v exec_env \<Rightarrow> bool \<Rightarrow> bool \<Rightarrow> string \<Rightarrow> 'v spec_step \<Rightarrow>
    'v spec_sheet \<Rightarrow> (string + 'v task) \<times> bool \<times> orchestrator_event list" where
  "execute_step_with_events_and_cancel X tx cancel_rx p st spec =
     (let prompt = step_prompt (worktree_context (xe_cwd X)) st spec;
          task = (task_new (xe_uuid X) (xe_now X))\<lparr>t_context_id := Some (sp_id spec)\<rparr>;
          x0 = send_exec_events tx [AgentMessage p (SamUserPrompt prompt)]
                 \<lparr>xs_latest_response = [], xs_tool_log = [], xs_thinking_start = xe_start X,
                  xs_error = None, xs_events = []\<rparr>;
          (requested, x1) = exec_loop (xe_json X) (xe_edit X) tx p cancel_rx False (xe_inputs X) x0;
          err = (case xe_join X of None \<Rightarrow> xs_error x1
                 | Some e \<Rightarrow> if xs_error x1 = None then Some e else xs_error x1)
      in (if requested then Inr (cancelled_task X spec)
          else case err of
              Some e \<Rightarrow> Inr (task_set_state (xe_now_end X) (xe_now_end X) TaFailed (Some e) task)
            | None \<Rightarrow> completed_task X st x1 prompt task,
          requested, xs_events x1))"

definition execute_step_with_events :: "'v exec_env \<Rightarrow> bool \<Rightarrow> string \<Rightarrow> 'v spec_step \<Rightarrow> 'v spec_sheet \<Rightarrow>
    (string + 'v task) \<times> bool \<times> orchestrator_event list" where
  "execute_step_with_events X tx p st spec = execute_step_with_events_and_cancel X tx False p st spec"

section \<open>The tool log\<close>

text \<open>The inputs that the loop handles: up to and with the first message that ends it.\<close>

fun ends_loop :: "exec_input \<Rightarrow> bool" where
  "ends_loop (InMessage _ (AmError _)) = True"
| "ends_loop (InMessage _ AmDone) = True"
| "ends_loop _ = False"

fun handled :: "exec_input list \<Rightarrow> exec_input list" where
  "handled [] = []"
| "handled (i # ins) = (if ends_loop i then [i] else i # handled ins)"

fun started_calls :: "exec_input list \<Rightarrow> (string \<times> string) list" where
  "started_calls (InMessage _ (AmToolCallStarted n a) # ins) = (n, a) # started_calls ins"
| "started_calls (_ # ins) = started_calls ins"
| "started_calls [] = []"

definition entry_call :: "'v json_api \<Rightarrow> 'v \<Rightarrow> string option \<times> string" where
  "entry_call J e = (entry_name J e, entry_arguments J e)"

text \<open>An entry that the loop wrote: an object whose name and arguments are strings.\<close>

definition call_entry :: "'v json_api \<Rightarrow> string \<times> string \<Rightarrow> 'v \<Rightarrow> bool" where
  "call_entry J c e \<longleftrightarrow> (\<exists>m. e = j_object J m \<and> m ''name'' = Some (j_string J (fst c)) \<and>
     m ''arguments'' = Some (j_string J (snd c)))"

lemma update_last_rel:
  assumes "list_all2 R cs es" "\<And>c e. R c e \<Longrightarrow> p e \<Longrightarrow> R c (f e)"
  shows "list_all2 R cs (update_last p f es)"
  using assms(1) by (induction rule: list_all2_induct) (simp_all add: assms(2))

context json_value
begin

lemma entry_call_of: "call_entry J c e \<Longrightarrow> entry_call J e = (Some (fst c), snd c)"
  by (auto simp: call_entry_def entry_call_def entry_name_def entry_arguments_def get_object str_string)

lemma complete_keeps_calls:
  assumes "list_all2 (call_entry J) cs log"
  shows "list_all2 (call_entry J) cs (complete_entry J E name result log)"
  unfolding complete_entry_def using assms
  by (rule update_last_rel) (auto simp: call_entry_def set_object)

lemma new_entry: "call_entry J (name, args) (tool_entry J name args)"
  unfolding call_entry_def tool_entry_def by (intro exI conjI, rule refl) simp_all

lemma handle_log:
  assumes log: "list_all2 (call_entry J) cs (xs_tool_log x)"
    and "handle_agent_message J E tx p clock m x = (b, x1)"
  shows "list_all2 (call_entry J) (cs @ started_calls [InMessage clock m]) (xs_tool_log x1)"
proof -
  show ?thesis
    using assms(2) log new_entry
    by (cases m) (auto simp: complete_keeps_calls list_all2_appendI)
qed

lemma handle_ends: "fst (handle_agent_message J E tx p clock m x) = ends_loop (InMessage clock m)"
  by (cases m) simp_all

lemma started_calls_Cons: "started_calls (i # ins) = started_calls [i] @ started_calls ins"
  by (cases "(i # ins)" rule: started_calls.cases) simp_all

lemma exec_loop_log:
  assumes "list_all2 (call_entry J) cs (xs_tool_log x)"
    "exec_loop J E tx p cancel_rx requested ins x = (r, x1)"
  shows "list_all2 (call_entry J) (cs @ started_calls (handled ins)) (xs_tool_log x1)"
  using assms
proof (induction ins arbitrary: cs x cancel_rx requested)
  case (Cons i ins)
  show ?case
  proof (cases i)
    case (InMessage clock m)
    obtain b x2 where h: "handle_agent_message J E tx p clock m x = (b, x2)" by fastforce
    have log: "list_all2 (call_entry J) (cs @ started_calls [i]) (xs_tool_log x2)"
      using handle_log [OF Cons.prems(1) h] by (simp add: InMessage)
    have b: "b = ends_loop i" using handle_ends [of tx p clock m x] by (simp add: h InMessage)
    show ?thesis
    proof (cases b)
      case True
      then show ?thesis using log Cons.prems(2) b by (simp add: InMessage h)
    next
      case False
      then have "exec_loop J E tx p cancel_rx requested ins x2 = (r, x1)"
        using Cons.prems(2) by (simp add: InMessage h)
      from Cons.IH [OF log this] show ?thesis
        using False b started_calls_Cons [of i "handled ins"] by simp
    qed
  next
    case InCancel
    then show ?thesis using Cons by (auto split: if_splits)
  next
    case InCancelClosed
    then show ?thesis using Cons by (auto split: if_splits)
  qed
qed simp

text \<open>The calls that the log records, seen through the accessors of the orchestrator.\<close>

lemma exec_loop_calls:
  assumes "exec_loop J E tx p cancel_rx False ins x = (r, x1)" "xs_tool_log x = []"
  shows "map (entry_call J) (xs_tool_log x1) = map (\<lambda>(n, a). (Some n, a)) (started_calls (handled ins))"
proof -
  have "list_all2 (call_entry J) (started_calls (handled ins)) (xs_tool_log x1)"
    using exec_loop_log [OF _ assms(1), of "[]"] assms(2) by simp
  then show ?thesis
    by (induction rule: list_all2_induct) (simp_all add: entry_call_of case_prod_beta)
qed

end

lemma find_map_eq:
  "map f xs = map g ys \<Longrightarrow>
    map_option f (find (\<lambda>x. P (f x)) xs) = map_option g (find (\<lambda>y. P (g y)) ys)"
proof (induction xs arbitrary: ys)
  case (Cons x xs)
  then show ?case by (cases ys) auto
qed simp

definition last_submission :: "(string \<times> string) list \<Rightarrow> string option" where
  "last_submission calls = map_option snd (find (\<lambda>c. fst c = ''submit_verification'') (rev calls))"

definition parse_payload :: "('p \<Rightarrow> string + 'q) \<Rightarrow> ('p \<Rightarrow> string + 'q) \<Rightarrow> 'p \<Rightarrow> string + 'q" where
  "parse_payload from_json from_yaml a = (case from_json a of Inr p \<Rightarrow> Inr p
     | Inl _ \<Rightarrow> (case from_yaml a of Inr p \<Rightarrow> Inr p | Inl _ \<Rightarrow> Inl ''Failed to parse submit_verification payload''))"

lemma extract_from_calls:
  assumes log: "tool_log_entries J t = Some log"
    and calls: "map (entry_call J) log = map (\<lambda>(n, a). (Some n, a)) calls"
  shows "extract_verification_payload J fj fy t = (case last_submission calls of
     None \<Rightarrow> Inl ''Verifier must call submit_verification''
   | Some a \<Rightarrow> parse_payload fj fy a)"
proof -
  let ?f = "find (\<lambda>e. entry_name J e = Some ''submit_verification'') (rev log)"
  have "map (entry_call J) (rev log) = map (\<lambda>(n, a). (Some n, a)) (rev calls)"
    using calls by (metis rev_map)
  from find_map_eq [OF this, of "\<lambda>c. fst c = Some ''submit_verification''"]
  have "map_option (entry_call J) ?f =
      map_option (\<lambda>(n, a). (Some n, a)) (find (\<lambda>c. fst c = ''submit_verification'') (rev calls))"
    by (simp add: entry_call_def case_prod_beta)
  then have "map_option (entry_arguments J) ?f = last_submission calls"
    by (cases ?f; cases "find (\<lambda>c. fst c = ''submit_verification'') (rev calls)")
      (auto simp: last_submission_def entry_call_def)
  then show ?thesis
    by (cases ?f; cases "last_submission calls")
      (auto simp: extract_verification_payload_def log parse_payload_def)
qed

section \<open>What the orchestrator sees\<close>

lemma execution_unfold:
  assumes "execute_step_with_events_and_cancel X tx cancel_rx p st spec = (Inr task, requested, events)"
  obtains x0 x1 where "xs_tool_log x0 = []" "xs_error x0 = None"
    "exec_loop (xe_json X) (xe_edit X) tx p cancel_rx False (xe_inputs X) x0 = (requested, x1)"
    "requested \<Longrightarrow> task = cancelled_task X spec"
    "\<not> requested \<Longrightarrow> tk_state (t_status task) = TaCompleted \<Longrightarrow>
       tool_log_entries (xe_json X) task = j_as_array (xe_json X) (j_array (xe_json X) (xs_tool_log x1))"
    "\<not> requested \<Longrightarrow> tk_state (t_status task) =
       (if xs_error x1 = None \<and> xe_join X = None then TaCompleted else TaFailed)"
proof -
  define x0 :: "'a exec_state" where "x0 = send_exec_events tx
      [AgentMessage p (SamUserPrompt (step_prompt (worktree_context (xe_cwd X)) st spec))]
      \<lparr>xs_latest_response = [], xs_tool_log = [], xs_thinking_start = xe_start X, xs_error = None,
       xs_events = []\<rparr> "
  obtain r x1 where l: "exec_loop (xe_json X) (xe_edit X) tx p cancel_rx False (xe_inputs X) x0 = (r, x1)"
    by fastforce
  have set_state: "tk_state (t_status (task_set_state a b s msg t)) = s"
    "t_metadata (task_set_state a b s msg t) = t_metadata t" for a b s msg and t :: "'a task"
    by (simp_all add: task_set_state_def Let_def split: option.splits)
  have x0: "xs_tool_log x0 = []" "xs_error x0 = None" by (simp_all add: x0_def send_exec_events_def)
  note run = assms [unfolded execute_step_with_events_and_cancel_def Let_def x0_def [symmetric] l case_prod_conv]
  have r: "r = requested" using run by simp
  have cancelled: "task = cancelled_task X spec" if requested using run r that by simp
  have rest: "tk_state (t_status task) = (if xs_error x1 = None \<and> xe_join X = None then TaCompleted else TaFailed) \<and>
      (tk_state (t_status task) = TaCompleted \<longrightarrow>
        tool_log_entries (xe_json X) task = j_as_array (xe_json X) (j_array (xe_json X) (xs_tool_log x1)))"
    if "\<not> requested"
    using run r that
    by (cases "xe_join X"; cases "xs_error x1")
      (auto simp: completed_task_def Let_def set_state tool_log_entries_def split: sum.splits)
  show ?thesis by (rule that [OF x0 l [unfolded r]]) (use cancelled rest in auto)
qed

text \<open>C11: the verdict that the orchestrator reads from a verifier's task is the one the verifier gave: when the
  execution of the verifier's step ends in a completed task, the payload is parsed from the arguments of the
  last \<open>submit_verification\<close> call among the messages the executor received, and is missing exactly when there
  was no such call. The JSON library is any that satisfies the laws of \<open>json_value\<close>.\<close>

theorem verdict_is_last_submission:
  assumes "json_value (xe_json X) (xe_edit X)"
    and "execute_step_with_events_and_cancel X tx cancel_rx p st spec = (Inr task, requested, events)"
    and "tk_state (t_status task) = TaCompleted"
  shows "extract_verification_payload (xe_json X) fj fy task =
     (case last_submission (started_calls (handled (xe_inputs X))) of
        None \<Rightarrow> Inl ''Verifier must call submit_verification''
      | Some a \<Rightarrow> parse_payload fj fy a)"
proof -
  obtain x0 x1 where x: "xs_tool_log x0 = []"
    "exec_loop (xe_json X) (xe_edit X) tx p cancel_rx False (xe_inputs X) x0 = (requested, x1)"
    "requested \<Longrightarrow> task = cancelled_task X spec"
    "\<not> requested \<Longrightarrow> tool_log_entries (xe_json X) task =
       j_as_array (xe_json X) (j_array (xe_json X) (xs_tool_log x1))"
    using execution_unfold [OF assms(2)] assms(3) by metis
  have "\<not> requested" using x(3) assms(3) by (auto simp: cancelled_task_def)
  then have "tool_log_entries (xe_json X) task = Some (xs_tool_log x1)"
    using x(4) assms(1) by (simp add: json_value.array_array)
  then show ?thesis
    using json_value.exec_loop_calls [OF assms(1) x(2,1)] by (rule extract_from_calls)
qed

section \<open>How an execution ends\<close>

fun cancel_received :: "exec_input list \<Rightarrow> bool" where
  "cancel_received [] = False"
| "cancel_received (InCancel # ins) = True"
| "cancel_received (InCancelClosed # ins) = False"
| "cancel_received (InMessage c m # ins) = cancel_received ins"

fun reported_error :: "exec_input list \<Rightarrow> string option" where
  "reported_error [] = None"
| "reported_error (InMessage c (AmError e) # ins) = Some e"
| "reported_error (_ # ins) = reported_error ins"

lemma handle_error: "handle_agent_message J E tx p clock m x = (b, x1) \<Longrightarrow>
    xs_error x1 = (case m of AmError e \<Rightarrow> Some e | _ \<Rightarrow> xs_error x)"
  by (cases m) (auto simp: send_exec_events_def)

lemma handle_stops: "fst (handle_agent_message J E tx p clock m x) = ends_loop (InMessage clock m)"
  by (cases m) simp_all

lemma exec_loop_outcome:
  assumes "exec_loop J E tx p cancel_rx requested ins x = (r, x1)" "requested \<Longrightarrow> \<not> cancel_rx" "xs_error x = None"
  shows "(r \<longleftrightarrow> requested \<or> cancel_rx \<and> cancel_received (handled ins)) \<and>
     xs_error x1 = reported_error (handled ins)"
  using assms
proof (induction ins arbitrary: x cancel_rx requested)
  case (Cons i ins)
  show ?case
  proof (cases i)
    case (InMessage clock m)
    obtain b x2 where h: "handle_agent_message J E tx p clock m x = (b, x2)" by fastforce
    have b: "b = ends_loop i" using handle_stops [of J E tx p clock m x] by (simp add: h InMessage)
    show ?thesis
    proof (cases b)
      case True
      then show ?thesis
        using Cons.prems b handle_error [OF h] by (cases m) (auto simp: InMessage h)
    next
      case False
      then have n: "xs_error x2 = None" and re: "reported_error (i # handled ins) = reported_error (handled ins)"
        using handle_error [OF h] b Cons.prems(3) by (cases m; simp add: InMessage)+
      have "exec_loop J E tx p cancel_rx requested ins x2 = (r, x1)"
        using Cons.prems(1) False by (simp add: InMessage h)
      from Cons.IH [OF this Cons.prems(2) n] show ?thesis using False b re by (simp add: InMessage)
    qed
  next
    case InCancel
    then show ?thesis using Cons.IH [of False True x] Cons.IH [of cancel_rx requested x] Cons.prems
      by (auto split: if_splits)
  next
    case InCancelClosed
    then show ?thesis using Cons.IH [of False requested x] Cons.IH [of cancel_rx requested x] Cons.prems
      by (auto split: if_splits)
  qed
qed simp

text \<open>C20: the state of the task an execution returns: cancelled exactly when a cancel signal was received
  before the loop ended (even when the agent also failed), otherwise failed exactly when the agent reported
  an error or its thread failed, otherwise completed; only encoding the summary can make it an error.\<close>

theorem execution_state:
  "case fst (execute_step_with_events_and_cancel X tx cancel_rx p st spec) of
     Inr task \<Rightarrow> tk_state (t_status task) =
       (if cancel_rx \<and> cancel_received (handled (xe_inputs X)) then TaCancelled
        else if reported_error (handled (xe_inputs X)) = None \<and> xe_join X = None then TaCompleted else TaFailed)
   | Inl e \<Rightarrow> \<not> (cancel_rx \<and> cancel_received (handled (xe_inputs X))) \<and>
       reported_error (handled (xe_inputs X)) = None \<and> xe_join X = None \<and> (\<exists>summary. xe_encode X summary = Inl e)"
proof -
  define x0 :: "'a exec_state" where "x0 = send_exec_events tx
      [AgentMessage p (SamUserPrompt (step_prompt (worktree_context (xe_cwd X)) st spec))]
      \<lparr>xs_latest_response = [], xs_tool_log = [], xs_thinking_start = xe_start X, xs_error = None,
       xs_events = []\<rparr> "
  obtain r x1 where l: "exec_loop (xe_json X) (xe_edit X) tx p cancel_rx False (xe_inputs X) x0 = (r, x1)"
    by fastforce
  have "xs_error x0 = None" by (simp add: x0_def send_exec_events_def)
  from exec_loop_outcome [OF l _ this]
  have o: "r \<longleftrightarrow> cancel_rx \<and> cancel_received (handled (xe_inputs X))"
    "xs_error x1 = reported_error (handled (xe_inputs X))" by simp_all
  have set_state: "tk_state (t_status (task_set_state a b s msg t)) = s" for a b s msg and t :: "'a task"
    by (simp add: task_set_state_def Let_def split: option.splits)
  show ?thesis
    unfolding execute_step_with_events_and_cancel_def Let_def x0_def [symmetric] l case_prod_conv fst_conv o(1) [symmetric]
    by (cases r; cases "xe_join X"; cases "reported_error (handled (xe_inputs X))")
      (auto simp: o(2) cancelled_task_def completed_task_def Let_def set_state split: sum.splits)
qed

section \<open>An example\<close>

definition sample_exec :: "json exec_env" where
  "sample_exec = \<lparr>xe_json = serde_api, xe_edit = serde_edit, xe_encode = (\<lambda>_. Inr JNull), xe_cwd = None,
     xe_uuid = ''t1'', xe_uuid_cancelled = ''t2'', xe_now = 0, xe_now_end = 5, xe_start = 0,
     xe_inputs = [InMessage 1 (AmToolCallStarted ''bash'' ''ls''), InMessage 2 (AmToolCallCompleted ''bash'' ''a''),
       InMessage 3 (AmToolCallStarted ''submit_verification'' ''ok''), InMessage 4 AmDone],
     xe_join = None\<rparr>"

definition sample_verifier_step :: "json spec_step" where
  "sample_verifier_step = SpecStep ''1'' ''Verify'' ''check'' [] [] [] [] False False None StPending None None"

definition sample_verifier_spec :: "json spec_sheet" where
  "sample_verifier_spec = SpecSheet ''v'' ''Verify'' [] [sample_verifier_step] ''verifier'' 0 JNull"

definition sample_verifier_task :: "json task" where
  "sample_verifier_task = (case fst (execute_step_with_events_and_cancel sample_exec True True ''1''
     sample_verifier_step sample_verifier_spec) of Inr t \<Rightarrow> t | Inl _ \<Rightarrow> task_new [] 0)"

lemma verdict_is_last_submission_witness:
  "extract_verification_payload serde_api (\<lambda>a. Inl []) (\<lambda>a. Inr \<lparr>vp_status = a, vp_feedback = None, vp_end_convo = True\<rparr>)
     sample_verifier_task = Inr \<lparr>vp_status = ''ok'', vp_feedback = None, vp_end_convo = True\<rparr>"
proof -
  have run: "execute_step_with_events_and_cancel sample_exec True True ''1'' sample_verifier_step
      sample_verifier_spec = (Inr sample_verifier_task, False,
        snd (snd (execute_step_with_events_and_cancel sample_exec True True ''1'' sample_verifier_step
          sample_verifier_spec)))"
    by (simp add: sample_verifier_task_def execute_step_with_events_and_cancel_def sample_exec_def Let_def
        completed_task_def send_exec_events_def)
  have state: "tk_state (t_status sample_verifier_task) = TaCompleted"
    by (simp add: sample_verifier_task_def execute_step_with_events_and_cancel_def sample_exec_def Let_def
        completed_task_def send_exec_events_def task_set_state_def task_new_def)
  have inputs: "xe_json sample_exec = serde_api" "xe_edit sample_exec = serde_edit"
    "last_submission (started_calls (handled (xe_inputs sample_exec))) = Some ''ok''"
    by (simp_all add: sample_exec_def last_submission_def)
  have "json_value (xe_json sample_exec) (xe_edit sample_exec)" by (simp add: inputs serde_json_value)
  from verdict_is_last_submission [OF this run state] show ?thesis
    by (simp add: inputs parse_payload_def)
qed

end
