(* ===== verification/A2a_Protocol.thy ===== *)
theory A2a_Protocol
  imports Task_Types
begin

text \<open>
  \<open>crates/agent_protocol/src/error.rs\<close>, \<open>jsonrpc.rs\<close> and \<open>types/push_notification.rs\<close>: the errors of the
  protocol with their codes, the methods, the JSON-RPC requests and responses, the events of a stream and
  the configuration of push notifications.

  The encoders and decoders that \<open>serde\<close> derives are arguments: a decoder gives the error text or the value,
  an encoder is total, as the \<open>unwrap\<close>s of the source assume.
\<close>

section \<open>Errors\<close>

datatype a2a_error =
    ParseError string
  | InvalidRequest string
  | MethodNotFound string
  | InvalidParams string
  | InternalError string
  | TaskNotFound string
  | TaskNotCancelable
  | PushNotificationNotSupported
  | UnsupportedOperation string
  | ContentTypeNotSupported string
  | InvalidAgentCard string
  | VersionNotSupported string
  | AuthenticationRequired
  | AuthorizationFailed string
  | ConnectionError string
  | Timeout string
  | StreamError string
  | SerializationError string
  | HttpError string
  | RequestError string

fun error_to_string :: "a2a_error \<Rightarrow> string" where
  "error_to_string (ParseError s) = ''Parse error: '' @ s"
| "error_to_string (InvalidRequest s) = ''Invalid request: '' @ s"
| "error_to_string (MethodNotFound s) = ''Method not found: '' @ s"
| "error_to_string (InvalidParams s) = ''Invalid params: '' @ s"
| "error_to_string (InternalError s) = ''Internal error: '' @ s"
| "error_to_string (TaskNotFound s) = ''Task not found: '' @ s"
| "error_to_string TaskNotCancelable = ''Task not cancelable''"
| "error_to_string PushNotificationNotSupported = ''Push notification not supported''"
| "error_to_string (UnsupportedOperation s) = ''Unsupported operation: '' @ s"
| "error_to_string (ContentTypeNotSupported s) = ''Content type not supported: '' @ s"
| "error_to_string (InvalidAgentCard s) = ''Invalid agent card: '' @ s"
| "error_to_string (VersionNotSupported s) = ''Version not supported: '' @ s"
| "error_to_string AuthenticationRequired = ''Authentication required''"
| "error_to_string (AuthorizationFailed s) = ''Authorization failed: '' @ s"
| "error_to_string (ConnectionError s) = ''Connection error: '' @ s"
| "error_to_string (Timeout s) = ''Timeout: '' @ s"
| "error_to_string (StreamError s) = ''Stream error: '' @ s"
| "error_to_string (SerializationError s) = ''Serialization error: '' @ s"
| "error_to_string (HttpError s) = ''HTTP error: '' @ s"
| "error_to_string (RequestError s) = ''Request error: '' @ s"

fun error_code :: "a2a_error \<Rightarrow> int" where
  "error_code (ParseError _) = - 32700"
| "error_code (InvalidRequest _) = - 32600"
| "error_code (MethodNotFound _) = - 32601"
| "error_code (InvalidParams _) = - 32602"
| "error_code (InternalError _) = - 32603"
| "error_code (TaskNotFound _) = - 32001"
| "error_code TaskNotCancelable = - 32002"
| "error_code PushNotificationNotSupported = - 32003"
| "error_code (UnsupportedOperation _) = - 32004"
| "error_code (ContentTypeNotSupported _) = - 32005"
| "error_code (InvalidAgentCard _) = - 32006"
| "error_code AuthenticationRequired = - 32007"
| "error_code (AuthorizationFailed _) = - 32008"
| "error_code (VersionNotSupported _) = - 32009"
| "error_code _ = - 32000"

fun http_status :: "a2a_error \<Rightarrow> nat" where
  "http_status (ParseError _) = 400"
| "http_status (InvalidRequest _) = 400"
| "http_status (MethodNotFound _) = 404"
| "http_status (InvalidParams _) = 400"
| "http_status (InternalError _) = 500"
| "http_status (TaskNotFound _) = 404"
| "http_status TaskNotCancelable = 400"
| "http_status PushNotificationNotSupported = 400"
| "http_status (UnsupportedOperation _) = 400"
| "http_status (ContentTypeNotSupported _) = 415"
| "http_status (InvalidAgentCard _) = 400"
| "http_status AuthenticationRequired = 401"
| "http_status (AuthorizationFailed _) = 403"
| "http_status (VersionNotSupported _) = 400"
| "http_status (ConnectionError _) = 503"
| "http_status (Timeout _) = 504"
| "http_status (StreamError _) = 500"
| "http_status _ = 500"

section \<open>Methods\<close>

datatype a2a_method =
    SendMessage | SendStreamingMessage | GetTask | ListTasks | CancelTask | SubscribeToTask
  | GetExtendedAgentCard | SetPushNotificationConfig | GetPushNotificationConfig

primrec method_as_str :: "a2a_method \<Rightarrow> string" where
  "method_as_str SendMessage = ''message/send''"
| "method_as_str SendStreamingMessage = ''message/stream''"
| "method_as_str GetTask = ''tasks/get''"
| "method_as_str ListTasks = ''tasks/list''"
| "method_as_str CancelTask = ''tasks/cancel''"
| "method_as_str SubscribeToTask = ''tasks/subscribe''"
| "method_as_str GetExtendedAgentCard = ''agent/card''"
| "method_as_str SetPushNotificationConfig = ''tasks/pushNotificationConfig/set''"
| "method_as_str GetPushNotificationConfig = ''tasks/pushNotificationConfig/get''"

definition method_from_str :: "string \<Rightarrow> a2a_method option" where
  "method_from_str s =
     (if s = ''message/send'' then Some SendMessage
      else if s = ''message/stream'' then Some SendStreamingMessage
      else if s = ''tasks/get'' then Some GetTask
      else if s = ''tasks/list'' then Some ListTasks
      else if s = ''tasks/cancel'' then Some CancelTask
      else if s = ''tasks/subscribe'' then Some SubscribeToTask
      else if s = ''agent/card'' then Some GetExtendedAgentCard
      else if s = ''tasks/pushNotificationConfig/set'' then Some SetPushNotificationConfig
      else if s = ''tasks/pushNotificationConfig/get'' then Some GetPushNotificationConfig
      else None)"

lemma method_from_str_eq: "method_from_str s = Some m \<longleftrightarrow> s = method_as_str m"
  by (cases m) (auto simp: method_from_str_def split: if_splits)

lemma method_roundtrip [simp]: "method_from_str (method_as_str m) = Some m"
  by (simp add: method_from_str_eq)

section \<open>Push notifications\<close>

record push_notification_auth =
  pa_schemes :: "string list"
  pa_credentials :: "string option"

record push_notification_config =
  pc_id :: "string option"
  pc_url :: string
  pc_authentication :: "push_notification_auth option"
  pc_token :: "string option"

datatype 'v push_notification_event =
    PnStatusUpdate "'v task_status_update_event"
  | PnArtifactUpdate "'v task_artifact_update_event"
  | PnMessage "'v message"

record 'v push_notification =
  pn_task_id :: string
  pn_context_id :: "string option"
  pn_event :: "'v push_notification_event"
  pn_timestamp :: time

record set_push_notification_config_params =
  spn_task_id :: string
  spn_push_notification_config :: push_notification_config

record get_push_notification_config_params =
  gpn_task_id :: string

definition push_config_new :: "string \<Rightarrow> string \<Rightarrow> push_notification_config" where
  "push_config_new i url = \<lparr>pc_id = Some i, pc_url = url, pc_authentication = None, pc_token = None\<rparr>"

definition push_config_with_bearer_auth ::
  "string \<Rightarrow> push_notification_config \<Rightarrow> push_notification_config" where
  "push_config_with_bearer_auth token c =
     c\<lparr>pc_authentication := Some \<lparr>pa_schemes = [''Bearer''], pa_credentials = Some token\<rparr>\<rparr>"

definition push_config_with_token :: "string \<Rightarrow> push_notification_config \<Rightarrow> push_notification_config" where
  "push_config_with_token token c = c\<lparr>pc_token := Some token\<rparr>"

section \<open>Requests\<close>

datatype request_id = IdString string | IdNumber int

definition request_id_to_string :: "request_id \<Rightarrow> string" where
  "request_id_to_string i = (case i of IdString s \<Rightarrow> s | IdNumber n \<Rightarrow> int_to_string n)"

definition JSONRPC_VERSION :: string where
  "JSONRPC_VERSION = ''2.0''"

record 'v json_rpc_request =
  rq_jsonrpc :: string
  rq_method :: string
  rq_params :: "'v option"
  rq_id :: request_id

record message_configuration =
  mc_accepted_output_modes :: "string list option"
  mc_history_length :: "nat option"
  mc_push_notification_config :: "push_notification_config option"
  mc_blocking :: "bool option"

record 'v send_message_params =
  sm_message :: "'v message"
  sm_spec_step :: "spec_step_ref option"
  sm_configuration :: "message_configuration option"

record get_task_params =
  gp_task_id :: string
  gp_history_length :: "nat option"

record list_tasks_params =
  lp_context_id :: "string option"
  lp_limit :: "nat option"
  lp_offset :: "nat option"

record 'v list_tasks_result =
  lr_tasks :: "'v task list"
  lr_total :: nat

record cancel_task_params =
  cp_task_id :: string

definition request_new :: "a2a_method \<Rightarrow> 'v option \<Rightarrow> request_id \<Rightarrow> 'v json_rpc_request" where
  "request_new m params i = \<lparr>rq_jsonrpc = JSONRPC_VERSION, rq_method = method_as_str m, rq_params = params, rq_id = i\<rparr>"

definition default_send_params :: "'v message \<Rightarrow> 'v send_message_params" where
  "default_send_params m = \<lparr>sm_message = m, sm_spec_step = None, sm_configuration = None\<rparr>"

definition request_send_message ::
  "('v send_message_params \<Rightarrow> 'v) \<Rightarrow> 'v message \<Rightarrow> request_id \<Rightarrow> 'v json_rpc_request" where
  "request_send_message enc m i = request_new SendMessage (Some (enc (default_send_params m))) i"

definition request_send_streaming_message ::
  "('v send_message_params \<Rightarrow> 'v) \<Rightarrow> 'v message \<Rightarrow> request_id \<Rightarrow> 'v json_rpc_request" where
  "request_send_streaming_message enc m i =
     request_new SendStreamingMessage (Some (enc (default_send_params m))) i"

definition request_get_task :: "'v json_api \<Rightarrow> string \<Rightarrow> request_id \<Rightarrow> 'v json_rpc_request" where
  "request_get_task J t i = request_new GetTask (Some (j_object J [''taskId'' \<mapsto> j_string J t])) i"

definition request_cancel_task :: "'v json_api \<Rightarrow> string \<Rightarrow> request_id \<Rightarrow> 'v json_rpc_request" where
  "request_cancel_task J t i = request_new CancelTask (Some (j_object J [''taskId'' \<mapsto> j_string J t])) i"

definition request_subscribe_to_task :: "'v json_api \<Rightarrow> string \<Rightarrow> request_id \<Rightarrow> 'v json_rpc_request" where
  "request_subscribe_to_task J t i =
     request_new SubscribeToTask (Some (j_object J [''taskId'' \<mapsto> j_string J t])) i"

definition insert_some :: "string \<Rightarrow> 'v option \<Rightarrow> (string \<rightharpoonup> 'v) \<Rightarrow> (string \<rightharpoonup> 'v)" where
  "insert_some k v m = (case v of None \<Rightarrow> m | Some x \<Rightarrow> m(k \<mapsto> x))"

definition request_list_tasks :: "'v json_api \<Rightarrow> (nat \<Rightarrow> 'v) \<Rightarrow> string option \<Rightarrow> nat option \<Rightarrow> nat option \<Rightarrow>
    request_id \<Rightarrow> 'v json_rpc_request" where
  "request_list_tasks J number ctx limit offset i =
     request_new ListTasks (Some (j_object J
       (insert_some ''offset'' (map_option number offset)
         (insert_some ''limit'' (map_option number limit)
           (insert_some ''contextId'' (map_option (j_string J) ctx) Map.empty))))) i"

definition request_a2a_method :: "'v json_rpc_request \<Rightarrow> a2a_method option" where
  "request_a2a_method r = method_from_str (rq_method r)"

definition parse_params :: "('v \<Rightarrow> string + 'p) \<Rightarrow> 'v json_rpc_request \<Rightarrow> a2a_error + 'p" where
  "parse_params dec r = (case rq_params r of
      Some v \<Rightarrow> (case dec v of Inl e \<Rightarrow> Inl (InvalidParams e) | Inr p \<Rightarrow> Inr p)
    | None \<Rightarrow> Inl (InvalidParams ''Missing params''))"

section \<open>Responses\<close>

record 'v json_rpc_error =
  er_code :: int
  er_message :: string
  er_data :: "'v option"

record 'v json_rpc_response =
  rs_jsonrpc :: string
  rs_result :: "'v option"
  rs_error :: "'v json_rpc_error option"
  rs_id :: request_id

definition response_success :: "'v \<Rightarrow> request_id \<Rightarrow> 'v json_rpc_response" where
  "response_success v i = \<lparr>rs_jsonrpc = JSONRPC_VERSION, rs_result = Some v, rs_error = None, rs_id = i\<rparr>"

definition response_error :: "'v json_rpc_error \<Rightarrow> request_id \<Rightarrow> 'v json_rpc_response" where
  "response_error e i = \<lparr>rs_jsonrpc = JSONRPC_VERSION, rs_result = None, rs_error = Some e, rs_id = i\<rparr>"

definition error_of_a2a :: "a2a_error \<Rightarrow> 'v json_rpc_error" where
  "error_of_a2a e = \<lparr>er_code = error_code e, er_message = error_to_string e, er_data = None\<rparr>"

definition response_from_error :: "a2a_error \<Rightarrow> request_id \<Rightarrow> 'v json_rpc_response" where
  "response_from_error e i = response_error (error_of_a2a e) i"

definition response_task :: "('v task \<Rightarrow> 'v) \<Rightarrow> 'v task \<Rightarrow> request_id \<Rightarrow> 'v json_rpc_response" where
  "response_task enc t i = response_success (enc t) i"

definition response_is_error :: "'v json_rpc_response \<Rightarrow> bool" where
  "response_is_error r \<longleftrightarrow> rs_error r \<noteq> None"

definition parse_result :: "('v \<Rightarrow> string + 'p) \<Rightarrow> 'v json_rpc_response \<Rightarrow> a2a_error + 'p" where
  "parse_result dec r = (case rs_result r of
      Some v \<Rightarrow> (case dec v of Inl e \<Rightarrow> Inl (ParseError e) | Inr p \<Rightarrow> Inr p)
    | None \<Rightarrow> (case rs_error r of
          Some e \<Rightarrow> Inl (InternalError (er_message e))
        | None \<Rightarrow> Inl (ParseError ''No result in response'')))"

lemmas response_defs = response_success_def response_error_def response_from_error_def response_task_def
  error_of_a2a_def

text \<open>What JSON-RPC asks of a response to the request with identifier \<open>i\<close>.\<close>

definition response_ok :: "request_id \<Rightarrow> 'v json_rpc_response \<Rightarrow> bool" where
  "response_ok i r \<longleftrightarrow> rs_jsonrpc r = ''2.0'' \<and> rs_id r = i \<and> (rs_result r = None) \<noteq> (rs_error r = None)"

lemma responses_ok [simp]:
  "response_ok i (response_success v i)" "response_ok i (response_from_error e i)" "response_ok i (response_task enc t i)"
  by (simp_all add: response_ok_def response_defs JSONRPC_VERSION_def)

section \<open>Stream events\<close>

datatype 'v stream_event =
    EvTask "'v task"
  | EvMessage "'v message"
  | EvStatusUpdate "'v task_status_update_event"
  | EvArtifactUpdate "'v task_artifact_update_event"

definition to_sse_data :: "('v stream_event \<Rightarrow> string + string) \<Rightarrow> 'v stream_event \<Rightarrow> string + string" where
  "to_sse_data enc e = (case enc e of Inl err \<Rightarrow> Inl err | Inr j \<Rightarrow> Inr (''data: '' @ j @ ''\<newline>\<newline>''))"

end
