(* ===== verification/A2a_Handler.thy ===== *)
theory A2a_Handler
  imports Task_Summary Step_Execution A2a_Protocol
begin

text \<open>
  \<open>crates/agent_core/src/a2a.rs\<close>, the sequential part: reading the sheet and the step out of a message and
  executing the step as a task. What an execution does to the shared state of the handler is a list of
  instructions, one for each section of the source between two awaits that touches that state; \<open>A2a_System\<close>
  runs the lists of concurrent requests interleaved. The messages of the agent, the outcome of its thread,
  the random identifiers, the clock and the codecs of serde are arguments.
\<close>

section \<open>Instructions\<close>

text \<open>A subscriber is named by its random identifier; the identifier also names its channel.\<close>

datatype 'v reply =
    ReTask "a2a_error + 'v task"
  | ReTasks "a2a_error + 'v task list \<times> nat"
  | ReStream "a2a_error + string"

datatype 'v instr =
    Emit string "'v stream_event"
  | Deliver string "'v stream_event" "string list" "string list"
  | Prune string "string list"
  | Store "'v task"
  | RequestCancel
  | OpenContext string "'v spec_sheet" "'v spec_step"
  | Register string string
  | RegisterCleanup string string
  | Spawn "'v instr list"
  | CleanupContext string
  | AwaitClosed string
  | RemoveSubscriber string string
  | ReadForSubscribe string string
  | Initial string "'v task"
  | CancelStored time string
  | Reply "'v reply"

section \<open>Reading a request\<close>

definition SPLIT_DIRECTIVE :: string where "SPLIT_DIRECTIVE = ''__nite_split__''"

text \<open>\<open>value.get(a).or_else(|| value.get(b))\<close> on optional metadata.\<close>

definition get_either :: "'v json_api \<Rightarrow> string \<Rightarrow> string \<Rightarrow> 'v option \<Rightarrow> 'v option" where
  "get_either J a b metadata = Option.bind metadata
     (\<lambda>v. case j_get J v a of Some x \<Rightarrow> Some x | None \<Rightarrow> j_get J v b)"

definition parse_spec_sheet ::
  "'v json_api \<Rightarrow> ('v \<Rightarrow> string + 'v spec_sheet) \<Rightarrow> 'v option \<Rightarrow> a2a_error + 'v spec_sheet" where
  "parse_spec_sheet J dec metadata = (case get_either J ''specSheet'' ''spec_sheet'' metadata of
      None \<Rightarrow> Inl (InvalidParams ''message metadata missing specSheet'')
    | Some v \<Rightarrow> (case dec v of
          Inl err \<Rightarrow> Inl (InvalidParams (''invalid specSheet metadata: '' @ err))
        | Inr spec \<Rightarrow> Inr spec))"

definition parse_spec_step :: "'v json_api \<Rightarrow> ('v \<Rightarrow> string + spec_step_ref) \<Rightarrow> 'v option \<Rightarrow>
    spec_step_ref option \<Rightarrow> a2a_error + spec_step_ref" where
  "parse_spec_step J dec metadata fallback = (case get_either J ''specStep'' ''spec_step'' metadata of
      Some v \<Rightarrow> (case dec v of
          Inl err \<Rightarrow> Inl (InvalidParams (''invalid specStep metadata: '' @ err))
        | Inr st \<Rightarrow> Inr st)
    | None \<Rightarrow> (case fallback of
          Some st \<Rightarrow> Inr st
        | None \<Rightarrow> Inl (InvalidParams ''specStep metadata is required'')))"

definition resolve_step :: "'v spec_sheet \<Rightarrow> spec_step_ref \<Rightarrow> a2a_error + 'v spec_step" where
  "resolve_step spec r = (case find (\<lambda>st. st_index st = sr_index r) (sp_steps spec) of
      Some st \<Rightarrow> Inr st
    | None \<Rightarrow> Inl (InvalidParams (concat [''spec '', sp_id spec, '' missing step '', sr_index r])))"

definition split_requested :: "'v json_api \<Rightarrow> 'v option \<Rightarrow> bool" where
  "split_requested J metadata =
     (Option.bind (get_either J ''split'' ''splitRequested'' metadata) (j_as_bool J) = Some True)"

definition resolve_task_id :: "string \<Rightarrow> string option \<Rightarrow> string option \<Rightarrow> string" where
  "resolve_task_id uuid task_id message_task_id = (case task_id of
      Some i \<Rightarrow> i
    | None \<Rightarrow> (case message_task_id of Some i \<Rightarrow> i | None \<Rightarrow> uuid))"

definition append_user_context :: "'v spec_step \<Rightarrow> 'v message \<Rightarrow> 'v spec_step" where
  "append_user_context st m =
     (let text = trim (message_text_content m)
      in if text = [] then st
         else st_set_instructions (concat [st_instructions st, ''\<newline>\<newline>User context:\<newline>'', text]) st)"

definition prepare_spec_and_step :: "'v json_api \<Rightarrow> ('v \<Rightarrow> string + 'v spec_sheet) \<Rightarrow>
    ('v \<Rightarrow> string + spec_step_ref) \<Rightarrow> 'v message \<Rightarrow> spec_step_ref option \<Rightarrow>
    a2a_error + 'v spec_sheet \<times> 'v spec_step" where
  "prepare_spec_and_step J dec_spec dec_step m spec_step =
     (case parse_spec_sheet J dec_spec (ms_metadata m) of Inl e \<Rightarrow> Inl e | Inr spec \<Rightarrow>
      (case parse_spec_step J dec_step (ms_metadata m) spec_step of Inl e \<Rightarrow> Inl e | Inr r \<Rightarrow>
       if sp_id spec \<noteq> sr_spec_id r
       then Inl (InvalidParams (concat [''specStep spec_id '', sr_spec_id r,
              '' does not match specSheet '', sp_id spec]))
       else (case resolve_step spec r of Inl e \<Rightarrow> Inl e | Inr base \<Rightarrow>
         let prepared = append_user_context base m
         in Inr (spec, if split_requested J (ms_metadata m)
                       then st_set_constraints (st_constraints prepared @ [SPLIT_DIRECTIVE]) prepared
                       else prepared))))"

section \<open>Executing a task\<close>

text \<open>
  What an execution does not decide itself. \<open>hx_inputs\<close> are the messages of the agent in the order of the
  channel, each with the identifier of the protocol message it may be wrapped in; \<open>hx_join\<close> is the error of
  the agent's thread, if it had one; \<open>hx_git\<close> the output of \<open>git status\<close>.
\<close>

record 'v handler_env =
  hx_json :: "'v json_api"
  hx_dec_spec :: "'v \<Rightarrow> string + 'v spec_sheet"
  hx_dec_step :: "'v \<Rightarrow> string + spec_step_ref"
  hx_enc_spec :: "'v spec_sheet \<Rightarrow> string + 'v"
  hx_enc_summary :: "task_summary \<Rightarrow> string + 'v"
  hx_json_float :: "32 word \<Rightarrow> 'v"
  hx_json_nat :: "nat \<Rightarrow> 'v"
  hx_yaml :: "string \<Rightarrow> 'v option"
  hx_uuid_resolved :: string
  hx_uuid_task :: string
  hx_uuid_input :: string
  hx_uuid_response :: string
  hx_now :: time
  hx_now_start :: time
  hx_now_end :: time
  hx_inputs :: "(string \<times> agent_message) list"
  hx_join :: "string option"
  hx_git :: "string option"

definition status_event :: "'v task \<Rightarrow> bool \<Rightarrow> 'v stream_event" where
  "status_event t final = EvStatusUpdate \<lparr>se_task_id = t_id t, se_context_id = t_context_id t,
     se_status = t_status t, se_final_update = final\<rparr>"

definition emit_status_update :: "'v task \<Rightarrow> bool \<Rightarrow> 'v instr list" where
  "emit_status_update t final = [Emit (t_id t) (status_event t final)]"

definition emit_message_event :: "string \<Rightarrow> 'v message \<Rightarrow> 'v instr list" where
  "emit_message_event task_id m =
     [Emit task_id (EvMessage (if ms_task_id m = None then m\<lparr>ms_task_id := Some task_id\<rparr> else m))]"

definition persist_task :: "'v task \<Rightarrow> 'v instr list" where
  "persist_task t = [Emit (t_id t) (EvTask t), Store t]"

definition base_metadata_for_step :: "'v json_api \<Rightarrow> 'v spec_step \<Rightarrow> 'v task_metadata" where
  "base_metadata_for_step J st = task_metadata_default\<lparr>tm_extra :=
     [''stepIndex'' \<mapsto> j_string J (st_index st), ''stepTitle'' \<mapsto> j_string J (st_title st),
      ''stepInstructions'' \<mapsto> j_string J (st_instructions st)]\<rparr>"

definition store_summary_metadata :: "(task_summary \<Rightarrow> string + 'v) \<Rightarrow> task_summary \<Rightarrow> 'v task_metadata \<Rightarrow>
    string + 'v task_metadata" where
  "store_summary_metadata enc summary m =
     (case enc summary of Inl e \<Rightarrow> Inl e | Inr v \<Rightarrow> Inr (m\<lparr>tm_summary := Some v\<rparr>))"

definition apply_split_metadata :: "('v spec_sheet \<Rightarrow> string + 'v) \<Rightarrow> (task_summary \<Rightarrow> string + 'v) \<Rightarrow>
    'v spec_sheet \<Rightarrow> task_summary \<Rightarrow> 'v task_metadata \<Rightarrow> string + 'v task_metadata" where
  "apply_split_metadata enc_spec enc split_spec summary m =
     (case enc_spec split_spec of
        Inl e \<Rightarrow> Inl e
      | Inr v \<Rightarrow> store_summary_metadata enc summary (m\<lparr>tm_spec_sheet := Some v\<rparr>))"

definition mark_split_task :: "time \<Rightarrow> 'v task \<Rightarrow> 'v task" where
  "mark_split_task clock t = t\<lparr>t_status := \<lparr>tk_state = TaSubmitted, tk_timestamp = Some clock,
     tk_message = Some ''split'', tk_error = None\<rparr>\<rparr>"

definition extract_split_reason :: "'v json_api \<Rightarrow> (string \<Rightarrow> 'v option) \<Rightarrow> string \<Rightarrow> string option" where
  "extract_split_reason J yaml result =
     (case Option.bind (Option.bind (yaml result) (\<lambda>p. j_get J p ''reason'')) (j_as_str J) of
        None \<Rightarrow> None
      | Some reason \<Rightarrow> if trim reason = [] then None else Some (trim reason))"

definition message_in_task :: "'v task \<Rightarrow> 'v message \<Rightarrow> 'v message" where
  "message_in_task t m = m\<lparr>ms_task_id := Some (t_id t), ms_context_id := t_context_id t\<rparr>"

definition handle_split_task :: "'v handler_env \<Rightarrow> 'v task \<Rightarrow> 'v task_metadata \<Rightarrow> 'v spec_step \<Rightarrow>
    'v spec_sheet \<Rightarrow> string option \<Rightarrow> 'v instr list \<times> (a2a_error + 'v task)" where
  "handle_split_task X t metadata st spec reason =
     (let J = hx_json X in
      case build_split_spec (j_object J [''source'' \<mapsto> j_string J ''split'']) (hx_now_end X) st of
        Inl e \<Rightarrow> ([], Inl (InternalError (''failed to request split: '' @ validation_error_to_string e)))
      | Inr child \<Rightarrow>
         (case apply_split_metadata (hx_enc_spec X) (hx_enc_summary X) child
                 (build_split_summary t st child) metadata of
            Inl e \<Rightarrow> ([], Inl (InternalError (''failed to serialize split metadata: '' @ e)))
          | Inr metadata1 \<Rightarrow>
             let t1 = mark_split_task (hx_now_end X) (t\<lparr>t_metadata := Some metadata1\<rparr>);
                 response = message_in_task t1 (message_agent (hx_uuid_response X)
                   (concat [''Step '', st_index st, '' split into '', nat_to_string (length (sp_steps child)),
                     '' child steps for spec '', sp_id spec,
                     case reason of None \<Rightarrow> [] | Some r \<Rightarrow> '' (reason: '' @ r @ '')'']));
                 t2 = t1\<lparr>t_messages := t_messages t1 @ [response]\<rparr>
             in (emit_message_event (t_id t1) response @ emit_status_update t2 True, Inr t2)))"

section \<open>The messages of the agent\<close>

text \<open>The mutable locals of the receiving loop.\<close>

record run_acc =
  ra_latest_response :: string
  ra_stats :: "generation_stats option"
  ra_error :: "string option"
  ra_tools :: "(string \<times> string \<times> string option) list"
  ra_split :: bool
  ra_split_reason :: "string option"

definition complete_tool ::
  "string \<Rightarrow> string \<Rightarrow> (string \<times> string \<times> string option) list \<Rightarrow> (string \<times> string \<times> string option) list" where
  "complete_tool name result tools =
     update_last (\<lambda>(n, _, r). n = name \<and> r = None) (\<lambda>(n, a, _). (n, a, Some result)) tools"

fun receive_messages :: "'v handler_env \<Rightarrow> 'v task \<Rightarrow> (string \<times> agent_message) list \<Rightarrow> run_acc \<Rightarrow>
    'v instr list \<times> run_acc" where
  "receive_messages X t [] a = ([], a)"
| "receive_messages X t ((uuid, AmAgentResponse content _) # ms) a =
     (let (is, a1) = receive_messages X t ms (a\<lparr>ra_latest_response := content\<rparr>)
      in (emit_message_event (t_id t) (message_in_task t (message_agent uuid content)) @ is, a1))"
| "receive_messages X t ((_, AmError err) # ms) a = ([], a\<lparr>ra_error := Some err\<rparr>)"
| "receive_messages X t ((_, AmGenerationStats g) # ms) a = receive_messages X t ms (a\<lparr>ra_stats := Some g\<rparr>)"
| "receive_messages X t ((_, AmToolCallStarted name args) # ms) a =
     receive_messages X t ms (a\<lparr>ra_tools := ra_tools a @ [(name, args, None)]\<rparr>)"
| "receive_messages X t ((_, AmToolCallCompleted name result) # ms) a =
     (let a1 = a\<lparr>ra_tools := complete_tool name result (ra_tools a)\<rparr>
      in if name = ''request_split''
         then ([RequestCancel], a1\<lparr>ra_split := True,
                 ra_split_reason := extract_split_reason (hx_json X) (hx_yaml X) result\<rparr>)
         else receive_messages X t ms a1)"
| "receive_messages X t ((_, AmDone) # ms) a = ([], a)"
| "receive_messages X t (_ # ms) a = receive_messages X t ms a"

section \<open>The outcome of an execution\<close>

definition working_task :: "'v handler_env \<Rightarrow> string option \<Rightarrow> 'v spec_step \<Rightarrow> 'v spec_sheet \<Rightarrow> 'v task" where
  "working_task X requested st spec =
     (case requested of Some i \<Rightarrow> task_with_id (hx_uuid_task X) (hx_now X) i
                      | None \<Rightarrow> task_new (hx_uuid_task X) (hx_now X))
       \<lparr>t_context_id := Some (sp_id spec),
        t_status := \<lparr>tk_state = TaWorking, tk_timestamp = Some (hx_now_start X),
                     tk_message = Some (''Processing step '' @ st_index st), tk_error = None\<rparr>\<rparr>"

definition failed_execution :: "'v handler_env \<Rightarrow> string \<Rightarrow> 'v task \<Rightarrow> 'v instr list \<times> (a2a_error + 'v task)" where
  "failed_execution X err t =
     (let t1 = t\<lparr>t_status := \<lparr>tk_state = TaFailed, tk_timestamp = Some (hx_now_end X),
                   tk_message = Some ''Generation failed'',
                   tk_error = Some \<lparr>te_code = - 1, te_message = err, te_data = None\<rparr>\<rparr>\<rparr>
      in (emit_status_update t1 True @ persist_task t1, Inl (InternalError err)))"

definition tool_log_entry :: "'v json_api \<Rightarrow> string \<times> string \<times> string option \<Rightarrow> 'v" where
  "tool_log_entry J e = (case e of (name, args, result) \<Rightarrow> j_object J
     [''name'' \<mapsto> j_string J name, ''arguments'' \<mapsto> j_string J args,
      ''result'' \<mapsto> (case result of None \<Rightarrow> j_null J | Some r \<Rightarrow> j_string J r)])"

definition stats_value :: "'v handler_env \<Rightarrow> generation_stats \<Rightarrow> 'v" where
  "stats_value X g = j_object (hx_json X)
     [''avgCompletionTokPerSec'' \<mapsto> hx_json_float X (gs_avg_completion_tok_per_sec g),
      ''completionTokens'' \<mapsto> hx_json_nat X (gs_completion_tokens g),
      ''promptTokens'' \<mapsto> hx_json_nat X (gs_prompt_tokens g),
      ''timeToFirstTokenSec'' \<mapsto> hx_json_float X (gs_time_to_first_token_sec g),
      ''stopReason'' \<mapsto> j_string (hx_json X) (gs_stop_reason g)]"

definition add_extra :: "string \<Rightarrow> 'v \<Rightarrow> 'v task_metadata \<Rightarrow> 'v task_metadata" where
  "add_extra k v m = m\<lparr>tm_extra := (tm_extra m)(k \<mapsto> v)\<rparr>"

definition completed_execution :: "'v handler_env \<Rightarrow> run_acc \<Rightarrow> 'v task_metadata \<Rightarrow> 'v task \<Rightarrow>
    'v instr list \<times> (a2a_error + 'v task)" where
  "completed_execution X a metadata t =
     (let J = hx_json X;
          response = message_in_task t (message_agent (hx_uuid_response X) (ra_latest_response a));
          (is, t1) = (if trim (ra_latest_response a) = [] then ([], t)
             else (emit_message_event (t_id t) response, t\<lparr>t_messages := t_messages t @ [response]\<rparr>));
          metadata1 = add_extra ''toolLog'' (j_array J (map (tool_log_entry J) (ra_tools a))) metadata;
          t2 = t1\<lparr>t_metadata := Some metadata1\<rparr>
      in case store_summary_metadata (hx_enc_summary X) (build_summary J (hx_git X) t2 None) metadata1 of
           Inl e \<Rightarrow> (is, Inl (InternalError (''failed to serialize summary: '' @ e)))
         | Inr metadata2 \<Rightarrow>
            let t3 = t2\<lparr>t_metadata := Some metadata2, t_status := (t_status t2)\<lparr>tk_state := TaCompleted,
                       tk_timestamp := Some (hx_now_end X), tk_message := Some ''Response ready''\<rparr>\<rparr>;
                t4 = (case ra_stats a of None \<Rightarrow> t3
                      | Some g \<Rightarrow> t3\<lparr>t_metadata :=
                          map_option (add_extra ''generationStats'' (stats_value X g)) (t_metadata t3)\<rparr>)
            in (is @ emit_status_update t3 True @ persist_task t4, Inr t4))"

definition execute_task :: "'v handler_env \<Rightarrow> string option \<Rightarrow> 'v spec_step \<Rightarrow> 'v spec_sheet \<Rightarrow>
    'v instr list \<times> (a2a_error + 'v task)" where
  "execute_task X requested st spec =
     (let t0 = working_task X requested st spec;
          metadata = base_metadata_for_step (hx_json X) st;
          input = message_in_task t0 (message_user (hx_uuid_input X) (st_instructions st));
          start = emit_status_update t0 False @ emit_message_event (t_id t0) input;
          t1 = t0\<lparr>t_messages := t_messages t0 @ [input]\<rparr>
      in if SPLIT_DIRECTIVE \<in> set (st_constraints st)
         then let (is, r) = handle_split_task X t1 metadata st spec None in (start @ is, r)
         else
           let (is, a) = receive_messages X t1 (hx_inputs X)
                 \<lparr>ra_latest_response = [], ra_stats = None, ra_error = None, ra_tools = [], ra_split = False,
                  ra_split_reason = None\<rparr>;
               err = (case hx_join X of Some e \<Rightarrow> Some e | None \<Rightarrow> ra_error a);
               (js, r) = (if ra_split a then handle_split_task X t1 metadata st spec (ra_split_reason a)
                          else case err of Some e \<Rightarrow> failed_execution X e t1
                          | None \<Rightarrow> completed_execution X a metadata t1)
           in (start @ is @ js, r))"

section \<open>What an execution sends and stores\<close>

fun emitted :: "'v instr \<Rightarrow> (string \<times> 'v stream_event) list" where
  "emitted (Emit i e) = [(i, e)]"
| "emitted _ = []"

fun stored :: "'v instr \<Rightarrow> 'v task list" where
  "stored (Store t) = [t]"
| "stored _ = []"

fun final_update :: "'v stream_event \<Rightarrow> 'v task_status_update_event list" where
  "final_update (EvStatusUpdate u) = (if se_final_update u then [u] else [])"
| "final_update _ = []"

definition emissions :: "'v instr list \<Rightarrow> (string \<times> 'v stream_event) list" where
  "emissions is = concat (map emitted is)"

definition stores :: "'v instr list \<Rightarrow> 'v task list" where
  "stores is = concat (map stored is)"

definition final_updates :: "'v instr list \<Rightarrow> 'v task_status_update_event list" where
  "final_updates is = concat (map (\<lambda>(_, e). final_update e) (emissions is))"

definition emits_to :: "string \<Rightarrow> 'v instr list \<Rightarrow> bool" where
  "emits_to i is \<longleftrightarrow> list_all (\<lambda>(j, _). j = i) (emissions is)"

lemma trace_append [simp]:
  "emissions (is @ js) = emissions is @ emissions js" "stores (is @ js) = stores is @ stores js"
  "final_updates (is @ js) = final_updates is @ final_updates js"
  "emits_to i (is @ js) \<longleftrightarrow> emits_to i is \<and> emits_to i js"
  by (simp_all add: emissions_def stores_def final_updates_def emits_to_def)

lemma trace_Nil [simp]: "emissions [] = []" "stores [] = []" "final_updates [] = []" "emits_to i []"
  by (simp_all add: emissions_def stores_def final_updates_def emits_to_def)

lemma trace_emit [simp]:
  "emits_to j (emit_status_update t f) \<longleftrightarrow> t_id t = j"
  "stores (emit_status_update t f) = []"
  "final_updates (emit_status_update t False) = []"
  "final_updates (emit_status_update t True) =
     [\<lparr>se_task_id = t_id t, se_context_id = t_context_id t, se_status = t_status t, se_final_update = True\<rparr>]"
  "stores (emit_message_event i m) = []" "final_updates (emit_message_event i m) = []"
  "stores (persist_task t) = [t]" "final_updates (persist_task t) = []"
  "emits_to j (emit_message_event i m) \<longleftrightarrow> i = j" "emits_to j (persist_task t) \<longleftrightarrow> t_id t = j"
  by (simp_all add: emissions_def stores_def final_updates_def emits_to_def emit_status_update_def status_event_def
      emit_message_event_def persist_task_def)

text \<open>Executions only emit, store and request the cancellation of the agent.\<close>

fun execution_instr :: "'v instr \<Rightarrow> bool" where
  "execution_instr (Emit _ _) = True"
| "execution_instr (Store _) = True"
| "execution_instr RequestCancel = True"
| "execution_instr _ = False"

lemma execution_instr_emit [simp]:
  "list_all execution_instr (emit_status_update t f)" "list_all execution_instr (emit_message_event i m)"
  "list_all execution_instr (persist_task t)"
  by (simp_all add: emit_status_update_def emit_message_event_def persist_task_def)

lemma request_cancel_trace [simp]:
  "stores [RequestCancel] = []" "final_updates [RequestCancel] = []" "emits_to i [RequestCancel]"
  by (simp_all add: emissions_def stores_def final_updates_def emits_to_def)

lemma receive_messages_trace:
  "receive_messages X t ms a = (is, a1) \<Longrightarrow>
     stores is = [] \<and> final_updates is = [] \<and> emits_to (t_id t) is \<and> list_all execution_instr is"
proof (induction ms arbitrary: a "is" a1)
  case Nil
  then show ?case by simp
next
  case (Cons m ms)
  obtain u am where m: "m = (u, am)" by (cases m)
  show ?case
  proof (cases "\<exists>c n. am = AmAgentResponse c n")
    case True
    then obtain c n where am: "am = AmAgentResponse c n" by blast
    obtain js a2 where r: "receive_messages X t ms (a\<lparr>ra_latest_response := c\<rparr>) = (js, a2)" by fastforce
    show ?thesis using Cons.prems Cons.IH [OF r] by (auto simp: m am r)
  next
    case False
    then show ?thesis using Cons.prems Cons.IH unfolding m
      by (cases am) (auto simp: Let_def split: if_splits)
  qed
qed

lemma message_in_task_sel [simp]: "ms_task_id (message_in_task t m) = Some (t_id t)"
  by (simp add: message_in_task_def)

lemma working_task_sel [simp]:
  "t_id (working_task X (Some i) st spec) = i" "t_context_id (working_task X r st spec) = Some (sp_id spec)"
  "tk_state (t_status (working_task X r st spec)) = TaWorking"
  by (simp_all add: working_task_def task_with_id_def split: option.splits)

text \<open>
  How an execution can end: with a completed task, which is announced and stored; with a split, announced
  but not stored; with a failed generation, announced and stored and reported as an error; or with an error
  of an encoder, after which nothing is announced or stored.
\<close>

definition settled :: "string \<Rightarrow> 'v instr list \<Rightarrow> a2a_error + 'v task \<Rightarrow> bool" where
  "settled i is r \<longleftrightarrow> (case r of
      Inr t \<Rightarrow> t_id t = i \<and> map se_status (final_updates is) = [t_status t] \<and>
        (tk_state (t_status t) = TaCompleted \<and> stores is = [t] \<or>
         tk_state (t_status t) = TaSubmitted \<and> stores is = [])
    | Inl e \<Rightarrow> (\<exists>t. stores is = [t] \<and> t_id t = i \<and> tk_state (t_status t) = TaFailed \<and>
                 map se_status (final_updates is) = [t_status t] \<and>
                 (\<exists>m. e = InternalError m \<and> map_option te_message (tk_error (t_status t)) = Some m)) \<or>
        stores is = [] \<and> final_updates is = [] \<and>
          (\<exists>m. e = InternalError (''failed to serialize '' @ m)))"

lemma settled_prepend [simp]:
  "stores is = [] \<Longrightarrow> final_updates is = [] \<Longrightarrow> settled i (is @ js) r \<longleftrightarrow> settled i js r"
  by (simp add: settled_def split: sum.split)

lemma split_settled:
  assumes "handle_split_task X t m st spec reason = (is, r)"
  shows "settled (t_id t) is r \<and> emits_to (t_id t) is \<and> list_all execution_instr is"
proof -
  obtain child where child: "build_split_spec (j_object (hx_json X) [''source'' \<mapsto> j_string (hx_json X) ''split''])
      (hx_now_end X) st = Inr child"
    using chained_valid [of "split_steps st"] split_steps_chained [of st]
    by (simp add: build_split_spec_def Let_def del: validate.simps)
  show ?thesis
    using assms
    by (auto simp: handle_split_task_def child settled_def mark_split_task_def Let_def split: sum.splits)
qed

lemma failed_settled:
  "failed_execution X err t = (is, r) \<Longrightarrow>
     settled (t_id t) is r \<and> emits_to (t_id t) is \<and> list_all execution_instr is"
  by (auto simp: failed_execution_def settled_def Let_def)

lemma completed_settled:
  "completed_execution X a m t = (is, r) \<Longrightarrow>
     settled (t_id t) is r \<and> emits_to (t_id t) is \<and> list_all execution_instr is"
  by (auto simp: completed_execution_def settled_def Let_def split: sum.splits option.splits if_splits)

lemma execution_parts:
  assumes "execute_task X (Some i) st spec = (is, r)"
  obtains js where "settled i js r" and "emits_to i js" and "list_all execution_instr js"
    and "is = emit_status_update (working_task X (Some i) st spec) False @
          emit_message_event i (message_in_task (working_task X (Some i) st spec)
            (message_user (hx_uuid_input X) (st_instructions st))) @ js"
proof -
  define t0 where "t0 = working_task X (Some i) st spec"
  define inp where "inp = message_in_task t0 (message_user (hx_uuid_input X) (st_instructions st))"
  define t1 where "t1 = t0\<lparr>t_messages := t_messages t0 @ [inp]\<rparr>"
  define md where "md = base_metadata_for_step (hx_json X) st"
  have ids: "t_id t0 = i" "t_id t1 = i" by (simp_all add: t0_def t1_def)
  note exec = assms [unfolded execute_task_def, folded t0_def, unfolded Let_def, folded inp_def, folded t1_def,
      folded md_def]
  show thesis
  proof (cases "SPLIT_DIRECTIVE \<in> set (st_constraints st)")
    case True
    obtain js r1 where h: "handle_split_task X t1 md st spec None = (js, r1)" by fastforce
    show thesis
    proof (rule that [of js])
      show "settled i js r" "emits_to i js" "list_all execution_instr js"
        using split_settled [OF h] exec True h by (simp_all add: ids)
    qed (use exec True h in \<open>auto simp: ids t0_def inp_def\<close>)
  next
    case False
    obtain is1 a where rcv: "receive_messages X t1 (hx_inputs X)
        \<lparr>ra_latest_response = [], ra_stats = None, ra_error = None, ra_tools = [], ra_split = False,
         ra_split_reason = None\<rparr> = (is1, a)" by fastforce
    define fin where "fin = (if ra_split a then handle_split_task X t1 md st spec (ra_split_reason a)
        else case (case hx_join X of Some e \<Rightarrow> Some e | None \<Rightarrow> ra_error a) of
            Some e \<Rightarrow> failed_execution X e t1 | None \<Rightarrow> completed_execution X a md t1)"
    obtain js r1 where fin_eq: "fin = (js, r1)" by (cases fin)
    have fin: "settled i js r1 \<and> emits_to i js \<and> list_all execution_instr js"
      using fin_eq split_settled [of X t1 md st spec "ra_split_reason a" js r1] failed_settled [of X _ t1 js r1]
        completed_settled [of X a md t1 js r1]
      by (simp add: fin_def ids split: if_splits option.splits)
    have tr: "stores is1 = []" "final_updates is1 = []" "emits_to i is1" "list_all execution_instr is1"
      using receive_messages_trace [OF rcv] by (simp_all add: ids)
    show thesis
    proof (rule that [of "is1 @ js"])
      have "r = r1" "is = (emit_status_update t0 False @ emit_message_event (t_id t0) inp) @ is1 @ js"
        using exec False fin_eq by (auto simp: rcv fin_def)
      then show "settled i (is1 @ js) r"
        "is = emit_status_update (working_task X (Some i) st spec) False @
          emit_message_event i (message_in_task (working_task X (Some i) st spec)
            (message_user (hx_uuid_input X) (st_instructions st))) @ is1 @ js"
        using fin tr by (simp_all add: ids inp_def t0_def)
    qed (use fin tr ids in simp_all)
  qed
qed

text \<open>C12: executing a step as task i sends events to the subscribers of i only, the first being a status
  update 'working', and ends in one of four ways: (1) a completed task, announced by exactly one final status
  update and stored; (2) a split task in state 'submitted', announced by exactly one final status update and
  never stored; (3) an internal error with the text of the failure, after a failed task was announced by
  exactly one final status update and stored; (4) an internal error because a summary or sheet could not be
  encoded, with neither a final update nor a stored task. Building the child sheet never fails.\<close>

theorem execution_outcome:
  "case execute_task X (Some i) st spec of (is, r) \<Rightarrow>
     settled i is r \<and> emits_to i is \<and> list_all execution_instr is \<and>
     hd is = Emit i (status_event (working_task X (Some i) st spec) False)"
proof -
  obtain "is" r where ex: "execute_task X (Some i) st spec = (is, r)" by fastforce
  then show ?thesis
    by (rule execution_parts) (simp add: ex, simp add: emit_status_update_def)
qed

end
