(* ===== verification/A2a_System.thy ===== *)
theory A2a_System
  imports A2a_Handler
begin

text \<open>
  \<open>crates/agent_core/src/a2a.rs\<close>, the concurrent part: the state that the requests to one handler share, the
  operations on it, and the interleaved runs of any number of requests, executions and cleanup tasks. One
  step runs one instruction of one thread, which is one critical section of the source. A bounded channel is
  a queue of at most 32 events; a send to a full one waits. Channels are named by the random identifiers of
  their subscribers, which are fresh.
\<close>

section \<open>State\<close>

text \<open>A cleanup action of a context is the closure of \<open>handle_streaming_message\<close>: it spawns the removal of a
  subscriber of a task.\<close>

record 'v task_context =
  tc_spec :: "'v spec_sheet"
  tc_step :: "'v spec_step"
  tc_cleanup_actions :: "(string \<times> string) list"

record 'v a2a_state =
  hs_tasks :: "string \<rightharpoonup> 'v task"
  hs_contexts :: "string \<rightharpoonup> 'v task_context"
  hs_streams :: "string \<rightharpoonup> string set"
  hs_queues :: "string \<rightharpoonup> 'v stream_event list"
  hs_closed :: "string set"
  hs_cancel :: bool
  hs_threads :: "(bool \<times> 'v instr list) list"
  hs_replies :: "'v reply list"
  hs_used :: "string set"

definition handler_new :: "'v a2a_state" where
  "handler_new = \<lparr>hs_tasks = Map.empty, hs_contexts = Map.empty, hs_streams = Map.empty, hs_queues = Map.empty,
     hs_closed = {}, hs_cancel = False, hs_threads = [], hs_replies = [], hs_used = {}\<rparr>"

text \<open>\<open>hs_used\<close> are the random identifiers given out so far; it is not part of the program's state.

  The flag of a thread tells a request, which ends with its connection, from a spawned task.\<close>

definition spawn :: "'v instr list \<Rightarrow> 'v a2a_state \<Rightarrow> 'v a2a_state" where
  "spawn is s = s\<lparr>hs_threads := hs_threads s @ [(False, is)]\<rparr>"

section \<open>The stream manager\<close>

definition CHANNEL_CAPACITY :: nat where "CHANNEL_CAPACITY = 32"

text \<open>The watcher keeps a sender of its own until the receiver is dropped.\<close>

definition spawn_cleanup :: "string \<Rightarrow> string \<Rightarrow> 'v a2a_state \<Rightarrow> 'v a2a_state" where
  "spawn_cleanup task_id sub = spawn [AwaitClosed sub, RemoveSubscriber task_id sub]"

definition stream_register :: "string \<Rightarrow> string \<Rightarrow> 'v a2a_state \<Rightarrow> 'v a2a_state" where
  "stream_register task_id sub s = spawn_cleanup task_id sub
     (s\<lparr>hs_streams := (hs_streams s)(task_id \<mapsto>
          insert sub (case hs_streams s task_id of None \<Rightarrow> {} | Some subs \<Rightarrow> subs)),
        hs_queues := (hs_queues s)(sub \<mapsto> [])\<rparr>)"

definition remove_subscribers :: "string \<Rightarrow> string list \<Rightarrow> 'v a2a_state \<Rightarrow> 'v a2a_state" where
  "remove_subscribers task_id subs s = (case hs_streams s task_id of
      None \<Rightarrow> s
    | Some e \<Rightarrow> s\<lparr>hs_streams := (hs_streams s)(task_id :=
        (if e - set subs = {} then None else Some (e - set subs)))\<rparr>)"

text \<open>\<open>send\<close> to the subscribers that are left of those read at the start; \<open>failed\<close> collects the ones whose
  receiver is gone.\<close>

definition deliver :: "string \<Rightarrow> 'v stream_event \<Rightarrow> string list \<Rightarrow> string list \<Rightarrow> 'v a2a_state \<Rightarrow>
    ('v instr list \<times> 'v a2a_state) option" where
  "deliver task_id ev subs failed s = (case subs of
      [] \<Rightarrow> Some (if failed = [] then [] else [Prune task_id failed], s)
    | sub # rest \<Rightarrow>
        if sub \<in> hs_closed s then Some ([Deliver task_id ev rest (failed @ [sub])], s)
        else (case hs_queues s sub of
            None \<Rightarrow> None
          | Some q \<Rightarrow> if length q < CHANNEL_CAPACITY
              then Some ([Deliver task_id ev rest failed], s\<lparr>hs_queues := (hs_queues s)(sub \<mapsto> q @ [ev])\<rparr>)
              else None))"

section \<open>Contexts\<close>

definition open_context :: "string \<Rightarrow> 'v spec_sheet \<Rightarrow> 'v spec_step \<Rightarrow> 'v a2a_state \<Rightarrow> 'v a2a_state" where
  "open_context task_id spec st s = s\<lparr>hs_contexts := (hs_contexts s)(task_id \<mapsto>
     \<lparr>tc_spec = spec, tc_step = st, tc_cleanup_actions = []\<rparr>)\<rparr>"

definition register_cleanup_action :: "string \<Rightarrow> string \<times> string \<Rightarrow> 'v a2a_state \<Rightarrow> bool \<times> 'v a2a_state" where
  "register_cleanup_action task_id action s = (case hs_contexts s task_id of
      None \<Rightarrow> (False, s)
    | Some c \<Rightarrow> (True, s\<lparr>hs_contexts := (hs_contexts s)(task_id \<mapsto>
        c\<lparr>tc_cleanup_actions := tc_cleanup_actions c @ [action]\<rparr>)\<rparr>))"

definition run_cleanup_action :: "string \<times> string \<Rightarrow> 'v a2a_state \<Rightarrow> 'v a2a_state" where
  "run_cleanup_action action = spawn [RemoveSubscriber (fst action) (snd action)]"

definition cleanup_task_context :: "string \<Rightarrow> 'v a2a_state \<Rightarrow> 'v a2a_state" where
  "cleanup_task_context task_id s = (case hs_contexts s task_id of
      None \<Rightarrow> s
    | Some c \<Rightarrow> (fold run_cleanup_action (tc_cleanup_actions c) s)
        \<lparr>hs_contexts := (hs_contexts s)(task_id := None)\<rparr>)"

section \<open>Tasks\<close>

definition get_task :: "string \<Rightarrow> 'v a2a_state \<Rightarrow> a2a_error + 'v task" where
  "get_task task_id s =
     (case hs_tasks s task_id of Some t \<Rightarrow> Inr t | None \<Rightarrow> Inl (TaskNotFound task_id))"

text \<open>\<open>keys\<close> is the order in which the hash map yields its entries.\<close>

definition list_tasks :: "string list \<Rightarrow> string option \<Rightarrow> nat option \<Rightarrow> nat option \<Rightarrow> 'v a2a_state \<Rightarrow>
    a2a_error + 'v task list \<times> nat" where
  "list_tasks keys ctx limit offset s =
     (let all = List.map_filter (hs_tasks s) keys;
          tasks = (case ctx of None \<Rightarrow> all | Some c \<Rightarrow> filter (\<lambda>t. t_context_id t = Some c) all);
          total = length tasks;
          start = min (case offset of None \<Rightarrow> 0 | Some n \<Rightarrow> n) total;
          stop = (case limit of None \<Rightarrow> total | Some n \<Rightarrow> min (start + n) total)
      in Inr (take (stop - start) (drop start tasks), total))"

definition cancel_stored :: "time \<Rightarrow> string \<Rightarrow> 'v a2a_state \<Rightarrow> (a2a_error + 'v task) \<times> 'v a2a_state" where
  "cancel_stored clock task_id s = (case hs_tasks s task_id of
      None \<Rightarrow> (Inl (TaskNotFound task_id), s)
    | Some t \<Rightarrow>
        let t1 = (if task_state_is_terminal (tk_state (t_status t)) then t
                  else t\<lparr>t_status := (t_status t)\<lparr>tk_state := TaCancelled, tk_timestamp := Some clock,
                           tk_message := Some ''Cancelled by requester''\<rparr>\<rparr>)
        in (Inr t1, s\<lparr>hs_tasks := (hs_tasks s)(task_id \<mapsto> t1)\<rparr>))"

definition cancel_task :: "time \<Rightarrow> string \<Rightarrow> 'v a2a_state \<Rightarrow> (a2a_error + 'v task) \<times> 'v a2a_state" where
  "cancel_task clock task_id s = cancel_stored clock task_id (s\<lparr>hs_cancel := True\<rparr>)"

section \<open>Requests\<close>

definition handle_message :: "'v handler_env \<Rightarrow> 'v message \<Rightarrow> string option \<Rightarrow> spec_step_ref option \<Rightarrow>
    'v instr list" where
  "handle_message X m task_id spec_step =
     (case prepare_spec_and_step (hx_json X) (hx_dec_spec X) (hx_dec_step X) m spec_step of
        Inl e \<Rightarrow> [Reply (ReTask (Inl e))]
      | Inr (spec, st) \<Rightarrow>
          let i = resolve_task_id (hx_uuid_resolved X) task_id (ms_task_id m);
              (is, r) = execute_task X (Some i) st spec
          in OpenContext i spec st # is @ [CleanupContext i, Reply (ReTask r)])"

definition handle_streaming_message :: "'v handler_env \<Rightarrow> string \<Rightarrow> 'v message \<Rightarrow> string option \<Rightarrow>
    spec_step_ref option \<Rightarrow> 'v instr list" where
  "handle_streaming_message X sub m task_id spec_step =
     (case prepare_spec_and_step (hx_json X) (hx_dec_spec X) (hx_dec_step X) m spec_step of
        Inl e \<Rightarrow> [Reply (ReStream (Inl e))]
      | Inr (spec, st) \<Rightarrow>
          let i = resolve_task_id (hx_uuid_resolved X) task_id (ms_task_id m)
          in [OpenContext i spec st, Register i sub, RegisterCleanup i sub,
              Spawn (fst (execute_task X (Some i) st spec) @ [CleanupContext i]), Reply (ReStream (Inr sub))])"

datatype 'v rpc =
    RpcMessage "'v handler_env" "'v message" "string option" "spec_step_ref option"
  | RpcStream "'v handler_env" string "'v message" "string option" "spec_step_ref option"
  | RpcSubscribe string string
  | RpcCancel time string

primrec rpc_thread :: "'v rpc \<Rightarrow> 'v instr list" where
  "rpc_thread (RpcMessage X m i r) = handle_message X m i r"
| "rpc_thread (RpcStream X sub m i r) = handle_streaming_message X sub m i r"
| "rpc_thread (RpcSubscribe i sub) = [ReadForSubscribe i sub]"
| "rpc_thread (RpcCancel clock i) = [RequestCancel, CancelStored clock i]"

primrec rpc_subscribers :: "'v rpc \<Rightarrow> string set" where
  "rpc_subscribers (RpcMessage _ _ _ _) = {}"
| "rpc_subscribers (RpcStream _ sub _ _ _) = {sub}"
| "rpc_subscribers (RpcSubscribe _ sub) = {sub}"
| "rpc_subscribers (RpcCancel _ _) = {}"

section \<open>Running an instruction\<close>

text \<open>Subscribing to a stored task: \<open>subscribe_to_task\<close>.\<close>

definition subscribe_to_task :: "string \<Rightarrow> string \<Rightarrow> 'v a2a_state \<Rightarrow> 'v instr list" where
  "subscribe_to_task i sub s = (case hs_tasks s i of
      None \<Rightarrow> [Reply (ReStream (Inl (TaskNotFound i)))]
    | Some t \<Rightarrow> [Register i sub, Initial sub t])"

definition send_initial :: "string \<Rightarrow> 'v task \<Rightarrow> 'v a2a_state \<Rightarrow> ('v instr list \<times> 'v a2a_state) option" where
  "send_initial sub t s =
     (if sub \<in> hs_closed s
      then Some ([Reply (ReStream (Inl (InternalError ''failed to initialize task stream'')))], s)
      else (case hs_queues s sub of
          None \<Rightarrow> None
        | Some q \<Rightarrow> if length q < CHANNEL_CAPACITY
            then Some ([Reply (ReStream (Inr sub))], s\<lparr>hs_queues := (hs_queues s)(sub \<mapsto> q @ [EvTask t])\<rparr>)
            else None))"

text \<open>The instructions it turns into and the new state, or nothing while it waits. \<open>order\<close> is the order in
  which the hash map of the subscribers is read.\<close>

fun run_instr :: "string list \<Rightarrow> 'v instr \<Rightarrow> 'v a2a_state \<Rightarrow> ('v instr list \<times> 'v a2a_state) option" where
  "run_instr order (Emit i ev) s = (case hs_streams s i of
      None \<Rightarrow> Some ([], s)
    | Some e \<Rightarrow> if distinct order \<and> set order = e then Some ([Deliver i ev order []], s) else None)"
| "run_instr order (Deliver i ev subs failed) s = deliver i ev subs failed s"
| "run_instr order (Prune i failed) s = Some ([], remove_subscribers i failed s)"
| "run_instr order (Store t) s = Some ([], s\<lparr>hs_tasks := (hs_tasks s)(t_id t \<mapsto> t)\<rparr>)"
| "run_instr order RequestCancel s = Some ([], s\<lparr>hs_cancel := True\<rparr>)"
| "run_instr order (OpenContext i spec st) s = Some ([], open_context i spec st s)"
| "run_instr order (Register i sub) s = Some ([], stream_register i sub s)"
| "run_instr order (RegisterCleanup i sub) s = Some ([], snd (register_cleanup_action i (i, sub) s))"
| "run_instr order (Spawn is) s = Some ([], spawn is s)"
| "run_instr order (CleanupContext i) s = Some ([], cleanup_task_context i s)"
| "run_instr order (AwaitClosed sub) s = (if sub \<in> hs_closed s then Some ([], s) else None)"
| "run_instr order (RemoveSubscriber i sub) s = Some ([], remove_subscribers i [sub] s)"
| "run_instr order (ReadForSubscribe i sub) s = Some (subscribe_to_task i sub s, s)"
| "run_instr order (Initial sub t) s = send_initial sub t s"
| "run_instr order (CancelStored clock i) s =
     (let (r, s1) = cancel_stored clock i s in Some ([Reply (ReTask r)], s1))"
| "run_instr order (Reply r) s = Some ([], s\<lparr>hs_replies := hs_replies s @ [r]\<rparr>)"

section \<open>Interleaved runs\<close>

text \<open>Who still owns a sender of the channel: the stream manager, an unfinished delivery, a subscription that
  has not sent its first event, the watcher.\<close>

fun holds_sender :: "string \<Rightarrow> 'v instr \<Rightarrow> bool" where
  "holds_sender u (Deliver _ _ subs _) \<longleftrightarrow> u \<in> set subs"
| "holds_sender u (Initial v _) \<longleftrightarrow> u = v"
| "holds_sender u (AwaitClosed v) \<longleftrightarrow> u = v"
| "holds_sender u (Spawn is) \<longleftrightarrow> list_ex (holds_sender u) is"
| "holds_sender u _ \<longleftrightarrow> False"

definition sender_alive :: "string \<Rightarrow> 'v a2a_state \<Rightarrow> bool" where
  "sender_alive u s \<longleftrightarrow> (\<exists>e \<in> ran (hs_streams s). u \<in> e) \<or>
     (\<exists>th \<in> set (hs_threads s). list_ex (holds_sender u) (snd th))"

text \<open>\<open>rx.recv().await\<close>: an event, the end of the stream (\<open>None\<close> inside), or waiting.\<close>

definition rx_recv :: "string \<Rightarrow> 'v a2a_state \<Rightarrow> ('v stream_event option \<times> 'v a2a_state) option" where
  "rx_recv u s = (if u \<in> hs_closed s then None
     else case hs_queues s u of
       None \<Rightarrow> None
     | Some [] \<Rightarrow> if sender_alive u s then None else Some (None, s)
     | Some (ev # q) \<Rightarrow> Some (Some ev, s\<lparr>hs_queues := (hs_queues s)(u \<mapsto> q)\<rparr>))"

text \<open>The receivers that an unanswered request still owns; they are dropped with it.\<close>

fun held_receivers :: "'v instr \<Rightarrow> string set" where
  "held_receivers (Reply (ReStream (Inr u))) = {u}"
| "held_receivers (Initial u _) = {u}"
| "held_receivers _ = {}"

inductive a2a_step :: "'v a2a_state \<Rightarrow> 'v a2a_state \<Rightarrow> bool" where
  Accept: "rpc_subscribers q \<inter> hs_used s = {} \<Longrightarrow>
    a2a_step s (s\<lparr>hs_threads := hs_threads s @ [(True, rpc_thread q)], hs_used := hs_used s \<union> rpc_subscribers q\<rparr>)"
| Run: "i < length (hs_threads s) \<Longrightarrow> hs_threads s ! i = (k, x # rest) \<Longrightarrow>
    run_instr order x s = Some (pre, s1) \<Longrightarrow>
    a2a_step s (s1\<lparr>hs_threads := (hs_threads s1)[i := (k, pre @ rest)]\<rparr>)"
| Receive: "rx_recv u s = Some (ev, s1) \<Longrightarrow> a2a_step s s1"
| Close: "u \<in> dom (hs_queues s) \<Longrightarrow> a2a_step s (s\<lparr>hs_closed := insert u (hs_closed s)\<rparr>)"
| Abandon: "i < length (hs_threads s) \<Longrightarrow> hs_threads s ! i = (True, is) \<Longrightarrow>
    a2a_step s (s\<lparr>hs_threads := (hs_threads s)[i := (True, [])],
                  hs_closed := hs_closed s \<union> \<Union> (held_receivers ` set is) \<inter> dom (hs_queues s)\<rparr>)"

inductive a2a_reachable :: "'v a2a_state \<Rightarrow> bool" where
  start: "a2a_reachable handler_new"
| step: "a2a_reachable s \<Longrightarrow> a2a_step s s1 \<Longrightarrow> a2a_reachable s1"

section \<open>Invariants\<close>

text \<open>Only finished tasks are ever on their way to the store.\<close>

fun instr_ok :: "'v instr \<Rightarrow> bool" where
  "instr_ok (Store t) \<longleftrightarrow> task_is_terminal t"
| "instr_ok (Spawn is) \<longleftrightarrow> list_all instr_ok is"
| "instr_ok _ \<longleftrightarrow> True"

definition threads_ok :: "'v a2a_state \<Rightarrow> bool" where
  "threads_ok s \<longleftrightarrow> (\<forall>th \<in> set (hs_threads s). list_all instr_ok (snd th))"

definition tasks_ok :: "'v a2a_state \<Rightarrow> bool" where
  "tasks_ok s \<longleftrightarrow> (\<forall>i t. hs_tasks s i = Some t \<longrightarrow> t_id t = i \<and> task_is_terminal t)"

definition queues_ok :: "'v a2a_state \<Rightarrow> bool" where
  "queues_ok s \<longleftrightarrow> (\<forall>u q. hs_queues s u = Some q \<longrightarrow> length q \<le> CHANNEL_CAPACITY)"

text \<open>An instruction that a spawned task has still to run.\<close>

definition pending :: "'v instr \<Rightarrow> 'v a2a_state \<Rightarrow> bool" where
  "pending x s \<longleftrightarrow> (\<exists>th \<in> set (hs_threads s). \<not> fst th \<and> x \<in> set (snd th))"

text \<open>A task has an entry for its subscribers only while it has some, and the removal of each is under way.\<close>

definition streams_ok :: "'v a2a_state \<Rightarrow> bool" where
  "streams_ok s \<longleftrightarrow> (\<forall>i. hs_streams s i \<noteq> Some {}) \<and>
     (\<forall>i e u. hs_streams s i = Some e \<and> u \<in> e \<longrightarrow> pending (RemoveSubscriber i u) s)"

definition watched :: "'v a2a_state \<Rightarrow> bool" where
  "watched s \<longleftrightarrow> (\<forall>u \<in> dom (hs_queues s) - hs_closed s. pending (AwaitClosed u) s)"

lemma execution_instrs_ok:
  assumes "execute_task X (Some i) st spec = (is, r)"
  shows "list_all instr_ok is"
proof -
  have ok: "list_all instr_ok js" if "list_all execution_instr js" "list_all task_is_terminal (stores js)"
    for js :: "'a instr list"
    using that
  proof (induction js)
    case (Cons x js)
    then show ?case by (cases x) (simp_all add: stores_def)
  qed simp
  from assms show ?thesis
  proof (rule execution_parts)
    fix js assume js: "settled i js r" "list_all execution_instr js"
      and "is = emit_status_update (working_task X (Some i) st spec) False @
          emit_message_event i (message_in_task (working_task X (Some i) st spec)
            (message_user (hx_uuid_input X) (st_instructions st))) @ js"
    moreover have "list_all task_is_terminal (stores js)"
      using js(1) by (auto simp: settled_def task_is_terminal_def task_state_is_terminal_def split: sum.splits)
    ultimately show ?thesis by (auto intro!: ok)
  qed
qed

lemma execution_instrs_ok_fst: "list_all instr_ok (fst (execute_task X (Some i) st spec))"
  by (cases "execute_task X (Some i) st spec") (simp add: execution_instrs_ok)

lemma rpc_thread_ok: "list_all instr_ok (rpc_thread q)"
  by (cases q) (auto simp: handle_message_def handle_streaming_message_def Let_def execution_instrs_ok
      execution_instrs_ok_fst
      split: sum.splits prod.splits)

subsection \<open>Threads\<close>

lemma spawn_sel [simp]:
  "hs_threads (spawn is s) = hs_threads s @ [(False, is)]" "hs_tasks (spawn is s) = hs_tasks s"
  "hs_streams (spawn is s) = hs_streams s" "hs_queues (spawn is s) = hs_queues s"
  "hs_closed (spawn is s) = hs_closed s" "hs_cancel (spawn is s) = hs_cancel s"
  "hs_contexts (spawn is s) = hs_contexts s"
  by (simp_all add: spawn_def)

lemma fold_cleanup_sel [simp]:
  "hs_threads (fold run_cleanup_action as s) =
     hs_threads s @ map (\<lambda>a. (False, [RemoveSubscriber (fst a) (snd a)])) as"
  "hs_tasks (fold run_cleanup_action as s) = hs_tasks s"
  "hs_streams (fold run_cleanup_action as s) = hs_streams s"
  "hs_queues (fold run_cleanup_action as s) = hs_queues s"
  "hs_closed (fold run_cleanup_action as s) = hs_closed s"
  by (induction as arbitrary: s) (simp_all add: run_cleanup_action_def)

lemma remove_subscribers_sel [simp]:
  "hs_threads (remove_subscribers i us s) = hs_threads s" "hs_tasks (remove_subscribers i us s) = hs_tasks s"
  "hs_queues (remove_subscribers i us s) = hs_queues s" "hs_closed (remove_subscribers i us s) = hs_closed s"
  by (simp_all add: remove_subscribers_def split: option.split)

lemma remove_subscribers_streams:
  "hs_streams (remove_subscribers i us s) j = Some e \<Longrightarrow>
     \<exists>e0. hs_streams s j = Some e0 \<and> e = (if j = i then e0 - set us else e0) \<and> (e0 \<noteq> {} \<longrightarrow> e \<noteq> {})"
  by (auto simp: remove_subscribers_def split: option.splits if_splits)

lemmas operation_defs = stream_register_def spawn_cleanup_def deliver_def open_context_def
  register_cleanup_action_def cleanup_task_context_def cancel_stored_def subscribe_to_task_def send_initial_def

text \<open>Running an instruction only appends to the threads, and keeps them well formed.\<close>

lemma run_instr_threads:
  assumes "run_instr order x s = Some (pre, s1)"
  shows "\<exists>new. hs_threads s1 = hs_threads s @ new \<and>
    (instr_ok x \<longrightarrow> list_all instr_ok pre \<and> (\<forall>th \<in> set new. list_all instr_ok (snd th)))"
  using assms by (cases x) (auto simp: operation_defs Let_def split: option.splits if_splits list.splits)

lemma run_instr_closed: "run_instr order x s = Some (pre, s1) \<Longrightarrow> hs_closed s1 = hs_closed s"
  by (cases x) (auto simp: operation_defs Let_def split: option.splits if_splits list.splits)

lemma run_instr_tasks:
  "run_instr order x s = Some (pre, s1) \<Longrightarrow> tasks_ok s \<Longrightarrow> instr_ok x \<Longrightarrow> tasks_ok s1"
  by (cases x) (auto simp: tasks_ok_def operation_defs Let_def task_is_terminal_def
      split: option.splits if_splits list.splits)

lemma run_instr_queues:
  "run_instr order x s = Some (pre, s1) \<Longrightarrow> queues_ok s \<Longrightarrow> queues_ok s1"
  by (cases x) (auto simp: queues_ok_def operation_defs Let_def split: option.splits if_splits list.splits)

lemma run_instr_streams:
  assumes "run_instr order x s = Some (pre, s1)" "hs_streams s1 j = Some e1" "u \<in> e1"
  shows "(\<exists>e. hs_streams s j = Some e \<and> u \<in> e \<and> x \<noteq> RemoveSubscriber j u) \<or> x = Register j u"
  using assms
  by (cases x) (auto simp: operation_defs Let_def remove_subscribers_streams
      dest!: remove_subscribers_streams split: option.splits if_splits list.splits)

lemma run_instr_entry:
  assumes "run_instr order x s = Some (pre, s1)" "\<forall>j. hs_streams s j \<noteq> Some {}"
  shows "hs_streams s1 j \<noteq> Some {}"
proof
  assume "hs_streams s1 j = Some {}"
  then show False
    using assms
    by (cases x) (auto simp: operation_defs Let_def
        dest!: remove_subscribers_streams split: option.splits if_splits list.splits)
qed

lemma run_instr_dom:
  assumes "run_instr order x s = Some (pre, s1)" "u \<in> dom (hs_queues s1)"
  shows "u \<in> dom (hs_queues s) \<or> (\<exists>i. x = Register i u)"
  using assms by (cases x) (auto simp: operation_defs Let_def split: option.splits if_splits list.splits)

text \<open>Replacing the head of a thread keeps every other instruction that is pending.\<close>

lemma pending_run:
  assumes i: "i < length (hs_threads s)" "hs_threads s ! i = (k, x # rest)"
    and th: "hs_threads s1 = hs_threads s @ new"
    and p: "pending y s" "y \<noteq> x"
  shows "pending y (s1\<lparr>hs_threads := (hs_threads s1)[i := (k, pre @ rest)]\<rparr>)"
proof -
  obtain j where j: "j < length (hs_threads s)" "\<not> fst (hs_threads s ! j)" "y \<in> set (snd (hs_threads s ! j))"
  proof -
    obtain th where "th \<in> set (hs_threads s)" "\<not> fst th" "y \<in> set (snd th)"
      using p(1) unfolding pending_def by blast
    then show thesis using that by (metis in_set_conv_nth)
  qed
  define ths where "ths = (hs_threads s1)[i := (k, pre @ rest)]"
  have "\<not> fst (ths ! j) \<and> y \<in> set (snd (ths ! j)) \<and> j < length ths"
    using i j p(2) by (cases "j = i") (auto simp: ths_def th nth_append)
  then show ?thesis by (auto simp: pending_def ths_def [symmetric])
qed

lemma pending_new:
  assumes i: "i < length (hs_threads s)" and th: "hs_threads s1 = hs_threads s @ new"
    and new: "(False, is) \<in> set new" "y \<in> set is"
  shows "pending y (s1\<lparr>hs_threads := (hs_threads s1)[i := (k, pre @ rest)]\<rparr>)"
proof -
  have "(hs_threads s1)[i := (k, pre @ rest)] = (hs_threads s)[i := (k, pre @ rest)] @ new"
    using i by (simp add: th list_update_append1)
  then show ?thesis using new by (force simp: pending_def)
qed

subsection \<open>Steps\<close>

definition system_inv :: "'v a2a_state \<Rightarrow> bool" where
  "system_inv s \<longleftrightarrow> threads_ok s \<and> tasks_ok s \<and> queues_ok s \<and> streams_ok s \<and> watched s"

lemma fields_only [simp]:
  "tasks_ok (s\<lparr>hs_threads := ths\<rparr>) = tasks_ok s" "queues_ok (s\<lparr>hs_threads := ths\<rparr>) = queues_ok s"
  "tasks_ok (s\<lparr>hs_used := us\<rparr>) = tasks_ok s" "queues_ok (s\<lparr>hs_used := us\<rparr>) = queues_ok s"
  "tasks_ok (s\<lparr>hs_closed := us\<rparr>) = tasks_ok s" "queues_ok (s\<lparr>hs_closed := us\<rparr>) = queues_ok s"
  "tasks_ok (s\<lparr>hs_queues := qs\<rparr>) = tasks_ok s"
  by (simp_all add: tasks_ok_def queues_ok_def)

lemma instr_inv:
  assumes i: "i < length (hs_threads s)" "hs_threads s ! i = (k, x # rest)"
    and run: "run_instr order x s = Some (pre, s1)" and inv: "system_inv s"
  shows "system_inv (s1\<lparr>hs_threads := (hs_threads s1)[i := (k, pre @ rest)]\<rparr>)" (is "system_inv ?s2")
proof -
  have th0: "list_all instr_ok (x # rest)"
    using inv i nth_mem [OF i(1)] by (auto simp: system_inv_def threads_ok_def)
  obtain new where new: "hs_threads s1 = hs_threads s @ new"
    "list_all instr_ok pre" "\<forall>th \<in> set new. list_all instr_ok (snd th)"
    using run_instr_threads [OF run] th0 by auto
  have kept: "pending y ?s2" if "pending y s" "y \<noteq> x" for y
    by (rule pending_run [OF i new(1) that])
  have fresh: "pending y ?s2" if x: "x = Register j u" and y: "y = AwaitClosed u \<or> y = RemoveSubscriber j u" for j u y
  proof (rule pending_new [OF i(1) new(1)])
    show "(False, [AwaitClosed u, RemoveSubscriber j u]) \<in> set new"
      using run new(1) by (auto simp: x stream_register_def spawn_cleanup_def)
  qed (use y in auto)
  have "threads_ok ?s2"
  proof -
    have sub: "set (hs_threads ?s2) \<subseteq> insert (k, pre @ rest) (set (hs_threads s) \<union> set new)"
      using set_update_subset_insert [of "hs_threads s1" i "(k, pre @ rest)"] by (simp add: new(1))
    have old: "\<forall>th \<in> set (hs_threads s). list_all instr_ok (snd th)"
      using inv by (simp add: system_inv_def threads_ok_def)
    show ?thesis
      unfolding threads_ok_def
    proof
      fix th assume "th \<in> set (hs_threads ?s2)"
      with sub consider "th = (k, pre @ rest)" | "th \<in> set (hs_threads s)" | "th \<in> set new" by blast
      then show "list_all instr_ok (snd th)"
      proof cases
        case 1
        then show ?thesis using th0 new(2) by simp
      next
        case 2
        then show ?thesis by (rule old [THEN bspec])
      next
        case 3
        then show ?thesis by (rule new(3) [THEN bspec])
      qed
    qed
  qed
  moreover have "tasks_ok ?s2"
    using run_instr_tasks [OF run] inv th0 by (simp add: system_inv_def)
  moreover have "queues_ok ?s2"
    using run_instr_queues [OF run] inv by (simp add: system_inv_def)
  moreover have "streams_ok ?s2"
    unfolding streams_ok_def
  proof (intro conjI allI impI)
    show "hs_streams ?s2 j \<noteq> Some {}" for j
      using run_instr_entry [OF run] inv by (simp add: system_inv_def streams_ok_def)
    fix j e u assume "hs_streams ?s2 j = Some e \<and> u \<in> e"
    then have "(\<exists>e. hs_streams s j = Some e \<and> u \<in> e \<and> x \<noteq> RemoveSubscriber j u) \<or> x = Register j u"
      using run_instr_streams [OF run] by simp
    then show "pending (RemoveSubscriber j u) ?s2"
    proof
      assume "\<exists>e. hs_streams s j = Some e \<and> u \<in> e \<and> x \<noteq> RemoveSubscriber j u"
      then have "pending (RemoveSubscriber j u) s" "RemoveSubscriber j u \<noteq> x"
        using inv unfolding system_inv_def streams_ok_def by auto
      then show ?thesis by (rule kept)
    qed (rule fresh, assumption, simp)
  qed
  moreover have "watched ?s2"
    unfolding watched_def
  proof
    fix u assume u: "u \<in> dom (hs_queues ?s2) - hs_closed ?s2"
    then have open_u: "u \<in> dom (hs_queues s1)" "u \<notin> hs_closed s"
      using run_instr_closed [OF run] by auto
    have x: "x \<noteq> AwaitClosed u"
    proof
      assume "x = AwaitClosed u"
      with run open_u(2) show False by simp
    qed
    show "pending (AwaitClosed u) ?s2"
      using run_instr_dom [OF run open_u(1)]
    proof
      assume "u \<in> dom (hs_queues s)"
      then have "pending (AwaitClosed u) s"
        using inv open_u(2) unfolding system_inv_def watched_def by blast
      then show ?thesis using kept x by blast
    qed (use fresh in blast)
  qed
  ultimately show ?thesis by (simp add: system_inv_def)
qed

lemma pending_only [simp]:
  "pending y (s\<lparr>hs_closed := c\<rparr>) = pending y s" "pending y (s\<lparr>hs_queues := qs\<rparr>) = pending y s"
  "pending y (s\<lparr>hs_used := us\<rparr>) = pending y s"
  by (simp_all add: pending_def)

lemma pending_accept: "pending y s \<Longrightarrow> pending y (s\<lparr>hs_threads := hs_threads s @ ths\<rparr>)"
  by (auto simp: pending_def)

lemma pending_abandon:
  assumes "hs_threads s ! i = (True, is)" "pending y s"
  shows "pending y (s\<lparr>hs_threads := (hs_threads s)[i := (True, [])]\<rparr>)"
proof -
  obtain th where "th \<in> set (hs_threads s)" "\<not> fst th" "y \<in> set (snd th)"
    using assms(2) unfolding pending_def by blast
  then obtain j where j: "j < length (hs_threads s)" "hs_threads s ! j = th" by (metis in_set_conv_nth)
  with assms(1) \<open>\<not> fst th\<close> have "j \<noteq> i" by auto
  with j have "(hs_threads s)[i := (True, [])] ! j = th" "j < length ((hs_threads s)[i := (True, [])])"
    by simp_all
  then have "th \<in> set ((hs_threads s)[i := (True, [])])" by (metis nth_mem)
  with \<open>\<not> fst th\<close> \<open>y \<in> set (snd th)\<close> show ?thesis unfolding pending_def by auto
qed

text \<open>A step that leaves the maps alone and keeps what is pending keeps the invariant.\<close>

lemma inv_same_streams:
  assumes "system_inv s" and "threads_ok s1" "tasks_ok s1" "queues_ok s1" and "hs_streams s1 = hs_streams s"
    and "dom (hs_queues s1) = dom (hs_queues s)" "hs_closed s \<subseteq> hs_closed s1"
    and "\<And>y. pending y s \<Longrightarrow> pending y s1"
  shows "system_inv s1"
proof -
  have "streams_ok s1" using assms(1,5,8) unfolding system_inv_def streams_ok_def by metis
  moreover have "watched s1" using assms(1,6,7,8) unfolding system_inv_def watched_def by blast
  ultimately show ?thesis using assms(2-4) by (simp add: system_inv_def)
qed

lemma step_inv: "a2a_step s s2 \<Longrightarrow> system_inv s \<Longrightarrow> system_inv s2"
proof (induction rule: a2a_step.induct)
  case (Accept q s)
  have old: "\<forall>th \<in> set (hs_threads s). list_all instr_ok (snd th)"
    using Accept.prems by (simp add: system_inv_def threads_ok_def)
  show ?case
  proof (rule inv_same_streams [OF Accept.prems])
    show "threads_ok (s\<lparr>hs_threads := hs_threads s @ [(True, rpc_thread q)],
        hs_used := hs_used s \<union> rpc_subscribers q\<rparr>)"
      using old rpc_thread_ok by (simp add: threads_ok_def)
  qed (use Accept.prems pending_accept [of _ s "[(True, rpc_thread q)]"] in \<open>simp_all add: system_inv_def\<close>)
next
  case (Run i s k x rest order pre s1)
  then show ?case by (rule instr_inv)
next
  case (Receive u s ev s1)
  have q: "s1 = s \<or> (\<exists>e q. hs_queues s u = Some (e # q) \<and> s1 = s\<lparr>hs_queues := (hs_queues s)(u \<mapsto> q)\<rparr>)"
    using Receive.hyps by (auto simp: rx_recv_def split: if_splits option.splits list.splits)
  then show ?case
  proof (elim disjE exE conjE)
    fix e q assume uq: "hs_queues s u = Some (e # q)" and s1: "s1 = s\<lparr>hs_queues := (hs_queues s)(u \<mapsto> q)\<rparr>"
    have len: "length (e # q) \<le> CHANNEL_CAPACITY"
      using Receive.prems uq unfolding system_inv_def queues_ok_def by blast
    show ?case
    proof (rule inv_same_streams [OF Receive.prems])
      show "threads_ok s1" "tasks_ok s1" using Receive.prems by (simp_all add: s1 system_inv_def threads_ok_def)
      show "queues_ok s1" using Receive.prems len by (simp add: s1 system_inv_def queues_ok_def)
    qed (use uq in \<open>auto simp: s1\<close>)
  qed (use Receive.prems in simp)
next
  case (Close u s)
  show ?case
    by (rule inv_same_streams [OF Close.prems])
      (use Close.prems in \<open>auto simp: system_inv_def threads_ok_def\<close>)
next
  case (Abandon i s "is")
  have sub: "set ((hs_threads s)[i := (True, [])]) \<subseteq> insert (True, []) (set (hs_threads s))"
    by (rule set_update_subset_insert)
  have old: "\<forall>th \<in> set (hs_threads s). list_all instr_ok (snd th)"
    using Abandon.prems by (simp add: system_inv_def threads_ok_def)
  have ths: "list_all instr_ok (snd th)" if "th \<in> set ((hs_threads s)[i := (True, [])])" for th
    using sub that old by (cases "th = (True, [])") auto
  show ?case
    by (rule inv_same_streams [OF Abandon.prems])
      (use Abandon.prems ths pending_abandon [OF Abandon.hyps(2)] in \<open>auto simp: system_inv_def threads_ok_def\<close>)
qed

lemma reachable_inv: "a2a_reachable s \<Longrightarrow> system_inv s"
proof (induction rule: a2a_reachable.induct)
  case start
  then show ?case
    by (simp add: system_inv_def threads_ok_def tasks_ok_def queues_ok_def streams_ok_def watched_def handler_new_def)
next
  case (step s s1)
  then show ?case using step_inv by blast
qed

section \<open>What clients can rely on\<close>

text \<open>C17: whatever the interleaving of requests, executions, disconnections and cleanup tasks, the handler keeps
  its state in order: a task is stored under its own id and only once it is terminal, no channel holds more
  than 32 events, a task has an entry in the stream map only while it has subscribers, and for every
  subscriber a spawned task that will remove it is still to run.\<close>

theorem handler_invariant:
  "a2a_reachable s \<Longrightarrow> tasks_ok s \<and> queues_ok s \<and> streams_ok s"
  using reachable_inv by (auto simp: system_inv_def)

lemma cancel_answers_get:
  "tasks_ok s \<Longrightarrow> cancel_task clock i s = (get_task i s, s\<lparr>hs_cancel := True\<rparr>)"
proof -
  assume ok: "tasks_ok s"
  have "task_is_terminal t" if "hs_tasks s i = Some t" for t
    using ok that unfolding tasks_ok_def by blast
  then show ?thesis
    by (auto simp: cancel_task_def cancel_stored_def get_task_def task_is_terminal_def Let_def fun_upd_idem
        split: option.split)
qed

text \<open>C15: cancelling a task never cancels it. In every reachable state \<open>cancel_task\<close> answers exactly what
  \<open>get_task\<close> answers, a finished task or TaskNotFound, and leaves every stored task as it is, because a task
  is stored only when it has ended; all it does is raise the flag that every generation of the agent shares,
  also for a task that does not exist.\<close>

theorem cancel_never_cancels:
  "a2a_reachable s \<Longrightarrow> cancel_task clock i s = (get_task i s, s\<lparr>hs_cancel := True\<rparr>)"
  using reachable_inv cancel_answers_get by (auto simp: system_inv_def)

text \<open>C14: no client ever sees the end of an event stream. As long as its receiver exists, the watcher that the
  stream manager spawned for it owns a sender, so the receiver waits for more events even when the task has
  ended, its final event was read and the subscriber was removed from the stream map.\<close>

theorem stream_never_ends:
  "a2a_reachable s \<Longrightarrow> rx_recv u s \<noteq> Some (None, s1)"
proof
  assume "a2a_reachable s" and rx: "rx_recv u s = Some (None, s1)"
  then have "u \<notin> hs_closed s" "u \<in> dom (hs_queues s)" "\<not> sender_alive u s"
    by (auto simp: rx_recv_def split: if_splits option.splits list.splits)
  moreover from this have "pending (AwaitClosed u) s"
    using reachable_inv [OF \<open>a2a_reachable s\<close>] unfolding system_inv_def watched_def by blast
  ultimately show False
    unfolding sender_alive_def pending_def list_ex_iff by (metis holds_sender.simps(3))
qed

section \<open>A run\<close>

text \<open>Schedules that say which thread runs next, with the order in which it reads the subscribers.\<close>

definition run_thread :: "nat \<Rightarrow> string list \<Rightarrow> 'v a2a_state \<Rightarrow> 'v a2a_state option" where
  "run_thread i order s = (if i < length (hs_threads s) then
     (case hs_threads s ! i of
        (k, x # rest) \<Rightarrow> (case run_instr order x s of
            Some (pre, s1) \<Rightarrow> Some (s1\<lparr>hs_threads := (hs_threads s1)[i := (k, pre @ rest)]\<rparr>)
          | None \<Rightarrow> None)
      | (k, []) \<Rightarrow> None) else None)"

fun run_schedule :: "(nat \<times> string list) list \<Rightarrow> 'v a2a_state \<Rightarrow> 'v a2a_state option" where
  "run_schedule [] s = Some s"
| "run_schedule ((i, order) # is) s = (case run_thread i order s of None \<Rightarrow> None | Some s1 \<Rightarrow> run_schedule is s1)"

lemma run_thread_step: "run_thread i order s = Some s1 \<Longrightarrow> a2a_step s s1"
  by (auto simp: run_thread_def intro: a2a_step.Run split: if_splits option.splits prod.splits list.splits)

lemma run_schedule_reachable: "run_schedule is s = Some s1 \<Longrightarrow> a2a_reachable s \<Longrightarrow> a2a_reachable s1"
  by (induction "is" s rule: run_schedule.induct) (auto intro: a2a_reachable.step run_thread_step split: option.splits)

definition sample_step :: "json spec_step" where
  "sample_step = SpecStep ''1'' ''T'' ''go'' [] [] [] [] False False None StPending None None"

definition sample_sheet :: "json spec_sheet" where
  "sample_sheet = SpecSheet ''s'' ''S'' [] [sample_step] ''me'' 0 JNull"

definition sample_handler :: "json handler_env" where
  "sample_handler = \<lparr>hx_json = serde_api, hx_dec_spec = (\<lambda>_. Inr sample_sheet),
     hx_dec_step = (\<lambda>_. Inr \<lparr>sr_index = ''1'', sr_instructions = ''go'', sr_spec_id = ''s''\<rparr>),
     hx_enc_spec = (\<lambda>_. Inr (JBool True)), hx_enc_summary = (\<lambda>_. Inr (JBool True)), hx_json_float = (\<lambda>_. JNull),
     hx_json_nat = (\<lambda>_. JNull), hx_yaml = (\<lambda>_. None), hx_uuid_resolved = ''t'', hx_uuid_task = ''x'',
     hx_uuid_input = ''i'', hx_uuid_response = ''r'', hx_now = 0, hx_now_start = 1, hx_now_end = 2,
     hx_inputs = [(''c'', AmAgentResponse ''ok'' 1), (''d'', AmDone)], hx_join = None, hx_git = None\<rparr>"

definition sample_message :: "json message" where
  "sample_message = (message_user ''m'' [])\<lparr>ms_metadata :=
     Some (JObject [''specSheet'' \<mapsto> JNull, ''specStep'' \<mapsto> JNull])\<rparr>"

definition sample_start :: "json a2a_state" where
  "sample_start = handler_new\<lparr>
     hs_threads := [(True, rpc_thread (RpcStream sample_handler ''u'' sample_message None None))],
     hs_used := {''u''}\<rparr>"

definition sample_schedule :: "(nat \<times> string list) list" where
  "sample_schedule = replicate 5 (0, []) @ replicate 20 (2, [''u'']) @ [(3, [])]"

lemma sample_start_reachable: "a2a_reachable sample_start"
proof -
  have "a2a_step handler_new sample_start"
    using a2a_step.Accept [of "RpcStream sample_handler ''u'' sample_message None None" handler_new]
    by (simp add: sample_start_def handler_new_def)
  then show ?thesis by (rule a2a_reachable.step [OF a2a_reachable.start])
qed

definition sample_end :: "json a2a_state" where
  "sample_end = the (run_schedule sample_schedule sample_start)"

lemma sample_end_reachable: "a2a_reachable sample_end"
proof -
  have "run_schedule sample_schedule sample_start \<noteq> None" by code_simp
  then show ?thesis
    using run_schedule_reachable sample_start_reachable unfolding sample_end_def by force
qed

lemma sample_end_facts:
  "map_option (\<lambda>t. tk_state (t_status t)) (hs_tasks sample_end ''t'') = Some TaCompleted"
  "map_option length (hs_queues sample_end ''u'') = Some 6" "hs_streams sample_end ''t'' = None"
  "\<not> hs_cancel sample_end" "hs_closed sample_end = {}"
  by code_simp+

lemma receive_all:
  "a2a_reachable s \<Longrightarrow> hs_queues s u = Some q \<Longrightarrow> u \<notin> hs_closed s \<Longrightarrow>
     a2a_reachable (s\<lparr>hs_queues := (hs_queues s)(u \<mapsto> [])\<rparr>)"
proof (induction q arbitrary: s)
  case Nil
  then show ?case by (simp add: fun_upd_idem)
next
  case (Cons e q)
  let ?s = "s\<lparr>hs_queues := (hs_queues s)(u \<mapsto> q)\<rparr>"
  have "a2a_step s ?s"
    using Cons.prems by (intro a2a_step.Receive [of u s "Some e"]) (simp add: rx_recv_def)
  then have "a2a_reachable ?s" using Cons.prems(1) by (blast intro: a2a_reachable.step)
  then have r: "a2a_reachable (?s\<lparr>hs_queues := (hs_queues ?s)(u \<mapsto> [])\<rparr>)"
    by (rule Cons.IH) (use Cons.prems(3) in simp_all)
  have eq: "?s\<lparr>hs_queues := (hs_queues ?s)(u \<mapsto> [])\<rparr> = s\<lparr>hs_queues := (hs_queues s)(u \<mapsto> [])\<rparr>"
    by simp
  show ?case using r unfolding eq .
qed

definition sample_read :: "json a2a_state" where
  "sample_read = sample_end\<lparr>hs_queues := (hs_queues sample_end)(''u'' \<mapsto> [])\<rparr>"

lemma sample_read_reachable: "a2a_reachable sample_read"
proof -
  obtain q where "hs_queues sample_end ''u'' = Some q" using sample_end_facts(2) by auto
  then show ?thesis
    unfolding sample_read_def using sample_end_reachable sample_end_facts(5) by (intro receive_all) simp_all
qed

lemma handler_invariant_witness:
  "tasks_ok sample_end \<and> queues_ok sample_end \<and> streams_ok sample_end \<and> hs_tasks sample_end ''t'' \<noteq> None"
  using handler_invariant [OF sample_end_reachable] sample_end_facts(1) by auto

lemma cancel_never_cancels_witness:
  "cancel_task 9 ''nobody'' sample_end = (Inl (TaskNotFound ''nobody''), sample_end\<lparr>hs_cancel := True\<rparr>)"
proof -
  have "hs_tasks sample_end ''nobody'' = None" by code_simp
  then show ?thesis
    using cancel_never_cancels [OF sample_end_reachable, of 9 "''nobody''"] by (simp add: get_task_def)
qed

text \<open>The task is finished and stored, its subscriber is removed and has read all events, and still waits.\<close>

lemma stream_never_ends_witness:
  "hs_queues sample_read ''u'' = Some [] \<and> hs_streams sample_read ''t'' = None \<and>
   map_option (\<lambda>t. tk_state (t_status t)) (hs_tasks sample_read ''t'') = Some TaCompleted \<and>
   rx_recv ''u'' sample_read = None"
proof -
  have "hs_queues sample_read ''u'' = Some []" "''u'' \<notin> hs_closed sample_read"
    using sample_end_facts(5) by (simp_all add: sample_read_def)
  then have "rx_recv ''u'' sample_read = None"
    using stream_never_ends [OF sample_read_reachable, of "''u''" sample_read]
    by (simp add: rx_recv_def split: if_splits)
  then show ?thesis using sample_end_facts by (simp add: sample_read_def)
qed

end
