(* ===== verification/Agent_Card.thy ===== *)
theory Agent_Card
  imports Rust_Prelude
begin

text \<open>
  \<open>crates/agent_protocol/src/types/agent_card.rs\<close>: the manifest an agent publishes, its builder and its
  readers, with the card that \<open>crates/agent_core/src/a2a.rs\<close> builds for the agent of this repository. JSON
  values are the type parameter \<open>'v\<close>, as in the other theories; serde's JSON text is not modelled.
\<close>

section \<open>Data\<close>

definition PROTOCOL_VERSION :: string where "PROTOCOL_VERSION = ''0.3.0''"

definition AGENT_CARD_PATH :: string where "AGENT_CARD_PATH = ''/.well-known/agent.json''"

record agent_provider =
  ap_organization :: string
  ap_url :: "string option"

record 'v agent_extension =
  ae_uri :: string
  ae_description :: "string option"
  ae_required :: "bool option"
  ae_params :: "(string \<rightharpoonup> 'v) option"

record 'v agent_card_signature =
  as_protected :: string
  as_signature :: string
  as_header :: "(string \<rightharpoonup> 'v) option"

datatype protocol_binding = JsonRpc | Grpc

record supported_interface =
  si_protocol :: protocol_binding
  si_url :: string

record 'v agent_capabilities =
  ac_streaming :: bool
  ac_push_notifications :: bool
  ac_state_transition_history :: bool
  ac_extensions :: "'v agent_extension list option"

record skill =
  sk_id :: string
  sk_name :: string
  sk_description :: "string option"
  sk_tags :: "string list"
  sk_input_modes :: "string list"
  sk_output_modes :: "string list"
  sk_examples :: "string list"
  sk_security :: "(string \<rightharpoonup> string list) list option"

datatype security_scheme_type = SsApiKey | SsHttp | SsOAuth2 | SsOpenIdConnect | SsMutualTls

datatype api_key_location = LocHeader | LocQuery | LocCookie

record 'v security_scheme =
  ss_id :: string
  ss_scheme_type :: security_scheme_type
  ss_description :: "string option"
  ss_name :: "string option"
  ss_location :: "api_key_location option"
  ss_flows :: "'v option"
  ss_openid_connect_url :: "string option"
  ss_metadata_url :: "string option"

record 'v agent_card =
  cd_protocol_version :: string
  cd_name :: string
  cd_description :: "string option"
  cd_icon_url :: "string option"
  cd_documentation_url :: "string option"
  cd_provider :: "agent_provider option"
  cd_supported_interfaces :: "supported_interface list"
  cd_preferred_transport :: "protocol_binding option"
  cd_capabilities :: "'v agent_capabilities"
  cd_skills :: "skill list"
  cd_security_schemes :: "'v security_scheme list option"
  cd_default_input_modes :: "string list"
  cd_default_output_modes :: "string list"
  cd_signatures :: "'v agent_card_signature list option"
  cd_supports_authenticated_extended_card :: "bool option"
  cd_metadata :: "'v option"

section \<open>The builder\<close>

record 'v agent_card_builder =
  cb_name :: "string option"
  cb_description :: "string option"
  cb_icon_url :: "string option"
  cb_documentation_url :: "string option"
  cb_provider :: "agent_provider option"
  cb_base_url :: "string option"
  cb_preferred_transport :: "protocol_binding option"
  cb_additional_interfaces :: "supported_interface list"
  cb_capabilities :: "'v agent_capabilities"
  cb_skills :: "skill list"
  cb_security_schemes :: "'v security_scheme list"
  cb_input_modes :: "string list"
  cb_output_modes :: "string list"
  cb_metadata :: "'v option"
  cb_signatures :: "'v agent_card_signature list"
  cb_supports_authenticated_card :: "bool option"

definition builder_new :: "'v agent_card_builder" where
  "builder_new = \<lparr>cb_name = None, cb_description = None, cb_icon_url = None, cb_documentation_url = None,
     cb_provider = None, cb_base_url = None, cb_preferred_transport = None, cb_additional_interfaces = [],
     cb_capabilities = \<lparr>ac_streaming = False, ac_push_notifications = False,
       ac_state_transition_history = False, ac_extensions = None\<rparr>,
     cb_skills = [], cb_security_schemes = [], cb_input_modes = [], cb_output_modes = [],
     cb_metadata = None, cb_signatures = [], cb_supports_authenticated_card = None\<rparr>"

definition builder_name :: "string \<Rightarrow> 'v agent_card_builder \<Rightarrow> 'v agent_card_builder" where
  "builder_name x b = b\<lparr>cb_name := Some x\<rparr>"

definition builder_description :: "string \<Rightarrow> 'v agent_card_builder \<Rightarrow> 'v agent_card_builder" where
  "builder_description x b = b\<lparr>cb_description := Some x\<rparr>"

definition builder_icon_url :: "string \<Rightarrow> 'v agent_card_builder \<Rightarrow> 'v agent_card_builder" where
  "builder_icon_url x b = b\<lparr>cb_icon_url := Some x\<rparr>"

definition builder_documentation_url :: "string \<Rightarrow> 'v agent_card_builder \<Rightarrow> 'v agent_card_builder" where
  "builder_documentation_url x b = b\<lparr>cb_documentation_url := Some x\<rparr>"

definition builder_provider :: "string \<Rightarrow> string option \<Rightarrow> 'v agent_card_builder \<Rightarrow> 'v agent_card_builder" where
  "builder_provider org url b = b\<lparr>cb_provider := Some \<lparr>ap_organization = org, ap_url = url\<rparr>\<rparr>"

definition builder_base_url :: "string \<Rightarrow> 'v agent_card_builder \<Rightarrow> 'v agent_card_builder" where
  "builder_base_url x b = b\<lparr>cb_base_url := Some x\<rparr>"

definition builder_preferred_transport ::
  "protocol_binding \<Rightarrow> 'v agent_card_builder \<Rightarrow> 'v agent_card_builder" where
  "builder_preferred_transport p b = b\<lparr>cb_preferred_transport := Some p\<rparr>"

definition builder_add_interface ::
  "protocol_binding \<Rightarrow> string \<Rightarrow> 'v agent_card_builder \<Rightarrow> 'v agent_card_builder" where
  "builder_add_interface p url b = b\<lparr>cb_additional_interfaces :=
     cb_additional_interfaces b @ [\<lparr>si_protocol = p, si_url = url\<rparr>]\<rparr>"

definition builder_streaming :: "bool \<Rightarrow> 'v agent_card_builder \<Rightarrow> 'v agent_card_builder" where
  "builder_streaming e b = b\<lparr>cb_capabilities := (cb_capabilities b)\<lparr>ac_streaming := e\<rparr>\<rparr>"

definition builder_push_notifications :: "bool \<Rightarrow> 'v agent_card_builder \<Rightarrow> 'v agent_card_builder" where
  "builder_push_notifications e b = b\<lparr>cb_capabilities := (cb_capabilities b)\<lparr>ac_push_notifications := e\<rparr>\<rparr>"

definition builder_skill_full :: "skill \<Rightarrow> 'v agent_card_builder \<Rightarrow> 'v agent_card_builder" where
  "builder_skill_full sk b = b\<lparr>cb_skills := cb_skills b @ [sk]\<rparr>"

definition builder_skill ::
  "string \<Rightarrow> string \<Rightarrow> string option \<Rightarrow> 'v agent_card_builder \<Rightarrow> 'v agent_card_builder" where
  "builder_skill i name descr b = b\<lparr>cb_skills := cb_skills b @
     [\<lparr>sk_id = i, sk_name = name, sk_description = descr, sk_tags = [], sk_input_modes = [''text/plain''],
       sk_output_modes = [''text/plain''], sk_examples = [], sk_security = None\<rparr>]\<rparr>"

definition builder_api_key_auth :: "string \<Rightarrow> 'v agent_card_builder \<Rightarrow> 'v agent_card_builder" where
  "builder_api_key_auth header b = b\<lparr>cb_security_schemes := cb_security_schemes b @
     [\<lparr>ss_id = ''api_key'', ss_scheme_type = SsApiKey, ss_description = Some ''API key authentication'',
       ss_name = Some header, ss_location = Some LocHeader, ss_flows = None, ss_openid_connect_url = None,
       ss_metadata_url = None\<rparr>]\<rparr>"

definition builder_bearer_auth :: "'v agent_card_builder \<Rightarrow> 'v agent_card_builder" where
  "builder_bearer_auth b = b\<lparr>cb_security_schemes := cb_security_schemes b @
     [\<lparr>ss_id = ''bearer'', ss_scheme_type = SsHttp, ss_description = Some ''Bearer token authentication'',
       ss_name = None, ss_location = None, ss_flows = None, ss_openid_connect_url = None,
       ss_metadata_url = None\<rparr>]\<rparr>"

definition builder_add_extension ::
  "'v agent_extension \<Rightarrow> 'v agent_card_builder \<Rightarrow> 'v agent_card_builder" where
  "builder_add_extension e b = b\<lparr>cb_capabilities := (cb_capabilities b)\<lparr>ac_extensions :=
     Some ((case ac_extensions (cb_capabilities b) of None \<Rightarrow> [] | Some es \<Rightarrow> es) @ [e])\<rparr>\<rparr>"

definition builder_add_signature ::
  "'v agent_card_signature \<Rightarrow> 'v agent_card_builder \<Rightarrow> 'v agent_card_builder" where
  "builder_add_signature s b = b\<lparr>cb_signatures := cb_signatures b @ [s]\<rparr>"

definition builder_supports_authenticated_extended_card ::
  "bool \<Rightarrow> 'v agent_card_builder \<Rightarrow> 'v agent_card_builder" where
  "builder_supports_authenticated_extended_card e b = b\<lparr>cb_supports_authenticated_card := Some e\<rparr>"

definition builder_input_modes :: "string list \<Rightarrow> 'v agent_card_builder \<Rightarrow> 'v agent_card_builder" where
  "builder_input_modes ms b = b\<lparr>cb_input_modes := ms\<rparr>"

definition builder_output_modes :: "string list \<Rightarrow> 'v agent_card_builder \<Rightarrow> 'v agent_card_builder" where
  "builder_output_modes ms b = b\<lparr>cb_output_modes := ms\<rparr>"

definition builder_metadata :: "'v \<Rightarrow> 'v agent_card_builder \<Rightarrow> 'v agent_card_builder" where
  "builder_metadata v b = b\<lparr>cb_metadata := Some v\<rparr>"

definition default_modes :: "string list \<Rightarrow> string list" where
  "default_modes ms = (if ms = [] then [''text/plain'', ''application/json''] else ms)"

definition some_list :: "'a list \<Rightarrow> 'a list option" where
  "some_list xs = (if xs = [] then None else Some xs)"

definition build_card :: "'v agent_card_builder \<Rightarrow> string + 'v agent_card" where
  "build_card b = (case cb_name b of
      None \<Rightarrow> Inl ''Agent name is required''
    | Some name \<Rightarrow> (case cb_base_url b of
        None \<Rightarrow> Inl ''Base URL is required''
      | Some base_url \<Rightarrow>
          let transport = (case cb_preferred_transport b of None \<Rightarrow> JsonRpc | Some p \<Rightarrow> p)
          in Inr \<lparr>cd_protocol_version = PROTOCOL_VERSION, cd_name = name,
            cd_description = cb_description b, cd_icon_url = cb_icon_url b,
            cd_documentation_url = cb_documentation_url b, cd_provider = cb_provider b,
            cd_supported_interfaces = \<lparr>si_protocol = transport, si_url = base_url\<rparr> # cb_additional_interfaces b,
            cd_preferred_transport = Some transport, cd_capabilities = cb_capabilities b,
            cd_skills = cb_skills b, cd_security_schemes = some_list (cb_security_schemes b),
            cd_default_input_modes = default_modes (cb_input_modes b),
            cd_default_output_modes = default_modes (cb_output_modes b),
            cd_signatures = some_list (cb_signatures b),
            cd_supports_authenticated_extended_card = cb_supports_authenticated_card b,
            cd_metadata = cb_metadata b\<rparr>))"

section \<open>Readers\<close>

definition jsonrpc_url :: "'v agent_card \<Rightarrow> string option" where
  "jsonrpc_url c = map_option si_url (find (\<lambda>i. si_protocol i = JsonRpc) (cd_supported_interfaces c))"

definition supports_streaming :: "'v agent_card \<Rightarrow> bool" where
  "supports_streaming c = ac_streaming (cd_capabilities c)"

definition supports_push_notifications :: "'v agent_card \<Rightarrow> bool" where
  "supports_push_notifications c = ac_push_notifications (cd_capabilities c)"

definition find_skill :: "string \<Rightarrow> 'v agent_card \<Rightarrow> skill option" where
  "find_skill i c = find (\<lambda>s. sk_id s = i) (cd_skills c)"

definition default_agent_card_builder :: "string \<Rightarrow> 'v agent_card_builder" where
  "default_agent_card_builder base_url =
     builder_skill ''code'' ''Code Assistant'' (Some ''General-purpose coding help'')
       (builder_streaming False
         (builder_base_url base_url
           (builder_description ''Terminal-native coding agent''
             (builder_name ''nite-agent'' builder_new))))"

text \<open>The \<open>expect\<close> of the source; \<open>default_agent_card_builds\<close> shows that it does not panic.\<close>

definition default_agent_card :: "string \<Rightarrow> string + 'v agent_card" where
  "default_agent_card base_url = build_card (default_agent_card_builder base_url)"

lemmas builder_defs = builder_new_def builder_name_def builder_description_def builder_icon_url_def
  builder_documentation_url_def builder_provider_def builder_base_url_def builder_preferred_transport_def
  builder_add_interface_def builder_streaming_def builder_push_notifications_def builder_skill_def
  builder_skill_full_def builder_api_key_auth_def builder_bearer_auth_def builder_add_extension_def
  builder_add_signature_def builder_supports_authenticated_extended_card_def builder_input_modes_def
  builder_output_modes_def builder_metadata_def

section \<open>What a built card offers\<close>

lemma default_agent_card_builds:
  "\<exists>c. default_agent_card base_url = Inr c \<and> cd_name c = ''nite-agent'' \<and> jsonrpc_url c = Some base_url \<and>
     \<not> supports_streaming c \<and> map_option sk_name (find_skill ''code'' c) = Some ''Code Assistant''"
  by (simp add: default_agent_card_def default_agent_card_builder_def builder_defs build_card_def Let_def
      jsonrpc_url_def supports_streaming_def find_skill_def)

text \<open>Without a preferred transport, or with JSON-RPC, clients are sent to the base URL; with gRPC, to the
  first additional JSON-RPC interface.\<close>

lemma build_card_error:
  "(\<exists>e. build_card b = Inl e) \<longleftrightarrow> cb_name b = None \<or> cb_base_url b = None"
  by (auto simp: build_card_def Let_def split: option.splits)

lemma built_card_endpoint:
  assumes "build_card b = Inr c"
  shows "jsonrpc_url c = (if cb_preferred_transport b = Some Grpc
           then map_option si_url (find (\<lambda>i. si_protocol i = JsonRpc) (cb_additional_interfaces b))
           else cb_base_url b)"
proof (cases "cb_preferred_transport b")
  case None
  then show ?thesis using assms by (auto simp: build_card_def Let_def jsonrpc_url_def split: option.splits)
next
  case (Some p)
  then show ?thesis using assms
    by (cases p) (auto simp: build_card_def Let_def jsonrpc_url_def split: option.splits)
qed

lemma default_modes_nonempty: "default_modes ms \<noteq> []"
  by (simp add: default_modes_def)

lemma built_card_modes:
  "build_card b = Inr c \<Longrightarrow> cd_default_input_modes c \<noteq> [] \<and> cd_default_output_modes c \<noteq> []"
  by (auto simp: build_card_def Let_def default_modes_nonempty split: option.splits)

end
