(* ===== verification/A2a_Server.thy ===== *)
theory A2a_Server
  imports A2a_System Agent_Card
begin

text \<open>
  \<open>crates/agent_protocol/src/server.rs\<close>: the trait \<open>A2AHandler\<close> as a record of operations, what clients rely
  on as the locale \<open>a2a_queries\<close>, the dispatch of JSON-RPC requests, and the in-memory task store. The
  locale is interpreted on the operations of \<open>A2a_System\<close>. The HTTP framework around the dispatch (routes,
  CORS, the listener) and the encoders and decoders of serde are not part of the model; the latter are
  arguments.
\<close>

section \<open>The handler trait\<close>

text \<open>A receiver of stream events is named as in \<open>A2a_System\<close>.\<close>

record ('s, 'v) a2a_handler =
  ah_handle_message :: "'v message \<Rightarrow> string option \<Rightarrow> spec_step_ref option \<Rightarrow> 's \<Rightarrow> (a2a_error + 'v task) \<times> 's"
  ah_handle_streaming_message ::
    "'v message \<Rightarrow> string option \<Rightarrow> spec_step_ref option \<Rightarrow> 's \<Rightarrow> (a2a_error + string) \<times> 's"
  ah_get_task :: "string \<Rightarrow> 's \<Rightarrow> (a2a_error + 'v task) \<times> 's"
  ah_list_tasks ::
    "string option \<Rightarrow> nat option \<Rightarrow> nat option \<Rightarrow> 's \<Rightarrow> (a2a_error + 'v task list \<times> nat) \<times> 's"
  ah_cancel_task :: "string \<Rightarrow> 's \<Rightarrow> (a2a_error + 'v task) \<times> 's"
  ah_subscribe_to_task :: "string \<Rightarrow> 's \<Rightarrow> (a2a_error + string) \<times> 's"

section \<open>The server\<close>

record 'v server_codec =
  sc_enc_card :: "'v agent_card \<Rightarrow> 'v"
  sc_enc_task :: "'v task \<Rightarrow> 'v"
  sc_enc_list :: "'v list_tasks_result \<Rightarrow> 'v"
  sc_dec_send :: "'v \<Rightarrow> string + 'v send_message_params"
  sc_dec_get :: "'v \<Rightarrow> string + get_task_params"
  sc_dec_list :: "'v \<Rightarrow> string + list_tasks_params"
  sc_dec_cancel :: "'v \<Rightarrow> string + cancel_task_params"

record ('s, 'v) server_state =
  sv_agent_card :: "'v agent_card"
  sv_handler :: "('s, 'v) a2a_handler"

datatype 'v http_response = HrJson "'v json_rpc_response" | HrSse string

definition handle_agent_card :: "('s, 'v) server_state \<Rightarrow> 'v agent_card" where
  "handle_agent_card S = sv_agent_card S"

definition task_response :: "'v server_codec \<Rightarrow> request_id \<Rightarrow> a2a_error + 'v task \<Rightarrow> 'v http_response" where
  "task_response C i r = HrJson (case r of
      Inr t \<Rightarrow> response_task (sc_enc_task C) t i
    | Inl e \<Rightarrow> response_from_error e i)"

definition create_sse_response :: "request_id \<Rightarrow> a2a_error + string \<Rightarrow> 'v http_response" where
  "create_sse_response i r = (case r of Inr rx \<Rightarrow> HrSse rx | Inl e \<Rightarrow> HrJson (response_from_error e i))"

definition handle_send_message :: "'v server_codec \<Rightarrow> ('s, 'v) server_state \<Rightarrow> 'v json_rpc_request \<Rightarrow> 's \<Rightarrow>
    'v http_response \<times> 's" where
  "handle_send_message C S q s = (case parse_params (sc_dec_send C) q of
      Inl e \<Rightarrow> (HrJson (response_from_error e (rq_id q)), s)
    | Inr p \<Rightarrow> map_prod (task_response C (rq_id q)) id
        (ah_handle_message (sv_handler S) (sm_message p) None (sm_spec_step p) s))"

definition handle_stream_message :: "'v server_codec \<Rightarrow> ('s, 'v) server_state \<Rightarrow> 'v json_rpc_request \<Rightarrow> 's \<Rightarrow>
    'v http_response \<times> 's" where
  "handle_stream_message C S q s = (case parse_params (sc_dec_send C) q of
      Inl e \<Rightarrow> (HrJson (response_from_error e (rq_id q)), s)
    | Inr p \<Rightarrow> map_prod (create_sse_response (rq_id q)) id
        (ah_handle_streaming_message (sv_handler S) (sm_message p) None (sm_spec_step p) s))"

definition handle_get_task :: "'v server_codec \<Rightarrow> ('s, 'v) server_state \<Rightarrow> 'v json_rpc_request \<Rightarrow> 's \<Rightarrow>
    'v http_response \<times> 's" where
  "handle_get_task C S q s = (case parse_params (sc_dec_get C) q of
      Inl e \<Rightarrow> (HrJson (response_from_error e (rq_id q)), s)
    | Inr p \<Rightarrow> map_prod (task_response C (rq_id q)) id (ah_get_task (sv_handler S) (gp_task_id p) s))"

definition handle_list_tasks :: "'v server_codec \<Rightarrow> ('s, 'v) server_state \<Rightarrow> 'v json_rpc_request \<Rightarrow> 's \<Rightarrow>
    'v http_response \<times> 's" where
  "handle_list_tasks C S q s =
     (let p = (case parse_params (sc_dec_list C) q of
          Inr p \<Rightarrow> p
        | Inl _ \<Rightarrow> \<lparr>lp_context_id = None, lp_limit = None, lp_offset = None\<rparr>);
          (r, s1) = ah_list_tasks (sv_handler S) (lp_context_id p) (lp_limit p) (lp_offset p) s
      in (HrJson (case r of
            Inr (tasks, n) \<Rightarrow>
              response_success (sc_enc_list C \<lparr>lr_tasks = tasks, lr_total = n\<rparr>) (rq_id q)
          | Inl e \<Rightarrow> response_from_error e (rq_id q)), s1))"

definition handle_cancel_task :: "'v server_codec \<Rightarrow> ('s, 'v) server_state \<Rightarrow> 'v json_rpc_request \<Rightarrow> 's \<Rightarrow>
    'v http_response \<times> 's" where
  "handle_cancel_task C S q s = (case parse_params (sc_dec_cancel C) q of
      Inl e \<Rightarrow> (HrJson (response_from_error e (rq_id q)), s)
    | Inr p \<Rightarrow> map_prod (task_response C (rq_id q)) id (ah_cancel_task (sv_handler S) (cp_task_id p) s))"

definition handle_subscribe_to_task :: "'v server_codec \<Rightarrow> ('s, 'v) server_state \<Rightarrow> 'v json_rpc_request \<Rightarrow>
    's \<Rightarrow> 'v http_response \<times> 's" where
  "handle_subscribe_to_task C S q s = (case parse_params (sc_dec_get C) q of
      Inl e \<Rightarrow> (HrJson (response_from_error e (rq_id q)), s)
    | Inr p \<Rightarrow> map_prod (create_sse_response (rq_id q)) id
        (ah_subscribe_to_task (sv_handler S) (gp_task_id p) s))"

definition handle_jsonrpc :: "'v server_codec \<Rightarrow> ('s, 'v) server_state \<Rightarrow> 'v json_rpc_request \<Rightarrow> 's \<Rightarrow>
    'v http_response \<times> 's" where
  "handle_jsonrpc C S q s = (case request_a2a_method q of
      None \<Rightarrow> (HrJson (response_from_error (MethodNotFound (rq_method q)) (rq_id q)), s)
    | Some SendMessage \<Rightarrow> handle_send_message C S q s
    | Some SendStreamingMessage \<Rightarrow> handle_stream_message C S q s
    | Some GetTask \<Rightarrow> handle_get_task C S q s
    | Some ListTasks \<Rightarrow> handle_list_tasks C S q s
    | Some CancelTask \<Rightarrow> handle_cancel_task C S q s
    | Some SubscribeToTask \<Rightarrow> handle_subscribe_to_task C S q s
    | Some GetExtendedAgentCard \<Rightarrow>
        (HrJson (response_success (sc_enc_card C (sv_agent_card S)) (rq_id q)), s)
    | Some _ \<Rightarrow> (HrJson (response_from_error
        (UnsupportedOperation (concat [''Method '', rq_method q, '' not implemented''])) (rq_id q)), s))"

lemmas server_defs = handle_send_message_def handle_stream_message_def handle_get_task_def
  handle_list_tasks_def handle_cancel_task_def handle_subscribe_to_task_def task_response_def
  create_sse_response_def

section \<open>The in-memory task store\<close>

type_synonym 'v task_store = "string \<rightharpoonup> 'v task"

definition store_new :: "'v task_store" where "store_new = Map.empty"

definition store_insert :: "'v task \<Rightarrow> 'v task_store \<Rightarrow> 'v task_store" where
  "store_insert t m = m(t_id t \<mapsto> t)"

definition store_get :: "string \<Rightarrow> 'v task_store \<Rightarrow> 'v task option" where
  "store_get i m = m i"

definition store_update :: "string \<Rightarrow> ('v task \<Rightarrow> 'v task) \<Rightarrow> 'v task_store \<Rightarrow> 'v task option \<times> 'v task_store" where
  "store_update i f m = (case m i of None \<Rightarrow> (None, m) | Some t \<Rightarrow> (Some (f t), m(i \<mapsto> f t)))"

definition store_list :: "string list \<Rightarrow> string option \<Rightarrow> nat option \<Rightarrow> nat option \<Rightarrow> 'v task_store \<Rightarrow>
    'v task list \<times> nat" where
  "store_list keys ctx limit offset m =
     (let filtered = filter (\<lambda>t. case ctx of Some c \<Rightarrow> t_context_id t = Some c | None \<Rightarrow> True)
            (List.map_filter m keys);
          total = length filtered;
          off = (case offset of None \<Rightarrow> 0 | Some n \<Rightarrow> n);
          lim = (case limit of None \<Rightarrow> 100 | Some n \<Rightarrow> n)
      in (take lim (drop off filtered), total))"

lemma store_get_insert: "store_get i (store_insert t m) = (if i = t_id t then Some t else store_get i m)"
  by (simp add: store_get_def store_insert_def)

lemma store_get_update:
  "store_get j (snd (store_update i f m)) = (if j = i then map_option f (store_get i m) else store_get j m)"
  by (simp add: store_get_def store_update_def split: option.split)

lemma store_list_page:
  "store_list keys ctx limit offset m = (ts, n) \<Longrightarrow>
     set ts \<subseteq> ran m \<and> length ts \<le> n \<and> length ts \<le> (case limit of None \<Rightarrow> 100 | Some l \<Rightarrow> l)"
  by (auto simp: store_list_def Let_def List.map_filter_def ranI dest!: in_set_takeD in_set_dropD)

section \<open>Every request is answered\<close>

lemma request_version_ignored [simp]:
  "request_a2a_method (q\<lparr>rq_jsonrpc := v\<rparr>) = request_a2a_method q"
  "parse_params dec (q\<lparr>rq_jsonrpc := v\<rparr>) = parse_params dec q"
  "rq_id (q\<lparr>rq_jsonrpc := v\<rparr>) = rq_id q" "rq_method (q\<lparr>rq_jsonrpc := v\<rparr>) = rq_method q"
  by (simp_all add: request_a2a_method_def parse_params_def)

text \<open>C19: every JSON-RPC request gets a well-formed answer: a response with version 2.0, the id of the request
  and either a result or an error, never both or neither; an event stream is opened only by message/stream
  and tasks/subscribe. The version text of the request is never looked at.\<close>

theorem request_is_answered:
  "(case fst (handle_jsonrpc C S q s) of
      HrJson r \<Rightarrow> response_ok (rq_id q) r
    | HrSse _ \<Rightarrow> request_a2a_method q \<in> {Some SendStreamingMessage, Some SubscribeToTask}) \<and>
   handle_jsonrpc C S (q\<lparr>rq_jsonrpc := v\<rparr>) s = handle_jsonrpc C S q s"
proof
  show "case fst (handle_jsonrpc C S q s) of
      HrJson r \<Rightarrow> response_ok (rq_id q) r
    | HrSse _ \<Rightarrow> request_a2a_method q \<in> {Some SendStreamingMessage, Some SubscribeToTask}"
    by (auto simp: handle_jsonrpc_def server_defs Let_def split: option.splits a2a_method.splits sum.splits
        prod.splits http_response.splits)
  show "handle_jsonrpc C S (q\<lparr>rq_jsonrpc := v\<rparr>) s = handle_jsonrpc C S q s"
    unfolding handle_jsonrpc_def server_defs request_version_ignored by (rule refl)
qed

section \<open>What clients rely on\<close>

text \<open>The queries of a handler: reading does not change it, tasks come back under the id they are asked for, a
  list is a page of known tasks, and cancelling keeps the handler's invariant.\<close>

locale a2a_queries =
  fixes H :: "('s, 'v) a2a_handler" and inv :: "'s \<Rightarrow> bool"
  assumes get_pure: "snd (ah_get_task H i s) = s"
    and get_id: "inv s \<Longrightarrow> fst (ah_get_task H i s) = Inr t \<Longrightarrow> t_id t = i"
    and list_pure: "snd (ah_list_tasks H ctx limit offset s) = s"
    and list_known: "inv s \<Longrightarrow> fst (ah_list_tasks H ctx limit offset s) = Inr (ts, n) \<Longrightarrow> t \<in> set ts \<Longrightarrow>
      fst (ah_get_task H (t_id t) s) = Inr t \<and> (ctx = None \<or> t_context_id t = ctx)"
    and list_page: "fst (ah_list_tasks H ctx limit offset s) = Inr (ts, n) \<Longrightarrow>
      length ts \<le> n \<and> (limit = None \<or> length ts \<le> the limit)"
    and cancel_inv: "inv s \<Longrightarrow> inv (snd (ah_cancel_task H i s))"
    and cancel_id: "inv s \<Longrightarrow> fst (ah_cancel_task H i s) = Inr t \<Longrightarrow> t_id t = i"
begin

text \<open>Requests that only read leave the handler as it is.\<close>

lemma reads_are_pure:
  assumes "request_a2a_method q \<in> {None, Some GetTask, Some ListTasks, Some GetExtendedAgentCard,
      Some SetPushNotificationConfig, Some GetPushNotificationConfig}"
  shows "snd (handle_jsonrpc C \<lparr>sv_agent_card = cd, sv_handler = H\<rparr> q s) = s"
  using assms get_pure list_pure
  by (auto simp: handle_jsonrpc_def server_defs Let_def snd_map_prod prod.case_eq_if split: sum.splits)

lemma get_request_answer:
  assumes "request_a2a_method q = Some GetTask" "parse_params (sc_dec_get C) q = Inr p"
  shows "handle_jsonrpc C \<lparr>sv_agent_card = cd, sv_handler = H\<rparr> q s =
    (task_response C (rq_id q) (fst (ah_get_task H (gp_task_id p) s)), s)"
  using assms get_pure [of "gp_task_id p" s]
  by (simp add: handle_jsonrpc_def handle_get_task_def prod_eq_iff)

text \<open>A task in the answer to tasks/get or tasks/cancel is the one that was asked for.\<close>

lemma answered_task:
  assumes "inv s" "fst (ah_get_task H i s) = Inr t \<or> fst (ah_cancel_task H i s) = Inr t"
  shows "t_id t = i"
  using assms get_id cancel_id by blast

end

section \<open>The handler of the agent\<close>

text \<open>\<open>subscribe_to_task\<close> when nothing else runs.\<close>

definition subscribe_now :: "string \<Rightarrow> string \<Rightarrow> 'v a2a_state \<Rightarrow> (a2a_error + string) \<times> 'v a2a_state" where
  "subscribe_now sub i s = (case hs_tasks s i of
      None \<Rightarrow> (Inl (TaskNotFound i), s)
    | Some t \<Rightarrow> let s1 = stream_register i sub s
        in (Inr sub, s1\<lparr>hs_queues := (hs_queues s1)(sub \<mapsto> [EvTask t])\<rparr>))"

lemma subscribe_now_run:
  "sub \<notin> hs_closed s \<Longrightarrow> hs_tasks s i = Some t \<Longrightarrow>
     subscribe_to_task i sub s = [Register i sub, Initial sub t] \<and>
     send_initial sub t (stream_register i sub s) =
       Some ([Reply (ReStream (fst (subscribe_now sub i s)))], snd (subscribe_now sub i s))"
  by (simp add: subscribe_to_task_def send_initial_def subscribe_now_def stream_register_def spawn_cleanup_def
      CHANNEL_CAPACITY_def)

text \<open>The queries are those of \<open>A2a_System\<close>; what sending a message does is left to \<open>M\<close> and \<open>ST\<close>, because
  it depends on the interleaving with other requests. \<open>keys\<close> is the iteration order of the task map.\<close>

definition agent_handler ::
  "('v message \<Rightarrow> string option \<Rightarrow> spec_step_ref option \<Rightarrow> 'v a2a_state \<Rightarrow> (a2a_error + 'v task) \<times> 'v a2a_state) \<Rightarrow>
   ('v message \<Rightarrow> string option \<Rightarrow> spec_step_ref option \<Rightarrow> 'v a2a_state \<Rightarrow> (a2a_error + string) \<times> 'v a2a_state) \<Rightarrow>
   time \<Rightarrow> ('v a2a_state \<Rightarrow> string list) \<Rightarrow> string \<Rightarrow> ('v a2a_state, 'v) a2a_handler" where
  "agent_handler M ST clock keys sub = \<lparr>ah_handle_message = M, ah_handle_streaming_message = ST,
     ah_get_task = (\<lambda>i s. (get_task i s, s)),
     ah_list_tasks = (\<lambda>ctx limit offset s. (list_tasks (keys s) ctx limit offset s, s)),
     ah_cancel_task = cancel_task clock, ah_subscribe_to_task = subscribe_now sub\<rparr>"

definition create_a2a_server :: "'v agent_card \<Rightarrow> ('v a2a_state, 'v) a2a_handler \<Rightarrow>
    ('v a2a_state, 'v) server_state" where
  "create_a2a_server cd handler = \<lparr>sv_agent_card = cd, sv_handler = handler\<rparr>"

lemma map_filter_ran: "t \<in> set (List.map_filter f xs) \<Longrightarrow> t \<in> ran f"
  by (induction xs) (auto simp: List.map_filter_simps ran_def split: option.splits)

lemma list_tasks_known:
  assumes "list_tasks keys ctx limit offset s = Inr (ts, n)" "t \<in> set ts"
  shows "t \<in> ran (hs_tasks s) \<and> (ctx = None \<or> t_context_id t = ctx)"
proof -
  define tasks where "tasks = (case ctx of None \<Rightarrow> List.map_filter (hs_tasks s) keys
     | Some c \<Rightarrow> filter (\<lambda>t. t_context_id t = Some c) (List.map_filter (hs_tasks s) keys))"
  have "\<exists>k j. ts = take k (drop j tasks)"
    using assms(1) unfolding list_tasks_def Let_def tasks_def by blast
  then have "t \<in> set tasks" using assms(2) by (blast dest: in_set_takeD in_set_dropD)
  then show ?thesis by (auto simp: tasks_def map_filter_ran split: option.splits)
qed

lemma list_tasks_length:
  assumes "list_tasks keys ctx limit offset s = Inr (ts, n)"
  shows "length ts \<le> n \<and> (limit = None \<or> length ts \<le> the limit)"
  using assms by (auto simp: list_tasks_def Let_def split: option.splits)

lemma tasks_okD: "tasks_ok s \<Longrightarrow> hs_tasks s i = Some t \<Longrightarrow> t_id t = i"
  unfolding tasks_ok_def by blast

lemma get_task_eq: "get_task i s = Inr t \<longleftrightarrow> hs_tasks s i = Some t"
  by (simp add: get_task_def split: option.split)

lemma cancel_task_answer:
  "fst (cancel_task clock i s) = Inr t \<Longrightarrow> \<exists>t0. hs_tasks s i = Some t0 \<and> t_id t = t_id t0"
  by (auto simp: cancel_task_def cancel_stored_def Let_def split: option.splits)

lemma tasks_ok_flag: "tasks_ok (s\<lparr>hs_cancel := b\<rparr>) = tasks_ok s"
  by (simp add: tasks_ok_def)

lemma cancel_task_inv: "tasks_ok s \<Longrightarrow> tasks_ok (snd (cancel_task clock i s))"
  using run_instr_tasks [of "[]" "CancelStored clock i" "s\<lparr>hs_cancel := True\<rparr>"]
  by (simp add: cancel_task_def prod.case_eq_if tasks_ok_flag)

interpretation agent_queries: a2a_queries "agent_handler M ST clock keys sub" tasks_ok
proof (unfold_locales, goal_cases)
  case (2 s i t)
  then show ?case by (simp add: agent_handler_def get_task_eq tasks_okD)
next
  case (4 s ctx limit offset ts n t)
  then have "list_tasks (keys s) ctx limit offset s = Inr (ts, n)" by (simp add: agent_handler_def)
  from list_tasks_known [OF this 4(3)] obtain i
    where "hs_tasks s i = Some t" "ctx = None \<or> t_context_id t = ctx" by (auto simp: ran_def)
  then show ?case using tasks_okD [OF 4(1)] by (auto simp: agent_handler_def get_task_eq)
next
  case (5 ctx limit offset s ts n)
  then have "list_tasks (keys s) ctx limit offset s = Inr (ts, n)" by (simp add: agent_handler_def)
  from list_tasks_length [OF this] show ?case .
next
  case (6 s i)
  then show ?case by (simp add: agent_handler_def cancel_task_inv)
next
  case (7 s i t)
  then show ?case using cancel_task_answer [of clock i s t] tasks_okD [OF 7(1)] by (auto simp: agent_handler_def)
qed (simp_all add: agent_handler_def)

end
