(* ===== verification/Json_Codec.thy ===== *)
theory Json_Codec
  imports A2a_Protocol Json_Value "HOL-Library.Monad_Syntax"
begin

text \<open>
  The JSON form of the protocol's data, as the serde attributes in \<open>types/task.rs\<close>, \<open>message.rs\<close>,
  \<open>artifact.rs\<close> and \<open>jsonrpc.rs\<close> prescribe it: camel-case keys, absent keys for \<open>None\<close>, defaults, untagged
  parts that are tried in order, the flattened extension map. A decoder gives nothing where serde gives an
  error. The text form of a time, which chrono defines, is an argument.
\<close>

section \<open>Objects\<close>

definition obj :: "(string \<Rightarrow> json option) \<Rightarrow> json" where "obj m = JObject m"

text \<open>Reading a required key, an optional one (absent and null are \<open>None\<close>), one with a default.\<close>

definition need :: "string \<Rightarrow> (json \<Rightarrow> 'a option) \<Rightarrow> (string \<rightharpoonup> json) \<Rightarrow> 'a option" where
  "need k d m = Option.bind (m k) d"

definition may :: "string \<Rightarrow> (json \<Rightarrow> 'a option) \<Rightarrow> (string \<rightharpoonup> json) \<Rightarrow> 'a option option" where
  "may k d m = (case m k of None \<Rightarrow> Some None | Some JNull \<Rightarrow> Some None | Some v \<Rightarrow> map_option Some (d v))"

definition dflt :: "'a \<Rightarrow> string \<Rightarrow> (json \<Rightarrow> 'a option) \<Rightarrow> (string \<rightharpoonup> json) \<Rightarrow> 'a option" where
  "dflt x k d m = (case m k of None \<Rightarrow> Some x | Some v \<Rightarrow> d v)"

fun dec_object :: "json \<Rightarrow> (string \<rightharpoonup> json) option" where
  "dec_object (JObject m) = Some m"
| "dec_object _ = None"

fun dec_string :: "json \<Rightarrow> string option" where
  "dec_string (JString s) = Some s"
| "dec_string _ = None"

fun dec_bool :: "json \<Rightarrow> bool option" where
  "dec_bool (JBool b) = Some b"
| "dec_bool _ = None"

text \<open>Numbers of type \<open>i32\<close> and \<open>usize\<close>.\<close>

fun dec_i32 :: "json \<Rightarrow> int option" where
  "dec_i32 (JNumber n) = (if - (2 ^ 31) \<le> n \<and> n < 2 ^ 31 then Some n else None)"
| "dec_i32 _ = None"

fun dec_usize :: "json \<Rightarrow> nat option" where
  "dec_usize (JNumber n) = (if 0 \<le> n \<and> n < 2 ^ 64 then Some (nat n) else None)"
| "dec_usize _ = None"

fun dec_list :: "(json \<Rightarrow> 'a option) \<Rightarrow> json \<Rightarrow> 'a list option" where
  "dec_list d (JArray xs) = those (map d xs)"
| "dec_list d _ = None"

definition enc_usize :: "nat \<Rightarrow> json" where "enc_usize n = JNumber (int n)"

lemma those_map: "(\<And>x. x \<in> set xs \<Longrightarrow> d (e x) = Some x) \<Longrightarrow> those (map d (map e xs)) = Some xs"
  by (induction xs) simp_all

lemma dec_list_map: "(\<And>x. x \<in> set xs \<Longrightarrow> d (e x) = Some x) \<Longrightarrow> dec_list d (JArray (map e xs)) = Some xs"
  using those_map [of xs d e] by simp

declare dec_list.simps [simp del]

lemma dec_usize_enc [simp]: "n < 2 ^ 64 \<Longrightarrow> dec_usize (enc_usize n) = Some n"
  by (simp add: enc_usize_def)

lemma need_present [simp]: "m k = Some v \<Longrightarrow> need k d m = d v"
  by (simp add: need_def)

lemma may_absent [simp]: "m k = None \<Longrightarrow> may k d m = Some None"
  by (simp add: may_def)

lemma may_present: "m k = Some v \<Longrightarrow> v \<noteq> JNull \<Longrightarrow> d v = Some x \<Longrightarrow> may k d m = Some (Some x)"
  by (cases v) (simp_all add: may_def)

lemma dflt_present [simp]: "m k = Some v \<Longrightarrow> dflt x k d m = d v"
  by (simp add: dflt_def)

lemma insert_some_lookup [simp]:
  "insert_some k v m j = (if j = k then (case v of None \<Rightarrow> m j | Some x \<Rightarrow> Some x) else m j)"
  by (simp add: insert_some_def split: option.split)

text \<open>An optional field that was written with \<open>insert_some\<close> is read back; other fields do not disturb it.\<close>

lemma may_skip [simp]: "j \<noteq> k \<Longrightarrow> may k d (insert_some j v m) = may k d m"
  by (simp add: may_def)

lemma may_written:
  assumes "m k = None" "\<And>y. x = Some y \<Longrightarrow> e y \<noteq> JNull \<and> d (e y) = Some y"
  shows "may k d (insert_some k (map_option e x) m) = Some x"
proof (cases x)
  case (Some y)
  then show ?thesis using assms(2) by (intro may_present [of _ _ "e y", THEN trans]) simp_all
qed (use assms(1) in simp)

lemma may_string [simp]: "m k = None \<Longrightarrow> may k dec_string (insert_some k (map_option JString x) m) = Some x"
  by (rule may_written) simp_all

lemma may_value [simp]: "m k = None \<Longrightarrow> x \<noteq> Some JNull \<Longrightarrow> may k Some (insert_some k x m) = Some x"
  by (cases x) (auto intro: may_present)

section \<open>Messages\<close>

definition enc_role :: "role \<Rightarrow> json" where
  "enc_role r = JString (case r of User \<Rightarrow> ''user'' | Agent \<Rightarrow> ''agent'')"

definition dec_role :: "json \<Rightarrow> role option" where
  "dec_role v = do { s \<leftarrow> dec_string v;
     if s = ''user'' then Some User else if s = ''agent'' then Some Agent else None }"

definition enc_text_part :: "text_part \<Rightarrow> json" where
  "enc_text_part p = obj (insert_some ''contentType'' (map_option JString (tp_content_type p))
     [''text'' \<mapsto> JString (tp_text p)])"

definition dec_text_part :: "json \<Rightarrow> text_part option" where
  "dec_text_part v = do { m \<leftarrow> dec_object v; t \<leftarrow> need ''text'' dec_string m; c \<leftarrow> may ''contentType'' dec_string m;
     Some \<lparr>tp_text = t, tp_content_type = c\<rparr> }"

definition enc_file_content :: "file_content \<Rightarrow> json" where
  "enc_file_content f = obj (insert_some ''name'' (map_option JString (fc_name f))
     (insert_some ''uri'' (map_option JString (fc_uri f))
       (insert_some ''bytes'' (map_option JString (fc_bytes f)) [''mediaType'' \<mapsto> JString (fc_media_type f)])))"

definition dec_file_content :: "json \<Rightarrow> file_content option" where
  "dec_file_content v = do { m \<leftarrow> dec_object v; n \<leftarrow> may ''name'' dec_string m;
     t \<leftarrow> need ''mediaType'' dec_string m; u \<leftarrow> may ''uri'' dec_string m; b \<leftarrow> may ''bytes'' dec_string m;
     Some \<lparr>fc_name = n, fc_media_type = t, fc_uri = u, fc_bytes = b\<rparr> }"

definition enc_file_part :: "file_part \<Rightarrow> json" where
  "enc_file_part p = obj [''file'' \<mapsto> enc_file_content (fp_file p)]"

definition dec_file_part :: "json \<Rightarrow> file_part option" where
  "dec_file_part v = do { m \<leftarrow> dec_object v; f \<leftarrow> need ''file'' dec_file_content m; Some \<lparr>fp_file = f\<rparr> }"

definition enc_data_part :: "json data_part \<Rightarrow> json" where
  "enc_data_part p = obj (insert_some ''schema'' (map_option JString (dp_schema p)) [''data'' \<mapsto> dp_data p])"

definition dec_data_part :: "json \<Rightarrow> json data_part option" where
  "dec_data_part v = do { m \<leftarrow> dec_object v; d \<leftarrow> need ''data'' Some m; s \<leftarrow> may ''schema'' dec_string m;
     Some \<lparr>dp_data = d, dp_schema = s\<rparr> }"

primrec enc_message_part :: "json message_part \<Rightarrow> json" where
  "enc_message_part (TextP p) = enc_text_part p"
| "enc_message_part (FileP p) = enc_file_part p"
| "enc_message_part (DataP p) = enc_data_part p"

text \<open>The untagged enum: the variants are tried in their order.\<close>

definition dec_message_part :: "json \<Rightarrow> json message_part option" where
  "dec_message_part v = (case dec_text_part v of Some p \<Rightarrow> Some (TextP p) | None \<Rightarrow>
     (case dec_file_part v of Some p \<Rightarrow> Some (FileP p) | None \<Rightarrow> map_option DataP (dec_data_part v)))"

definition enc_message :: "json message \<Rightarrow> json" where
  "enc_message m = obj (insert_some ''contextId'' (map_option JString (ms_context_id m))
     (insert_some ''taskId'' (map_option JString (ms_task_id m))
       (insert_some ''referenceId'' (map_option JString (ms_reference_id m))
         (insert_some ''metadata'' (ms_metadata m)
           [''messageId'' \<mapsto> JString (ms_message_id m), ''role'' \<mapsto> enc_role (ms_role m),
            ''parts'' \<mapsto> JArray (map enc_message_part (ms_parts m))]))))"

definition dec_message :: "json \<Rightarrow> json message option" where
  "dec_message v = do { m \<leftarrow> dec_object v; i \<leftarrow> need ''messageId'' dec_string m; r \<leftarrow> need ''role'' dec_role m;
     ps \<leftarrow> need ''parts'' (dec_list dec_message_part) m; c \<leftarrow> may ''contextId'' dec_string m;
     t \<leftarrow> may ''taskId'' dec_string m; f \<leftarrow> may ''referenceId'' dec_string m; d \<leftarrow> may ''metadata'' Some m;
     Some \<lparr>ms_message_id = i, ms_role = r, ms_parts = ps, ms_context_id = c, ms_task_id = t,
           ms_reference_id = f, ms_metadata = d\<rparr> }"

lemma role_roundtrip [simp]: "dec_role (enc_role r) = Some r"
  by (cases r) (simp_all add: dec_role_def enc_role_def)

lemma text_part_roundtrip [simp]: "dec_text_part (enc_text_part p) = Some p"
  by (simp add: dec_text_part_def enc_text_part_def obj_def)

lemma file_content_roundtrip [simp]: "dec_file_content (enc_file_content f) = Some f"
  by (simp add: dec_file_content_def enc_file_content_def obj_def)

lemma file_part_roundtrip [simp]: "dec_file_part (enc_file_part p) = Some p"
  by (simp add: dec_file_part_def enc_file_part_def obj_def)

lemma data_part_roundtrip [simp]: "dec_data_part (enc_data_part p) = Some p"
  by (simp add: dec_data_part_def enc_data_part_def obj_def)

lemma message_part_roundtrip [simp]: "dec_message_part (enc_message_part p) = Some p"
proof (cases p)
  case (FileP f)
  have "dec_text_part (enc_file_part f) = None"
    by (simp add: dec_text_part_def enc_file_part_def obj_def need_def)
  then show ?thesis by (simp add: FileP dec_message_part_def)
next
  case (DataP q)
  have "dec_text_part (enc_data_part q) = None" "dec_file_part (enc_data_part q) = None"
    by (simp_all add: dec_text_part_def dec_file_part_def enc_data_part_def obj_def need_def)
  then show ?thesis by (simp add: DataP dec_message_part_def)
qed (simp add: dec_message_part_def)

text \<open>JSON null inside an optional value would be read back as absent.\<close>

definition not_null :: "json option \<Rightarrow> bool" where
  "not_null v = (case v of Some JNull \<Rightarrow> False | _ \<Rightarrow> True)"

lemma not_null_iff [simp]: "not_null v \<longleftrightarrow> v \<noteq> Some JNull"
  by (auto simp: not_null_def split: option.split json.split)

definition message_wf :: "json message \<Rightarrow> bool" where
  "message_wf m \<longleftrightarrow> not_null (ms_metadata m)"

lemma message_roundtrip: "message_wf m \<Longrightarrow> dec_message (enc_message m) = Some m"
  by (simp add: dec_message_def enc_message_def obj_def message_wf_def dec_list_map)

section \<open>Artifacts\<close>

primrec enc_artifact_part :: "json artifact_part \<Rightarrow> json" where
  "enc_artifact_part (ATextP p) = enc_text_part p"
| "enc_artifact_part (AFileP p) = enc_file_part p"
| "enc_artifact_part (ADataP p) = enc_data_part p"

definition dec_artifact_part :: "json \<Rightarrow> json artifact_part option" where
  "dec_artifact_part v = map_option (\<lambda>p. case p of TextP t \<Rightarrow> ATextP t | FileP f \<Rightarrow> AFileP f | DataP d \<Rightarrow> ADataP d)
     (dec_message_part v)"

lemma artifact_part_roundtrip [simp]: "dec_artifact_part (enc_artifact_part p) = Some p"
proof -
  have "dec_message_part (enc_text_part t) = Some (TextP t)" "dec_message_part (enc_file_part g) = Some (FileP g)"
    "dec_message_part (enc_data_part d) = Some (DataP d)" for t g d
    using message_part_roundtrip [of "TextP t"] message_part_roundtrip [of "FileP g"]
      message_part_roundtrip [of "DataP d"] by simp_all
  then show ?thesis by (cases p) (simp_all add: dec_artifact_part_def)
qed

definition enc_artifact :: "json artifact \<Rightarrow> json" where
  "enc_artifact a = obj (insert_some ''name'' (map_option JString (ar_name a))
     (insert_some ''description'' (map_option JString (ar_description a))
       (insert_some ''index'' (map_option enc_usize (ar_index a))
         (insert_some ''metadata'' (ar_metadata a)
           [''artifactId'' \<mapsto> JString (ar_artifact_id a),
            ''parts'' \<mapsto> JArray (map enc_artifact_part (ar_parts a)),
            ''streaming'' \<mapsto> JBool (ar_streaming a), ''complete'' \<mapsto> JBool (ar_complete a)]))))"

definition dec_artifact :: "json \<Rightarrow> json artifact option" where
  "dec_artifact v = do { m \<leftarrow> dec_object v; i \<leftarrow> need ''artifactId'' dec_string m; n \<leftarrow> may ''name'' dec_string m;
     d \<leftarrow> may ''description'' dec_string m; ps \<leftarrow> need ''parts'' (dec_list dec_artifact_part) m;
     x \<leftarrow> may ''index'' dec_usize m; st \<leftarrow> dflt False ''streaming'' dec_bool m;
     c \<leftarrow> dflt True ''complete'' dec_bool m; e \<leftarrow> may ''metadata'' Some m;
     Some \<lparr>ar_artifact_id = i, ar_name = n, ar_description = d, ar_parts = ps, ar_index = x,
           ar_streaming = st, ar_complete = c, ar_metadata = e\<rparr> }"

definition artifact_wf :: "json artifact \<Rightarrow> bool" where
  "artifact_wf a \<longleftrightarrow> not_null (ar_metadata a) \<and> pred_option (\<lambda>n. n < 2 ^ 64) (ar_index a)"

lemma may_usize [simp]:
  "m k = None \<Longrightarrow> pred_option (\<lambda>n. n < 2 ^ 64) x \<Longrightarrow>
     may k dec_usize (insert_some k (map_option enc_usize x) m) = Some x"
  by (rule may_written) (simp_all, simp add: enc_usize_def)

lemma artifact_roundtrip: "artifact_wf a \<Longrightarrow> dec_artifact (enc_artifact a) = Some a"
  by (simp add: dec_artifact_def enc_artifact_def obj_def artifact_wf_def dec_list_map)

section \<open>Tasks\<close>

record time_text =
  tt_show :: "time \<Rightarrow> string"
  tt_read :: "string \<Rightarrow> time option"

definition enc_time :: "time_text \<Rightarrow> time \<Rightarrow> json" where "enc_time T t = JString (tt_show T t)"

definition dec_time :: "time_text \<Rightarrow> json \<Rightarrow> time option" where
  "dec_time T v = Option.bind (dec_string v) (tt_read T)"

definition task_state_name :: "task_state \<Rightarrow> string" where
  "task_state_name s = (case s of TaSubmitted \<Rightarrow> ''submitted'' | TaWorking \<Rightarrow> ''working''
     | TaInputRequired \<Rightarrow> ''input-required'' | TaCompleted \<Rightarrow> ''completed'' | TaFailed \<Rightarrow> ''failed''
     | TaCancelled \<Rightarrow> ''cancelled'' | TaRejected \<Rightarrow> ''rejected'' | TaAuthRequired \<Rightarrow> ''auth-required'')"

definition all_task_states :: "task_state list" where
  "all_task_states = [TaSubmitted, TaWorking, TaInputRequired, TaCompleted, TaFailed, TaCancelled, TaRejected,
     TaAuthRequired]"

definition dec_task_state :: "json \<Rightarrow> task_state option" where
  "dec_task_state v = do { s \<leftarrow> dec_string v; find (\<lambda>st. task_state_name st = s) all_task_states }"

definition enc_task_error :: "json task_error \<Rightarrow> json" where
  "enc_task_error e = obj (insert_some ''data'' (te_data e)
     [''code'' \<mapsto> JNumber (te_code e), ''message'' \<mapsto> JString (te_message e)])"

definition dec_task_error :: "json \<Rightarrow> json task_error option" where
  "dec_task_error v = do { m \<leftarrow> dec_object v; c \<leftarrow> need ''code'' dec_i32 m; t \<leftarrow> need ''message'' dec_string m;
     d \<leftarrow> may ''data'' Some m; Some \<lparr>te_code = c, te_message = t, te_data = d\<rparr> }"

definition enc_task_status :: "time_text \<Rightarrow> json task_status \<Rightarrow> json" where
  "enc_task_status T s = obj (insert_some ''timestamp'' (map_option (enc_time T) (tk_timestamp s))
     (insert_some ''message'' (map_option JString (tk_message s))
       (insert_some ''error'' (map_option enc_task_error (tk_error s))
         [''state'' \<mapsto> JString (task_state_name (tk_state s))])))"

definition dec_task_status :: "time_text \<Rightarrow> json \<Rightarrow> json task_status option" where
  "dec_task_status T v = do { m \<leftarrow> dec_object v; st \<leftarrow> need ''state'' dec_task_state m;
     t \<leftarrow> may ''timestamp'' (dec_time T) m; x \<leftarrow> may ''message'' dec_string m;
     e \<leftarrow> may ''error'' dec_task_error m;
     Some \<lparr>tk_state = st, tk_timestamp = t, tk_message = x, tk_error = e\<rparr> }"

definition enc_status_update :: "time_text \<Rightarrow> json task_status_update \<Rightarrow> json" where
  "enc_status_update T u = obj [''status'' \<mapsto> enc_task_status T (tu_status u),
     ''timestamp'' \<mapsto> enc_time T (tu_timestamp u)]"

definition dec_status_update :: "time_text \<Rightarrow> json \<Rightarrow> json task_status_update option" where
  "dec_status_update T v = do { m \<leftarrow> dec_object v; s \<leftarrow> need ''status'' (dec_task_status T) m;
     t \<leftarrow> need ''timestamp'' (dec_time T) m; Some \<lparr>tu_status = s, tu_timestamp = t\<rparr> }"

text \<open>The extension map is flattened into the object; it is written last and so wins over equal keys. Reading,
  it gets the keys that no field takes.\<close>

definition enc_task_metadata :: "json task_metadata \<Rightarrow> json" where
  "enc_task_metadata d = obj (insert_some ''specSheet'' (tm_spec_sheet d)
     (insert_some ''summary'' (tm_summary d) Map.empty) ++ tm_extra d)"

definition dec_task_metadata :: "json \<Rightarrow> json task_metadata option" where
  "dec_task_metadata v = do { m \<leftarrow> dec_object v; s \<leftarrow> may ''specSheet'' Some m; u \<leftarrow> may ''summary'' Some m;
     Some \<lparr>tm_spec_sheet = s, tm_summary = u, tm_extra = m(''specSheet'' := None, ''summary'' := None)\<rparr> }"

definition enc_task :: "time_text \<Rightarrow> json task \<Rightarrow> json" where
  "enc_task T t = obj (insert_some ''contextId'' (map_option JString (t_context_id t))
     (insert_some ''history'' (map_option (\<lambda>h. JArray (map (enc_status_update T) h)) (t_history t))
       (insert_some ''metadata'' (map_option enc_task_metadata (t_metadata t))
         [''id'' \<mapsto> JString (t_id t), ''status'' \<mapsto> enc_task_status T (t_status t),
          ''messages'' \<mapsto> JArray (map enc_message (t_messages t)),
          ''artifacts'' \<mapsto> JArray (map enc_artifact (t_artifacts t))])))"

definition dec_task :: "time_text \<Rightarrow> json \<Rightarrow> json task option" where
  "dec_task T v = do { m \<leftarrow> dec_object v; i \<leftarrow> need ''id'' dec_string m; c \<leftarrow> may ''contextId'' dec_string m;
     s \<leftarrow> need ''status'' (dec_task_status T) m; ms \<leftarrow> dflt [] ''messages'' (dec_list dec_message) m;
     as \<leftarrow> dflt [] ''artifacts'' (dec_list dec_artifact) m;
     h \<leftarrow> may ''history'' (dec_list (dec_status_update T)) m; d \<leftarrow> may ''metadata'' dec_task_metadata m;
     Some \<lparr>t_id = i, t_context_id = c, t_status = s, t_messages = ms, t_artifacts = as, t_history = h,
           t_metadata = d\<rparr> }"

text \<open>What survives the trip: JSON null inside an optional value is read back as absent, numbers must fit their
  types, and the extension map must not use the keys of the fields it is flattened between.\<close>

definition task_error_wf :: "json task_error \<Rightarrow> bool" where
  "task_error_wf e \<longleftrightarrow> not_null (te_data e) \<and> - (2 ^ 31) \<le> te_code e \<and> te_code e < 2 ^ 31"

definition task_status_wf :: "json task_status \<Rightarrow> bool" where
  "task_status_wf s \<longleftrightarrow> pred_option task_error_wf (tk_error s)"

definition task_metadata_wf :: "json task_metadata \<Rightarrow> bool" where
  "task_metadata_wf d \<longleftrightarrow> not_null (tm_spec_sheet d) \<and> not_null (tm_summary d) \<and>
     Option.is_none (tm_extra d ''specSheet'') \<and> Option.is_none (tm_extra d ''summary'')"

definition task_wf :: "json task \<Rightarrow> bool" where
  "task_wf t \<longleftrightarrow> task_status_wf (t_status t) \<and> list_all message_wf (t_messages t) \<and>
     list_all artifact_wf (t_artifacts t) \<and>
     pred_option (list_all (\<lambda>u. task_status_wf (tu_status u))) (t_history t) \<and>
     pred_option task_metadata_wf (t_metadata t)"

lemma task_state_roundtrip [simp]: "dec_task_state (JString (task_state_name st)) = Some st"
  by (cases st) (simp_all add: dec_task_state_def task_state_name_def all_task_states_def)

lemma task_error_roundtrip: "task_error_wf e \<Longrightarrow> dec_task_error (enc_task_error e) = Some e"
  by (simp add: dec_task_error_def enc_task_error_def obj_def task_error_wf_def)

lemma task_metadata_roundtrip: "task_metadata_wf d \<Longrightarrow> dec_task_metadata (enc_task_metadata d) = Some d"
proof -
  assume "task_metadata_wf d"
  then have wf: "tm_spec_sheet d \<noteq> Some JNull" "tm_summary d \<noteq> Some JNull" "tm_extra d ''specSheet'' = None"
    "tm_extra d ''summary'' = None"
    by (simp_all add: task_metadata_wf_def Option.is_none_def)
  define m where "m = insert_some ''specSheet'' (tm_spec_sheet d)
     (insert_some ''summary'' (tm_summary d) Map.empty) ++ tm_extra d"
  have fields: "m ''specSheet'' = tm_spec_sheet d" "m ''summary'' = tm_summary d"
    using wf by (auto simp: m_def map_add_def split: option.split)
  then have "may ''specSheet'' Some m = Some (tm_spec_sheet d)" "may ''summary'' Some m = Some (tm_summary d)"
    using wf by (auto simp: may_def split: option.split json.split)
  moreover have "m(''specSheet'' := None, ''summary'' := None) = tm_extra d"
    using wf by (auto simp: m_def map_add_def fun_eq_iff split: option.split)
  ultimately show ?thesis
    by (simp add: dec_task_metadata_def enc_task_metadata_def obj_def m_def)
qed

lemma enc_not_null [simp]:
  "enc_task_error e \<noteq> JNull" "enc_task_metadata d \<noteq> JNull" "enc_task_status T s \<noteq> JNull"
  "enc_message x \<noteq> JNull" "enc_artifact a \<noteq> JNull"
  by (simp_all add: enc_task_error_def enc_task_metadata_def enc_task_status_def enc_message_def
      enc_artifact_def obj_def)

text \<open>The text of a time can be read back.\<close>

locale readable_times =
  fixes T :: time_text
  assumes read_show: "tt_read T (tt_show T t) = Some t"
begin

lemma time_roundtrip [simp]: "dec_time T (enc_time T t) = Some t"
  by (simp add: dec_time_def enc_time_def read_show)

lemma may_time [simp]: "m k = None \<Longrightarrow> may k (dec_time T) (insert_some k (map_option (enc_time T) x) m) = Some x"
  by (rule may_written) (simp_all, simp add: enc_time_def)

lemma status_roundtrip: "task_status_wf s \<Longrightarrow> dec_task_status T (enc_task_status T s) = Some s"
proof -
  assume wf: "task_status_wf s"
  have "may ''error'' dec_task_error (insert_some ''error'' (map_option enc_task_error (tk_error s)) m) =
      Some (tk_error s)" if "m ''error'' = None" for m
    by (rule may_written)
      (use that wf in \<open>auto simp: task_status_wf_def task_error_roundtrip\<close>)
  then show ?thesis by (simp add: dec_task_status_def enc_task_status_def obj_def)
qed

lemma status_update_roundtrip:
  "task_status_wf (tu_status u) \<Longrightarrow> dec_status_update T (enc_status_update T u) = Some u"
  by (simp add: dec_status_update_def enc_status_update_def obj_def status_roundtrip)

lemma task_roundtrip: "task_wf t \<Longrightarrow> dec_task T (enc_task T t) = Some t"
proof -
  assume wf: "task_wf t"
  have h: "may ''history'' (dec_list (dec_status_update T))
      (insert_some ''history'' (map_option (\<lambda>h. JArray (map (enc_status_update T) h)) (t_history t)) m) =
      Some (t_history t)" if "m ''history'' = None" for m
    by (rule may_written)
      (use that wf in \<open>auto simp: task_wf_def list_all_iff intro!: dec_list_map status_update_roundtrip\<close>)
  have d: "may ''metadata'' dec_task_metadata
      (insert_some ''metadata'' (map_option enc_task_metadata (t_metadata t)) m) = Some (t_metadata t)"
    if "m ''metadata'' = None" for m
    by (rule may_written)
      (use that wf in \<open>auto simp: task_wf_def task_metadata_roundtrip\<close>)
  have "dec_list dec_message (JArray (map enc_message (t_messages t))) = Some (t_messages t)"
    "dec_list dec_artifact (JArray (map enc_artifact (t_artifacts t))) = Some (t_artifacts t)"
    using wf by (auto simp: task_wf_def list_all_iff intro!: dec_list_map message_roundtrip artifact_roundtrip)
  then show ?thesis
    using wf h d by (simp add: dec_task_def enc_task_def obj_def status_roundtrip task_wf_def)
qed

end

section \<open>Parameters and events\<close>

definition enc_get_task_params :: "get_task_params \<Rightarrow> json" where
  "enc_get_task_params p = obj (insert_some ''historyLength'' (map_option enc_usize (gp_history_length p))
     [''taskId'' \<mapsto> JString (gp_task_id p)])"

definition dec_get_task_params :: "json \<Rightarrow> get_task_params option" where
  "dec_get_task_params v = do { m \<leftarrow> dec_object v; i \<leftarrow> need ''taskId'' dec_string m;
     h \<leftarrow> may ''historyLength'' dec_usize m; Some \<lparr>gp_task_id = i, gp_history_length = h\<rparr> }"

definition dec_cancel_task_params :: "json \<Rightarrow> cancel_task_params option" where
  "dec_cancel_task_params v = do { m \<leftarrow> dec_object v; i \<leftarrow> need ''taskId'' dec_string m; Some \<lparr>cp_task_id = i\<rparr> }"

definition dec_list_tasks_params :: "json \<Rightarrow> list_tasks_params option" where
  "dec_list_tasks_params v = do { m \<leftarrow> dec_object v; c \<leftarrow> may ''contextId'' dec_string m;
     l \<leftarrow> may ''limit'' dec_usize m; x \<leftarrow> may ''offset'' dec_usize m;
     Some \<lparr>lp_context_id = c, lp_limit = l, lp_offset = x\<rparr> }"

definition enc_list_tasks_result :: "time_text \<Rightarrow> json list_tasks_result \<Rightarrow> json" where
  "enc_list_tasks_result T r = obj [''tasks'' \<mapsto> JArray (map (enc_task T) (lr_tasks r)),
     ''total'' \<mapsto> enc_usize (lr_total r)]"

definition dec_list_tasks_result :: "time_text \<Rightarrow> json \<Rightarrow> json list_tasks_result option" where
  "dec_list_tasks_result T v = do { m \<leftarrow> dec_object v; ts \<leftarrow> need ''tasks'' (dec_list (dec_task T)) m;
     n \<leftarrow> need ''total'' dec_usize m; Some \<lparr>lr_tasks = ts, lr_total = n\<rparr> }"

definition enc_spec_step_ref :: "spec_step_ref \<Rightarrow> json" where
  "enc_spec_step_ref r = obj [''index'' \<mapsto> JString (sr_index r),
     ''instructions'' \<mapsto> JString (sr_instructions r), ''specId'' \<mapsto> JString (sr_spec_id r)]"

definition dec_spec_step_ref :: "json \<Rightarrow> spec_step_ref option" where
  "dec_spec_step_ref v = do { m \<leftarrow> dec_object v; i \<leftarrow> need ''index'' dec_string m;
     n \<leftarrow> need ''instructions'' dec_string m; s \<leftarrow> need ''specId'' dec_string m;
     Some \<lparr>sr_index = i, sr_instructions = n, sr_spec_id = s\<rparr> }"

definition enc_push_auth :: "push_notification_auth \<Rightarrow> json" where
  "enc_push_auth a = obj (insert_some ''credentials'' (map_option JString (pa_credentials a))
     [''schemes'' \<mapsto> JArray (map JString (pa_schemes a))])"

definition dec_push_auth :: "json \<Rightarrow> push_notification_auth option" where
  "dec_push_auth v = do { m \<leftarrow> dec_object v; s \<leftarrow> need ''schemes'' (dec_list dec_string) m;
     c \<leftarrow> may ''credentials'' dec_string m; Some \<lparr>pa_schemes = s, pa_credentials = c\<rparr> }"

definition enc_push_config :: "push_notification_config \<Rightarrow> json" where
  "enc_push_config c = obj (insert_some ''id'' (map_option JString (pc_id c))
     (insert_some ''authentication'' (map_option enc_push_auth (pc_authentication c))
       (insert_some ''token'' (map_option JString (pc_token c)) [''url'' \<mapsto> JString (pc_url c)])))"

definition dec_push_config :: "json \<Rightarrow> push_notification_config option" where
  "dec_push_config v = do { m \<leftarrow> dec_object v; i \<leftarrow> may ''id'' dec_string m; u \<leftarrow> need ''url'' dec_string m;
     a \<leftarrow> may ''authentication'' dec_push_auth m; t \<leftarrow> may ''token'' dec_string m;
     Some \<lparr>pc_id = i, pc_url = u, pc_authentication = a, pc_token = t\<rparr> }"

definition enc_message_configuration :: "message_configuration \<Rightarrow> json" where
  "enc_message_configuration c = obj
     (insert_some ''acceptedOutputModes'' (map_option (\<lambda>xs. JArray (map JString xs)) (mc_accepted_output_modes c))
       (insert_some ''historyLength'' (map_option enc_usize (mc_history_length c))
         (insert_some ''pushNotificationConfig'' (map_option enc_push_config (mc_push_notification_config c))
           (insert_some ''blocking'' (map_option JBool (mc_blocking c)) Map.empty))))"

definition dec_message_configuration :: "json \<Rightarrow> message_configuration option" where
  "dec_message_configuration v = do { m \<leftarrow> dec_object v; a \<leftarrow> may ''acceptedOutputModes'' (dec_list dec_string) m;
     h \<leftarrow> may ''historyLength'' dec_usize m; p \<leftarrow> may ''pushNotificationConfig'' dec_push_config m;
     b \<leftarrow> may ''blocking'' dec_bool m;
     Some \<lparr>mc_accepted_output_modes = a, mc_history_length = h, mc_push_notification_config = p,
           mc_blocking = b\<rparr> }"

definition enc_send_message_params :: "json send_message_params \<Rightarrow> json" where
  "enc_send_message_params p = obj (insert_some ''specStep'' (map_option enc_spec_step_ref (sm_spec_step p))
     (insert_some ''configuration'' (map_option enc_message_configuration (sm_configuration p))
       [''message'' \<mapsto> enc_message (sm_message p)]))"

definition dec_send_message_params :: "json \<Rightarrow> json send_message_params option" where
  "dec_send_message_params v = do { m \<leftarrow> dec_object v; x \<leftarrow> need ''message'' dec_message m;
     s \<leftarrow> may ''specStep'' dec_spec_step_ref m; c \<leftarrow> may ''configuration'' dec_message_configuration m;
     Some \<lparr>sm_message = x, sm_spec_step = s, sm_configuration = c\<rparr> }"

definition send_params_wf :: "json send_message_params \<Rightarrow> bool" where
  "send_params_wf p \<longleftrightarrow> message_wf (sm_message p) \<and>
     pred_option (\<lambda>c. pred_option (\<lambda>n. n < 2 ^ 64) (mc_history_length c)) (sm_configuration p)"

lemma dec_list_strings [simp]: "dec_list dec_string (JArray (map JString xs)) = Some xs"
  by (rule dec_list_map) simp

lemma may_strings [simp]:
  "m k = None \<Longrightarrow> may k (dec_list dec_string) (insert_some k (map_option (\<lambda>xs. JArray (map JString xs)) x) m) = Some x"
  by (rule may_written) simp_all

lemma may_bool [simp]: "m k = None \<Longrightarrow> may k dec_bool (insert_some k (map_option JBool x) m) = Some x"
  by (rule may_written) simp_all

lemma params_not_null [simp]:
  "enc_push_auth a \<noteq> JNull" "enc_push_config c \<noteq> JNull" "enc_spec_step_ref r \<noteq> JNull"
  "enc_message_configuration g \<noteq> JNull"
  by (simp_all add: enc_push_auth_def enc_push_config_def enc_spec_step_ref_def enc_message_configuration_def obj_def)

lemma push_auth_roundtrip [simp]: "dec_push_auth (enc_push_auth a) = Some a"
  by (simp add: dec_push_auth_def enc_push_auth_def obj_def)

lemma push_config_roundtrip [simp]: "dec_push_config (enc_push_config c) = Some c"
proof -
  have "m ''authentication'' = None \<Longrightarrow> may ''authentication'' dec_push_auth
      (insert_some ''authentication'' (map_option enc_push_auth (pc_authentication c)) m) =
      Some (pc_authentication c)" for m
    by (rule may_written) simp_all
  then show ?thesis by (simp add: dec_push_config_def enc_push_config_def obj_def)
qed

lemma spec_step_ref_roundtrip [simp]: "dec_spec_step_ref (enc_spec_step_ref r) = Some r"
  by (simp add: dec_spec_step_ref_def enc_spec_step_ref_def obj_def)

lemma message_configuration_roundtrip:
  assumes "pred_option (\<lambda>n. n < 2 ^ 64) (mc_history_length c)"
  shows "dec_message_configuration (enc_message_configuration c) = Some c"
proof -
  have "m ''pushNotificationConfig'' = None \<Longrightarrow> may ''pushNotificationConfig'' dec_push_config
      (insert_some ''pushNotificationConfig'' (map_option enc_push_config (mc_push_notification_config c)) m) =
      Some (mc_push_notification_config c)" for m
    by (rule may_written) simp_all
  with assms show ?thesis by (simp add: dec_message_configuration_def enc_message_configuration_def obj_def)
qed

lemma send_params_roundtrip: "send_params_wf p \<Longrightarrow> dec_send_message_params (enc_send_message_params p) = Some p"
proof -
  assume wf: "send_params_wf p"
  have "m ''specStep'' = None \<Longrightarrow> may ''specStep'' dec_spec_step_ref
      (insert_some ''specStep'' (map_option enc_spec_step_ref (sm_spec_step p)) m) = Some (sm_spec_step p)" for m
    by (rule may_written) simp_all
  moreover have "m ''configuration'' = None \<Longrightarrow> may ''configuration'' dec_message_configuration
      (insert_some ''configuration'' (map_option enc_message_configuration (sm_configuration p)) m) =
      Some (sm_configuration p)" for m
    using wf by (intro may_written) (auto simp: send_params_wf_def message_configuration_roundtrip)
  ultimately show ?thesis
    using wf by (simp add: dec_send_message_params_def enc_send_message_params_def obj_def send_params_wf_def
        message_roundtrip)
qed

definition enc_status_event :: "time_text \<Rightarrow> json task_status_update_event \<Rightarrow> json" where
  "enc_status_event T e = obj (insert_some ''contextId'' (map_option JString (se_context_id e))
     [''taskId'' \<mapsto> JString (se_task_id e), ''status'' \<mapsto> enc_task_status T (se_status e),
      ''finalUpdate'' \<mapsto> JBool (se_final_update e)])"

definition dec_status_event :: "time_text \<Rightarrow> json \<Rightarrow> json task_status_update_event option" where
  "dec_status_event T v = do { m \<leftarrow> dec_object v; i \<leftarrow> need ''taskId'' dec_string m;
     c \<leftarrow> may ''contextId'' dec_string m; s \<leftarrow> need ''status'' (dec_task_status T) m;
     b \<leftarrow> dflt False ''finalUpdate'' dec_bool m;
     Some \<lparr>se_task_id = i, se_context_id = c, se_status = s, se_final_update = b\<rparr> }"

definition enc_artifact_event :: "json task_artifact_update_event \<Rightarrow> json" where
  "enc_artifact_event e = obj (insert_some ''contextId'' (map_option JString (ae_context_id e))
     [''taskId'' \<mapsto> JString (ae_task_id e), ''artifact'' \<mapsto> enc_artifact (ae_artifact e),
      ''index'' \<mapsto> enc_usize (ae_index e), ''complete'' \<mapsto> JBool (ae_complete e)])"

definition dec_artifact_event :: "json \<Rightarrow> json task_artifact_update_event option" where
  "dec_artifact_event v = do { m \<leftarrow> dec_object v; i \<leftarrow> need ''taskId'' dec_string m;
     c \<leftarrow> may ''contextId'' dec_string m; a \<leftarrow> need ''artifact'' dec_artifact m; x \<leftarrow> need ''index'' dec_usize m;
     b \<leftarrow> dflt False ''complete'' dec_bool m;
     Some \<lparr>ae_task_id = i, ae_context_id = c, ae_artifact = a, ae_index = x, ae_complete = b\<rparr> }"

primrec enc_stream_event :: "time_text \<Rightarrow> json stream_event \<Rightarrow> json" where
  "enc_stream_event T (EvTask t) = obj [''task'' \<mapsto> enc_task T t]"
| "enc_stream_event T (EvMessage x) = obj [''message'' \<mapsto> enc_message x]"
| "enc_stream_event T (EvStatusUpdate e) = obj [''statusUpdate'' \<mapsto> enc_status_event T e]"
| "enc_stream_event T (EvArtifactUpdate e) = obj [''artifactUpdate'' \<mapsto> enc_artifact_event e]"

definition dec_stream_event :: "time_text \<Rightarrow> json \<Rightarrow> json stream_event option" where
  "dec_stream_event T v = do { m \<leftarrow> dec_object v;
     case need ''task'' (dec_task T) m of Some t \<Rightarrow> Some (EvTask t) | None \<Rightarrow>
     (case need ''message'' dec_message m of Some x \<Rightarrow> Some (EvMessage x) | None \<Rightarrow>
     (case need ''statusUpdate'' (dec_status_event T) m of Some e \<Rightarrow> Some (EvStatusUpdate e) | None \<Rightarrow>
      map_option EvArtifactUpdate (need ''artifactUpdate'' dec_artifact_event m))) }"

fun stream_event_wf :: "json stream_event \<Rightarrow> bool" where
  "stream_event_wf (EvTask t) \<longleftrightarrow> task_wf t"
| "stream_event_wf (EvMessage x) \<longleftrightarrow> message_wf x"
| "stream_event_wf (EvStatusUpdate e) \<longleftrightarrow> task_status_wf (se_status e)"
| "stream_event_wf (EvArtifactUpdate e) \<longleftrightarrow> artifact_wf (ae_artifact e) \<and> ae_index e < 2 ^ 64"

lemma need_absent [simp]: "m k = None \<Longrightarrow> need k d m = None"
  by (simp add: need_def)

context readable_times
begin

lemma status_event_roundtrip:
  "task_status_wf (se_status e) \<Longrightarrow> dec_status_event T (enc_status_event T e) = Some e"
  by (simp add: dec_status_event_def enc_status_event_def obj_def status_roundtrip)

lemma stream_event_roundtrip: "stream_event_wf e \<Longrightarrow> dec_stream_event T (enc_stream_event T e) = Some e"
proof (cases e)
  case (EvArtifactUpdate a)
  moreover assume "stream_event_wf e"
  ultimately have "dec_artifact_event (enc_artifact_event a) = Some a"
    by (simp add: dec_artifact_event_def enc_artifact_event_def obj_def artifact_roundtrip)
  then show ?thesis by (simp add: EvArtifactUpdate dec_stream_event_def obj_def)
qed (simp_all add: dec_stream_event_def obj_def task_roundtrip message_roundtrip status_event_roundtrip)

end

text \<open>Milliseconds in decimal; the program uses RFC 3339.\<close>

definition decimal_time :: time_text where
  "decimal_time = \<lparr>tt_show = nat_to_string, tt_read = (\<lambda>s. Some (decimal_value s))\<rparr>"

interpretation decimal: readable_times decimal_time
  by unfold_locales (simp add: decimal_time_def)

end
