(* ===== verification/A2a_Client.thy ===== *)
theory A2a_Client
  imports A2a_Server Json_Codec
begin

text \<open>
  \<open>crates/agent_protocol/src/client.rs\<close>: the client of one agent, its builder, and the client of several. The
  HTTP library is an argument: what a GET of the card and a POST of a request give. The request counter is
  the 64-bit atomic of the source. The last section composes the client with the server of \<open>A2a_Server\<close>.
\<close>

section \<open>HTTP\<close>

text \<open>An exchange fails, ends with a status that is no success, or gives a body that decodes or not.\<close>

datatype 'b http_result = HtFail string | HtStatus string | HtBody "string + 'b"

section \<open>Building a client\<close>

record 'v a2a_client =
  cl_agent_card :: "'v agent_card"
  cl_rpc_url :: string
  cl_auth_header :: "string option"
  cl_request_id :: "64 word"

record 'v a2a_client_builder =
  kb_agent_card :: "'v agent_card option"
  kb_card_url :: "string option"
  kb_auth_header :: "string option"
  kb_timeout :: nat

definition client_builder_new :: "'v a2a_client_builder" where
  "client_builder_new = \<lparr>kb_agent_card = None, kb_card_url = None, kb_auth_header = None, kb_timeout = 30\<rparr>"

definition client_builder_agent_card :: "'v agent_card \<Rightarrow> 'v a2a_client_builder \<Rightarrow> 'v a2a_client_builder" where
  "client_builder_agent_card c b = b\<lparr>kb_agent_card := Some c\<rparr>"

definition client_builder_card_url :: "string \<Rightarrow> 'v a2a_client_builder \<Rightarrow> 'v a2a_client_builder" where
  "client_builder_card_url u b = b\<lparr>kb_card_url := Some u\<rparr>"

definition client_builder_bearer_auth :: "string \<Rightarrow> 'v a2a_client_builder \<Rightarrow> 'v a2a_client_builder" where
  "client_builder_bearer_auth token b = b\<lparr>kb_auth_header := Some (''Bearer '' @ token)\<rparr>"

definition client_builder_api_key :: "string \<Rightarrow> 'v a2a_client_builder \<Rightarrow> 'v a2a_client_builder" where
  "client_builder_api_key key b = b\<lparr>kb_auth_header := Some key\<rparr>"

definition client_builder_auth_header :: "string \<Rightarrow> 'v a2a_client_builder \<Rightarrow> 'v a2a_client_builder" where
  "client_builder_auth_header header b = b\<lparr>kb_auth_header := Some header\<rparr>"

definition client_builder_timeout :: "nat \<Rightarrow> 'v a2a_client_builder \<Rightarrow> 'v a2a_client_builder" where
  "client_builder_timeout t b = b\<lparr>kb_timeout := t\<rparr>"

definition trim_end_slashes :: "string \<Rightarrow> string" where
  "trim_end_slashes url = rev (dropWhile (\<lambda>c. c = CHR ''/'') (rev url))"

definition resolve_card_url :: "string \<Rightarrow> string" where
  "resolve_card_url url =
     (if ends_with ''/agent.json'' url \<or> contains ''/.well-known/'' url then url
      else trim_end_slashes url @ AGENT_CARD_PATH)"

definition client_of_card :: "'v agent_card \<Rightarrow> string option \<Rightarrow> a2a_error + 'v a2a_client" where
  "client_of_card c auth = (case jsonrpc_url c of
      None \<Rightarrow> Inl (InvalidAgentCard ''No JSON-RPC endpoint in agent card'')
    | Some u \<Rightarrow> Inr \<lparr>cl_agent_card = c, cl_rpc_url = u, cl_auth_header = auth, cl_request_id = 1\<rparr>)"

text \<open>\<open>http_error\<close> is the error of building the HTTP client, if any; \<open>fetch\<close> the GET of a card.\<close>

definition client_build :: "string option \<Rightarrow> (string \<Rightarrow> 'v agent_card http_result) \<Rightarrow>
    'v a2a_client_builder \<Rightarrow> a2a_error + 'v a2a_client" where
  "client_build http_error fetch b = (case http_error of
      Some e \<Rightarrow> Inl (ConnectionError e)
    | None \<Rightarrow> (case kb_agent_card b of
        Some c \<Rightarrow> client_of_card c (kb_auth_header b)
      | None \<Rightarrow> (case kb_card_url b of
          None \<Rightarrow> Inl (InvalidAgentCard ''Either agent_card or card_url must be provided'')
        | Some url \<Rightarrow> (case fetch (resolve_card_url url) of
            HtFail e \<Rightarrow> Inl (ConnectionError e)
          | HtStatus st \<Rightarrow> Inl (InvalidAgentCard (''Failed to fetch agent card: HTTP '' @ st))
          | HtBody (Inl e) \<Rightarrow> Inl (InvalidAgentCard e)
          | HtBody (Inr c) \<Rightarrow> client_of_card c (kb_auth_header b)))))"

definition client_from_url :: "string option \<Rightarrow> (string \<Rightarrow> 'v agent_card http_result) \<Rightarrow> string \<Rightarrow>
    a2a_error + 'v a2a_client" where
  "client_from_url http_error fetch url =
     client_build http_error fetch (client_builder_card_url url client_builder_new)"

definition client_from_card :: "'v agent_card \<Rightarrow> a2a_error + 'v a2a_client" where
  "client_from_card c = client_of_card c None"

section \<open>Requests\<close>

definition next_request_id :: "'v a2a_client \<Rightarrow> request_id \<times> 'v a2a_client" where
  "next_request_id c = (IdNumber (sint (cl_request_id c)), c\<lparr>cl_request_id := cl_request_id c + 1\<rparr>)"

text \<open>\<open>valid\<close> tells which texts are header values.\<close>

definition build_headers :: "(string \<Rightarrow> bool) \<Rightarrow> string \<Rightarrow> 'v a2a_client \<Rightarrow> (string \<rightharpoonup> string)" where
  "build_headers valid accepts c =
     (let h = [''content-type'' \<mapsto> ''application/json'', ''accept'' \<mapsto> accepts]
      in case cl_auth_header c of
           Some auth \<Rightarrow> if valid auth then h(''authorization'' \<mapsto> auth) else h
         | None \<Rightarrow> h)"

text \<open>The network: URL, headers and request to what comes back, changing the world of the server.\<close>

record ('w, 'v) network =
  nw_valid_header :: "string \<Rightarrow> bool"
  nw_event_source_error :: "string option"
  nw_post :: "string \<Rightarrow> (string \<rightharpoonup> string) \<Rightarrow> 'v json_rpc_request \<Rightarrow> 'w \<Rightarrow> 'v json_rpc_response http_result \<times> 'w"

definition send_request :: "('w, 'v) network \<Rightarrow> 'v a2a_client \<Rightarrow> 'v json_rpc_request \<Rightarrow> 'w \<Rightarrow>
    (a2a_error + 'v json_rpc_response) \<times> 'w" where
  "send_request N c q w =
     (case nw_post N (cl_rpc_url c) (build_headers (nw_valid_header N) ''application/json'' c) q w of
        (HtFail e, w1) \<Rightarrow> (Inl (RequestError e), w1)
      | (HtStatus st, w1) \<Rightarrow> (Inl (HttpError (''HTTP error: '' @ st)), w1)
      | (HtBody (Inl e), w1) \<Rightarrow> (Inl (RequestError e), w1)
      | (HtBody (Inr r), w1) \<Rightarrow> (Inr r, w1))"

text \<open>A call: take an id, send the request made with it, read the result.\<close>

definition client_call :: "('w, 'v) network \<Rightarrow> ('v \<Rightarrow> string + 'p) \<Rightarrow> (request_id \<Rightarrow> 'v json_rpc_request) \<Rightarrow>
    'v a2a_client \<Rightarrow> 'w \<Rightarrow> (a2a_error + 'p) \<times> 'v a2a_client \<times> 'w" where
  "client_call N dec mk c w =
     (let (i, c1) = next_request_id c
      in case send_request N c1 (mk i) w of
           (Inl e, w1) \<Rightarrow> (Inl e, c1, w1)
         | (Inr r, w1) \<Rightarrow> (parse_result dec r, c1, w1))"

record 'v client_codec =
  cc_json :: "'v json_api"
  cc_number :: "nat \<Rightarrow> 'v"
  cc_enc_send :: "'v send_message_params \<Rightarrow> 'v"
  cc_dec_task :: "'v \<Rightarrow> string + 'v task"
  cc_dec_list :: "'v \<Rightarrow> string + 'v list_tasks_result"
  cc_dec_event :: "string \<Rightarrow> string + 'v stream_event"

definition client_send_message :: "'v client_codec \<Rightarrow> ('w, 'v) network \<Rightarrow> 'v message \<Rightarrow> 'v a2a_client \<Rightarrow> 'w \<Rightarrow>
    (a2a_error + 'v task) \<times> 'v a2a_client \<times> 'w" where
  "client_send_message K N m = client_call N (cc_dec_task K) (request_send_message (cc_enc_send K) m)"

definition client_send_text :: "'v client_codec \<Rightarrow> ('w, 'v) network \<Rightarrow> string \<Rightarrow> string \<Rightarrow> 'v a2a_client \<Rightarrow> 'w \<Rightarrow>
    (a2a_error + 'v task) \<times> 'v a2a_client \<times> 'w" where
  "client_send_text K N uuid text = client_send_message K N (message_user uuid text)"

definition client_get_task :: "'v client_codec \<Rightarrow> ('w, 'v) network \<Rightarrow> string \<Rightarrow> 'v a2a_client \<Rightarrow> 'w \<Rightarrow>
    (a2a_error + 'v task) \<times> 'v a2a_client \<times> 'w" where
  "client_get_task K N task_id = client_call N (cc_dec_task K) (request_get_task (cc_json K) task_id)"

definition client_list_tasks :: "'v client_codec \<Rightarrow> ('w, 'v) network \<Rightarrow> string option \<Rightarrow> nat option \<Rightarrow>
    nat option \<Rightarrow> 'v a2a_client \<Rightarrow> 'w \<Rightarrow> (a2a_error + 'v task list \<times> nat) \<times> 'v a2a_client \<times> 'w" where
  "client_list_tasks K N ctx limit offset c w =
     map_prod (\<lambda>r. case r of Inl e \<Rightarrow> Inl e | Inr l \<Rightarrow> Inr (lr_tasks l, lr_total l)) id
       (client_call N (cc_dec_list K) (request_list_tasks (cc_json K) (cc_number K) ctx limit offset) c w)"

definition client_cancel_task :: "'v client_codec \<Rightarrow> ('w, 'v) network \<Rightarrow> string \<Rightarrow> 'v a2a_client \<Rightarrow> 'w \<Rightarrow>
    (a2a_error + 'v task) \<times> 'v a2a_client \<times> 'w" where
  "client_cancel_task K N task_id = client_call N (cc_dec_task K) (request_cancel_task (cc_json K) task_id)"

section \<open>Event streams\<close>

datatype sse_event = SseOpen | SseMessage string | SseError string

text \<open>The closure of \<open>filter_map\<close> over the event source, and the requests that open one.\<close>

definition decode_sse :: "'v client_codec \<Rightarrow> sse_event \<Rightarrow> (a2a_error + 'v stream_event) option" where
  "decode_sse K e = (case e of
      SseOpen \<Rightarrow> None
    | SseMessage d \<Rightarrow> Some (case cc_dec_event K d of Inr ev \<Rightarrow> Inr ev | Inl err \<Rightarrow> Inl (ParseError err))
    | SseError err \<Rightarrow> Some (Inl (StreamError err)))"

definition client_stream :: "'v client_codec \<Rightarrow> sse_event list \<Rightarrow> (a2a_error + 'v stream_event) list" where
  "client_stream K es = List.map_filter (decode_sse K) es"

text \<open>\<open>nw_event_source_error\<close> is the error of \<open>EventSource::new\<close>, if any.\<close>

definition open_event_source :: "('w, 'v) network \<Rightarrow> (request_id \<Rightarrow> 'v json_rpc_request) \<Rightarrow> 'v a2a_client \<Rightarrow>
    (a2a_error + string \<times> (string \<rightharpoonup> string) \<times> 'v json_rpc_request) \<times> 'v a2a_client" where
  "open_event_source N mk c =
     (let (i, c1) = next_request_id c
      in (case nw_event_source_error N of
            Some e \<Rightarrow> Inl (ConnectionError e)
          | None \<Rightarrow> Inr (cl_rpc_url c1, build_headers (nw_valid_header N) ''text/event-stream'' c1, mk i), c1))"

definition send_message_streaming :: "'v client_codec \<Rightarrow> ('w, 'v) network \<Rightarrow> 'v message \<Rightarrow> 'v a2a_client \<Rightarrow>
    (a2a_error + string \<times> (string \<rightharpoonup> string) \<times> 'v json_rpc_request) \<times> 'v a2a_client" where
  "send_message_streaming K N m = open_event_source N (request_send_streaming_message (cc_enc_send K) m)"

definition send_text_streaming :: "'v client_codec \<Rightarrow> ('w, 'v) network \<Rightarrow> string \<Rightarrow> string \<Rightarrow> 'v a2a_client \<Rightarrow>
    (a2a_error + string \<times> (string \<rightharpoonup> string) \<times> 'v json_rpc_request) \<times> 'v a2a_client" where
  "send_text_streaming K N uuid text = send_message_streaming K N (message_user uuid text)"

definition client_subscribe_to_task :: "'v client_codec \<Rightarrow> ('w, 'v) network \<Rightarrow> string \<Rightarrow> 'v a2a_client \<Rightarrow>
    (a2a_error + string \<times> (string \<rightharpoonup> string) \<times> 'v json_rpc_request) \<times> 'v a2a_client" where
  "client_subscribe_to_task K N task_id = open_event_source N (request_subscribe_to_task (cc_json K) task_id)"

definition client_supports_streaming :: "'v a2a_client \<Rightarrow> bool" where
  "client_supports_streaming c = supports_streaming (cl_agent_card c)"

definition client_supports_push_notifications :: "'v a2a_client \<Rightarrow> bool" where
  "client_supports_push_notifications c = supports_push_notifications (cl_agent_card c)"

definition client_find_skill :: "string \<Rightarrow> 'v a2a_client \<Rightarrow> skill option" where
  "client_find_skill i c = find_skill i (cl_agent_card c)"

section \<open>Several agents\<close>

type_synonym 'v multi_agent_client = "string \<rightharpoonup> 'v a2a_client"

definition multi_new :: "'v multi_agent_client" where "multi_new = Map.empty"

definition multi_add_client :: "string \<Rightarrow> 'v a2a_client \<Rightarrow> 'v multi_agent_client \<Rightarrow> 'v multi_agent_client" where
  "multi_add_client name c M = M(name \<mapsto> c)"

definition multi_add_agent :: "string option \<Rightarrow> (string \<Rightarrow> 'v agent_card http_result) \<Rightarrow> string \<Rightarrow> string \<Rightarrow>
    'v multi_agent_client \<Rightarrow> (a2a_error + unit) \<times> 'v multi_agent_client" where
  "multi_add_agent http_error fetch name url M = (case client_from_url http_error fetch url of
      Inl e \<Rightarrow> (Inl e, M)
    | Inr c \<Rightarrow> (Inr (), M(name \<mapsto> c)))"

definition multi_get :: "string \<Rightarrow> 'v multi_agent_client \<Rightarrow> 'v a2a_client option" where
  "multi_get name M = M name"

definition multi_remove :: "string \<Rightarrow> 'v multi_agent_client \<Rightarrow> 'v a2a_client option \<times> 'v multi_agent_client" where
  "multi_remove name M = (M name, M(name := None))"

text \<open>\<open>keys\<close> is the iteration order of the hash map.\<close>

definition multi_list_agents :: "string list \<Rightarrow> 'v multi_agent_client \<Rightarrow> string list" where
  "multi_list_agents keys M = filter (\<lambda>k. M k \<noteq> None) keys"

definition multi_send_to :: "'v client_codec \<Rightarrow> ('w, 'v) network \<Rightarrow> string \<Rightarrow> 'v message \<Rightarrow>
    'v multi_agent_client \<Rightarrow> 'w \<Rightarrow> (a2a_error + 'v task) \<times> 'v multi_agent_client \<times> 'w" where
  "multi_send_to K N name m M w = (case M name of
      None \<Rightarrow> (Inl (ConnectionError (concat [''Agent '', [CHR 0x27], name, [CHR 0x27], '' not found''])), M, w)
    | Some c \<Rightarrow> (case client_send_message K N m c w of (r, c1, w1) \<Rightarrow> (r, M(name \<mapsto> c1), w1)))"

fun multi_broadcast :: "'v client_codec \<Rightarrow> ('w, 'v) network \<Rightarrow> 'v message \<Rightarrow> string list \<Rightarrow>
    'v multi_agent_client \<Rightarrow> 'w \<Rightarrow> (string \<times> (a2a_error + 'v task)) list \<times> 'v multi_agent_client \<times> 'w" where
  "multi_broadcast K N m [] M w = ([], M, w)"
| "multi_broadcast K N m (k # ks) M w = (case M k of
      None \<Rightarrow> multi_broadcast K N m ks M w
    | Some c \<Rightarrow> (case client_send_message K N m c w of (r, c1, w1) \<Rightarrow>
        (case multi_broadcast K N m ks (M(k \<mapsto> c1)) w1 of (rs, M2, w2) \<Rightarrow> ((k, r) # rs, M2, w2))))"

lemma broadcast_answers:
  "distinct keys \<Longrightarrow> map fst (fst (multi_broadcast K N m keys M w)) = multi_list_agents keys M"
proof (induction keys arbitrary: M w)
  case (Cons k ks)
  have same: "multi_list_agents ks (M(k \<mapsto> c)) = multi_list_agents ks M" for c
    using Cons.prems by (auto simp: multi_list_agents_def intro: filter_cong)
  show ?case
  proof (cases "M k")
    case None
    then show ?thesis using Cons by (simp add: multi_list_agents_def)
  next
    case (Some c)
    obtain r c1 w1 where send: "client_send_message K N m c w = (r, c1, w1)" by (metis prod_cases3)
    obtain rs M2 w2 where rest: "multi_broadcast K N m ks (M(k \<mapsto> c1)) w1 = (rs, M2, w2)" by (metis prod_cases3)
    have d: "distinct ks" using Cons.prems by simp
    have "map fst rs = multi_list_agents ks M"
      using Cons.IH [OF d, of "M(k \<mapsto> c1)" w1] unfolding rest fst_conv same .
    then show ?thesis by (simp add: Some send rest multi_list_agents_def)
  qed
qed (simp add: multi_list_agents_def)

section \<open>Client and server together\<close>

text \<open>A network that delivers every request to the server of \<open>A2a_Server\<close>; an event stream is no JSON body.\<close>

definition served_by :: "'v server_codec \<Rightarrow> ('s, 'v) server_state \<Rightarrow> ('s, 'v) network" where
  "served_by C S = \<lparr>nw_valid_header = (\<lambda>_. True), nw_event_source_error = None,
     nw_post = (\<lambda>_ _ q s. case handle_jsonrpc C S q s of
        (HrJson r, s1) \<Rightarrow> (HtBody (Inr r), s1)
      | (HrSse _, s1) \<Rightarrow> (HtBody (Inl ''event stream''), s1))\<rparr>"

lemma request_new_sel [simp]:
  "request_a2a_method (request_new m p i) = Some m" "rq_id (request_new m p i) = i"
  "parse_params dec (request_new m (Some v) i) = (case dec v of Inl e \<Rightarrow> Inl (InvalidParams e) | Inr p \<Rightarrow> Inr p)"
  by (simp_all add: request_new_def request_a2a_method_def parse_params_def)

text \<open>What a client makes of the answer of the handler: the task itself, or an internal error that carries
  the text of the error but not its kind.\<close>

definition as_seen :: "a2a_error + 'v task \<Rightarrow> a2a_error + 'v task" where
  "as_seen r = (case r of Inr t \<Rightarrow> Inr t | Inl e \<Rightarrow> Inl (InternalError (error_to_string e)))"

text \<open>What the two sides rely on: serde decodes what it encoded, for the values in \<open>good\<close>.\<close>

locale a2a_codecs =
  fixes C :: "'v server_codec" and K :: "'v client_codec"
    and good :: "'v task \<Rightarrow> bool" and good_send :: "'v send_message_params \<Rightarrow> bool"
  assumes get_params: "sc_dec_get C (j_object (cc_json K) [''taskId'' \<mapsto> j_string (cc_json K) i]) =
      Inr \<lparr>gp_task_id = i, gp_history_length = None\<rparr>"
    and cancel_params: "sc_dec_cancel C (j_object (cc_json K) [''taskId'' \<mapsto> j_string (cc_json K) i]) =
      Inr \<lparr>cp_task_id = i\<rparr>"
    and send_params: "good_send p \<Longrightarrow> sc_dec_send C (cc_enc_send K p) = Inr p"
    and task_value: "good t \<Longrightarrow> cc_dec_task K (sc_enc_task C t) = Inr t"
begin

lemma task_answer:
  "pred_sum (\<lambda>_. True) good r \<Longrightarrow>
     \<exists>resp. task_response C n r = HrJson resp \<and> parse_result (cc_dec_task K) resp = as_seen r"
  by (auto simp: task_response_def response_defs parse_result_def as_seen_def task_value split: sum.splits)

lemma client_call_served:
  assumes "\<And>n. handle_jsonrpc C S (mk n) s = map_prod (task_response C n) id (r, s1)"
    and "pred_sum (\<lambda>_. True) good r"
  shows "client_call (served_by C S) (cc_dec_task K) mk c s = (as_seen r, snd (next_request_id c), s1)"
proof -
  obtain n c1 where n: "next_request_id c = (n, c1)" by fastforce
  obtain resp where resp: "task_response C n r = HrJson resp" "parse_result (cc_dec_task K) resp = as_seen r"
    using task_answer [OF assms(2)] by blast
  show ?thesis
    by (simp add: client_call_def n send_request_def served_by_def assms(1) resp)
qed

lemma request_served:
  "handle_jsonrpc C S (request_get_task (cc_json K) i n) s =
     map_prod (task_response C n) id (ah_get_task (sv_handler S) i s)"
  "handle_jsonrpc C S (request_cancel_task (cc_json K) i n) s =
     map_prod (task_response C n) id (ah_cancel_task (sv_handler S) i s)"
  "good_send (default_send_params m) \<Longrightarrow> handle_jsonrpc C S (request_send_message (cc_enc_send K) m n) s =
     map_prod (task_response C n) id (ah_handle_message (sv_handler S) m None None s)"
  by (simp_all add: request_get_task_def request_cancel_task_def request_send_message_def
      handle_jsonrpc_def handle_get_task_def handle_cancel_task_def handle_send_message_def get_params
      cancel_params send_params)
    (simp add: default_send_params_def)

lemma client_get:
  assumes "ah_get_task (sv_handler S) i s = (r, s1)" "pred_sum (\<lambda>_. True) good r"
  shows "client_get_task K (served_by C S) i c s = (as_seen r, snd (next_request_id c), s1)"
  unfolding client_get_task_def by (rule client_call_served) (simp_all add: request_served assms)

lemma client_cancel:
  assumes "ah_cancel_task (sv_handler S) i s = (r, s1)" "pred_sum (\<lambda>_. True) good r"
  shows "client_cancel_task K (served_by C S) i c s = (as_seen r, snd (next_request_id c), s1)"
  unfolding client_cancel_task_def by (rule client_call_served) (simp_all add: request_served assms)

lemma client_send:
  assumes "ah_handle_message (sv_handler S) m None None s = (r, s1)" "pred_sum (\<lambda>_. True) good r"
    and "good_send (default_send_params m)"
  shows "client_send_message K (served_by C S) m c s = (as_seen r, snd (next_request_id c), s1)"
  unfolding client_send_message_def by (rule client_call_served) (simp_all add: request_served assms)

end

text \<open>The codecs that the serde attributes prescribe, on JSON values: see \<open>Json_Codec\<close>.\<close>

definition or_error :: "string \<Rightarrow> ('a \<Rightarrow> 'b option) \<Rightarrow> 'a \<Rightarrow> string + 'b" where
  "or_error err d v = (case d v of None \<Rightarrow> Inl err | Some x \<Rightarrow> Inr x)"

definition json_server_codec :: "time_text \<Rightarrow> (json agent_card \<Rightarrow> json) \<Rightarrow> string \<Rightarrow> json server_codec" where
  "json_server_codec T enc_card err = \<lparr>sc_enc_card = enc_card, sc_enc_task = enc_task T,
     sc_enc_list = enc_list_tasks_result T, sc_dec_send = or_error err dec_send_message_params,
     sc_dec_get = or_error err dec_get_task_params, sc_dec_list = or_error err dec_list_tasks_params,
     sc_dec_cancel = or_error err dec_cancel_task_params\<rparr>"

definition json_client_codec :: "time_text \<Rightarrow> (string \<Rightarrow> json option) \<Rightarrow> string \<Rightarrow> json client_codec" where
  "json_client_codec T parse err = \<lparr>cc_json = serde_api, cc_number = enc_usize,
     cc_enc_send = enc_send_message_params, cc_dec_task = or_error err (dec_task T),
     cc_dec_list = or_error err (dec_list_tasks_result T),
     cc_dec_event = or_error err (\<lambda>d. Option.bind (parse d) (dec_stream_event T))\<rparr>"

interpretation json_codecs: a2a_codecs "json_server_codec decimal_time enc_card err"
  "json_client_codec decimal_time parse err1" task_wf send_params_wf
proof (unfold_locales, goal_cases)
  case (3 p)
  then show ?case
    by (simp add: json_server_codec_def json_client_codec_def or_error_def send_params_roundtrip)
next
  case (4 t)
  then show ?case
    by (simp add: json_server_codec_def json_client_codec_def or_error_def decimal.task_roundtrip)
qed (simp_all add: json_server_codec_def json_client_codec_def or_error_def dec_get_task_params_def
    dec_cancel_task_params_def serde_api_def)

lemma error_text_not_found: "error_to_string (TaskNotFound i) = ''Task not found: '' @ i"
  by simp

text \<open>C18: a client that asks the agent's server for a task over JSON-RPC gets exactly the stored task, after
  two encodings and decodings, or an error with the text 'Task not found: i', and changes nothing; and when
  it asks to cancel the task in a reachable state it gets the very same answer and changes nothing but the
  cancel flag. It relies on serde decoding what it encoded.\<close>

theorem client_sees_stored_task:
  assumes codecs: "a2a_codecs C K good good_send" and good: "pred_option good (hs_tasks s i)"
    and reach: "a2a_reachable s" and N: "N = served_by C (create_a2a_server cd (agent_handler M ST clock keys sub))"
    and answer: "answer = (case hs_tasks s i of
        Some t \<Rightarrow> Inr t | None \<Rightarrow> Inl (InternalError (''Task not found: '' @ i)))"
  shows "client_get_task K N i c s = (answer, snd (next_request_id c), s) \<and>
    client_cancel_task K N i c s = (answer, snd (next_request_id c), s\<lparr>hs_cancel := True\<rparr>)"
proof -
  let ?S = "create_a2a_server cd (agent_handler M ST clock keys sub)"
  have ok: "pred_sum (\<lambda>_. True) good (get_task i s)"
    using good by (cases "hs_tasks s i") (simp_all add: get_task_def)
  have seen: "as_seen (get_task i s) = answer"
    by (simp add: as_seen_def get_task_def answer split: option.split)
  have get: "ah_get_task (sv_handler ?S) i s = (get_task i s, s)"
    by (simp add: create_a2a_server_def agent_handler_def)
  have cancel: "ah_cancel_task (sv_handler ?S) i s = (get_task i s, s\<lparr>hs_cancel := True\<rparr>)"
  proof -
    have "tasks_ok s" using reachable_inv [OF reach] by (simp add: system_inv_def)
    then show ?thesis by (simp add: create_a2a_server_def agent_handler_def cancel_answers_get)
  qed
  show ?thesis
    unfolding N seen [symmetric]
    using a2a_codecs.client_get [OF codecs get ok] a2a_codecs.client_cancel [OF codecs cancel ok] by blast
qed

text \<open>The finished task of the run in \<open>A2a_System\<close>, read by a client of the default card.\<close>

definition sample_client :: "json a2a_client" where
  "sample_client = (case default_agent_card ''http://localhost:9000/rpc'' of
     Inr cd \<Rightarrow> (case client_from_card cd of Inr c \<Rightarrow> c))"

definition sample_network :: "(json a2a_state, json) network" where
  "sample_network = served_by (json_server_codec decimal_time (\<lambda>_. JNull) ''bad params'')
     (create_a2a_server (cl_agent_card sample_client)
       (agent_handler (\<lambda>_ _ _ s. (Inl TaskNotCancelable, s)) (\<lambda>_ _ _ s. (Inl TaskNotCancelable, s)) 9 (\<lambda>_. []) ''v''))"

lemma client_sees_stored_task_witness:
  "map_sum id (\<lambda>t. tk_state (t_status t))
     (fst (client_get_task (json_client_codec decimal_time (\<lambda>_. None) ''bad task'') sample_network ''t''
        sample_client sample_end)) = Inr TaCompleted"
proof -
  have good: "pred_option task_wf (hs_tasks sample_end ''t'')"
    by code_simp (simp add: task_wf_def task_status_wf_def message_wf_def task_metadata_wf_def)
  obtain t where t: "hs_tasks sample_end ''t'' = Some t" "tk_state (t_status t) = TaCompleted"
    using sample_end_facts(1) by auto
  show ?thesis
    using client_sees_stored_task [OF json_codecs.a2a_codecs_axioms good sample_end_reachable
        sample_network_def refl, of "\<lambda>_. None" "''bad task''" sample_client]
    by (simp add: t)
qed

end
