(* ===== verification/Safety_Config.thy ===== *)
theory Safety_Config
  imports Rust_Prelude
begin

text \<open>
  The safety modes of the agent and the sandbox policies that follow from them:
  \<open>crates/agent_core/src/safety_config.rs\<close>, the policy part of \<open>agent_state.rs\<close>,
  \<open>crates/sessionizer/src/protocol.rs\<close> and \<open>safety.rs\<close>. Paths are strings. What the source reads from the process
  environment (\<open>SAFE_MODE\<close>, \<open>SANDBOX_EXTRA_ROOTS\<close>, \<open>TMPDIR\<close>, the path of the executable, \<open>canonicalize\<close>) is the
  record \<open>safety_env\<close>. Reading and writing the configuration file is left to its users.

  \<open>policy_kind\<close> shows that the label the user sees is the policy that is enforced, \<open>mode_text_roundtrip\<close> that
  the text of a mode is read back in any case.
\<close>

section \<open>Modes and configurations\<close>

datatype safety_mode = Yolo | Regular | ReadOnly

datatype effective_sandbox_kind = SandboxReadOnly | SandboxWorkspaceWrite | SandboxFullAccess

record safety_config =
  sc_mode :: safety_mode
  ask_permission :: bool
  sandbox_enabled :: bool

record safety_env =
  safe_mode_set :: bool
  extra_roots_var :: "string option"
  tmpdir_var :: "string option"
  exe_parent :: "string option"
  tools_parent :: "string option"
  canonicalize :: "string \<Rightarrow> string option"

definition mode_to_string :: "safety_mode \<Rightarrow> string" where
  "mode_to_string m = (case m of Yolo \<Rightarrow> ''yolo'' | Regular \<Rightarrow> ''regular'' | ReadOnly \<Rightarrow> ''readonly'')"

text \<open>\<open>lower\<close> is \<open>str::to_lowercase\<close>, which depends on the Unicode tables.\<close>

definition mode_from_str :: "(string \<Rightarrow> string) \<Rightarrow> string \<Rightarrow> string + safety_mode" where
  "mode_from_str lower s =
     (let l = lower s
      in if l = ''yolo'' then Inr Yolo
         else if l = ''regular'' then Inr Regular
         else if l = ''readonly'' \<or> l = ''read-only'' \<or> l = ''read_only'' then Inr ReadOnly
         else Inl (''Invalid safety mode: '' @ s))"

definition from_mode :: "safety_mode \<Rightarrow> safety_config" where
  "from_mode m =
     (case m of
        Yolo \<Rightarrow> \<lparr>sc_mode = m, ask_permission = False, sandbox_enabled = False\<rparr>
      | Regular \<Rightarrow> \<lparr>sc_mode = m, ask_permission = True, sandbox_enabled = True\<rparr>
      | ReadOnly \<Rightarrow> \<lparr>sc_mode = m, ask_permission = False, sandbox_enabled = True\<rparr>)"

definition safety_config_default :: safety_config where
  "safety_config_default = from_mode Regular"

definition set_mode :: "safety_mode \<Rightarrow> safety_config \<Rightarrow> safety_config" where
  "set_mode m c = from_mode m"

definition toggle_ask_permission :: "safety_config \<Rightarrow> safety_config" where
  "toggle_ask_permission c = c\<lparr>ask_permission := \<not> ask_permission c\<rparr>"

definition toggle_sandbox :: "safety_config \<Rightarrow> safety_config" where
  "toggle_sandbox c = c\<lparr>sandbox_enabled := \<not> sandbox_enabled c\<rparr>"

definition is_tool_allowed :: "safety_config \<Rightarrow> string \<Rightarrow> bool" where
  "is_tool_allowed c tool_name =
     (if sc_mode c \<noteq> ReadOnly then True
      else tool_name \<in> set [''read_file'', ''get_files'', ''get_files_recursive'', ''search_files_with_regex'',
        ''semantic_search'', ''web_search'', ''html_to_text'', ''todo_write'', ''request_split''])"

definition effective_sandbox_kind_of :: "safety_env \<Rightarrow> safety_config \<Rightarrow> effective_sandbox_kind" where
  "effective_sandbox_kind_of E c =
     (case sc_mode c of
        ReadOnly \<Rightarrow> SandboxReadOnly
      | Regular \<Rightarrow> if sandbox_enabled c \<or> safe_mode_set E then SandboxWorkspaceWrite else SandboxFullAccess
      | Yolo \<Rightarrow> SandboxFullAccess)"

definition effective_sandbox_label :: "safety_env \<Rightarrow> safety_config \<Rightarrow> string" where
  "effective_sandbox_label E c =
     (case effective_sandbox_kind_of E c of
        SandboxReadOnly \<Rightarrow> ''read-only sandbox''
      | SandboxWorkspaceWrite \<Rightarrow> ''workspace sandbox''
      | SandboxFullAccess \<Rightarrow> ''full access'')"

definition on_off :: "bool \<Rightarrow> string" where
  "on_off b = (if b then ''ON'' else ''OFF'')"

definition status_string :: "safety_config \<Rightarrow> string" where
  "status_string c =
     ''Mode: '' @ mode_to_string (sc_mode c) @ '' | Permissions: '' @ on_off (ask_permission c)
     @ '' | Sandbox: '' @ on_off (sandbox_enabled c)"

section \<open>Policies\<close>

record writable_root =
  wr_root :: string
  wr_recursive :: bool
  wr_read_only_subpaths :: "string list"

datatype network_access = NetworkRestricted | NetworkEnabled

datatype sandbox_policy =
    PolicyReadOnly
  | WorkspaceWrite (writable_roots: "writable_root list") (network: network_access)
      (exclude_tmpdir_env_var: bool) (exclude_slash_tmp: bool)
  | DangerFullAccess

definition has_full_disk_write_access :: "sandbox_policy \<Rightarrow> bool" where
  "has_full_disk_write_access p \<longleftrightarrow> p = DangerFullAccess"

definition has_full_network_access :: "sandbox_policy \<Rightarrow> bool" where
  "has_full_network_access p =
     (case p of
        PolicyReadOnly \<Rightarrow> False
      | WorkspaceWrite roots net no_tmpdir no_tmp \<Rightarrow> net = NetworkEnabled
      | DangerFullAccess \<Rightarrow> True)"

definition open_root :: "string \<Rightarrow> writable_root" where
  "open_root r = \<lparr>wr_root = r, wr_recursive = True, wr_read_only_subpaths = []\<rparr>"

text \<open>\<open>Path::join\<close> of a relative name.\<close>

definition path_join :: "string \<Rightarrow> string \<Rightarrow> string" where
  "path_join p name = (if p = [] then name else if last p = CHR ''/'' then p @ name else p @ ''/'' @ name)"

definition get_writable_roots_with_cwd :: "safety_env \<Rightarrow> string \<Rightarrow> sandbox_policy \<Rightarrow> writable_root list" where
  "get_writable_roots_with_cwd E cwd p =
     (case p of
        PolicyReadOnly \<Rightarrow> []
      | WorkspaceWrite roots net no_tmpdir no_tmp \<Rightarrow>
          roots
          @ [\<lparr>wr_root = cwd, wr_recursive = True, wr_read_only_subpaths = [path_join cwd ''.git'']\<rparr>]
          @ (if no_tmp then [] else [open_root ''/tmp''])
          @ (if no_tmpdir then [] else (case tmpdir_var E of None \<Rightarrow> [] | Some d \<Rightarrow> [open_root d]))
      | DangerFullAccess \<Rightarrow> [])"

definition get_readable_roots_with_cwd :: "string \<Rightarrow> sandbox_policy \<Rightarrow> string list" where
  "get_readable_roots_with_cwd cwd p =
     (case p of
        DangerFullAccess \<Rightarrow> [''/'']
      | _ \<Rightarrow> [cwd, ''/usr'', ''/lib'', ''/lib64'', ''/etc'', ''/bin'', ''/sbin''])"

definition push_writable_root_unique :: "string \<Rightarrow> writable_root list \<Rightarrow> writable_root list" where
  "push_writable_root_unique r roots =
     (if list_ex (\<lambda>existing. wr_root existing = r) roots then roots else roots @ [open_root r])"

definition push_some_root :: "string option \<Rightarrow> writable_root list \<Rightarrow> writable_root list" where
  "push_some_root r roots = (case r of None \<Rightarrow> roots | Some p \<Rightarrow> push_writable_root_unique p roots)"

text \<open>The roots that \<open>SANDBOX_EXTRA_ROOTS\<close> adds, separated by colons.\<close>

definition extra_roots :: "safety_env \<Rightarrow> writable_root list" where
  "extra_roots E =
     (case extra_roots_var E of
        None \<Rightarrow> []
      | Some v \<Rightarrow> map open_root
          (List.map_filter (\<lambda>p. if p = [] then None else canonicalize E p) (split_on (CHR '':'') v)))"

definition config_writable_roots :: "safety_env \<Rightarrow> string \<Rightarrow> writable_root list" where
  "config_writable_roots E workspace =
     push_some_root (tools_parent E) (push_some_root (exe_parent E) (push_writable_root_unique workspace []))
     @ extra_roots E"

definition sandbox_policy_from_config_with_workspace ::
  "safety_env \<Rightarrow> safety_config \<Rightarrow> string \<Rightarrow> sandbox_policy" where
  "sandbox_policy_from_config_with_workspace E c workspace =
     (case sc_mode c of
        ReadOnly \<Rightarrow> PolicyReadOnly
      | Regular \<Rightarrow>
          (if sandbox_enabled c \<or> safe_mode_set E then
             WorkspaceWrite (config_writable_roots E workspace) NetworkEnabled False False
           else DangerFullAccess)
      | Yolo \<Rightarrow> DangerFullAccess)"

section \<open>Assessment of a command\<close>

datatype sandbox_type = MacosSeatbelt | LinuxSeccomp | NoSandbox

datatype safety_check = AutoApprove sandbox_type | AskUser | RejectCommand string

datatype ask_for_approval = OnRequest | Never

text \<open>The sandbox of the operating system the program is built for is the argument \<open>os_sandbox\<close>.\<close>

definition assess_command_safety :: "sandbox_type \<Rightarrow> string list \<Rightarrow> ask_for_approval \<Rightarrow> safety_check" where
  "assess_command_safety os_sandbox command approval =
     (if command = [] then RejectCommand ''Empty command''
      else (case approval of OnRequest \<Rightarrow> AskUser | Never \<Rightarrow> AutoApprove os_sandbox))"

definition yolo_mode :: ask_for_approval where "yolo_mode = Never"
definition safe_mode :: ask_for_approval where "safe_mode = OnRequest"

section \<open>Properties\<close>

definition kind_of_policy :: "sandbox_policy \<Rightarrow> effective_sandbox_kind" where
  "kind_of_policy p =
     (case p of
        PolicyReadOnly \<Rightarrow> SandboxReadOnly
      | WorkspaceWrite _ _ _ _ \<Rightarrow> SandboxWorkspaceWrite
      | DangerFullAccess \<Rightarrow> SandboxFullAccess)"

text \<open>The kind of sandbox that the program reports is the kind of the policy that it enforces.\<close>

lemma policy_kind:
  "kind_of_policy (sandbox_policy_from_config_with_workspace E c w) = effective_sandbox_kind_of E c"
  by (simp add: kind_of_policy_def sandbox_policy_from_config_with_workspace_def effective_sandbox_kind_of_def
      split: safety_mode.splits)

text \<open>No toggle and no environment variable lifts the read-only mode, and only it restricts the network.\<close>

lemma read_only_policy:
  "sandbox_policy_from_config_with_workspace E c w = PolicyReadOnly \<longleftrightarrow> sc_mode c = ReadOnly"
  by (simp add: sandbox_policy_from_config_with_workspace_def split: safety_mode.splits)

lemma network_policy:
  "has_full_network_access (sandbox_policy_from_config_with_workspace E c w) \<longleftrightarrow> sc_mode c \<noteq> ReadOnly"
  by (simp add: sandbox_policy_from_config_with_workspace_def has_full_network_access_def
      split: safety_mode.splits)

lemma read_only_no_roots:
  "sc_mode c = ReadOnly \<Longrightarrow>
   get_writable_roots_with_cwd E cwd (sandbox_policy_from_config_with_workspace E c w) = []"
  by (simp add: sandbox_policy_from_config_with_workspace_def get_writable_roots_with_cwd_def)

lemma push_root_in:
  "r \<in> wr_root ` set (push_writable_root_unique r roots)"
  "set roots \<subseteq> set (push_writable_root_unique q roots)"
  by (auto simp: push_writable_root_unique_def list_ex_iff open_root_def image_iff)

lemma push_some_in: "set roots \<subseteq> set (push_some_root q roots)"
  by (cases q) (simp_all add: push_some_root_def push_root_in)

lemma workspace_writable: "w \<in> wr_root ` set (config_writable_roots E w)"
proof -
  have "w \<in> wr_root ` set (push_writable_root_unique w [])" by (rule push_root_in)
  also have "\<dots> \<subseteq> wr_root ` set (push_some_root (exe_parent E) (push_writable_root_unique w []))"
    by (intro image_mono push_some_in)
  also have "\<dots> \<subseteq> wr_root ` set (config_writable_roots E w)"
    using push_some_in by (fastforce simp: config_writable_roots_def)
  finally show ?thesis .
qed

lemma mode_text_roundtrip:
  "lower (mode_to_string m) = mode_to_string m \<Longrightarrow> mode_from_str lower (mode_to_string m) = Inr m"
  by (cases m) (simp_all add: mode_from_str_def mode_to_string_def)

lemma toggles_involutive:
  "toggle_sandbox (toggle_sandbox c) = c" "toggle_ask_permission (toggle_ask_permission c) = c"
  by (simp_all add: toggle_sandbox_def toggle_ask_permission_def)

lemma set_mode_forgets: "set_mode m c = set_mode m d"
  by (simp add: set_mode_def)

end
