(* ===== verification/Tool_Dispatch.thy ===== *)
theory Tool_Dispatch
  imports Json_Value
begin

text \<open>
  The command lines of the tools binary (\<open>build_tools_binary_args\<close> of
  \<open>crates/agent_core/src/tool_dispatch.rs\<close>) and the answers of the tools that only echo their arguments.
  The arguments of a tool call are a JSON value, read through \<open>json_api\<close>; text and numbers are checked nowhere
  else, so every field has its default here. A \<open>u64\<close> that is cast to \<open>i64\<close> wraps.
\<close>

section \<open>Reading arguments\<close>

definition as_i64 :: "nat \<Rightarrow> int" where
  "as_i64 n = (let m = n mod 2 ^ 64 in if m < 2 ^ 63 then int m else int m - 2 ^ 64)"

definition str_at :: "'v json_api \<Rightarrow> 'v \<Rightarrow> string \<Rightarrow> string \<Rightarrow> string" where
  "str_at J v k dflt = (case j_as_str J (j_index J v k) of Some s \<Rightarrow> s | None \<Rightarrow> dflt)"

definition bool_at :: "'v json_api \<Rightarrow> 'v \<Rightarrow> string \<Rightarrow> bool \<Rightarrow> bool" where
  "bool_at J v k dflt = (case j_as_bool J (j_index J v k) of Some b \<Rightarrow> b | None \<Rightarrow> dflt)"

definition u64_get :: "'v json_api \<Rightarrow> 'v \<Rightarrow> string \<Rightarrow> nat option" where
  "u64_get J v k = Option.bind (j_get J v k) (j_as_u64 J)"

definition i64_get :: "'v json_api \<Rightarrow> 'v \<Rightarrow> string \<Rightarrow> int option" where
  "i64_get J v k = Option.bind (j_get J v k) (j_as_i64 J)"

definition array_get :: "'v json_api \<Rightarrow> 'v \<Rightarrow> string \<Rightarrow> 'v list option" where
  "array_get J v k = Option.bind (j_get J v k) (j_as_array J)"

definition opt_string :: "nat option \<Rightarrow> string" where
  "opt_string n = (case n of Some x \<Rightarrow> nat_to_string x | None \<Rightarrow> [])"

definition bool_string :: "bool \<Rightarrow> string" where
  "bool_string b = (if b then ''true'' else ''false'')"

section \<open>Command lines\<close>

text \<open>The lines that \<open>read_file\<close> asks for: an offset and a limit, if any.\<close>

definition read_file_lines :: "'v json_api \<Rightarrow> 'v \<Rightarrow> (int \<times> int option) option" where
  "read_file_lines J a =
     (case u64_get J a ''start_line_one_indexed'' of
        Some start \<Rightarrow>
          Some (as_i64 (start - 1),
            (case u64_get J a ''end_line_one_indexed'' of
               Some last_line \<Rightarrow> if start \<le> last_line then Some (as_i64 (last_line - start + 1)) else None
             | None \<Rightarrow> None))
      | None \<Rightarrow>
          (if i64_get J a ''limit'' \<noteq> None \<or> i64_get J a ''offset'' \<noteq> None then
             Some (case i64_get J a ''offset'' of Some n \<Rightarrow> n | None \<Rightarrow> 0, i64_get J a ''limit'')
           else None))"

definition read_file_args :: "'v json_api \<Rightarrow> 'v \<Rightarrow> string list" where
  "read_file_args J a =
     str_at J a ''path'' []
     # (if u64_get J a ''start_byte_one_indexed'' \<noteq> None \<or> u64_get J a ''end_byte_one_indexed'' \<noteq> None then
          [''bytes'', opt_string (u64_get J a ''start_byte_one_indexed''),
           opt_string (u64_get J a ''end_byte_one_indexed'')]
        else (case read_file_lines J a of
            Some (offset, limit) \<Rightarrow>
              [''lines'', int_to_string offset, int_to_string (case limit of Some n \<Rightarrow> n | None \<Rightarrow> -1)]
          | None \<Rightarrow>
              (if bool_at J a ''should_read_entire_file'' True then [''entire'']
               else [''lines'', ''0'', ''-1''])))"

definition strings_of :: "'v json_api \<Rightarrow> 'v list \<Rightarrow> string list" where
  "strings_of J vs = List.map_filter (j_as_str J) vs"

definition get_files_recursive_args :: "'v json_api \<Rightarrow> 'v \<Rightarrow> string list" where
  "get_files_recursive_args J a =
     [str_at J a ''path'' ''.'',
      nat_to_string (min (case u64_get J a ''limit'' of Some n \<Rightarrow> n | None \<Rightarrow> 200) 200)]
     @ (case u64_get J a ''offset'' of Some n \<Rightarrow> [nat_to_string n] | None \<Rightarrow> [])
     @ (case array_get J a ''include_patterns'' of Some ps \<Rightarrow> strings_of J ps | None \<Rightarrow> [])
     @ (case array_get J a ''exclude_patterns'' of
          Some ps \<Rightarrow> if ps = [] then [] else ''--exclude'' # strings_of J ps
        | None \<Rightarrow> [])"

text \<open>\<open>array_text\<close> is \<open>serde_json::to_string\<close> of an array.\<close>

definition build_tools_binary_args ::
  "'v json_api \<Rightarrow> ('v list \<Rightarrow> string + string) \<Rightarrow> string \<Rightarrow> 'v \<Rightarrow> string list" where
  "build_tools_binary_args J array_text name a =
     name #
     (if name = ''read_file'' then read_file_args J a
      else if name = ''delete_path'' then [str_at J a ''path'' []]
      else if name = ''get_files'' then
        [str_at J a ''path'' ''.'',
         (case j_as_u64 J (j_index J a ''limit'') of Some n \<Rightarrow> nat_to_string n | None \<Rightarrow> ''100'')]
      else if name = ''get_files_recursive'' then get_files_recursive_args J a
      else if name = ''edit_file'' then
        [str_at J a ''path'' [], str_at J a ''old_string'' [], str_at J a ''new_string'' []]
      else if name = ''semantic_search'' then [str_at J a ''query'' []]
      else if name = ''search_files_with_regex'' then
        [str_at J a ''path'' ''.'', str_at J a ''regex_pattern'' [],
         (case j_as_u64 J (j_index J a ''limit'') of Some n \<Rightarrow> nat_to_string n | None \<Rightarrow> ''1000''),
         bool_string (bool_at J a ''case_sensitive'' False)]
      else if name = ''delete_many'' then
        (case array_get J a ''paths'' of
           Some ps \<Rightarrow> [(case array_text ps of Inr t \<Rightarrow> t | Inl e \<Rightarrow> ''[]'')]
         | None \<Rightarrow> [])
      else [])"

definition binary_tools :: "string list" where
  "binary_tools =
     [''read_file'', ''delete_path'', ''delete_many'', ''get_files'', ''get_files_recursive'',
      ''search_files_with_regex'', ''edit_file'', ''semantic_search'']"

section \<open>Tools that echo their arguments\<close>

text \<open>The texts of JSON values, and the value of a boolean.\<close>

record 'v text_api =
  yaml_text :: "'v \<Rightarrow> string + string"
  json_text :: "'v \<Rightarrow> string + string"
  bool_value :: "bool \<Rightarrow> 'v"

definition get_string :: "'v json_api \<Rightarrow> 'v \<Rightarrow> string \<Rightarrow> string option" where
  "get_string J a k = Option.bind (j_get J a k) (j_as_str J)"

definition string_or_empty :: "string option \<Rightarrow> string" where
  "string_or_empty s = (case s of Some x \<Rightarrow> x | None \<Rightarrow> [])"

definition echo_tool :: "'v json_api \<Rightarrow> 'v text_api \<Rightarrow> string \<Rightarrow> 'v \<Rightarrow> (string + string) option" where
  "echo_tool J T name a =
     (if name = ''submit_verification'' then
        Some (yaml_text T (j_object J
          [''status'' \<mapsto> j_string J ''Success'',
           ''verification_status'' \<mapsto> j_string J (str_at J a ''status'' ''unknown''),
           ''feedback'' \<mapsto> (case get_string J a ''feedback'' of Some f \<Rightarrow> j_string J f | None \<Rightarrow> j_null J),
           ''end_convo'' \<mapsto> bool_value T
             (case Option.bind (j_get J a ''end_convo'') (j_as_bool J) of Some b \<Rightarrow> b | None \<Rightarrow> False)]))
      else if name = ''todo_write'' then
        Some (json_text T (j_object J
          [''status'' \<mapsto> j_string J ''Success'', ''todos'' \<mapsto> j_index J a ''todos'']))
      else if name = ''request_split'' then
        Some (yaml_text T (j_object J
          [''status'' \<mapsto> j_string J ''split_requested'',
           ''reason'' \<mapsto> j_string J (string_or_empty (get_string J a ''reason''))]))
      else if name = ''orchestrate_task'' then
        Some (json_text T (j_object J
          [''status'' \<mapsto> j_string J ''orchestration_requested'',
           ''goal'' \<mapsto> j_string J (string_or_empty (get_string J a ''goal'')),
           ''reason'' \<mapsto> j_string J (string_or_empty (get_string J a ''reason''))]))
      else None)"

section \<open>Properties\<close>

text \<open>The command line starts with the tool, and an unknown tool has nothing else.\<close>

lemma args_tool: "hd (build_tools_binary_args J array_text name a) = name"
  by (simp add: build_tools_binary_args_def)

lemma as_i64_small: "n < 2 ^ 63 \<Longrightarrow> as_i64 n = int n"
  by (simp add: as_i64_def Let_def)

text \<open>The lines from a first to a last one, both counted from one, become an offset and a number of lines.\<close>

lemma read_file_range:
  assumes "u64_get J a ''start_line_one_indexed'' = Some first" "u64_get J a ''end_line_one_indexed'' = Some final"
    and "0 < first" "first \<le> final" "final < 2 ^ 63"
  shows "read_file_lines J a = Some (int first - 1, Some (int final - int first + 1))"
  using assms by (simp add: read_file_lines_def as_i64_small of_nat_diff)

text \<open>At most two hundred files are listed, however many are asked for.\<close>

lemma recursive_limit:
  "\<exists>n \<le> 200. build_tools_binary_args J array_text ''get_files_recursive'' a ! 2 = nat_to_string n"
  by (rule exI [of _ "min (case u64_get J a ''limit'' of Some n \<Rightarrow> n | None \<Rightarrow> 200) 200"])
    (simp add: build_tools_binary_args_def get_files_recursive_args_def)

end
