(* ===== verification/Exec_Command.thy ===== *)
theory Exec_Command
  imports Safety_Config Tool_Dispatch "HOL-Library.Word"
begin

text \<open>
  The execution of tool calls: \<open>crates/agent_core/src/exec_command.rs\<close>, \<open>shell_session.rs\<close>,
  \<open>tool_dispatch.rs\<close>, and the functions of the session manager (\<open>crates/sessionizer/src/manager.rs\<close>) that they call,
  up to the point where a command is handed to a shell.

  The state \<open>tool_state\<close> is the global state of the agent together with the list of shell sessions of the
  manager; \<open>es_trace\<close> records what was asked, answered and run, under which policy. The shells, the operating
  system, the clock and the user are functions of \<open>tool_env\<close> on a world. An error of the manager is a
  \<open>colossal_err\<close>; an error of the agent is its text (\<open>Throw\<close>). The loops that ask the user take fuel.
\<close>

section \<open>Data\<close>

datatype colossal_err = IoErr string | Denied int string | MissingSandboxHelper

definition err_to_string :: "colossal_err \<Rightarrow> string" where
  "err_to_string e =
     (case e of
        IoErr m \<Rightarrow> ''IO error: '' @ m
      | Denied code reason \<Rightarrow>
          ''Sandbox error: Sandbox denied (code '' @ int_to_string code @ ''): '' @ reason
      | MissingSandboxHelper \<Rightarrow> ''Sandbox helper binary was required but not found'')"

datatype exit_status = Completed int | Ongoing string | TimedOut | Killed

record exec_output =
  eo_exit_status :: exit_status
  eo_aggregated_output :: string
  eo_log_file :: "string option"

definition timeout_output :: exec_output where
  "timeout_output = \<lparr>eo_exit_status = TimedOut, eo_aggregated_output = [], eo_log_file = None\<rparr>"

text \<open>The answers of \<open>exec_command\<close>, before they are written as YAML.\<close>

datatype exec_report =
    ReportBackground string string "string option" string
  | ReportFinished string string string "string option"
  | ReportFailure string string

text \<open>\<open>{:?}\<close> of an exit status that is not \<open>Ongoing\<close>.\<close>

definition exit_status_debug :: "exit_status \<Rightarrow> string" where
  "exit_status_debug st =
     (case st of
        Completed code \<Rightarrow> ''Completed { code: '' @ int_to_string code @ '' }''
      | Ongoing sid \<Rightarrow> ''Ongoing(SessionId('' @ [CHR 0x22] @ sid @ [CHR 0x22] @ ''))''
      | TimedOut \<Rightarrow> ''Timeout''
      | Killed \<Rightarrow> ''Killed'')"

definition exec_command_output_to_yaml :: "string \<Rightarrow> exec_output \<Rightarrow> exec_report" where
  "exec_command_output_to_yaml command r =
     (case eo_exit_status r of
        Ongoing sid \<Rightarrow> ReportBackground command sid (eo_log_file r) (eo_aggregated_output r)
      | st \<Rightarrow>
          (let is_success = (st = Completed 0)
           in ReportFinished command (if is_success then ''Success'' else ''Failure'') (eo_aggregated_output r)
                (if is_success then None else Some (exit_status_debug st))))"

text \<open>The part of \<open>PersistentSessionState\<close> that the agent and the manager read or replay.\<close>

record session_snapshot =
  ps_shell_path :: string
  ps_initial_cwd :: string
  ps_current_cwd :: string
  ps_env_vars :: "(string \<times> string) list"
  ps_replay_commands :: "string list"

record shell_session =
  ss_policy :: sandbox_policy
  ss_managed_nu :: bool

text \<open>Commands that the agent asked for (\<open>Ran\<close>) and commands of the journal (\<open>Replayed\<close>).\<close>

datatype exec_event =
    Asked string
  | Answered bool
  | Ran string sandbox_policy
  | Replayed string sandbox_policy
  | RanTool "string list" sandbox_policy

record 'w tool_state =
  es_world :: 'w
  shell_session_id :: "string option"
  continuity_state :: session_snapshot
  pending_sandbox_policy :: sandbox_policy
  effective_sandbox_policy :: sandbox_policy
  session_has_background_process :: bool
  es_sessions :: "(string \<times> shell_session) list"
  next_session_id :: "32 word"
  es_trace :: "exec_event list"

record 'w tool_env =
  ee_os_sandbox :: sandbox_type
  ee_safety_env :: safety_env
  workspace_root :: string
  process_id :: nat
  shell_is_nu :: bool
  path_is_nu :: "string \<Rightarrow> bool"
  shell_words :: "string \<Rightarrow> string list option"
  start_session :: "string \<Rightarrow> string \<Rightarrow> sandbox_policy \<Rightarrow> string \<Rightarrow> 'w \<Rightarrow> (colossal_err + unit) \<times> 'w"
  restore_nu :: "string \<Rightarrow> session_snapshot \<Rightarrow> 'w \<Rightarrow> (colossal_err + unit) \<times> 'w"
  set_env_var :: "string \<Rightarrow> string \<Rightarrow> string \<Rightarrow> 'w \<Rightarrow> (colossal_err + unit) \<times> 'w"
  terminate_other :: "string \<Rightarrow> 'w \<Rightarrow> (colossal_err + unit) \<times> 'w"
  take_snapshot :: "string \<Rightarrow> 'w \<Rightarrow> (colossal_err + session_snapshot) \<times> 'w"
  nu_fork_eval :: "string \<Rightarrow> string \<Rightarrow> nat \<Rightarrow> 'w \<Rightarrow> (colossal_err + exec_output option) \<times> 'w"
  nu_exec :: "string \<Rightarrow> string \<Rightarrow> nat \<Rightarrow> 'w \<Rightarrow> (colossal_err + exec_output option) \<times> 'w"
  nu_isolated :: "sandbox_policy \<Rightarrow> string \<Rightarrow> string \<Rightarrow> 'w \<Rightarrow> (colossal_err + exec_output) \<times> 'w"
  wait_ready :: "string \<Rightarrow> 'w \<Rightarrow> (colossal_err + unit) \<times> 'w"
  shell_exec :: "string \<Rightarrow> string \<Rightarrow> nat \<Rightarrow> 'w \<Rightarrow> (colossal_err + exec_output) \<times> 'w"
  request_exec :: "string \<Rightarrow> string \<Rightarrow> string \<Rightarrow> nat option \<Rightarrow> bool \<Rightarrow> sandbox_policy \<Rightarrow> 'w \<Rightarrow> (colossal_err + exec_output) \<times> 'w"
  user_answer :: "string \<Rightarrow> 'w \<Rightarrow> bool option \<times> 'w"
  tool_binary :: "string list \<Rightarrow> sandbox_policy \<Rightarrow> string \<Rightarrow> 'w \<Rightarrow> (string + string) \<times> 'w"
  read_background :: "string \<Rightarrow> 'w \<Rightarrow> (colossal_err + string) \<times> 'w"
  cd_command :: "string \<Rightarrow> string"

section \<open>Basic steps\<close>

definition world_op :: "('w \<Rightarrow> 'a \<times> 'w) \<Rightarrow> ('w tool_state, 'a) prog" where
  "world_op f = (\<lambda>s. let (r, w) = f (es_world s) in (Ret r, s\<lparr>es_world := w\<rparr>))"

definition trace_event :: "exec_event \<Rightarrow> ('w tool_state, unit) prog" where
  "trace_event e = upd (\<lambda>s. s\<lparr>es_trace := es_trace s @ [e]\<rparr>)"

text \<open>The operator \<open>?\<close> inside the manager and at its border.\<close>

definition bind_sum ::
  "('s, 'e + 'a) prog \<Rightarrow> ('a \<Rightarrow> ('s, 'e + 'b) prog) \<Rightarrow> ('s, 'e + 'b) prog" where
  "bind_sum p f = bindp p (\<lambda>r. case r of Inl e \<Rightarrow> ret (Inl e) | Inr x \<Rightarrow> f x)"

definition propagate :: "('s, colossal_err + 'a) prog \<Rightarrow> ('s, 'a) prog" where
  "propagate p = bindp p (\<lambda>r. case r of Inl e \<Rightarrow> throw (err_to_string e) | Inr x \<Rightarrow> ret x)"

definition approval_reason :: string where
  "approval_reason = ''User approval required''"

text \<open>The check before a command runs; \<open>None\<close> lets it run.\<close>

definition check_command :: "'w tool_env \<Rightarrow> string list \<Rightarrow> ask_for_approval \<Rightarrow> colossal_err option" where
  "check_command E parts approval =
     (case assess_command_safety (ee_os_sandbox E) parts approval of
        AutoApprove t \<Rightarrow> None
      | AskUser \<Rightarrow> Some (Denied (-1) approval_reason)
      | RejectCommand reason \<Rightarrow> Some (Denied (-1) reason))"

definition command_parts :: "'w tool_env \<Rightarrow> string \<Rightarrow> string list" where
  "command_parts E command = (case shell_words E command of Some ws \<Rightarrow> ws | None \<Rightarrow> [command])"

definition checked ::
  "'w tool_env \<Rightarrow> string list \<Rightarrow> ask_for_approval \<Rightarrow> ('w tool_state, colossal_err + 'a) prog \<Rightarrow>
     ('w tool_state, colossal_err + 'a) prog" where
  "checked E parts approval p =
     (case check_command E parts approval of Some e \<Rightarrow> ret (Inl e) | None \<Rightarrow> p)"

definition unknown_session :: "string \<Rightarrow> colossal_err" where
  "unknown_session sid = Denied (-1) (''unknown session id '' @ sid)"

definition find_session :: "string \<Rightarrow> 'w tool_state \<Rightarrow> shell_session option" where
  "find_session sid s = map_of (es_sessions s) sid"

section \<open>The session manager\<close>

text \<open>\<open>{pid}_{counter}\<close>; \<open>fetch_add\<close> wraps.\<close>

definition session_id_of :: "'w tool_env \<Rightarrow> 32 word \<Rightarrow> string" where
  "session_id_of E n = nat_to_string (process_id E) @ ''_'' @ nat_to_string (unat n)"

definition generate_unique_session_id :: "'w tool_env \<Rightarrow> ('w tool_state, string) prog" where
  "generate_unique_session_id E =
     bindp (asks next_session_id) (\<lambda>n.
       seqp (upd (\<lambda>s. s\<lparr>next_session_id := n + 1\<rparr>)) (ret (session_id_of E n)))"

text \<open>\<open>sessions.remove(position)\<close>: only the first entry goes.\<close>

fun remove_session :: "string \<Rightarrow> (string \<times> shell_session) list \<Rightarrow> (string \<times> shell_session) list" where
  "remove_session sid [] = []"
| "remove_session sid (x # xs) = (if fst x = sid then xs else x # remove_session sid xs)"

definition terminate_session :: "'w tool_env \<Rightarrow> string \<Rightarrow> ('w tool_state, colossal_err + unit) prog" where
  "terminate_session E sid =
     bindp (asks (find_session sid)) (\<lambda>found.
       if found \<noteq> None then
         seqp (upd (\<lambda>s. s\<lparr>es_sessions := remove_session sid (es_sessions s)\<rparr>)) (ret (Inr ()))
       else world_op (terminate_other E sid))"

text \<open>\<open>exec_command_in_shell_session\<close>; \<open>ev\<close> is how a run is recorded.\<close>

definition exec_command_in_shell_session ::
  "'w tool_env \<Rightarrow> (string \<Rightarrow> sandbox_policy \<Rightarrow> exec_event) \<Rightarrow> string \<Rightarrow> string \<Rightarrow> nat \<Rightarrow> ask_for_approval \<Rightarrow>
     ('w tool_state, colossal_err + exec_output) prog" where
  "exec_command_in_shell_session E ev sid command timeout_ms approval =
     bindp (asks (find_session sid)) (\<lambda>found.
       case found of
         None \<Rightarrow> ret (Inl (unknown_session sid))
       | Some ss \<Rightarrow>
           checked E (command_parts E command) approval
             (if ss_managed_nu ss then
                seqp (trace_event (ev command (ss_policy ss)))
                  (bind_sum (world_op (nu_exec E sid command timeout_ms)) (\<lambda>r.
                     case r of
                       Some out \<Rightarrow> ret (Inr out)
                     | None \<Rightarrow> seqp (terminate_session E sid) (ret (Inr timeout_output))))
              else
                bind_sum (world_op (wait_ready E sid)) (\<lambda>u.
                  seqp (trace_event (ev command (ss_policy ss)))
                    (world_op (shell_exec E sid command timeout_ms)))))"

text \<open>Evaluates a command in a copy of a managed Nu session; \<open>None\<close> for another session and for a timeout.\<close>

definition fork_eval_in_managed_nu_session ::
  "'w tool_env \<Rightarrow> string \<Rightarrow> string \<Rightarrow> nat \<Rightarrow> ask_for_approval \<Rightarrow>
     ('w tool_state, colossal_err + exec_output option) prog" where
  "fork_eval_in_managed_nu_session E sid command timeout_ms approval =
     bindp (asks (find_session sid)) (\<lambda>found.
       case found of
         None \<Rightarrow> ret (Inr None)
       | Some ss \<Rightarrow>
           (if \<not> ss_managed_nu ss then ret (Inr None)
            else checked E (command_parts E command) approval
              (seqp (trace_event (Ran command (ss_policy ss)))
                (world_op (nu_fork_eval E sid command timeout_ms)))))"

text \<open>\<open>handle_exec_command_request\<close>: the command is one word here.\<close>

definition handle_exec_command_request ::
  "'w tool_env \<Rightarrow> string \<Rightarrow> string \<Rightarrow> nat option \<Rightarrow> bool \<Rightarrow> sandbox_policy \<Rightarrow> ask_for_approval \<Rightarrow>
     ('w tool_state, colossal_err + exec_output) prog" where
  "handle_exec_command_request E command cwd timeout_ms is_background policy approval =
     checked E [command] approval
       (bindp (generate_unique_session_id E) (\<lambda>sid.
         seqp (trace_event (Ran command policy))
           (world_op (request_exec E sid command cwd timeout_ms is_background policy))))"

text \<open>A list of programs, stopping at the first error.\<close>

fun run_sums :: "('s, 'e + 'a) prog list \<Rightarrow> ('s, 'e + unit) prog" where
  "run_sums [] = ret (Inr ())"
| "run_sums (p # ps) = bind_sum p (\<lambda>x. run_sums ps)"

definition restore_shell_session_from_snapshot ::
  "'w tool_env \<Rightarrow> string \<Rightarrow> session_snapshot \<Rightarrow> ('w tool_state, colossal_err + unit) prog" where
  "restore_shell_session_from_snapshot E sid snapshot =
     bindp (asks (find_session sid)) (\<lambda>found.
       if (case found of Some ss \<Rightarrow> ss_managed_nu ss | None \<Rightarrow> False) then world_op (restore_nu E sid snapshot)
       else
         bind_sum
           (run_sums (if ps_current_cwd snapshot \<noteq> ps_initial_cwd snapshot
              then [exec_command_in_shell_session E Replayed sid (cd_command E (ps_current_cwd snapshot)) 5000 yolo_mode]
              else [])) (\<lambda>u.
         bind_sum (run_sums (map (\<lambda>(k, v). world_op (set_env_var E sid k v)) (ps_env_vars snapshot))) (\<lambda>u.
           run_sums (map (\<lambda>c. exec_command_in_shell_session E Replayed sid c 30000 yolo_mode)
             (ps_replay_commands snapshot)))))"

definition create_persistent_shell_session ::
  "'w tool_env \<Rightarrow> string \<Rightarrow> sandbox_policy \<Rightarrow> string \<Rightarrow> ('w tool_state, colossal_err + string) prog" where
  "create_persistent_shell_session E shell policy cwd =
     bindp (generate_unique_session_id E) (\<lambda>sid.
       bind_sum (world_op (start_session E sid shell policy cwd)) (\<lambda>u.
         seqp (upd (\<lambda>s. s\<lparr>es_sessions := es_sessions s @
             [(sid, \<lparr>ss_policy = policy, ss_managed_nu = path_is_nu E shell\<rparr>)]\<rparr>))
           (ret (Inr sid))))"

section \<open>The shell session of the agent\<close>

definition spawn_shell_session_with_snapshot ::
  "'w tool_env \<Rightarrow> sandbox_policy \<Rightarrow> session_snapshot \<Rightarrow> ('w tool_state, string) prog" where
  "spawn_shell_session_with_snapshot E policy snapshot =
     bindp (propagate (create_persistent_shell_session E (ps_shell_path snapshot) policy (ps_current_cwd snapshot)))
       (\<lambda>sid. seqp (propagate (restore_shell_session_from_snapshot E sid snapshot)) (ret sid))"

text \<open>The session that the manager has lost is forgotten.\<close>

definition forget_lost_session :: "'w tool_state \<Rightarrow> 'w tool_state" where
  "forget_lost_session s =
     (case shell_session_id s of
        Some sid \<Rightarrow>
          (if find_session sid s = None
           then s\<lparr>shell_session_id := None, session_has_background_process := False\<rparr> else s)
      | None \<Rightarrow> s)"

definition seeded_snapshot :: "'w tool_env \<Rightarrow> string option \<Rightarrow> session_snapshot \<Rightarrow> session_snapshot" where
  "seeded_snapshot E seed_cwd c =
     (if ps_current_cwd c = workspace_root E then
        (case seed_cwd of
           Some d \<Rightarrow> c\<lparr>ps_current_cwd := d, ps_initial_cwd := d\<rparr>
         | None \<Rightarrow> c)
      else c)"

definition adopt_session :: "sandbox_policy \<Rightarrow> string \<Rightarrow> 'w tool_state \<Rightarrow> 'w tool_state" where
  "adopt_session policy sid s = s\<lparr>shell_session_id := Some sid, effective_sandbox_policy := policy\<rparr>"

definition get_or_create_shell_session :: "'w tool_env \<Rightarrow> string option \<Rightarrow> ('w tool_state, string) prog" where
  "get_or_create_shell_session E seed_cwd =
     seqp (upd forget_lost_session)
       (bindp (asks id) (\<lambda>s.
          let snapshot = seeded_snapshot E seed_cwd (continuity_state s);
              pending = pending_sandbox_policy s;
              spawn = bindp (spawn_shell_session_with_snapshot E pending snapshot)
                (\<lambda>sid. seqp (upd (adopt_session pending sid)) (ret sid))
          in case shell_session_id s of
               Some existing \<Rightarrow>
                 (if \<not> session_has_background_process s \<and> effective_sandbox_policy s \<noteq> pending then
                    seqp (propagate (terminate_session E existing))
                      (seqp (upd (\<lambda>t. t\<lparr>shell_session_id := None\<rparr>)) spawn)
                  else if session_has_background_process s then spawn
                  else ret existing)
             | None \<Rightarrow> spawn))"

text \<open>\<open>add_writable_root\<close>: the user's grant goes to the pending policy.\<close>

definition add_writable_root :: "string \<Rightarrow> ('w tool_state, unit) prog" where
  "add_writable_root path =
     bindp (asks pending_sandbox_policy) (\<lambda>p.
       case p of
         WorkspaceWrite roots net no_tmpdir no_tmp \<Rightarrow>
           (if list_ex (\<lambda>r. wr_root r = path) roots then ret ()
            else upd (\<lambda>s. s\<lparr>pending_sandbox_policy :=
                WorkspaceWrite (roots @ [open_root path]) net no_tmpdir no_tmp\<rparr>))
       | DangerFullAccess \<Rightarrow> ret ()
       | PolicyReadOnly \<Rightarrow> throw ''Cannot add writable root in read-only mode'')"

definition sync_continuity_state_from_session ::
  "'w tool_env \<Rightarrow> string \<Rightarrow> string option \<Rightarrow> ('w tool_state, unit) prog" where
  "sync_continuity_state_from_session E sid replayed =
     bindp (propagate (world_op (take_snapshot E sid))) (\<lambda>snapshot.
       upd (\<lambda>s. s\<lparr>continuity_state :=
         (if path_is_nu E (ps_shell_path snapshot) then snapshot\<lparr>ps_replay_commands := []\<rparr>
          else snapshot\<lparr>ps_replay_commands := ps_replay_commands (continuity_state s)
                  @ (case replayed of Some c \<Rightarrow> [c] | None \<Rightarrow> [])\<rparr>)\<rparr>))"

definition run_isolated_exec_command ::
  "'w tool_env \<Rightarrow> string \<Rightarrow> bool \<Rightarrow> nat \<Rightarrow> string \<Rightarrow> ask_for_approval \<Rightarrow>
     ('w tool_state, colossal_err + exec_output) prog" where
  "run_isolated_exec_command E command is_background timeout_ms cwd_hint approval =
     bindp (asks id) (\<lambda>s.
       let c = continuity_state s; policy = pending_sandbox_policy s;
           cwd = (if ps_current_cwd c = workspace_root E then cwd_hint else ps_current_cwd c)
       in if shell_is_nu E \<and> \<not> is_background then
            seqp (trace_event (Ran command policy)) (world_op (nu_isolated E policy cwd command))
          else
            handle_exec_command_request E command cwd (if is_background then None else Some timeout_ms)
              is_background policy approval)"

section \<open>Running a command for the agent\<close>

definition ask_user :: "'w tool_env \<Rightarrow> string \<Rightarrow> ('w tool_state, bool) prog" where
  "ask_user E message =
     seqp (trace_event (Asked message))
       (bindp (world_op (user_answer E message)) (\<lambda>answer.
          case answer of
            None \<Rightarrow> throw ''Approval channel closed''
          | Some b \<Rightarrow> seqp (trace_event (Answered b)) (ret b)))"

definition approval_required :: "colossal_err \<Rightarrow> bool" where
  "approval_required e = (case e of Denied code reason \<Rightarrow> reason = approval_reason | _ \<Rightarrow> False)"

definition denied_report :: "string \<Rightarrow> exec_report" where
  "denied_report command = ReportFailure command ''Command denied by user''"

definition execute_generic_exec ::
  "'w tool_env \<Rightarrow> string \<Rightarrow> string \<Rightarrow> nat \<Rightarrow> ask_for_approval \<Rightarrow> ('w tool_state, exec_report) prog" where
  "execute_generic_exec E cwd command timeout_ms approval =
     bindp (get_or_create_shell_session E (Some cwd)) (\<lambda>sid.
     bindp (propagate (exec_command_in_shell_session E Ran sid command timeout_ms approval)) (\<lambda>result.
     seqp (sync_continuity_state_from_session E sid None)
       (ret (exec_command_output_to_yaml command result))))"

fun managed_nu_loop ::
  "'w tool_env \<Rightarrow> nat \<Rightarrow> string \<Rightarrow> string \<Rightarrow> string \<Rightarrow> nat \<Rightarrow> ask_for_approval \<Rightarrow> ('w tool_state, exec_report) prog" where
  "managed_nu_loop E 0 cwd sid command timeout_ms approval = stuck"
| "managed_nu_loop E (Suc fuel) cwd sid command timeout_ms approval =
     bindp (fork_eval_in_managed_nu_session E sid command timeout_ms approval) (\<lambda>r.
       case r of
         Inr (Some out) \<Rightarrow> ret (exec_command_output_to_yaml command out)
       | Inr None \<Rightarrow> execute_generic_exec E cwd command 600000 approval
       | Inl e \<Rightarrow>
           (if approval_required e then
              bindp (ask_user E (''Allow command: '' @ command)) (\<lambda>ok.
                if ok then managed_nu_loop E fuel cwd sid command timeout_ms Never
                else ret (denied_report command))
            else ret (ReportFailure command (err_to_string e))))"

definition execute_managed_nu_foreground ::
  "'w tool_env \<Rightarrow> nat \<Rightarrow> string \<Rightarrow> string \<Rightarrow> nat \<Rightarrow> ask_for_approval \<Rightarrow> ('w tool_state, exec_report) prog" where
  "execute_managed_nu_foreground E fuel cwd command timeout_ms approval =
     bindp (get_or_create_shell_session E (Some cwd)) (\<lambda>sid.
       managed_nu_loop E fuel cwd sid command timeout_ms approval)"

fun execute_isolated_exec ::
  "'w tool_env \<Rightarrow> nat \<Rightarrow> string \<Rightarrow> string \<Rightarrow> bool \<Rightarrow> nat \<Rightarrow> ask_for_approval \<Rightarrow> ('w tool_state, exec_report) prog" where
  "execute_isolated_exec E 0 cwd command is_background timeout_ms approval = stuck"
| "execute_isolated_exec E (Suc fuel) cwd command is_background timeout_ms approval =
     bindp (run_isolated_exec_command E command is_background timeout_ms cwd approval) (\<lambda>r.
       case r of
         Inr out \<Rightarrow> ret (exec_command_output_to_yaml command out)
       | Inl e \<Rightarrow>
           (if approval_required e then
              bindp (ask_user E ((if is_background then ''Allow background command: '' else ''Allow command: '') @ command))
                (\<lambda>ok. if ok then execute_isolated_exec E fuel cwd command is_background timeout_ms Never
                      else ret (denied_report command))
            else ret (ReportFailure command (err_to_string e))))"

definition clear_session :: "string \<Rightarrow> 'w tool_state \<Rightarrow> 'w tool_state" where
  "clear_session sid s = (if shell_session_id s = Some sid then s\<lparr>shell_session_id := None\<rparr> else s)"

definition broken_pipe :: "colossal_err \<Rightarrow> bool" where
  "broken_pipe e = (case e of IoErr m \<Rightarrow> contains ''failed to send input to shell'' m | _ \<Rightarrow> False)"

text \<open>After a command of the persistent session: its state is saved, unless the command was cut off.\<close>

definition finish_replay_state ::
  "'w tool_env \<Rightarrow> string \<Rightarrow> string \<Rightarrow> bool \<Rightarrow> exec_output \<Rightarrow> ('w tool_state, exec_report) prog" where
  "finish_replay_state E sid command replay_state out =
     bindp (attempt (sync_continuity_state_from_session E sid (if replay_state then Some command else None)))
       (\<lambda>r. case r of
          Inr u \<Rightarrow> ret (exec_command_output_to_yaml command out)
        | Inl e \<Rightarrow>
            (if eo_exit_status out \<in> {TimedOut, Killed} then
               seqp (terminate_session E sid)
                 (seqp (upd (clear_session sid)) (ret (exec_command_output_to_yaml command out)))
             else throw e))"

fun execute_replay_state ::
  "'w tool_env \<Rightarrow> nat \<Rightarrow> bool \<Rightarrow> string \<Rightarrow> string \<Rightarrow> nat \<Rightarrow> bool \<Rightarrow> ask_for_approval \<Rightarrow>
     ('w tool_state, exec_report) prog" where
  "execute_replay_state E 0 retried cwd command timeout_ms replay_state approval = stuck"
| "execute_replay_state E (Suc fuel) retried cwd command timeout_ms replay_state approval =
     bindp (get_or_create_shell_session E (Some cwd)) (\<lambda>sid.
     bindp (exec_command_in_shell_session E Ran sid command timeout_ms approval) (\<lambda>r.
       case r of
         Inr out \<Rightarrow> finish_replay_state E sid command replay_state out
       | Inl e \<Rightarrow>
           (if broken_pipe e \<and> \<not> retried then
              seqp (terminate_session E sid)
                (seqp (upd (\<lambda>s. s\<lparr>shell_session_id := None\<rparr>))
                  (execute_replay_state E fuel True cwd command timeout_ms replay_state approval))
            else if approval_required e then
              bindp (ask_user E (''Allow command: '' @ command)) (\<lambda>ok.
                if ok then execute_replay_state E fuel retried cwd command timeout_ms replay_state Never
                else ret (denied_report command))
            else ret (ReportFailure command (err_to_string e)))))"

section \<open>Tool calls\<close>

definition background_replay_message :: string where
  "background_replay_message =
     ''Background commands cannot use replay_state because their shell state cannot be replayed safely''"

definition execute_exec_command ::
  "'w tool_env \<Rightarrow> nat \<Rightarrow> 'v json_api \<Rightarrow> safety_config \<Rightarrow> string \<Rightarrow> 'v \<Rightarrow> ('w tool_state, exec_report) prog" where
  "execute_exec_command E fuel J config cwd a =
     (let command = str_at J a ''command'' [];
          is_background = (case Option.bind (j_get J a ''is_background'') (j_as_bool J) of Some b \<Rightarrow> b | None \<Rightarrow> False);
          replay_state = (case Option.bind (j_get J a ''replay_state'') (j_as_bool J) of Some b \<Rightarrow> b | None \<Rightarrow> False);
          timeout_ms = (case u64_get J a ''timeout'' of Some n \<Rightarrow> n | None \<Rightarrow> 600000);
          approval = (if ask_permission config then OnRequest else Never)
      in if replay_state \<and> is_background then ret (ReportFailure command background_replay_message)
         else if \<not> replay_state \<and> shell_is_nu E \<and> \<not> is_background then
           execute_managed_nu_foreground E fuel cwd command timeout_ms approval
         else if \<not> replay_state \<and> is_background then
           execute_isolated_exec E fuel cwd command is_background timeout_ms approval
         else execute_replay_state E fuel False cwd command timeout_ms replay_state approval)"

text \<open>What a tool call answers: a report on a command, or the text of another tool.\<close>

datatype tool_answer = CommandAnswer exec_report | TextAnswer string

text \<open>
  The web tools call another crate: the answer is a failure, or the JSON value of the results, which may fail
  to be built. \<open>struct_text\<close> writes a structure, field by field, as YAML.
\<close>

record ('v, 'w) web_api =
  struct_text :: "(string \<times> 'v) list \<Rightarrow> string + string"
  web_search :: "string \<Rightarrow> nat option \<Rightarrow> string list option \<Rightarrow> 'w \<Rightarrow> (string + string + 'v) \<times> 'w"
  html_to_text :: "string \<Rightarrow> nat option \<Rightarrow> 'w \<Rightarrow> (string + string + 'v) \<times> 'w"

definition read_output :: "'w tool_env \<Rightarrow> 'v json_api \<Rightarrow> 'v text_api \<Rightarrow> 'v \<Rightarrow> ('w tool_state, string) prog" where
  "read_output E J T a =
     (let sid = str_at J a ''session_id'' []
      in bindp (world_op (read_background E sid)) (\<lambda>r.
           lift_result (yaml_text T (j_object J (case r of
               Inr out \<Rightarrow>
                 [''status'' \<mapsto> j_string J ''Success'', ''session_id'' \<mapsto> j_string J sid,
                  ''output'' \<mapsto> j_string J out]
             | Inl e \<Rightarrow>
                 [''status'' \<mapsto> j_string J ''Failure'', ''session_id'' \<mapsto> j_string J sid,
                  ''error'' \<mapsto> j_string J (''Failed to read output: '' @ err_to_string e)])))))"

text \<open>The answer of a web tool: \<open>what\<close> names the argument it is about, \<open>key\<close> the field of the result.\<close>

definition web_answer ::
  "'v json_api \<Rightarrow> ('v, 'w) web_api \<Rightarrow> string \<Rightarrow> string \<Rightarrow> string \<Rightarrow> string \<Rightarrow> string + string + 'v \<Rightarrow>
     ('s, string) prog" where
  "web_answer J W what subject key failure r =
     (case r of
        Inl e \<Rightarrow> lift_result (struct_text W [(''status'', j_string J ''Failure''), (what, j_string J subject),
            (''error'', j_string J (failure @ e))])
      | Inr v \<Rightarrow> bindp (lift_result v) (\<lambda>x.
          lift_result (struct_text W [(''status'', j_string J ''Success''), (what, j_string J subject), (key, x)])))"

text \<open>The sites of a search: an array of strings or one string.\<close>

definition search_sites :: "'v json_api \<Rightarrow> 'v \<Rightarrow> string list option" where
  "search_sites J a =
     Option.bind (j_get J a ''site'') (\<lambda>v.
       case j_as_array J v of
         Some vs \<Rightarrow> Some (strings_of J vs)
       | None \<Rightarrow> map_option (\<lambda>s. [s]) (j_as_str J v))"

definition execute_non_exec_tool_call ::
  "'w tool_env \<Rightarrow> 'v json_api \<Rightarrow> 'v text_api \<Rightarrow> ('v, 'w) web_api \<Rightarrow> string \<Rightarrow> string \<Rightarrow> 'v \<Rightarrow>
     ('w tool_state, string option) prog" where
  "execute_non_exec_tool_call E J T W cwd name a =
     (if name \<in> set binary_tools then
        bindp (asks pending_sandbox_policy) (\<lambda>policy.
          let args = build_tools_binary_args J (\<lambda>vs. json_text T (j_array J vs)) name a
          in seqp (trace_event (RanTool args policy))
               (bindp (world_op (tool_binary E args policy cwd)) (\<lambda>r. bindp (lift_result r) (\<lambda>t. ret (Some t)))))
      else if name = ''read_output'' then bindp (read_output E J T a) (\<lambda>t. ret (Some t))
      else if name = ''web_search'' then
        (let query = str_at J a ''query'' []
         in bindp (world_op (web_search W query (u64_get J a ''limit'') (search_sites J a))) (\<lambda>r.
              bindp (web_answer J W ''query'' query ''results'' ''Web search failed: '' r) (\<lambda>t. ret (Some t))))
      else if name = ''html_to_text'' then
        (let url = str_at J a ''url'' []
         in bindp (world_op (html_to_text W url (u64_get J a ''max_content_length''))) (\<lambda>r.
              bindp (web_answer J W ''url'' url ''result'' ''HTML extraction failed: '' r) (\<lambda>t. ret (Some t))))
      else (case echo_tool J T name a of
          Some r \<Rightarrow> bindp (lift_result r) (\<lambda>t. ret (Some t))
        | None \<Rightarrow> ret None))"

text \<open>\<open>parse_json\<close> reads the text of the arguments.\<close>

definition execute_tool_call ::
  "'w tool_env \<Rightarrow> nat \<Rightarrow> 'v json_api \<Rightarrow> 'v text_api \<Rightarrow> ('v, 'w) web_api \<Rightarrow> (string \<Rightarrow> string + 'v) \<Rightarrow> safety_config \<Rightarrow> string \<Rightarrow>
     string \<Rightarrow> string \<Rightarrow> ('w tool_state, tool_answer) prog" where
  "execute_tool_call E fuel J T W parse_json config cwd name arguments_text =
     seqp (upd (\<lambda>s. s\<lparr>pending_sandbox_policy :=
         sandbox_policy_from_config_with_workspace (ee_safety_env E) config cwd\<rparr>))
       (bindp (lift_result (parse_json arguments_text)) (\<lambda>a.
          if name = ''exec_command'' then
            bindp (execute_exec_command E fuel J config cwd a) (\<lambda>r. ret (CommandAnswer r))
          else
            bindp (execute_non_exec_tool_call E J T W cwd name a) (\<lambda>r.
              ret (TextAnswer (case r of
                  Some t \<Rightarrow> t
                | None \<Rightarrow> ''Tool '' @ [CHR 0x27] @ name @ [CHR 0x27] @ '' executed (not fully implemented)'')))))"

end
