(* ===== verification/Exec_Sample.thy ===== *)
theory Exec_Sample
  imports Exec_Command
begin

text \<open>A small machine on which tool calls are evaluated: every command succeeds, the user agrees to everything.\<close>

definition sample_snapshot :: session_snapshot where
  "sample_snapshot = \<lparr>ps_shell_path = ''/bin/bash'', ps_initial_cwd = ''/w'', ps_current_cwd = ''/w'',
     ps_env_vars = [], ps_replay_commands = []\<rparr>"

definition sample_safety_env :: safety_env where
  "sample_safety_env = \<lparr>safe_mode_set = False, extra_roots_var = None, tmpdir_var = None, exe_parent = None,
     tools_parent = None, canonicalize = Some\<rparr>"

definition sample_output :: exec_output where
  "sample_output = \<lparr>eo_exit_status = Completed 0, eo_aggregated_output = ''ok'', eo_log_file = None\<rparr>"

definition sample_tools :: "unit tool_env" where
  "sample_tools = \<lparr>ee_os_sandbox = LinuxSeccomp, ee_safety_env = sample_safety_env, workspace_root = ''/w'',
     process_id = 7, shell_is_nu = False, path_is_nu = (\<lambda>p. False), shell_words = (\<lambda>c. Some [c]),
     start_session = (\<lambda>sid shell policy cwd w. (Inr (), w)), restore_nu = (\<lambda>sid snap w. (Inr (), w)),
     set_env_var = (\<lambda>sid k v w. (Inr (), w)), terminate_other = (\<lambda>sid w. (Inl (unknown_session sid), w)),
     take_snapshot = (\<lambda>sid w. (Inr sample_snapshot, w)),
     nu_fork_eval = (\<lambda>sid c t w. (Inr (Some sample_output), w)),
     nu_exec = (\<lambda>sid c t w. (Inr (Some sample_output), w)),
     nu_isolated = (\<lambda>policy cwd c w. (Inr sample_output, w)), wait_ready = (\<lambda>sid w. (Inr (), w)),
     shell_exec = (\<lambda>sid c t w. (Inr sample_output, w)),
     request_exec = (\<lambda>sid c cwd t bg policy w. (Inr sample_output, w)),
     user_answer = (\<lambda>m w. (Some True, w)), tool_binary = (\<lambda>args policy cwd w. (Inr ''ok'', w)),
     read_background = (\<lambda>sid w. (Inr ''ok'', w)), cd_command = (\<lambda>d. ''cd '' @ d)\<rparr>"

definition sample_state :: "unit tool_state" where
  "sample_state = \<lparr>es_world = (), shell_session_id = None, continuity_state = sample_snapshot,
     pending_sandbox_policy = DangerFullAccess, effective_sandbox_policy = DangerFullAccess,
     session_has_background_process = False, es_sessions = [], next_session_id = 0, es_trace = []\<rparr>"

definition sample_text :: "json text_api" where
  "sample_text = \<lparr>yaml_text = (\<lambda>v. Inr ''yaml''), json_text = (\<lambda>v. Inr ''json''), bool_value = JBool\<rparr>"

definition sample_web :: "(json, unit) web_api" where
  "sample_web = \<lparr>struct_text = (\<lambda>fs. Inr ''yaml''), web_search = (\<lambda>q n ss w. (Inr (Inr JNull), w)),
     html_to_text = (\<lambda>u n w. (Inr (Inr JNull), w))\<rparr>"

text \<open>The call of \<open>exec_command\<close> with \<open>ls\<close>, under the default configuration.\<close>

definition sample_tool_call :: "unit tool_env \<Rightarrow> nat \<Rightarrow> tool_answer outcome \<times> unit tool_state" where
  "sample_tool_call E fuel =
     execute_tool_call E fuel serde_api sample_text sample_web (\<lambda>t. Inr (JObject [''command'' \<mapsto> JString t]))
       safety_config_default ''/w'' ''exec_command'' ''ls'' sample_state"

section \<open>Evaluation\<close>

lemmas sample_tool_steps =
  sample_tools_def sample_state_def sample_snapshot_def Let_def seqp_def bindp_def bind_sum_def propagate_def world_op_def
  trace_event_def attempt_def run_sums.simps

definition sample_running :: "sandbox_policy \<Rightarrow> exec_event list \<Rightarrow> unit tool_state" where
  "sample_running p tr = sample_state\<lparr>shell_session_id := Some (session_id_of sample_tools 0), pending_sandbox_policy := p,
     effective_sandbox_policy := p,
     es_sessions := [(session_id_of sample_tools 0, \<lparr>ss_policy = p, ss_managed_nu = False\<rparr>)], next_session_id := 1,
     es_trace := tr\<rparr>"

text \<open>What each step of the call does, and the events of the whole call.\<close>

lemma sample_session:
  "get_or_create_shell_session sample_tools sd (sample_state\<lparr>pending_sandbox_policy := p\<rparr>) =
    (Ret (session_id_of sample_tools 0), sample_running p [])"
  "get_or_create_shell_session sample_tools sd (sample_running p tr) = (Ret (session_id_of sample_tools 0), sample_running p tr)"
  by (simp_all add: get_or_create_shell_session_def forget_lost_session_def seeded_snapshot_def sample_tool_steps
      spawn_shell_session_with_snapshot_def create_persistent_shell_session_def generate_unique_session_id_def
      restore_shell_session_from_snapshot_def find_session_def adopt_session_def sample_running_def split: option.splits)

lemma sample_run:
  "exec_command_in_shell_session sample_tools Ran (session_id_of sample_tools 0) c ms OnRequest (sample_running p tr) =
    (Ret (Inl (Denied (-1) approval_reason)), sample_running p tr)"
  "exec_command_in_shell_session sample_tools Ran (session_id_of sample_tools 0) c ms Never (sample_running p tr) =
    (Ret (Inr sample_output), sample_running p (tr @ [Ran c p]))"
  by (simp_all add: exec_command_in_shell_session_def find_session_def sample_running_def checked_def check_command_def
      assess_command_safety_def command_parts_def sample_tool_steps)

lemma sample_sync: "sync_continuity_state_from_session sample_tools sid None (sample_running p tr) = (Ret (), sample_running p tr)"
  by (simp add: sync_continuity_state_from_session_def sample_running_def sample_tool_steps)

lemma sample_ask: "ask_user sample_tools m (sample_running p tr) = (Ret True, sample_running p (tr @ [Asked m, Answered True]))"
  by (simp add: ask_user_def sample_running_def sample_tool_steps)

lemma sample_replay_never:
  "execute_replay_state sample_tools (Suc f) r cwd c ms False Never (sample_running p tr) =
     (Ret (exec_command_output_to_yaml c sample_output), sample_running p (tr @ [Ran c p]))"
  by (simp add: sample_session sample_run sample_sync finish_replay_state_def bindp_def attempt_def)

lemma sample_replay_asks:
  "execute_replay_state sample_tools (Suc (Suc f)) False cwd c ms False OnRequest (sample_state\<lparr>pending_sandbox_policy := p\<rparr>) =
     (Ret (exec_command_output_to_yaml c sample_output),
      sample_running p [Asked (''Allow command: '' @ c), Answered True, Ran c p])"
  by (subst execute_replay_state.simps)
    (simp add: sample_session sample_run sample_ask bindp_def broken_pipe_def approval_required_def sample_replay_never
      del: execute_replay_state.simps)

lemma sample_tool_call_trace:
  "\<exists>p. es_trace (snd (sample_tool_call sample_tools 3)) = [Asked ''Allow command: ls'', Answered True, Ran ''ls'' p]"
proof -
  have nu: "shell_is_nu sample_tools = False" by (simp add: sample_tools_def)
  show ?thesis
    by (simp add: sample_tool_call_def execute_tool_call_def execute_exec_command_def serde_api_def str_at_def nu Let_def
        safety_config_default_def from_mode_def numeral_3_eq_3 seqp_def sample_replay_asks bindp_def sample_running_def
        del: execute_replay_state.simps)
qed

end
