(* ===== verification/Prog_Logic.thy ===== *)
theory Prog_Logic
  imports Rust_Prelude
begin

text \<open>
  A small program logic for the state passing programs of the prelude: \<open>triple P p Q X Z\<close> says that from a
  state with \<open>P\<close> the program \<open>p\<close> returns with \<open>Q\<close>, fails with \<open>X\<close> or runs out of fuel with \<open>Z\<close>. With \<open>Z\<close>
  false it states that \<open>p\<close> never runs out of fuel.
\<close>

fun meets :: "('a \<Rightarrow> 's \<Rightarrow> bool) \<Rightarrow> ('s \<Rightarrow> bool) \<Rightarrow> ('s \<Rightarrow> bool) \<Rightarrow> 'a outcome \<Rightarrow> 's \<Rightarrow> bool" where
  "meets Q X Z (Ret x) t = Q x t"
| "meets Q X Z (Throw e) t = X t"
| "meets Q X Z Stuck t = Z t"

definition triple ::
  "('s \<Rightarrow> bool) \<Rightarrow> ('s, 'a) prog \<Rightarrow> ('a \<Rightarrow> 's \<Rightarrow> bool) \<Rightarrow> ('s \<Rightarrow> bool) \<Rightarrow> ('s \<Rightarrow> bool) \<Rightarrow> bool" where
  "triple P p Q X Z \<longleftrightarrow> (\<forall>s. P s \<longrightarrow> meets Q X Z (fst (p s)) (snd (p s)))"

named_theorems triple_intros \<open>rules that build triples of composite programs\<close>

lemma tripleI: "(\<And>s r t. P s \<Longrightarrow> p s = (r, t) \<Longrightarrow> meets Q X Z r t) \<Longrightarrow> triple P p Q X Z"
  by (simp add: triple_def)

lemma tripleD: "triple P p Q X Z \<Longrightarrow> P s \<Longrightarrow> p s = (r, t) \<Longrightarrow> meets Q X Z r t"
  by (metis triple_def fst_conv snd_conv)

lemma triple_any: "triple P p (\<lambda>x. Q) Q Q \<Longrightarrow> P s \<Longrightarrow> Q (snd (p s))"
  by (cases "fst (p s)") (auto simp: triple_def)

lemma triple_not_stuck: "triple P p Q X (\<lambda>t. False) \<Longrightarrow> P s \<Longrightarrow> fst (p s) \<noteq> Stuck"
  by (auto simp: triple_def)

lemma meets_mono:
  "meets Q X Z r t \<Longrightarrow> (\<And>x. Q x t \<Longrightarrow> Q' x t) \<Longrightarrow> (X t \<Longrightarrow> X' t) \<Longrightarrow> (Z t \<Longrightarrow> Z' t) \<Longrightarrow> meets Q' X' Z' r t"
  by (cases r) simp_all

lemma triple_conseq:
  assumes "triple P p Q X Z" "\<And>s. P' s \<Longrightarrow> P s" "\<And>x s. Q x s \<Longrightarrow> Q' x s" "\<And>s. X s \<Longrightarrow> X' s" "\<And>s. Z s \<Longrightarrow> Z' s"
  shows "triple P' p Q' X' Z'"
proof (rule tripleI)
  fix s r t assume "P' s" "p s = (r, t)"
  then have "meets Q X Z r t" using assms(1,2) by (blast intro: tripleD)
  then show "meets Q' X' Z' r t" by (rule meets_mono) (rule assms(3-5), assumption)+
qed

lemma triple_pre: "triple P p Q X Z \<Longrightarrow> (\<And>s. P' s \<Longrightarrow> P s) \<Longrightarrow> triple P' p Q X Z"
  by (auto simp: triple_def)

lemma triple_post: "triple P p Q X Z \<Longrightarrow> (\<And>x s. Q x s \<Longrightarrow> Q' x s) \<Longrightarrow> triple P p Q' X Z"
  by (rule triple_conseq)

lemma triple_ret [triple_intros]: "(\<And>s. P s \<Longrightarrow> Q x s) \<Longrightarrow> triple P (ret x) Q X Z"
  by (simp add: triple_def)

lemma triple_throw [triple_intros]: "(\<And>s. P s \<Longrightarrow> X s) \<Longrightarrow> triple P (throw e) Q X Z"
  by (simp add: triple_def)

lemma triple_upd [triple_intros]: "(\<And>s. P s \<Longrightarrow> Q () (f s)) \<Longrightarrow> triple P (upd f) Q X Z"
  by (simp add: triple_def)

lemma triple_bindp:
  assumes "triple P p Q X Z" "\<And>x. triple (Q x) (f x) R X Z"
  shows "triple P (bindp p f) R X Z"
proof (rule tripleI)
  fix s r t assume s: "P s" and r: "bindp p f s = (r, t)"
  obtain q u where p: "p s = (q, u)" by fastforce
  then show "meets R X Z r t"
    using tripleD [OF assms(1) s p] tripleD [OF assms(2)] r by (cases q) (auto simp: bindp_def)
qed

lemma triple_seqp: "triple P p (\<lambda>x. Q) X Z \<Longrightarrow> triple Q q R X Z \<Longrightarrow> triple P (seqp p q) R X Z"
  unfolding seqp_def by (rule triple_bindp)

text \<open>Reading the state: what follows runs from that very state.\<close>

lemma triple_asks [triple_intros]:
  "(\<And>s. P s \<Longrightarrow> triple (\<lambda>t. t = s) (f (g s)) R X Z) \<Longrightarrow> triple P (bindp (asks g) f) R X Z"
  by (simp add: triple_def)

lemma triple_state: "triple P p Q X Z \<longleftrightarrow> (\<forall>s. P s \<longrightarrow> triple (\<lambda>t. t = s) p Q X Z)"
  by (simp add: triple_def)

lemma triple_at: "triple P p Q X Z \<Longrightarrow> P s \<Longrightarrow> triple (\<lambda>t. t = s) p Q X Z"
  by (simp add: triple_def)

lemma triple_attempt:
  assumes "triple P p (\<lambda>x. Q (Inr x)) X Z" "\<And>e s. X s \<Longrightarrow> Q (Inl e) s"
  shows "triple P (attempt p) Q X' Z"
proof (rule tripleI)
  fix s r t assume s: "P s" and r: "attempt p s = (r, t)"
  obtain q u where p: "p s = (q, u)" by fastforce
  then show "meets Q X' Z r t"
    using tripleD [OF assms(1) s p] assms(2) r by (cases q) (auto simp: attempt_def)
qed

text \<open>Programs that keep a condition on the state, whatever they answer.\<close>

definition keeps :: "('s \<Rightarrow> bool) \<Rightarrow> ('s, 'a) prog \<Rightarrow> bool" where
  "keeps I p \<longleftrightarrow> (\<forall>s. I s \<longrightarrow> I (snd (p s)))"

named_theorems keeps_intros \<open>rules that build invariants of composite programs\<close>

lemma meets_const [simp]: "meets (\<lambda>x. I) I I r t \<longleftrightarrow> I t"
  by (cases r) simp_all

lemma keeps_triple: "keeps I p \<longleftrightarrow> triple I p (\<lambda>x. I) I I"
  by (simp add: keeps_def triple_def)

lemma keepsD: "keeps I p \<Longrightarrow> I s \<Longrightarrow> I (snd (p s))"
  by (simp add: keeps_def)

lemma keeps_basic [keeps_intros]:
  "keeps I (ret x)" "keeps I (throw e)" "keeps I stuck" "keeps I (asks g)" "keeps I (lift_result r)"
  by (simp_all add: keeps_def prog_defs split: sum.splits)

lemma keeps_upd: "(\<And>s. I s \<Longrightarrow> I (f s)) \<Longrightarrow> keeps I (upd f)"
  by (simp add: keeps_def)

lemma keeps_bindp [keeps_intros]:
  assumes "keeps I p" "\<And>x. keeps I (f x)"
  shows "keeps I (bindp p f)"
  using assms unfolding keeps_triple by (rule triple_bindp)

lemma keeps_seqp [keeps_intros]: "keeps I p \<Longrightarrow> keeps I q \<Longrightarrow> keeps I (seqp p q)"
  by (simp add: seqp_def keeps_bindp)

lemma keeps_attempt [keeps_intros]: "keeps I p \<Longrightarrow> keeps I (attempt p)"
  unfolding keeps_triple by (rule triple_attempt)

lemma keeps_if [keeps_intros]: "(b \<Longrightarrow> keeps I p) \<Longrightarrow> (\<not> b \<Longrightarrow> keeps I q) \<Longrightarrow> keeps I (if b then p else q)"
  by simp

lemma keeps_sum [keeps_intros]:
  "(\<And>e. keeps I (f e)) \<Longrightarrow> (\<And>x. keeps I (g x)) \<Longrightarrow> keeps I (case r of Inl e \<Rightarrow> f e | Inr x \<Rightarrow> g x)"
  by (cases r) simp_all

lemma keeps_option [keeps_intros]:
  "keeps I p \<Longrightarrow> (\<And>x. keeps I (g x)) \<Longrightarrow> keeps I (case r of None \<Rightarrow> p | Some x \<Rightarrow> g x)"
  by (cases r) simp_all

text \<open>Programs that always return or fail.\<close>

definition returns :: "('s, 'a) prog \<Rightarrow> bool" where
  "returns p \<longleftrightarrow> triple (\<lambda>s. True) p (\<lambda>x s. True) (\<lambda>s. True) (\<lambda>s. False)"

named_theorems returns_intros \<open>rules for programs that do not run out of fuel\<close>

lemma returns_iff:
  fixes p :: "('a, 'b) prog"
  shows "returns p \<longleftrightarrow> (\<forall>s. fst (p s) \<noteq> Stuck)"
proof -
  have "meets (\<lambda>x s. True) (\<lambda>s. True) (\<lambda>s. False) r s \<longleftrightarrow> r \<noteq> Stuck" for r :: "'b outcome" and s :: 'a
    by (cases r) simp_all
  then show ?thesis by (simp add: returns_def triple_def)
qed

lemma returns_basic [returns_intros]:
  "returns (ret x)" "returns (throw e)" "returns (asks g)" "returns (upd f)" "returns (lift_result r)"
  by (simp_all add: returns_iff prog_defs split: sum.splits)

lemma returns_bindp [returns_intros]: "returns p \<Longrightarrow> (\<And>x. returns (f x)) \<Longrightarrow> returns (bindp p f)"
  unfolding returns_def by (rule triple_bindp [where Q = "\<lambda>x s. True"])

text \<open>The continuation may rely on what the first program answers.\<close>

lemma returns_bindp_post:
  "triple (\<lambda>s. True) p (\<lambda>x s. Q x) (\<lambda>s. True) (\<lambda>s. False) \<Longrightarrow> (\<And>x. Q x \<Longrightarrow> returns (f x)) \<Longrightarrow> returns (bindp p f)"
  unfolding returns_def by (rule triple_bindp, assumption) (simp add: triple_def)

lemma returns_seqp [returns_intros]: "returns p \<Longrightarrow> returns q \<Longrightarrow> returns (seqp p q)"
  by (simp add: seqp_def returns_bindp)

lemma returns_attempt [returns_intros]: "returns p \<Longrightarrow> returns (attempt p)"
  by (auto simp: returns_iff attempt_def split: prod.splits outcome.splits) (metis fst_conv)

lemma returns_if [returns_intros]: "(b \<Longrightarrow> returns p) \<Longrightarrow> (\<not> b \<Longrightarrow> returns q) \<Longrightarrow> returns (if b then p else q)"
  by simp

lemma returns_sum [returns_intros]:
  "(\<And>e. returns (f e)) \<Longrightarrow> (\<And>x. returns (g x)) \<Longrightarrow> returns (case r of Inl e \<Rightarrow> f e | Inr x \<Rightarrow> g x)"
  by (cases r) simp_all

lemma returns_option [returns_intros]:
  "returns p \<Longrightarrow> (\<And>x. returns (g x)) \<Longrightarrow> returns (case r of None \<Rightarrow> p | Some x \<Rightarrow> g x)"
  by (cases r) simp_all

end
