(* ===== verification/Exec_Logic.thy ===== *)
theory Exec_Logic
  imports Exec_Command Prog_Logic
begin

text \<open>The rules of the program logic for the steps that the execution of tool calls is made of.\<close>

lemma keeps_bind_sum [keeps_intros]: "keeps I p \<Longrightarrow> (\<And>x. keeps I (f x)) \<Longrightarrow> keeps I (bind_sum p f)"
  unfolding bind_sum_def by (intro keeps_intros)

lemma keeps_propagate [keeps_intros]: "keeps I p \<Longrightarrow> keeps I (propagate p)"
  unfolding propagate_def by (intro keeps_intros)

lemma keeps_checked: "(check_command E parts a = None \<Longrightarrow> keeps I p) \<Longrightarrow> keeps I (checked E parts a p)"
  by (auto simp: checked_def keeps_basic split: option.splits)

lemma keeps_run_sums: "list_all (keeps I) ps \<Longrightarrow> keeps I (run_sums ps)"
  by (induction ps) (auto intro!: keeps_intros)

text \<open>\<open>?\<close> on the result of a program of the manager.\<close>

lemma triple_propagate:
  assumes "triple P p (\<lambda>r. case r of Inl e \<Rightarrow> X | Inr x \<Rightarrow> Q x) X Z"
  shows "triple P (propagate p) Q X Z"
  unfolding propagate_def
  by (rule triple_bindp [OF assms]) (auto simp: triple_def split: sum.splits)

lemma triple_bind_sum:
  assumes "triple P p (\<lambda>r. case r of Inl e \<Rightarrow> R (Inl e) | Inr x \<Rightarrow> Q x) X Z" "\<And>x. triple (Q x) (f x) R X Z"
  shows "triple P (bind_sum p f) R X Z"
  unfolding bind_sum_def
  by (rule triple_bindp [OF assms(1)]) (use assms(2) in \<open>auto simp: triple_def split: sum.splits\<close>)

lemma returns_world_op [returns_intros]: "returns (world_op f)"
  by (simp add: returns_iff world_op_def split: prod.splits)

lemma returns_trace_event [returns_intros]: "returns (trace_event e)"
  unfolding trace_event_def by (intro returns_intros)

lemma returns_bind_sum [returns_intros]: "returns p \<Longrightarrow> (\<And>x. returns (f x)) \<Longrightarrow> returns (bind_sum p f)"
  unfolding bind_sum_def by (intro returns_intros)

lemma returns_propagate [returns_intros]: "returns p \<Longrightarrow> returns (propagate p)"
  unfolding propagate_def by (intro returns_intros)

lemma returns_checked [returns_intros]: "returns p \<Longrightarrow> returns (checked E parts a p)"
  by (auto simp: checked_def returns_basic split: option.splits)

lemma returns_run_sums: "list_all returns ps \<Longrightarrow> returns (run_sums ps)"
  by (induction ps) (auto intro!: returns_intros)

end
