(* ===== verification/Exec_Consent.thy ===== *)
theory Exec_Consent
  imports Exec_Sample Exec_Logic
begin

text \<open>
  What the agent may run. With the permission question on, no command runs unless the user was asked about
  that very command and agreed (\<open>commands_need_consent\<close>).
\<close>

section \<open>Consent\<close>

definition not_question :: "exec_event \<Rightarrow> bool" where
  "not_question e = (case e of Asked m \<Rightarrow> False | Answered b \<Rightarrow> False | _ \<Rightarrow> True)"

definition allow_messages :: "string \<Rightarrow> string list" where
  "allow_messages c = [''Allow command: '' @ c, ''Allow background command: '' @ c]"

text \<open>The last question was about the command, and the answer was yes.\<close>

definition granted :: "string \<Rightarrow> exec_event list \<Rightarrow> bool" where
  "granted c es \<longleftrightarrow>
     (\<exists>us m vs. es = us @ [Asked m, Answered True] @ vs \<and> m \<in> set (allow_messages c) \<and> list_all not_question vs)"

definition consented :: "exec_event list \<Rightarrow> bool" where
  "consented es \<longleftrightarrow> (\<forall>xs c p ys. es = xs @ Ran c p # ys \<longrightarrow> granted c xs)"

definition asked_first :: "string \<Rightarrow> exec_event list \<Rightarrow> ask_for_approval \<Rightarrow> exec_event list \<Rightarrow> bool" where
  "asked_first c before approval tr \<longleftrightarrow>
     (\<exists>es. tr = before @ es \<and> consented es \<and> (approval = Never \<longrightarrow> granted c es))"

lemma granted_snoc: "granted c es \<Longrightarrow> not_question e \<Longrightarrow> granted c (es @ [e])"
  by (force simp: granted_def)

lemma granted_yes: "m \<in> set (allow_messages c) \<Longrightarrow> granted c (es @ [Asked m, Answered True])"
  by (force simp: granted_def)

lemma consented_snoc: "consented es \<Longrightarrow> (\<And>c p. e = Ran c p \<Longrightarrow> granted c es) \<Longrightarrow> consented (es @ [e])"
  by (auto simp: consented_def append_eq_append_conv2 append_eq_Cons_conv Cons_eq_append_conv)

lemma asked_first_start: "asked_first c tr OnRequest tr"
  by (simp add: asked_first_def consented_def)

lemma asked_first_weak: "asked_first c before a tr \<Longrightarrow> asked_first c before OnRequest tr"
  by (auto simp: asked_first_def)

lemma asked_first_quiet:
  assumes "asked_first c before a tr" "not_question e" "\<And>d p. e = Ran d p \<Longrightarrow> d = c \<and> a = Never"
  shows "asked_first c before a (tr @ [e])"
proof -
  obtain es where es: "tr = before @ es" "consented es" "a = Never \<longrightarrow> granted c es"
    using assms(1) by (auto simp: asked_first_def)
  then have "consented (es @ [e])" using assms(3) by (auto intro: consented_snoc)
  then show ?thesis using es assms(2) by (auto simp: asked_first_def granted_snoc)
qed

lemma asked_first_answer:
  assumes "asked_first c before a tr"
  shows "asked_first c before OnRequest (tr @ [Asked m])"
    and "asked_first c before OnRequest (tr @ [Asked m, Answered b])"
    and "m \<in> set (allow_messages c) \<Longrightarrow> asked_first c before Never (tr @ [Asked m, Answered True])"
proof -
  obtain es where es: "tr = before @ es" "consented es" using assms by (auto simp: asked_first_def)
  have m: "consented (es @ [Asked m])" using es by (auto intro: consented_snoc)
  then have b: "consented (es @ [Asked m, Answered b])" for b
    using consented_snoc [OF m, of "Answered b"] by simp
  show "asked_first c before OnRequest (tr @ [Asked m])"
    and "asked_first c before OnRequest (tr @ [Asked m, Answered b])"
    using m b es by (auto simp: asked_first_def)
  assume "m \<in> set (allow_messages c)"
  then show "asked_first c before Never (tr @ [Asked m, Answered True])"
    using b es by (auto simp: asked_first_def granted_yes)
qed

section \<open>Programs that only replay the journal\<close>

text \<open>Conditions on the trace that journal entries do not disturb.\<close>

definition replayable :: "(exec_event list \<Rightarrow> bool) \<Rightarrow> bool" where
  "replayable K \<longleftrightarrow> (\<forall>tr c p. K tr \<longrightarrow> K (tr @ [Replayed c p]))"

definition on_trace :: "(exec_event list \<Rightarrow> bool) \<Rightarrow> 'w tool_state \<Rightarrow> bool" where
  "on_trace K s = K (es_trace s)"

lemma replayable_asked: "replayable (asked_first c before a)"
  by (auto simp: replayable_def not_question_def intro: asked_first_quiet)

lemma keeps_world_op [keeps_intros]: "keeps (on_trace K) (world_op f)"
  by (simp add: keeps_def world_op_def on_trace_def split: prod.splits)

lemma keeps_trace_upd: "(\<And>s. es_trace (f s) = es_trace s) \<Longrightarrow> keeps (on_trace K) (upd f)"
  by (simp add: keeps_def on_trace_def)

lemma keeps_trace_event: "(\<And>tr. K tr \<Longrightarrow> K (tr @ [e])) \<Longrightarrow> keeps (on_trace K) (trace_event e)"
  by (simp add: keeps_def on_trace_def trace_event_def)

lemma check_on_request: "check_command E parts OnRequest \<noteq> None"
  by (simp add: check_command_def assess_command_safety_def)

lemma keeps_terminate [keeps_intros]: "keeps (on_trace K) (terminate_session E sid)"
  unfolding terminate_session_def by (intro keeps_intros keeps_trace_upd) simp

lemma keeps_exec_in_session:
  assumes "\<And>p tr. check_command E (command_parts E c) a = None \<Longrightarrow> K tr \<Longrightarrow> K (tr @ [ev c p])"
  shows "keeps (on_trace K) (exec_command_in_shell_session E ev sid c ms a)"
  unfolding exec_command_in_shell_session_def
  by (intro keeps_intros keeps_checked keeps_trace_event assms)

lemma keeps_generate [keeps_intros]: "keeps (on_trace K) (generate_unique_session_id E)"
  unfolding generate_unique_session_id_def by (intro keeps_intros keeps_trace_upd) simp

lemma keeps_get_or_create:
  assumes "replayable K"
  shows "keeps (on_trace K) (get_or_create_shell_session E seed)"
proof -
  have r: "keeps (on_trace K) (exec_command_in_shell_session E Replayed sid c ms yolo_mode)" for sid c ms
    using assms by (intro keeps_exec_in_session) (simp add: replayable_def)
  have restore: "keeps (on_trace K) (restore_shell_session_from_snapshot E sid snap)" for sid snap
    unfolding restore_shell_session_from_snapshot_def
    by (intro keeps_intros keeps_run_sums) (auto simp: list_all_iff r intro: keeps_intros)
  have spawn: "keeps (on_trace K) (spawn_shell_session_with_snapshot E p snap)" for p snap
    unfolding spawn_shell_session_with_snapshot_def create_persistent_shell_session_def
    by (intro keeps_intros keeps_trace_upd restore) simp
  have "es_trace (forget_lost_session s) = es_trace s" for s :: "'a tool_state"
    by (simp add: forget_lost_session_def split: option.splits)
  then show ?thesis
    unfolding get_or_create_shell_session_def Let_def
    by (intro keeps_intros keeps_trace_upd spawn) (simp_all add: adopt_session_def)
qed

lemma keeps_sync [keeps_intros]: "keeps (on_trace K) (sync_continuity_state_from_session E sid r)"
  unfolding sync_continuity_state_from_session_def by (intro keeps_intros keeps_trace_upd) simp

section \<open>Running a command\<close>

abbreviation consenting :: "string \<Rightarrow> exec_event list \<Rightarrow> ask_for_approval \<Rightarrow> 'w tool_state \<Rightarrow> bool" where
  "consenting c before a \<equiv> on_trace (asked_first c before a)"

lemma consenting_weak: "consenting c before a s \<Longrightarrow> consenting c before OnRequest s"
  by (auto simp: on_trace_def intro: asked_first_weak)

lemma keeps_run:
  "keeps (consenting c before a) (exec_command_in_shell_session E Ran sid c ms a)"
  "keeps (consenting c before a) (fork_eval_in_managed_nu_session E sid c ms a)"
  "keeps (consenting c before a) (handle_exec_command_request E c cwd t bg policy a)"
proof -
  have ran: "asked_first c before a (tr @ [Ran c p])"
    if "check_command E parts a = None" "asked_first c before a tr" for E :: "'x tool_env" and parts tr p
    using that check_on_request [of E parts] by (cases a) (auto intro: asked_first_quiet simp: not_question_def)
  show "keeps (consenting c before a) (exec_command_in_shell_session E Ran sid c ms a)"
    by (rule keeps_exec_in_session) (rule ran)
  show "keeps (consenting c before a) (fork_eval_in_managed_nu_session E sid c ms a)"
    unfolding fork_eval_in_managed_nu_session_def by (intro keeps_intros keeps_checked keeps_trace_event) (rule ran)
  show "keeps (consenting c before a) (handle_exec_command_request E c cwd t bg policy a)"
    unfolding handle_exec_command_request_def
    by (intro keeps_intros keeps_checked keeps_trace_event) (rule ran)
qed

lemma keeps_session_consent: "keeps (consenting c before a) (get_or_create_shell_session E seed)"
  by (rule keeps_get_or_create) (rule replayable_asked)

lemma ask_user_consent:
  assumes "m \<in> set (allow_messages c)"
  shows "triple (consenting c before a) (ask_user E m)
      (\<lambda>ok. consenting c before (if ok then Never else OnRequest))
      (consenting c before OnRequest) (consenting c before OnRequest)"
proof (rule tripleI)
  fix s :: "'a tool_state" and r t
  assume s: "consenting c before a s" and r: "ask_user E m s = (r, t)"
  note answer = asked_first_answer [of c before a "es_trace s"]
  obtain ans w where w: "user_answer E m (es_world s) = (ans, w)" by fastforce
  show "meets (\<lambda>ok. consenting c before (if ok then Never else OnRequest))
      (consenting c before OnRequest) (consenting c before OnRequest) r t"
  proof (cases ans)
    case None
    then show ?thesis
      using s r w answer(1) by (auto simp: ask_user_def trace_event_def world_op_def on_trace_def bindp_def)
  next
    case (Some b)
    then have t: "r = Ret b" "es_trace t = es_trace s @ [Asked m, Answered b]"
      using r w by (auto simp: ask_user_def trace_event_def world_op_def bindp_def)
    then show ?thesis using s answer(2,3) assms by (cases b) (auto simp: on_trace_def)
  qed
qed

text \<open>Programs after which the condition holds without a grant.\<close>

definition ends_consented :: "string \<Rightarrow> exec_event list \<Rightarrow> ask_for_approval \<Rightarrow> ('w tool_state, 'a) prog \<Rightarrow> bool" where
  "ends_consented c before a p \<longleftrightarrow>
     triple (consenting c before a) p (\<lambda>x. consenting c before OnRequest)
       (consenting c before OnRequest) (consenting c before OnRequest)"

lemma ends_keeps: "keeps (consenting c before a) p \<Longrightarrow> ends_consented c before a p"
  unfolding keeps_triple ends_consented_def by (erule triple_conseq) (auto intro: consenting_weak)

lemma ends_bindp:
  assumes "keeps (consenting c before a) p" "\<And>x. ends_consented c before a (f x)"
  shows "ends_consented c before a (bindp p f)"
  unfolding ends_consented_def
proof (rule triple_bindp)
  show "triple (consenting c before a) p (\<lambda>x. consenting c before a)
      (consenting c before OnRequest) (consenting c before OnRequest)"
    using assms(1) unfolding keeps_triple by (rule triple_conseq) (auto intro: consenting_weak)
qed (use assms(2) in \<open>simp add: ends_consented_def\<close>)

lemma ends_seqp: "keeps (consenting c before a) p \<Longrightarrow> ends_consented c before a q \<Longrightarrow> ends_consented c before a (seqp p q)"
  by (simp add: seqp_def ends_bindp)

lemma ends_ask:
  assumes "m \<in> set (allow_messages c)" "ends_consented c before Never p"
  shows "ends_consented c before a (bindp (ask_user E m) (\<lambda>ok. if ok then p else ret x))"
  unfolding ends_consented_def
  by (rule triple_bindp [OF ask_user_consent [OF assms(1)]])
    (use assms(2) in \<open>auto simp: ends_consented_def triple_def\<close>)

lemma ends_ret: "ends_consented c before a (ret x)"
  by (rule ends_keeps) (rule keeps_basic)

lemma ends_stuck: "ends_consented c before a (Pair Stuck)"
  by (rule ends_keeps) (simp add: keeps_def)

lemma ends_then:
  assumes "ends_consented c before a p" "\<And>x. keeps (consenting c before OnRequest) (f x)"
  shows "ends_consented c before a (bindp p f)"
  using assms unfolding ends_consented_def keeps_triple by (rule triple_bindp)

lemma ends_sum:
  "(\<And>e. ends_consented c before a (f e)) \<Longrightarrow> (\<And>x. ends_consented c before a (g x)) \<Longrightarrow>
   ends_consented c before a (case r of Inl e \<Rightarrow> f e | Inr x \<Rightarrow> g x)"
  by (cases r) simp_all

lemma ends_option:
  "ends_consented c before a p \<Longrightarrow> (\<And>x. ends_consented c before a (g x)) \<Longrightarrow>
   ends_consented c before a (case r of None \<Rightarrow> p | Some x \<Rightarrow> g x)"
  by (cases r) simp_all

lemma ends_if:
  "ends_consented c before a p \<Longrightarrow> ends_consented c before a q \<Longrightarrow> ends_consented c before a (if b then p else q)"
  by simp

lemmas ends_intros = ends_bindp ends_seqp ends_ask ends_sum ends_option ends_if ends_ret

lemma allow_member: "''Allow command: '' @ c \<in> set (allow_messages c)"
  "(if b then ''Allow background command: '' else ''Allow command: '') @ c \<in> set (allow_messages c)"
  by (simp_all add: allow_messages_def)

lemma ends_generic: "ends_consented c before a (execute_generic_exec E cwd c ms a)"
  unfolding execute_generic_exec_def by (intro ends_keeps keeps_intros keeps_run keeps_session_consent)

lemma ends_nu_loop: "ends_consented c before a (managed_nu_loop E fuel cwd sid c ms a)"
proof (induction fuel arbitrary: a)
  case 0
  then show ?case by (simp add: ends_stuck)
next
  case (Suc fuel)
  then show ?case
    unfolding managed_nu_loop.simps by (intro ends_intros keeps_run ends_generic allow_member)
qed

lemma ends_isolated: "\<not> (shell_is_nu E \<and> \<not> bg) \<Longrightarrow> ends_consented c before a (execute_isolated_exec E fuel cwd c bg ms a)"
proof (induction fuel arbitrary: a)
  case 0
  then show ?case by (simp add: ends_stuck)
next
  case (Suc fuel)
  then have run: "keeps (consenting c before a) (run_isolated_exec_command E c bg ms cwd a)"
    unfolding run_isolated_exec_command_def Let_def by (intro keeps_intros keeps_run) auto
  show ?case
    unfolding execute_isolated_exec.simps using Suc by (intro ends_intros run allow_member) auto
qed

lemma ends_finish: "keeps (consenting c before a) (finish_replay_state E sid c rs out)"
  unfolding finish_replay_state_def
  by (intro keeps_intros keeps_trace_upd) (simp add: clear_session_def)

lemma ends_replay: "ends_consented c before a (execute_replay_state E fuel retried cwd c ms rs a)"
proof (induction fuel arbitrary: a retried)
  case 0
  then show ?case by (simp add: ends_stuck)
next
  case (Suc fuel)
  then show ?case
    unfolding execute_replay_state.simps
    by (intro ends_intros keeps_run keeps_session_consent ends_keeps [OF ends_finish] keeps_terminate
        keeps_trace_upd allow_member) simp_all
qed

lemma ends_exec_command:
  assumes "ask_permission config"
  shows "ends_consented (str_at J a ''command'' []) before OnRequest (execute_exec_command E fuel J config cwd a)"
  using assms unfolding execute_exec_command_def execute_managed_nu_foreground_def Let_def
  by (simp add: ends_ret ends_bindp ends_nu_loop keeps_session_consent ends_isolated ends_replay)

lemma keeps_non_exec: "keeps (consenting c before OnRequest) (execute_non_exec_tool_call E J T W cwd name a)"
  unfolding execute_non_exec_tool_call_def read_output_def web_answer_def Let_def
  by (intro keeps_intros keeps_trace_event asked_first_quiet) (simp_all add: not_question_def)

lemma bindp_lift: "bindp (lift_result (Inl e)) f = throw e" "bindp (lift_result (Inr x)) f = f x"
  by (rule ext, simp)+

lemma ends_tool_call:
  assumes "ask_permission config"
  shows "\<exists>c. ends_consented c before OnRequest (execute_tool_call E fuel J T W parse_json config cwd name txt)"
proof (cases "parse_json txt")
  case (Inl e)
  show ?thesis
    unfolding execute_tool_call_def Inl bindp_lift
    by (intro exI ends_keeps keeps_intros keeps_trace_upd) simp
next
  case (Inr a)
  have "ends_consented (str_at J a ''command'' []) before OnRequest
      (execute_tool_call E fuel J T W parse_json config cwd name txt)"
    unfolding execute_tool_call_def Inr bindp_lift
    by (intro ends_seqp keeps_trace_upd ends_if ends_then [OF ends_exec_command [OF assms]]
        ends_then [OF ends_keeps [OF keeps_non_exec]] keeps_basic) simp
  then show ?thesis ..
qed



end
