(* ===== verification/Exec_Policy.thy ===== *)
theory Exec_Policy
  imports Exec_Sample Exec_Logic
begin

text \<open>
  Under which sandbox policy the agent runs. Whatever a tool call runs, a command, an entry of the journal or
  a tool, runs under the policy of the safety configuration at the time of the call
  (\<open>tool_calls_run_under_policy\<close>): a shell session of an older policy is replaced first.
\<close>

section \<open>Invariant of the sessions\<close>

definition issued :: "'w tool_env \<Rightarrow> 'w tool_state \<Rightarrow> string \<Rightarrow> bool" where
  "issued E s sid \<longleftrightarrow> (\<exists>k. unat k < unat (next_session_id s) \<and> sid = session_id_of E k)"

text \<open>The sessions have distinct identifiers that were given out, and the agent's session, while it exists,
  has the policy that the agent takes to be in effect.\<close>

definition sessions_ok :: "'w tool_env \<Rightarrow> 'w tool_state \<Rightarrow> bool" where
  "sessions_ok E s \<longleftrightarrow>
     distinct (map fst (es_sessions s))
     \<and> list_all (issued E s) (map fst (es_sessions s))
     \<and> pred_option (issued E s) (shell_session_id s)
     \<and> (\<forall>sid ss. shell_session_id s = Some sid \<longrightarrow> find_session sid s = Some ss \<longrightarrow>
          ss_policy ss = effective_sandbox_policy s)"

definition runs_under :: "sandbox_policy \<Rightarrow> exec_event \<Rightarrow> bool" where
  "runs_under p e = (case e of Ran c q \<Rightarrow> q = p | Replayed c q \<Rightarrow> q = p | RanTool args q \<Rightarrow> q = p | _ \<Rightarrow> True)"

text \<open>During a call under the policy \<open>p\<close>: \<open>n\<close> more identifiers below \<open>limit\<close> can be given out.\<close>

definition under :: "'w tool_env \<Rightarrow> sandbox_policy \<Rightarrow> exec_event list \<Rightarrow> nat \<Rightarrow> nat \<Rightarrow> 'w tool_state \<Rightarrow> bool" where
  "under E p before limit n s \<longleftrightarrow>
     sessions_ok E s \<and> pending_sandbox_policy s = p
     \<and> unat (next_session_id s) + n \<le> limit \<and> limit < 2 ^ 32
     \<and> (\<exists>es. es_trace s = before @ es \<and> list_all (runs_under p) es)"

definition session_under :: "'w tool_env \<Rightarrow> sandbox_policy \<Rightarrow> string \<Rightarrow> 'w tool_state \<Rightarrow> bool" where
  "session_under E p sid s \<longleftrightarrow> issued E s sid \<and> (\<forall>ss. find_session sid s = Some ss \<longrightarrow> ss_policy ss = p)"

lemma under_weaken: "under E p before limit n s \<Longrightarrow> m \<le> n \<Longrightarrow> under E p before limit m s"
  by (simp add: under_def)

lemma session_id_of_inj: "session_id_of E m = session_id_of E n \<longleftrightarrow> m = n"
  by (simp add: session_id_of_def word_unat_eq_iff)

lemma remove_session_find:
  "distinct (map fst xs) \<Longrightarrow> map_of (remove_session sid xs) = (map_of xs)(sid := None)"
proof (induction xs)
  case (Cons x xs)
  then have "fst x = sid \<Longrightarrow> map_of xs sid = None" by (auto simp: map_of_eq_None_iff)
  with Cons show ?case by (cases x) (auto simp: fun_eq_iff)
qed (simp add: fun_eq_iff)

lemma remove_session_set:
  "set (remove_session sid xs) \<subseteq> set xs" "distinct (map fst xs) \<Longrightarrow> distinct (map fst (remove_session sid xs))"
proof -
  show sub: "set (remove_session sid xs) \<subseteq> set xs" for xs by (induction xs) auto
  show "distinct (map fst xs) \<Longrightarrow> distinct (map fst (remove_session sid xs))"
    by (induction xs) (use sub in \<open>fastforce\<close>)+
qed

section \<open>Steps that leave the sessions alone\<close>

text \<open>What \<open>under\<close> and \<open>session_under\<close> read of the state.\<close>

definition same_sessions :: "'w tool_state \<Rightarrow> 'w tool_state \<Rightarrow> bool" where
  "same_sessions s t \<longleftrightarrow>
     es_sessions t = es_sessions s \<and> shell_session_id t = shell_session_id s
     \<and> effective_sandbox_policy t = effective_sandbox_policy s \<and> pending_sandbox_policy t = pending_sandbox_policy s
     \<and> next_session_id t = next_session_id s"

lemma same_sessions_simps:
  assumes "same_sessions s t"
  shows "sessions_ok E t = sessions_ok E s" "session_under E p sid t = session_under E p sid s"
proof -
  have "issued E t = issued E s" using assms by (simp add: same_sessions_def issued_def fun_eq_iff)
  then show "sessions_ok E t = sessions_ok E s"
    using assms by (simp add: same_sessions_def sessions_ok_def find_session_def)
  from \<open>issued E t = issued E s\<close> show "session_under E p sid t = session_under E p sid s"
    using assms by (simp add: same_sessions_def session_under_def find_session_def)
qed

abbreviation running ::
  "'w tool_env \<Rightarrow> sandbox_policy \<Rightarrow> exec_event list \<Rightarrow> nat \<Rightarrow> nat \<Rightarrow> string \<Rightarrow> 'w tool_state \<Rightarrow> bool" where
  "running E p before limit n sid s \<equiv> under E p before limit n s \<and> session_under E p sid s"

lemma running_same:
  assumes "same_sessions s t" "es_trace t = es_trace s \<or> (\<exists>e. es_trace t = es_trace s @ [e] \<and> runs_under p e)"
  shows "under E p before limit n s \<Longrightarrow> under E p before limit n t"
    and "running E p before limit n sid s \<Longrightarrow> running E p before limit n sid t"
proof -
  show "under E p before limit n s \<Longrightarrow> under E p before limit n t"
    using assms by (auto simp: under_def same_sessions_simps [OF assms(1)] same_sessions_def)
  then show "running E p before limit n sid s \<Longrightarrow> running E p before limit n sid t"
    by (simp add: same_sessions_simps [OF assms(1)])
qed

text \<open>Programs that only trace and change the world.\<close>

definition quiet_under :: "sandbox_policy \<Rightarrow> ('w tool_state, 'a) prog \<Rightarrow> bool" where
  "quiet_under p q \<longleftrightarrow>
     (\<forall>s. same_sessions s (snd (q s))
        \<and> (es_trace (snd (q s)) = es_trace s \<or> (\<exists>e. es_trace (snd (q s)) = es_trace s @ [e] \<and> runs_under p e)))"

lemma quiet_keeps:
  assumes "quiet_under p q"
  shows "keeps (under E p before limit n) q" "keeps (running E p before limit n sid) q"
  using assms running_same unfolding keeps_def quiet_under_def by blast+

lemma quiet_world_op: "quiet_under p (world_op f)"
  by (simp add: quiet_under_def world_op_def same_sessions_def split: prod.splits)

lemma quiet_event: "runs_under p e \<Longrightarrow> quiet_under p (trace_event e)"
  by (simp add: quiet_under_def trace_event_def same_sessions_def)

lemma quiet_upd: "(\<And>s. same_sessions s (f s) \<and> es_trace (f s) = es_trace s) \<Longrightarrow> quiet_under p (upd f)"
  by (simp add: quiet_under_def)

lemmas keeps_world_op_under [keeps_intros] = quiet_keeps [OF quiet_world_op]
lemmas keeps_trace_event_under = quiet_keeps [OF quiet_event]
lemmas keeps_quiet_upd = quiet_keeps [OF quiet_upd]

section \<open>Steps that change the sessions\<close>

lemma removed_ok:
  assumes "sessions_ok E s"
  shows "sessions_ok E (s\<lparr>es_sessions := remove_session sid (es_sessions s)\<rparr>)"
    and "session_under E p sid' s \<Longrightarrow> session_under E p sid' (s\<lparr>es_sessions := remove_session sid (es_sessions s)\<rparr>)"
proof -
  let ?t = "s\<lparr>es_sessions := remove_session sid (es_sessions s)\<rparr>"
  have i: "issued E ?t = issued E s" by (simp add: issued_def fun_eq_iff)
  have d: "distinct (map fst (es_sessions s))" using assms by (simp add: sessions_ok_def)
  have f: "find_session x ?t = (if x = sid then None else find_session x s)" for x
    by (simp add: find_session_def remove_session_find [OF d])
  show "sessions_ok E ?t"
    using assms remove_session_set [where sid = sid and xs = "es_sessions s"]
    by (auto simp: sessions_ok_def i f list_all_iff)
  show "session_under E p sid' s \<Longrightarrow> session_under E p sid' ?t"
    by (simp add: session_under_def i f)
qed

lemma keeps_remove:
  "keeps (under E p before limit n) (upd (\<lambda>s. s\<lparr>es_sessions := remove_session sid (es_sessions s)\<rparr>))"
  "keeps (running E p before limit n sid') (upd (\<lambda>s. s\<lparr>es_sessions := remove_session sid (es_sessions s)\<rparr>))"
  by (auto simp: keeps_def under_def removed_ok)

lemma keeps_terminate_under [keeps_intros]:
  "keeps (under E p before limit n) (terminate_session E sid)"
  "keeps (running E p before limit n sid') (terminate_session E sid)"
  unfolding terminate_session_def by (intro keeps_intros keeps_remove)+

lemma sessions_ok_forget:
  assumes "sessions_ok E s"
  shows "sessions_ok E (s\<lparr>shell_session_id := None, session_has_background_process := b\<rparr>)"
    and "sessions_ok E (s\<lparr>shell_session_id := None\<rparr>)"
proof -
  have "issued E (s\<lparr>shell_session_id := None, session_has_background_process := b\<rparr>) = issued E s"
    "issued E (s\<lparr>shell_session_id := None\<rparr>) = issued E s"
    by (simp_all add: issued_def fun_eq_iff)
  then show "sessions_ok E (s\<lparr>shell_session_id := None, session_has_background_process := b\<rparr>)"
    and "sessions_ok E (s\<lparr>shell_session_id := None\<rparr>)"
    using assms by (simp_all add: sessions_ok_def find_session_def)
qed

lemma under_forget:
  "under E p before limit n s \<Longrightarrow> under E p before limit n (forget_lost_session s)"
  "under E p before limit n s \<Longrightarrow> under E p before limit n (s\<lparr>shell_session_id := None\<rparr>)"
  "under E p before limit n s \<Longrightarrow> under E p before limit n (clear_session sid s)"
  by (auto simp: under_def forget_lost_session_def clear_session_def sessions_ok_forget split: option.splits)

lemma under_adopt:
  assumes "running E p before limit n sid s"
  shows "running E p before limit n sid (adopt_session p sid s)"
proof -
  have "issued E (adopt_session p sid s) = issued E s" by (simp add: issued_def adopt_session_def fun_eq_iff)
  then show ?thesis
    using assms by (auto simp: under_def sessions_ok_def session_under_def adopt_session_def find_session_def)
qed

text \<open>A new identifier is not the one of an existing session.\<close>

definition fresh :: "'w tool_env \<Rightarrow> string \<Rightarrow> 'w tool_state \<Rightarrow> bool" where
  "fresh E sid s \<longleftrightarrow> issued E s sid \<and> sid \<notin> fst ` set (es_sessions s) \<and> shell_session_id s \<noteq> Some sid"

lemma issued_next:
  assumes "unat (next_session_id s) + 1 < 2 ^ 32"
  shows "issued E (s\<lparr>next_session_id := next_session_id s + 1\<rparr>) sid
    \<longleftrightarrow> issued E s sid \<or> sid = session_id_of E (next_session_id s)"
proof -
  have "unat (next_session_id s + 1) = unat (next_session_id s) + 1"
    using assms by (simp add: unat_word_ariths take_bit_nat_eq_self_iff)
  then show ?thesis by (auto simp: issued_def less_Suc_eq dest: word_unat_eq_iff [THEN iffD2])
qed

lemma under_generate:
  assumes "under E p before limit (Suc n) s"
  shows "under E p before limit n (s\<lparr>next_session_id := next_session_id s + 1\<rparr>)
    \<and> fresh E (session_id_of E (next_session_id s)) (s\<lparr>next_session_id := next_session_id s + 1\<rparr>)"
proof -
  let ?t = "s\<lparr>next_session_id := next_session_id s + 1\<rparr>" and ?sid = "session_id_of E (next_session_id s)"
  have room: "unat (next_session_id s) + 1 < 2 ^ 32" using assms by (simp add: under_def)
  have i: "issued E ?t sid \<longleftrightarrow> issued E s sid \<or> sid = ?sid" for sid by (rule issued_next [OF room])
  have u: "unat (next_session_id s + 1) = unat (next_session_id s) + 1"
    using room by (simp add: unat_word_ariths take_bit_nat_eq_self_iff)
  have new: "\<not> issued E s ?sid" by (auto simp: issued_def session_id_of_inj)
  have "sessions_ok E s" using assms by (simp add: under_def)
  then have ok: "sessions_ok E ?t"
    by (auto simp: sessions_ok_def i list_all_iff find_session_def option.pred_set)
  moreover have "fresh E ?sid ?t"
    using \<open>sessions_ok E s\<close> new by (auto simp: fresh_def i sessions_ok_def list_all_iff)
  ultimately show ?thesis using assms u by (simp add: under_def)
qed

lemma under_append:
  assumes "under E p before limit n s" "fresh E sid s" "ss_policy ss = p"
  shows "running E p before limit n sid (s\<lparr>es_sessions := es_sessions s @ [(sid, ss)]\<rparr>)"
proof -
  let ?t = "s\<lparr>es_sessions := es_sessions s @ [(sid, ss)]\<rparr>"
  have i: "issued E ?t = issued E s" by (simp add: issued_def fun_eq_iff)
  have none: "map_of (es_sessions s) sid = None" using assms(2) by (simp add: fresh_def map_of_eq_None_iff)
  then have f: "find_session x ?t = (if x = sid then Some ss else find_session x s)" for x
    by (simp add: find_session_def map_add_def split: option.splits)
  have "sessions_ok E ?t"
    using assms by (auto simp: under_def sessions_ok_def i f fresh_def list_all_iff)
  then show ?thesis using assms by (simp add: under_def session_under_def i f fresh_def)
qed

section \<open>The agent's session has the policy\<close>

lemma create_session_under:
  "triple (under E p before limit (Suc n)) (create_persistent_shell_session E shell p cwd)
     (\<lambda>r. case r of Inl e \<Rightarrow> under E p before limit n | Inr sid \<Rightarrow> running E p before limit n sid)
     (under E p before limit n) (under E p before limit n)"
proof -
  let ?fresh = "\<lambda>sid s. under E p before limit n s \<and> fresh E sid s"
  have gen: "triple (under E p before limit (Suc n)) (generate_unique_session_id E) ?fresh
      (under E p before limit n) (under E p before limit n)"
    by (auto simp: triple_def generate_unique_session_id_def dest!: under_generate)
  have start: "triple (?fresh sid) (world_op f)
      (\<lambda>r. case r of Inl e \<Rightarrow> under E p before limit n | Inr x \<Rightarrow> ?fresh sid)
      (under E p before limit n) (under E p before limit n)" for sid and f :: "'a \<Rightarrow> (colossal_err + unit) \<times> 'a"
  proof (rule tripleI)
    fix s r t assume s: "?fresh sid s" and "world_op f s = (r, t)"
    then have "(\<exists>x. r = Ret x) \<and> t = s\<lparr>es_world := snd (f (es_world s))\<rparr>"
      by (auto simp: world_op_def split: prod.splits)
    moreover from this have "under E p before limit n t"
      using s running_same(1) [of s t] by (auto simp: same_sessions_def)
    moreover have "fresh E sid t" using s calculation(1) by (simp add: fresh_def issued_def)
    ultimately show "meets (\<lambda>r. case r of Inl e \<Rightarrow> under E p before limit n | Inr x \<Rightarrow> ?fresh sid)
        (under E p before limit n) (under E p before limit n) r t"
      by (auto split: sum.splits)
  qed
  show ?thesis
    unfolding create_persistent_shell_session_def
  proof (rule triple_bindp [OF gen])
    fix sid
    have st: "triple (?fresh sid)
       (seqp (upd (\<lambda>s. s\<lparr>es_sessions := es_sessions s @ [(sid, \<lparr>ss_policy = p, ss_managed_nu = path_is_nu E shell\<rparr>)]\<rparr>))
         (ret (Inr sid)))
       (\<lambda>r. case r of Inl e \<Rightarrow> under E p before limit n | Inr sid \<Rightarrow> running E p before limit n sid)
       (under E p before limit n) (under E p before limit n)"
      using under_append [where E = E and p = p and before = before and limit = limit and n = n]
      by (simp add: triple_def)
    show "triple (?fresh sid)
       (bind_sum (world_op (start_session E sid shell p cwd)) (\<lambda>u.
         seqp (upd (\<lambda>s. s\<lparr>es_sessions := es_sessions s @ [(sid, \<lparr>ss_policy = p, ss_managed_nu = path_is_nu E shell\<rparr>)]\<rparr>))
           (ret (Inr sid))))
       (\<lambda>r. case r of Inl e \<Rightarrow> under E p before limit n | Inr sid \<Rightarrow> running E p before limit n sid)
       (under E p before limit n) (under E p before limit n)"
      by (rule triple_bind_sum [OF triple_post [OF start] st]) (auto split: sum.splits)
  qed
qed

text \<open>Reading the session: what is found has the policy.\<close>

lemma keeps_find:
  assumes "\<And>found. pred_option (\<lambda>ss. ss_policy ss = p) found \<Longrightarrow> keeps (running E p before limit n sid) (f found)"
  shows "keeps (running E p before limit n sid) (bindp (asks (find_session sid)) f)"
  unfolding keeps_triple
proof (rule triple_asks)
  fix s assume s: "running E p before limit n sid s"
  then have "pred_option (\<lambda>ss. ss_policy ss = p) (find_session sid s)"
    by (auto simp: session_under_def option.pred_set)
  then show "triple (\<lambda>t. t = s) (f (find_session sid s)) (\<lambda>x. running E p before limit n sid)
      (running E p before limit n sid) (running E p before limit n sid)"
    using s assms by (auto simp: keeps_triple triple_def)
qed

lemma keeps_exec_in_session_under:
  assumes "\<And>d q. runs_under q (ev d q)"
  shows "keeps (running E p before limit n sid) (exec_command_in_shell_session E ev sid c ms a)"
  unfolding exec_command_in_shell_session_def
proof (rule keeps_find)
  fix found assume "pred_option (\<lambda>ss. ss_policy ss = p) found"
  then show "keeps (running E p before limit n sid)
      (case found of
        None \<Rightarrow> ret (Inl (unknown_session sid))
      | Some ss \<Rightarrow>
          checked E (command_parts E c) a
            (if ss_managed_nu ss then
               seqp (trace_event (ev c (ss_policy ss)))
                 (bind_sum (world_op (nu_exec E sid c ms)) (\<lambda>r.
                    case r of
                      Some out \<Rightarrow> ret (Inr out)
                    | None \<Rightarrow> seqp (terminate_session E sid) (ret (Inr timeout_output))))
             else
               bind_sum (world_op (wait_ready E sid)) (\<lambda>u.
                 seqp (trace_event (ev c (ss_policy ss)))
                   (world_op (shell_exec E sid c ms)))))"
    by (cases found) (auto intro!: keeps_intros keeps_checked keeps_trace_event_under simp: assms)
qed

lemma keeps_fork_eval: "keeps (running E p before limit n sid) (fork_eval_in_managed_nu_session E sid c ms a)"
  unfolding fork_eval_in_managed_nu_session_def
proof (rule keeps_find)
  fix found assume "pred_option (\<lambda>ss. ss_policy ss = p) found"
  then show "keeps (running E p before limit n sid)
      (case found of
        None \<Rightarrow> ret (Inr None)
      | Some ss \<Rightarrow>
          (if \<not> ss_managed_nu ss then ret (Inr None)
           else checked E (command_parts E c) a
             (seqp (trace_event (Ran c (ss_policy ss))) (world_op (nu_fork_eval E sid c ms)))))"
    by (cases found) (auto intro!: keeps_intros keeps_checked keeps_trace_event_under simp: runs_under_def)
qed

lemma keeps_restore: "keeps (running E p before limit n sid) (restore_shell_session_from_snapshot E sid snap)"
proof -
  have r: "keeps (running E p before limit n sid) (exec_command_in_shell_session E Replayed sid c ms yolo_mode)" for c ms
    by (rule keeps_exec_in_session_under) (simp add: runs_under_def)
  show ?thesis
    unfolding restore_shell_session_from_snapshot_def
    by (intro keeps_intros keeps_run_sums) (auto simp: list_all_iff r intro: keeps_intros)
qed

text \<open>Programs that begin with \<open>n + 1\<close> free identifiers and leave \<open>n\<close> of them.\<close>

abbreviation leaves ::
  "'w tool_env \<Rightarrow> sandbox_policy \<Rightarrow> exec_event list \<Rightarrow> nat \<Rightarrow> nat \<Rightarrow> nat \<Rightarrow> ('w tool_state, 'a) prog \<Rightarrow>
     ('a \<Rightarrow> 'w tool_state \<Rightarrow> bool) \<Rightarrow> bool" where
  "leaves E p before limit m n q Q \<equiv>
     triple (under E p before limit m) q Q (under E p before limit n) (under E p before limit n)"

lemma running_triple:
  assumes "keeps (running E p before limit n sid) q"
  shows "triple (running E p before limit n sid) q (\<lambda>x. running E p before limit n sid)
     (under E p before limit n) (under E p before limit n)"
  using assms unfolding keeps_triple by (rule triple_conseq) auto

lemma spawn_under:
  "leaves E p before limit (Suc n) n (spawn_shell_session_with_snapshot E p snap)
     (\<lambda>sid. running E p before limit n sid)"
  unfolding spawn_shell_session_with_snapshot_def
  by (rule triple_bindp [OF triple_propagate [OF create_session_under]],
      rule triple_seqp [OF running_triple [OF keeps_propagate [OF keeps_restore]]])
    (auto intro: triple_ret)

lemma triple_keeps_weak:
  assumes "keeps (under E p before limit m) q" "n \<le> m"
  shows "leaves E p before limit m n q (\<lambda>x. under E p before limit m)"
  using assms unfolding keeps_triple by (auto intro: triple_conseq under_weaken)

lemma get_or_create_under:
  "leaves E p before limit (Suc n) n (get_or_create_shell_session E seed) (\<lambda>sid. running E p before limit n sid)"
proof -
  have spawn: "leaves E p before limit (Suc n) n
      (bindp (spawn_shell_session_with_snapshot E p snap) (\<lambda>sid. seqp (upd (adopt_session p sid)) (ret sid)))
      (\<lambda>sid. running E p before limit n sid)" for snap
    by (rule triple_bindp [OF spawn_under]) (use under_adopt in \<open>fastforce simp: triple_def\<close>)
  have forget: "leaves E p before limit (Suc n) n (upd forget_lost_session) (\<lambda>x. under E p before limit (Suc n))"
    by (auto simp: triple_def under_forget)
  have rotate: "leaves E p before limit (Suc n) n
      (seqp (propagate (terminate_session E sid)) (seqp (upd (\<lambda>t. t\<lparr>shell_session_id := None\<rparr>))
        (bindp (spawn_shell_session_with_snapshot E p snap) (\<lambda>sid. seqp (upd (adopt_session p sid)) (ret sid)))))
      (\<lambda>sid. running E p before limit n sid)" for sid snap
    by (rule triple_seqp [OF triple_keeps_weak [OF keeps_propagate [OF keeps_terminate_under(1)]]], simp,
        rule triple_seqp [OF _ spawn]) (simp add: triple_def under_forget)
  show ?thesis
    unfolding get_or_create_shell_session_def
  proof (rule triple_seqp [OF forget], rule triple_asks)
    fix s assume s: "under E p before limit (Suc n) s"
    have p: "pending_sandbox_policy s = p" using s by (simp add: under_def)
    have keep: "triple (\<lambda>t. t = s) (ret sid) (\<lambda>sid. running E p before limit n sid)
        (under E p before limit n) (under E p before limit n)"
      if "shell_session_id s = Some sid" "effective_sandbox_policy s = p" for sid
      using s that by (auto simp: triple_def under_def sessions_ok_def session_under_def)
    note at = triple_at [OF spawn s] triple_at [OF rotate s]
    show "triple (\<lambda>t. t = s)
       (let snapshot = seeded_snapshot E seed (continuity_state (id s));
            pending = pending_sandbox_policy (id s);
            spawn = bindp (spawn_shell_session_with_snapshot E pending snapshot)
              (\<lambda>sid. seqp (upd (adopt_session pending sid)) (ret sid))
        in case shell_session_id (id s) of
             Some existing \<Rightarrow>
               (if \<not> session_has_background_process (id s) \<and> effective_sandbox_policy (id s) \<noteq> pending then
                  seqp (propagate (terminate_session E existing))
                    (seqp (upd (\<lambda>t. t\<lparr>shell_session_id := None\<rparr>)) spawn)
                else if session_has_background_process (id s) then spawn
                else ret existing)
           | None \<Rightarrow> spawn)
       (\<lambda>sid. running E p before limit n sid) (under E p before limit n) (under E p before limit n)"
      unfolding Let_def id_apply p
      by (cases "shell_session_id s") (simp_all add: at keep)
  qed
qed

section \<open>Tool calls\<close>

text \<open>What a loop does with a session keeps \<open>running\<close>; what is left at the end is \<open>under\<close>.\<close>

lemma keeps_sync_under [keeps_intros]:
  "keeps (running E p before limit n sid) (sync_continuity_state_from_session E sid' r)"
  unfolding sync_continuity_state_from_session_def
  by (intro keeps_intros keeps_quiet_upd) (simp add: same_sessions_def)

lemma keeps_ask_user [keeps_intros]:
  "keeps (under E p before limit n) (ask_user E m)" "keeps (running E p before limit n sid) (ask_user E m)"
  unfolding ask_user_def by (intro keeps_intros keeps_trace_event_under; simp add: runs_under_def)+

lemma keeps_ran: "keeps (running E p before limit n sid) (exec_command_in_shell_session E Ran sid c ms a)"
  by (rule keeps_exec_in_session_under) (simp add: runs_under_def)

definition leaves_under ::
  "'w tool_env \<Rightarrow> sandbox_policy \<Rightarrow> exec_event list \<Rightarrow> nat \<Rightarrow> ('w tool_state \<Rightarrow> bool) \<Rightarrow> ('w tool_state, 'a) prog \<Rightarrow> bool" where
  "leaves_under E p before limit I q \<longleftrightarrow>
     triple I q (\<lambda>x. under E p before limit 0) (under E p before limit 0) (under E p before limit 0)"

lemma under_0: "under E p before limit n s \<Longrightarrow> under E p before limit 0 s"
  by (erule under_weaken) simp

lemma leaves_keeps:
  assumes "keeps I q" "\<And>s. I s \<Longrightarrow> under E p before limit n s"
  shows "leaves_under E p before limit I q"
  using assms(1) unfolding keeps_triple leaves_under_def by (rule triple_conseq) (auto dest: assms(2) under_0)

lemma leaves_bind:
  assumes "keeps I q" "\<And>s. I s \<Longrightarrow> under E p before limit n s" "\<And>x. leaves_under E p before limit I (f x)"
  shows "leaves_under E p before limit I (bindp q f)"
  unfolding leaves_under_def
proof (rule triple_bindp)
  show "triple I q (\<lambda>x. I) (under E p before limit 0) (under E p before limit 0)"
    using assms(1) unfolding keeps_triple by (rule triple_conseq) (auto dest: assms(2) under_0)
qed (use assms(3) in \<open>simp add: leaves_under_def\<close>)

lemma leaves_session:
  assumes "\<And>sid. leaves_under E p before limit (running E p before limit n sid) (f sid)"
  shows "leaves_under E p before limit (under E p before limit (Suc n)) (bindp (get_or_create_shell_session E seed) f)"
  unfolding leaves_under_def
proof (rule triple_bindp)
  show "triple (under E p before limit (Suc n)) (get_or_create_shell_session E seed) (\<lambda>sid. running E p before limit n sid)
      (under E p before limit 0) (under E p before limit 0)"
    by (rule triple_conseq [OF get_or_create_under [where n = n]]) (auto dest: under_0)
qed (use assms in \<open>simp add: leaves_under_def\<close>)

lemma leaves_strengthen:
  "leaves_under E p before limit I q \<Longrightarrow> (\<And>s. I' s \<Longrightarrow> I s) \<Longrightarrow> leaves_under E p before limit I' q"
  unfolding leaves_under_def by (rule triple_pre)

lemma leaves_sum:
  "(\<And>e. leaves_under E p before limit I (f e)) \<Longrightarrow> (\<And>x. leaves_under E p before limit I (g x)) \<Longrightarrow>
   leaves_under E p before limit I (case r of Inl e \<Rightarrow> f e | Inr x \<Rightarrow> g x)"
  by (cases r) simp_all

lemma leaves_if:
  "leaves_under E p before limit I q \<Longrightarrow> leaves_under E p before limit I r \<Longrightarrow> leaves_under E p before limit I (if b then q else r)"
  by simp

lemma leaves_ret:
  "leaves_under E p before limit (under E p before limit n) (ret x)"
  "leaves_under E p before limit (running E p before limit n sid) (ret x)"
  by (rule leaves_keeps [where n = n], auto intro: keeps_intros)+

lemma leaves_ask:
  assumes "leaves_under E p before limit (under E p before limit n) q"
  shows "leaves_under E p before limit (under E p before limit n) (bindp (ask_user E m) (\<lambda>ok. if ok then q else ret x))"
  by (intro leaves_bind [where n = n] keeps_ask_user leaves_if assms leaves_ret)

lemma leaves_generic:
  "leaves_under E p before limit (under E p before limit (Suc n)) (execute_generic_exec E cwd c ms a)"
  unfolding execute_generic_exec_def
  by (intro leaves_session leaves_keeps [where n = n] keeps_intros keeps_ran) auto

lemma leaves_nu_loop:
  "leaves_under E p before limit (running E p before limit (Suc n) sid) (managed_nu_loop E fuel cwd sid c ms a)"
proof (induction fuel arbitrary: a)
  case 0
  then show ?case by (auto intro!: leaves_keeps [where n = "Suc n"] simp: keeps_def)
next
  case (Suc fuel)
  have g: "leaves_under E p before limit (running E p before limit (Suc n) sid) (execute_generic_exec E cwd c ms a)" for ms a
    by (rule leaves_strengthen [OF leaves_generic [where n = n]]) simp
  have r: "leaves_under E p before limit (running E p before limit (Suc n) sid) (ret x)" for x :: exec_report
    by (rule leaves_keeps [where n = "Suc n"]) (auto intro: keeps_intros)
  show ?case
    unfolding managed_nu_loop.simps
    by (rule leaves_bind [where n = "Suc n", OF keeps_fork_eval], simp)
      (auto split: sum.splits option.splits intro!: g r Suc leaves_bind [where n = "Suc n", OF keeps_ask_user(2)])
qed

lemma handle_under:
  "triple (under E p before limit (Suc n)) (handle_exec_command_request E c cwd t bg p a)
     (\<lambda>x. under E p before limit n) (under E p before limit n) (under E p before limit n)"
proof (cases "check_command E [c] a")
  case None
  have "triple (under E p before limit (Suc n)) (generate_unique_session_id E) (\<lambda>x. under E p before limit n)
      (under E p before limit n) (under E p before limit n)"
    by (auto simp: triple_def generate_unique_session_id_def dest!: under_generate)
  moreover have "keeps (under E p before limit n)
      (seqp (trace_event (Ran c p)) (world_op (request_exec E sid c cwd t bg p)))" for sid
    by (intro keeps_intros keeps_trace_event_under) (simp add: runs_under_def)
  ultimately show ?thesis
    unfolding handle_exec_command_request_def checked_def None option.case keeps_triple by (rule triple_bindp)
next
  case (Some e)
  then show ?thesis
    by (auto simp: handle_exec_command_request_def checked_def triple_def intro: under_weaken)
qed

lemma isolated_under:
  "triple (under E p before limit (Suc n)) (run_isolated_exec_command E c bg ms cwd a)
     (\<lambda>x. under E p before limit n) (under E p before limit n) (under E p before limit n)"
  unfolding run_isolated_exec_command_def
proof (rule triple_asks)
  fix s assume s: "under E p before limit (Suc n) s"
  then have p: "pending_sandbox_policy s = p" by (simp add: under_def)
  have nu: "leaves E p before limit (Suc n) n (seqp (trace_event (Ran c p)) (world_op f)) (\<lambda>x. under E p before limit n)"
    for f :: "'a \<Rightarrow> (colossal_err + exec_output) \<times> 'a"
  proof -
    have "keeps (under E p before limit (Suc n)) (seqp (trace_event (Ran c p)) (world_op f))"
      by (intro keeps_intros keeps_trace_event_under) (simp add: runs_under_def)
    from triple_keeps_weak [OF this] show ?thesis by (rule triple_post) (auto intro: under_weaken)
  qed
  show "triple (\<lambda>t. t = s)
      (let c' = continuity_state (id s); policy = pending_sandbox_policy (id s);
           d = (if ps_current_cwd c' = workspace_root E then cwd else ps_current_cwd c')
       in if shell_is_nu E \<and> \<not> bg then
            seqp (trace_event (Ran c policy)) (world_op (nu_isolated E policy d c))
          else handle_exec_command_request E c d (if bg then None else Some ms) bg policy a)
      (\<lambda>x. under E p before limit n) (under E p before limit n) (under E p before limit n)"
    unfolding Let_def id_apply p using triple_at [OF nu s] triple_at [OF handle_under s] by simp
qed

lemma leaves_isolated:
  "fuel \<le> n \<Longrightarrow> leaves_under E p before limit (under E p before limit n) (execute_isolated_exec E fuel cwd c bg ms a)"
proof (induction fuel arbitrary: a n)
  case 0
  then show ?case by (auto intro!: leaves_keeps [where n = n] simp: keeps_def)
next
  case (Suc fuel)
  then obtain m where n: "n = Suc m" "fuel \<le> m" by (cases n) auto
  have iso: "triple (under E p before limit (Suc m)) (run_isolated_exec_command E c bg ms cwd a)
      (\<lambda>x. under E p before limit m) (under E p before limit 0) (under E p before limit 0)"
    by (rule triple_conseq [OF isolated_under [where n = m]]) (auto dest: under_0)
  have "leaves_under E p before limit (under E p before limit m)
      (case x of
         Inr out \<Rightarrow> ret (exec_command_output_to_yaml c out)
       | Inl e \<Rightarrow>
           (if approval_required e then
              bindp (ask_user E ((if bg then ''Allow background command: '' else ''Allow command: '') @ c))
                (\<lambda>ok. if ok then execute_isolated_exec E fuel cwd c bg ms Never else ret (denied_report c))
            else ret (ReportFailure c (err_to_string e))))" for x
    by (intro leaves_sum leaves_if leaves_ask leaves_ret Suc.IH n)
  then show ?case
    unfolding execute_isolated_exec.simps n leaves_under_def by (rule triple_bindp [OF iso])
qed

lemma keeps_clear:
  "keeps (running E p before limit n sid) (upd (clear_session sid'))"
  "keeps (running E p before limit n sid) (upd (\<lambda>s. s\<lparr>shell_session_id := None\<rparr>))"
proof -
  have "session_under E p sid s \<Longrightarrow> session_under E p sid (s\<lparr>shell_session_id := None\<rparr>)" for s :: "'a tool_state"
    by (simp add: session_under_def issued_def find_session_def)
  then show "keeps (running E p before limit n sid) (upd (clear_session sid'))"
    and "keeps (running E p before limit n sid) (upd (\<lambda>s. s\<lparr>shell_session_id := None\<rparr>))"
    by (auto simp: keeps_def under_forget clear_session_def)
qed

lemma leaves_finish:
  "leaves_under E p before limit (running E p before limit n sid) (finish_replay_state E sid c rs out)"
  unfolding finish_replay_state_def by (intro leaves_keeps [where n = n] keeps_intros keeps_clear) simp

lemma leaves_replay:
  "fuel \<le> n \<Longrightarrow>
   leaves_under E p before limit (under E p before limit n) (execute_replay_state E fuel retried cwd c ms rs a)"
proof (induction fuel arbitrary: a n retried)
  case 0
  then show ?case by (auto intro!: leaves_keeps [where n = n] simp: keeps_def)
next
  case (Suc fuel)
  then obtain m where n: "n = Suc m" "fuel \<le> m" by (cases n) auto
  have again: "leaves_under E p before limit (running E p before limit m sid)
      (execute_replay_state E fuel retried' cwd c ms rs a')" for sid retried' a'
    by (rule leaves_strengthen [OF Suc.IH [OF n(2)]]) simp
  show ?case
    unfolding execute_replay_state.simps n seqp_def
    by (intro leaves_session leaves_bind [where n = m] leaves_sum leaves_if leaves_ret leaves_finish again keeps_ran keeps_clear
        keeps_terminate_under keeps_ask_user) simp_all
qed

lemma leaves_exec_command:
  "leaves_under E p before limit (under E p before limit (fuel + 2)) (execute_exec_command E fuel J config cwd a)"
proof -
  have nu: "leaves_under E p before limit (under E p before limit (fuel + 2))
      (bindp (get_or_create_shell_session E seed) (\<lambda>sid. managed_nu_loop E fuel cwd sid c ms ap))" for seed c ms ap
    using leaves_session [where n = "Suc fuel", OF leaves_nu_loop] by simp
  show ?thesis
    unfolding execute_exec_command_def execute_managed_nu_foreground_def Let_def
    by (intro leaves_if leaves_ret nu leaves_isolated leaves_replay) simp_all
qed

lemma leaves_non_exec:
  "leaves_under E p before limit (under E p before limit n) (execute_non_exec_tool_call E J T W cwd name a)"
proof (rule leaves_keeps [where n = n])
  have tool: "keeps (under E p before limit n) (bindp (asks pending_sandbox_policy) f)"
    if "keeps (under E p before limit n) (f p)" for f :: "sandbox_policy \<Rightarrow> ('a tool_state, string option) prog"
    using that by (auto simp: keeps_def under_def)
  show "keeps (under E p before limit n) (execute_non_exec_tool_call E J T W cwd name a)"
    unfolding execute_non_exec_tool_call_def read_output_def web_answer_def Let_def
    by (intro keeps_intros tool keeps_trace_event_under) (simp add: runs_under_def)
qed simp

lemma leaves_answer:
  "leaves_under E p before limit I q \<Longrightarrow> leaves_under E p before limit I (bindp q (\<lambda>r. ret (g r)))"
  unfolding leaves_under_def by (rule triple_bindp) (auto intro: triple_ret)

text \<open>C3: everything that a tool call runs, a command of the agent, an entry of the journal that a new shell
  session replays or another tool, runs under the sandbox policy of the safety configuration at the time of the
  call, and the invariant of the sessions holds afterwards. Fewer than \<open>2 ^ 32\<close> identifiers may have been given
  out, \<open>fuel + 2\<close> of them during the call.\<close>

theorem tool_calls_run_under_policy:
  assumes "sessions_ok E s" "unat (next_session_id s) + fuel + 2 < 2 ^ 32"
  shows "\<exists>es. es_trace (snd (execute_tool_call E fuel J T W parse_json config cwd name txt s)) = es_trace s @ es
    \<and> list_all (runs_under (sandbox_policy_from_config_with_workspace (ee_safety_env E) config cwd)) es
    \<and> sessions_ok E (snd (execute_tool_call E fuel J T W parse_json config cwd name txt s))"
proof -
  let ?p = "sandbox_policy_from_config_with_workspace (ee_safety_env E) config cwd"
  let ?t = "s\<lparr>pending_sandbox_policy := ?p\<rparr>" and ?limit = "unat (next_session_id s) + fuel + 2"
  let ?under = "under E ?p (es_trace s) ?limit"
  have "issued E ?t = issued E s" by (simp add: issued_def fun_eq_iff)
  then have t: "?under (fuel + 2) ?t" using assms by (simp add: under_def sessions_ok_def find_session_def)
  have "leaves_under E ?p (es_trace s) ?limit (?under (fuel + 2))
      (bindp (lift_result (parse_json txt)) (\<lambda>a.
        if name = ''exec_command'' then
          bindp (execute_exec_command E fuel J config cwd a) (\<lambda>r. ret (CommandAnswer r))
        else
          bindp (execute_non_exec_tool_call E J T W cwd name a) (\<lambda>r.
            ret (TextAnswer (case r of
                Some t \<Rightarrow> t
              | None \<Rightarrow> ''Tool '' @ [CHR 0x27] @ name @ [CHR 0x27] @ '' executed (not fully implemented)'')))))"
    by (intro leaves_bind [where n = "fuel + 2", OF keeps_basic(5)] leaves_if leaves_answer leaves_exec_command leaves_non_exec)
  then have "?under 0 (snd (execute_tool_call E fuel J T W parse_json config cwd name txt s))"
    unfolding leaves_under_def execute_tool_call_def using triple_any t by fastforce
  then show ?thesis by (auto simp: under_def)
qed

theorem tool_calls_run_under_policy_witness:
  "sessions_ok sample_tools sample_state \<and> unat (next_session_id sample_state) + 3 + 2 < 2 ^ 32
   \<and> (\<exists>p. es_trace (snd (sample_tool_call sample_tools 3)) = [Asked ''Allow command: ls'', Answered True, Ran ''ls'' p]
        \<and> p = sandbox_policy_from_config_with_workspace (ee_safety_env sample_tools) safety_config_default ''/w'')"
proof -
  have s: "sessions_ok sample_tools sample_state" "unat (next_session_id sample_state) + 3 + 2 < 2 ^ 32"
    by (simp_all add: sessions_ok_def sample_state_def)
  obtain p where p: "es_trace (snd (sample_tool_call sample_tools 3)) = [Asked ''Allow command: ls'', Answered True, Ran ''ls'' p]"
    using sample_tool_call_trace by blast
  obtain es where "es_trace (snd (sample_tool_call sample_tools 3)) = es_trace sample_state @ es"
    "list_all (runs_under (sandbox_policy_from_config_with_workspace (ee_safety_env sample_tools) safety_config_default ''/w'')) es"
    using tool_calls_run_under_policy [OF s] unfolding sample_tool_call_def by blast
  with s p show ?thesis by (auto simp: sample_state_def runs_under_def)
qed

section \<open>A granted directory is lost\<close>

text \<open>A directory that the user makes writable when a command was blocked is not used: every tool call
  first computes the policy from the configuration again, so that the call does the same as without the
  grant.\<close>

theorem granted_root_is_lost:
  "execute_tool_call E fuel J T W parse_json config cwd name txt (snd (add_writable_root path s))
   = execute_tool_call E fuel J T W parse_json config cwd name txt s"
proof -
  have "(snd (add_writable_root path s))\<lparr>pending_sandbox_policy := p\<rparr> = s\<lparr>pending_sandbox_policy := p\<rparr>" for p
    by (simp add: add_writable_root_def split: sandbox_policy.splits)
  then show ?thesis by (simp add: execute_tool_call_def)
qed

end
