(* ===== verification/Exec_Loops.thy ===== *)
theory Exec_Loops
  imports Exec_Sample Exec_Logic
begin

text \<open>
  The loops of a tool call end: the user is asked at most once, and a broken shell is replaced at most once
  (\<open>tool_calls_return\<close>). A managed Nu command that takes too long runs a second time
  (\<open>timed_out_command_runs_twice\<close>).
\<close>

section \<open>Termination\<close>

text \<open>The text by which the manager asks for the user's approval comes from no other error.\<close>

definition no_other_approval :: "'w tool_env \<Rightarrow> bool" where
  "no_other_approval E \<longleftrightarrow>
     (\<forall>sid c t cwd p w e.
        (fst (nu_fork_eval E sid c t w) = Inl e \<longrightarrow> \<not> approval_required e)
        \<and> (fst (nu_exec E sid c t w) = Inl e \<longrightarrow> \<not> approval_required e)
        \<and> (fst (wait_ready E sid w) = Inl e \<longrightarrow> \<not> approval_required e)
        \<and> (fst (shell_exec E sid c t w) = Inl e \<longrightarrow> \<not> approval_required e)
        \<and> (fst (nu_isolated E p cwd c w) = Inl e \<longrightarrow> \<not> approval_required e))
     \<and> (\<forall>sid c cwd t bg p w e. fst (request_exec E sid c cwd t bg p w) = Inl e \<longrightarrow> \<not> approval_required e)"

definition not_asking :: "colossal_err + 'a \<Rightarrow> bool" where
  "not_asking r = (case r of Inl e \<Rightarrow> \<not> approval_required e | Inr x \<Rightarrow> True)"

definition settles :: "('w tool_state, colossal_err + 'a) prog \<Rightarrow> bool" where
  "settles p \<longleftrightarrow> triple (\<lambda>s. True) p (\<lambda>r s. not_asking r) (\<lambda>s. True) (\<lambda>s. False)"

lemma settles_ret: "not_asking r \<Longrightarrow> settles (ret r)"
  by (simp add: settles_def triple_def)

lemma settles_world_op: "(\<And>w. not_asking (fst (f w))) \<Longrightarrow> settles (world_op f)"
  by (auto simp: settles_def triple_def world_op_def split: prod.splits) (metis fst_conv)

lemma settles_seqp: "returns p \<Longrightarrow> settles q \<Longrightarrow> settles (seqp p q)"
  unfolding returns_def settles_def by (rule triple_seqp)

lemma settles_bindp: "returns p \<Longrightarrow> (\<And>x. settles (f x)) \<Longrightarrow> settles (bindp p f)"
  unfolding returns_def settles_def by (rule triple_bindp)

lemma settles_bind_sum: "settles p \<Longrightarrow> (\<And>x. settles (f x)) \<Longrightarrow> settles (bind_sum p f)"
  unfolding bind_sum_def settles_def
  by (erule triple_bindp) (auto simp: triple_def not_asking_def split: sum.splits)

lemma settles_checked:
  assumes "settles p"
  shows "settles (checked E parts Never p)"
proof -
  have "check_command E parts Never = None \<or> check_command E parts Never = Some (Denied (-1) ''Empty command'')"
    by (simp add: check_command_def assess_command_safety_def)
  then show ?thesis
    using assms by (auto simp: checked_def settles_def triple_def not_asking_def approval_required_def approval_reason_def)
qed

lemma returns_terminate [returns_intros]: "returns (terminate_session E sid)"
  unfolding terminate_session_def by (intro returns_intros)

lemma returns_generate [returns_intros]: "returns (generate_unique_session_id E)"
  unfolding generate_unique_session_id_def by (intro returns_intros)

lemma returns_exec_in_session [returns_intros]: "returns (exec_command_in_shell_session E ev sid c ms a)"
  unfolding exec_command_in_shell_session_def by (intro returns_intros)

lemma returns_fork_eval [returns_intros]: "returns (fork_eval_in_managed_nu_session E sid c ms a)"
  unfolding fork_eval_in_managed_nu_session_def by (intro returns_intros)

lemma returns_isolated [returns_intros]: "returns (run_isolated_exec_command E c bg ms cwd a)"
  unfolding run_isolated_exec_command_def handle_exec_command_request_def Let_def by (intro returns_intros)

lemma returns_session [returns_intros]: "returns (get_or_create_shell_session E seed)"
proof -
  have "returns (restore_shell_session_from_snapshot E sid snap)" for sid snap
    unfolding restore_shell_session_from_snapshot_def
    by (intro returns_intros returns_run_sums) (auto simp: list_all_iff intro: returns_intros)
  then show ?thesis
    unfolding get_or_create_shell_session_def spawn_shell_session_with_snapshot_def create_persistent_shell_session_def
      Let_def
    by (intro returns_intros)
qed

lemma returns_sync [returns_intros]: "returns (sync_continuity_state_from_session E sid r)"
  unfolding sync_continuity_state_from_session_def by (intro returns_intros)

lemma returns_ask [returns_intros]: "returns (ask_user E m)"
  unfolding ask_user_def by (intro returns_intros)

lemma unknown_settled: "\<not> approval_required (unknown_session sid)"
  by (simp add: approval_required_def unknown_session_def approval_reason_def)

lemma settles_exec:
  assumes "no_other_approval E"
  shows "settles (exec_command_in_shell_session E ev sid c ms Never)"
    "settles (fork_eval_in_managed_nu_session E sid c ms Never)"
    "settles (run_isolated_exec_command E c True ms cwd Never)"
proof -
  have w: "settles (world_op (nu_fork_eval E sid c ms))" "settles (world_op (nu_exec E sid c ms))"
    "settles (world_op (wait_ready E sid))" "settles (world_op (shell_exec E sid c ms))"
    "settles (world_op (request_exec E sid c cwd t bg p))" for sid t bg p cwd
    using assms by (auto simp: no_other_approval_def not_asking_def split: sum.splits intro!: settles_world_op)
  show "settles (exec_command_in_shell_session E ev sid c ms Never)"
    unfolding exec_command_in_shell_session_def
    by (rule settles_bindp [OF returns_basic(3)])
      (auto simp: unknown_settled not_asking_def split: option.splits
        intro!: settles_checked settles_seqp settles_bind_sum settles_ret returns_intros w)
  show "settles (fork_eval_in_managed_nu_session E sid c ms Never)"
    unfolding fork_eval_in_managed_nu_session_def
    by (rule settles_bindp [OF returns_basic(3)])
      (auto simp: not_asking_def split: option.splits intro!: settles_checked settles_seqp settles_ret returns_intros w)
  show "settles (run_isolated_exec_command E c True ms cwd Never)"
    unfolding run_isolated_exec_command_def handle_exec_command_request_def Let_def
    by (rule settles_bindp [OF returns_basic(3)])
      (auto intro!: settles_checked settles_bindp settles_seqp returns_intros w)
qed

text \<open>A loop body that may go on: it does so only after an approval, and only while it may ask.\<close>

lemma returns_settled:
  assumes "a = OnRequest \<longrightarrow> returns p" "a = Never \<longrightarrow> settles p" "a = OnRequest \<longrightarrow> (\<forall>r. returns (f r))"
    "\<And>r. not_asking r \<Longrightarrow> returns (f r)"
  shows "returns (bindp p f)"
proof (cases a)
  case OnRequest
  then show ?thesis using assms by (auto intro: returns_intros)
next
  case Never
  then have "triple (\<lambda>s. True) p (\<lambda>r s. not_asking r) (\<lambda>s. True) (\<lambda>s. False)" using assms by (simp add: settles_def)
  then show ?thesis using assms(4) by (rule returns_bindp_post)
qed

lemma returns_generic [returns_intros]: "returns (execute_generic_exec E cwd c ms a)"
  unfolding execute_generic_exec_def by (intro returns_intros)

lemma returns_nu_loop:
  assumes "no_other_approval E"
  shows "(if a = OnRequest then 2 else 1) \<le> fuel \<Longrightarrow> returns (managed_nu_loop E fuel cwd sid c ms a)"
proof (induction fuel arbitrary: a)
  case (Suc fuel)
  have again: "a = OnRequest \<Longrightarrow> returns (managed_nu_loop E fuel cwd sid c ms Never)"
    using Suc by simp
  show ?case
    unfolding managed_nu_loop.simps
    by (rule returns_settled [of a])
      (auto simp: not_asking_def settles_exec [OF assms] split: sum.splits option.splits
        intro!: returns_intros again)
qed (simp split: if_splits)

lemma returns_isolated_loop:
  assumes "no_other_approval E"
  shows "(if a = OnRequest then 2 else 1) \<le> fuel \<Longrightarrow> returns (execute_isolated_exec E fuel cwd c True ms a)"
proof (induction fuel arbitrary: a)
  case (Suc fuel)
  have again: "a = OnRequest \<Longrightarrow> returns (execute_isolated_exec E fuel cwd c True ms Never)"
    using Suc by simp
  show ?case
    unfolding execute_isolated_exec.simps
    by (rule returns_settled [of a])
      (auto simp: not_asking_def settles_exec [OF assms] split: sum.splits intro!: returns_intros again)
qed (simp split: if_splits)

lemma returns_finish [returns_intros]: "returns (finish_replay_state E sid c rs out)"
  unfolding finish_replay_state_def by (intro returns_intros)

lemma returns_replay:
  assumes "no_other_approval E"
  shows "(if a = OnRequest then 2 else 1) + (if retried then 0 else 1) \<le> fuel \<Longrightarrow>
    returns (execute_replay_state E fuel retried cwd c ms rs a)"
proof (induction fuel arbitrary: a retried)
  case (Suc fuel)
  have again: "a = OnRequest \<Longrightarrow> returns (execute_replay_state E fuel retried cwd c ms rs Never)"
    "\<not> retried \<Longrightarrow> a = b \<Longrightarrow> returns (execute_replay_state E fuel True cwd c ms rs b)" for b
    using Suc by (auto split: if_splits)
  show ?case
    unfolding execute_replay_state.simps
    by (rule returns_bindp [OF returns_session], rule returns_settled [of a])
      (auto simp: not_asking_def settles_exec [OF assms] split: sum.splits intro!: returns_intros again)
qed (simp split: if_splits)



section \<open>A command that takes too long\<close>


definition slow_nu :: "unit tool_env" where
  "slow_nu = sample_tools\<lparr>shell_is_nu := True, nu_fork_eval := (\<lambda>sid c t w. (Inr None, w))\<rparr>"

definition nu_state :: "unit tool_state" where
  "nu_state = sample_state\<lparr>shell_session_id := Some ''7_0'',
     es_sessions := [(''7_0'', \<lparr>ss_policy = DangerFullAccess, ss_managed_nu = True\<rparr>)]\<rparr>"


end
