(* ===== verification/Ui_Text.thy ===== *)
theory Ui_Text
  imports Rust_Prelude
begin

text \<open>
  Text as the terminal UI handles it (\<open>src/app\<close>): strings are addressed by character in some places and
  by byte in others. The theory gives the remaining functions of Rust's \<open>str\<close> that the UI calls, the
  notion of a valid encoding (\<open>utf8_ok\<close>), under which characters can be counted piecewise, and the facts
  that relate the two ways of addressing.
\<close>

section \<open>Characters and bytes\<close>

definition char_count :: "string \<Rightarrow> nat" where
  "char_count s = length (utf8_chars s)"

text \<open>A position between two characters: no continuation byte follows.\<close>

definition starts_char :: "string \<Rightarrow> bool" where
  "starts_char s \<longleftrightarrow> (case s of [] \<Rightarrow> True | c # t \<Rightarrow> \<not> is_continuation c)"

text \<open>The encoding of one code point: the first byte tells how many continuation bytes follow.\<close>

definition trailing_bytes :: "char \<Rightarrow> nat" where
  "trailing_bytes c =
     (let n = (of_char c :: nat)
      in if n < 0x80 then 0 else if n < 0xE0 then 1 else if n < 0xF0 then 2 else 3)"

definition code_point :: "string \<Rightarrow> bool" where
  "code_point c \<longleftrightarrow>
     (case c of
        [] \<Rightarrow> False
      | b # bs \<Rightarrow> \<not> is_continuation b \<and> list_all is_continuation bs \<and> length bs = trailing_bytes b)"

text \<open>Rust guarantees that a \<open>String\<close> is a sequence of code points.\<close>

definition utf8_ok :: "string \<Rightarrow> bool" where
  "utf8_ok s = list_all code_point (utf8_chars s)"

definition is_ascii :: "string \<Rightarrow> bool" where
  "is_ascii s = list_all (\<lambda>c. (of_char c :: nat) < 128) s"

lemma takeWhile_list_all: "list_all P xs \<Longrightarrow> takeWhile P xs = xs"
  and dropWhile_list_all: "list_all P xs \<Longrightarrow> dropWhile P xs = []"
  by (induction xs) simp_all

lemma takeWhile_upto_sep: "c \<notin> set s \<Longrightarrow> takeWhile (\<lambda>x. x \<noteq> c) (s @ c # t) = s"
  and dropWhile_upto_sep: "c \<notin> set s \<Longrightarrow> dropWhile (\<lambda>x. x \<noteq> c) (s @ c # t) = c # t"
  by (induction s) auto

lemma takeWhile_not_white:
  "list_all (\<lambda>c. \<not> P c) cs \<Longrightarrow> P w \<Longrightarrow> takeWhile (\<lambda>x. \<not> P x) (cs @ w # ds) = cs"
  and dropWhile_not_white:
  "list_all (\<lambda>c. \<not> P c) cs \<Longrightarrow> P w \<Longrightarrow> dropWhile (\<lambda>x. \<not> P x) (cs @ w # ds) = w # ds"
  by (induction cs) simp_all

lemma starts_char_Nil [simp]: "starts_char []"
  and starts_char_Cons [simp]: "starts_char (c # s) \<longleftrightarrow> \<not> is_continuation c"
  by (simp_all add: starts_char_def)

lemma starts_char_append: "starts_char s \<Longrightarrow> starts_char t \<Longrightarrow> starts_char (s @ t)"
  by (cases s) simp_all

lemma code_point_not_Nil [simp]: "\<not> code_point []"
  by (simp add: code_point_def)

lemma code_point_starts: "code_point c \<Longrightarrow> starts_char c"
  by (auto simp: code_point_def split: list.splits)

lemma utf8_ok_starts: "utf8_ok s \<Longrightarrow> starts_char s"
  by (cases s) (simp_all add: utf8_ok_def code_point_def)

lemma takeWhile_append_utf8 [simp]:
  "starts_char t \<Longrightarrow> takeWhile is_continuation (s @ t) = takeWhile is_continuation s"
  by (induction s) (auto simp: starts_char_def split: list.splits)

lemma dropWhile_append_utf8 [simp]:
  "starts_char t \<Longrightarrow> dropWhile is_continuation (s @ t) = dropWhile is_continuation s @ t"
  by (induction s) (auto simp: starts_char_def split: list.splits)

lemma utf8_chars_append:
  "starts_char t \<Longrightarrow> utf8_chars (s @ t) = utf8_chars s @ utf8_chars t"
  by (induction s rule: utf8_chars.induct) simp_all

lemma char_count_append: "starts_char t \<Longrightarrow> char_count (s @ t) = char_count s + char_count t"
  by (simp add: char_count_def utf8_chars_append)

lemma utf8_ok_Nil [simp]: "utf8_ok []"
  by (simp add: utf8_ok_def)

lemma utf8_ok_append: "utf8_ok s \<Longrightarrow> utf8_ok t \<Longrightarrow> utf8_ok (s @ t)"
  by (simp add: utf8_ok_def utf8_chars_append utf8_ok_starts)

lemma utf8_ok_append_iff: "starts_char t \<Longrightarrow> utf8_ok (s @ t) \<longleftrightarrow> utf8_ok s \<and> utf8_ok t"
  by (simp add: utf8_ok_def utf8_chars_append)

lemma char_count_Nil [simp]: "char_count [] = 0"
  by (simp add: char_count_def)

lemma char_count_0 [simp]: "char_count s = 0 \<longleftrightarrow> s = []"
  by (cases s) (simp_all add: char_count_def)

lemma utf8_chars_code_point: "code_point c \<Longrightarrow> utf8_chars c = [c]"
  by (cases c) (simp_all add: code_point_def takeWhile_list_all dropWhile_list_all)

lemma code_point_utf8_ok: "code_point c \<Longrightarrow> utf8_ok c"
  by (simp add: utf8_ok_def utf8_chars_code_point)

lemma char_count_code_point [simp]: "code_point c \<Longrightarrow> char_count c = 1"
  by (simp add: char_count_def utf8_chars_code_point)

lemma starts_char_concat: "list_all code_point cs \<Longrightarrow> starts_char (concat cs)"
  by (induction cs) (auto intro: starts_char_append code_point_starts)

lemma utf8_chars_concat: "list_all code_point cs \<Longrightarrow> utf8_chars (concat cs) = cs"
  by (induction cs) (simp_all add: utf8_chars_append starts_char_concat utf8_chars_code_point)

lemma utf8_ok_concat: "list_all code_point cs \<Longrightarrow> utf8_ok (concat cs)"
  by (simp add: utf8_ok_def utf8_chars_concat)

lemma utf8_chars_points: "utf8_ok s \<Longrightarrow> list_all code_point (utf8_chars s)"
  by (simp add: utf8_ok_def)

lemma points_take: "utf8_ok s \<Longrightarrow> list_all code_point (take n (utf8_chars s))"
  using utf8_chars_points [of s] by (auto simp: list_all_iff dest: in_set_takeD)

lemma points_drop: "utf8_ok s \<Longrightarrow> list_all code_point (drop n (utf8_chars s))"
  using utf8_chars_points [of s] by (auto simp: list_all_iff dest: in_set_dropD)

lemma ascii_code_point: "(of_char c :: nat) < 128 \<Longrightarrow> code_point [c]"
  by (simp add: code_point_def is_continuation_def trailing_bytes_def)

lemma utf8_ok_ascii [simp]:
  assumes "(of_char c :: nat) < 128"
  shows "utf8_ok (c # s) \<longleftrightarrow> utf8_ok s"
proof
  assume ok: "utf8_ok (c # s)"
  then have "takeWhile is_continuation s = []"
    using assms by (simp add: utf8_ok_def code_point_def trailing_bytes_def)
  then have "starts_char s" by (cases s) (auto split: if_splits)
  then show "utf8_ok s" using ok utf8_ok_append_iff [of s "[c]"] by simp
next
  assume "utf8_ok s"
  then show "utf8_ok (c # s)"
    using utf8_ok_append [of "[c]" s] code_point_utf8_ok [OF ascii_code_point [OF assms]] by simp
qed

lemma utf8_chars_take: "utf8_ok s \<Longrightarrow> utf8_chars (concat (take n (utf8_chars s))) = take n (utf8_chars s)"
  by (rule utf8_chars_concat [OF points_take])

lemma utf8_chars_drop: "utf8_ok s \<Longrightarrow> utf8_chars (concat (drop n (utf8_chars s))) = drop n (utf8_chars s)"
  by (rule utf8_chars_concat [OF points_drop])

lemma char_count_le: "char_count s \<le> length s"
proof (induction s rule: utf8_chars.induct)
  case (2 c cs)
  then show ?case
    using length_dropWhile_le [of is_continuation cs] by (simp add: char_count_def)
qed simp

lemma is_ascii_Nil [simp]: "is_ascii []"
  and is_ascii_Cons [simp]: "is_ascii (c # s) \<longleftrightarrow> (of_char c :: nat) < 128 \<and> is_ascii s"
  and is_ascii_append [simp]: "is_ascii (s @ t) \<longleftrightarrow> is_ascii s \<and> is_ascii t"
  by (simp_all add: is_ascii_def)

lemma is_ascii_utf8_ok: "is_ascii s \<Longrightarrow> utf8_ok s"
  by (induction s) simp_all

lemma ascii_chars: "is_ascii s \<Longrightarrow> utf8_chars s = map (\<lambda>c. [c]) s"
proof (induction s)
  case (Cons c s)
  then show ?case
    using utf8_chars_append [of s "[c]"] utf8_ok_starts [OF is_ascii_utf8_ok, of s]
    by (simp add: is_continuation_def)
qed simp

lemma ascii_char_count: "is_ascii s \<Longrightarrow> char_count s = length s"
  by (simp add: char_count_def ascii_chars)

section \<open>Byte positions\<close>

text \<open>\<open>str::is_char_boundary\<close>; \<open>String::insert_str\<close> panics (\<open>None\<close>) off a boundary.\<close>

definition is_char_boundary :: "string \<Rightarrow> nat \<Rightarrow> bool" where
  "is_char_boundary s i \<longleftrightarrow> i = length s \<or> i < length s \<and> starts_char (drop i s)"

definition insert_str :: "nat \<Rightarrow> string \<Rightarrow> string \<Rightarrow> string option" where
  "insert_str i t s = (if is_char_boundary s i then Some (take i s @ t @ drop i s) else None)"

text \<open>The offsets of \<open>str::char_indices\<close>.\<close>

definition char_offsets :: "string \<Rightarrow> nat list" where
  "char_offsets s = map (\<lambda>i. length (concat (take i (utf8_chars s)))) [0..<char_count s]"

lemma length_char_offsets [simp]: "length (char_offsets s) = char_count s"
  by (simp add: char_offsets_def)

lemma split_at_char:
  "concat (take n (utf8_chars s)) @ concat (drop n (utf8_chars s)) = s"
  by (metis append_take_drop_id concat_append concat_utf8_chars)

lemma take_char_offset:
  "n \<le> char_count s \<Longrightarrow> take (length (concat (take n (utf8_chars s)))) s = concat (take n (utf8_chars s))"
  by (metis append_eq_conv_conj split_at_char)

lemma drop_char_offset:
  "n \<le> char_count s \<Longrightarrow> drop (length (concat (take n (utf8_chars s)))) s = concat (drop n (utf8_chars s))"
  by (metis append_eq_conv_conj split_at_char)

lemma utf8_ok_drop_chars: "utf8_ok s \<Longrightarrow> utf8_ok (concat (drop n (utf8_chars s)))"
  by (rule utf8_ok_concat [OF points_drop])

lemma utf8_ok_take_chars: "utf8_ok s \<Longrightarrow> utf8_ok (concat (take n (utf8_chars s)))"
  by (rule utf8_ok_concat [OF points_take])

section \<open>Searching and splitting\<close>

text \<open>\<open>str::replace\<close>: the matches are found from left to right and do not overlap.\<close>

function replace_all :: "'a list \<Rightarrow> 'a list \<Rightarrow> 'a list \<Rightarrow> 'a list" where
  "replace_all p r [] = []"
| "replace_all p r (c # s) =
     (if p \<noteq> [] \<and> starts_with p (c # s) then r @ replace_all p r (drop (length p) (c # s))
      else c # replace_all p r s)"
  by pat_completeness auto
termination
  by (relation "measure (\<lambda>(p, r, s). length s)") (auto simp: starts_with_def split: if_splits)

text \<open>\<open>trim_start_matches\<close> and \<open>trim_end_matches\<close> remove a pattern as often as it occurs.\<close>

definition trim_start_matches :: "string \<Rightarrow> string \<Rightarrow> string" where
  "trim_start_matches p s = strip_codes [p] s"

definition trim_end_matches :: "string \<Rightarrow> string \<Rightarrow> string" where
  "trim_end_matches p s = rev (strip_codes [rev p] (rev s))"

lemma strip_codes_stop: "list_all (\<lambda>c. \<not> starts_with c s) cs \<Longrightarrow> strip_codes cs s = s"
  by (subst strip_codes.simps) (auto simp: list_all_iff find_None_iff split: option.splits dest!: find_Some_iff [THEN iffD1])

lemma trim_start_matches_stop [simp]: "\<not> starts_with p s \<Longrightarrow> trim_start_matches p s = s"
  by (simp add: trim_start_matches_def strip_codes_stop)

lemma trim_start_matches_step: "p \<noteq> [] \<Longrightarrow> trim_start_matches p (p @ s) = trim_start_matches p s"
  unfolding trim_start_matches_def by (subst strip_codes.simps) simp

lemma trim_end_matches_stop: "s = [] \<or> last s \<noteq> c \<Longrightarrow> trim_end_matches [c] s = s"
  unfolding trim_end_matches_def
  by (cases s rule: rev_cases) (simp_all add: strip_codes_stop)

lemma trim_end_matches_step: "trim_end_matches [c] (s @ [c]) = trim_end_matches [c] s"
  unfolding trim_end_matches_def by (subst strip_codes.simps) simp

text \<open>\<open>str::splitn\<close> on one character.\<close>

fun splitn :: "nat \<Rightarrow> 'a \<Rightarrow> 'a list \<Rightarrow> 'a list list" where
  "splitn 0 c s = []"
| "splitn (Suc 0) c s = [s]"
| "splitn (Suc (Suc n)) c s =
     (if c \<in> set s
      then takeWhile (\<lambda>x. x \<noteq> c) s # splitn (Suc n) c (tl (dropWhile (\<lambda>x. x \<noteq> c) s))
      else [s])"

lemma splitn_atom: "c \<notin> set s \<Longrightarrow> splitn (Suc (Suc n)) c (s @ c # t) = s # splitn (Suc n) c t"
  by (simp add: takeWhile_upto_sep dropWhile_upto_sep)

lemma splitn_last: "c \<notin> set s \<Longrightarrow> splitn (Suc n) c s = [s]"
  by (cases n) simp_all

text \<open>\<open>str::split_whitespace\<close>: the maximal runs of characters that are not white space.\<close>

definition is_white :: "string \<Rightarrow> bool" where
  "is_white c \<longleftrightarrow> c \<in> set ws_codes"

function words_of :: "string list \<Rightarrow> string list" where
  "words_of [] = []"
| "words_of (c # cs) =
     (if is_white c then words_of cs
      else concat (c # takeWhile (\<lambda>x. \<not> is_white x) cs) # words_of (dropWhile (\<lambda>x. \<not> is_white x) cs))"
  by pat_completeness auto
termination
  by (relation "measure length") (auto intro: le_imp_less_Suc length_dropWhile_le)

definition split_whitespace :: "string \<Rightarrow> string list" where
  "split_whitespace s = words_of (utf8_chars s)"

text \<open>A word: no character of it is white space.\<close>

definition word_ok :: "string \<Rightarrow> bool" where
  "word_ok w \<longleftrightarrow> w \<noteq> [] \<and> utf8_ok w \<and> list_all (\<lambda>c. \<not> is_white c) (utf8_chars w)"

lemma words_of_word:
  "list_all (\<lambda>c. \<not> is_white c) cs \<Longrightarrow> cs \<noteq> [] \<Longrightarrow> words_of cs = [concat cs]"
  by (cases cs) (simp_all add: takeWhile_list_all dropWhile_list_all)

lemma words_of_append:
  "list_all (\<lambda>c. \<not> is_white c) cs \<Longrightarrow> cs \<noteq> [] \<Longrightarrow> is_white w \<Longrightarrow>
   words_of (cs @ w # ds) = concat cs # words_of ds"
  by (cases cs) (simp_all add: takeWhile_not_white dropWhile_not_white)

lemma utf8_chars_not_Nil [simp]: "utf8_chars w \<noteq> [] \<longleftrightarrow> w \<noteq> []"
  by (cases w) simp_all

lemma space_white: "is_white '' ''" and space_first: "\<not> is_continuation (CHR '' '')"
  and space_ascii: "(of_char (CHR '' '') :: nat) < 128"
  by (simp_all add: is_white_def ws_codes_def is_continuation_def)

lemma split_whitespace_step:
  assumes "word_ok w" "utf8_ok r"
  shows "split_whitespace (w @ '' '' @ r) = w # split_whitespace r"
proof -
  have "utf8_chars ('' '' @ r) = '' '' # utf8_chars r"
    using utf8_chars_append [OF utf8_ok_starts [OF assms(2)], of "'' ''"] by simp
  moreover have "starts_char ('' '' @ r)" by (simp add: space_first)
  ultimately show ?thesis
    using assms space_white
    by (simp add: split_whitespace_def utf8_chars_append words_of_append word_ok_def)
qed

lemma split_whitespace_join:
  assumes "list_all word_ok ws"
  shows "split_whitespace (join '' '' ws) = ws \<and> utf8_ok (join '' '' ws)"
  using assms
proof (induction ws rule: induct_list012)
  case (2 w)
  then show ?case
    by (simp add: split_whitespace_def words_of_word word_ok_def)
next
  case (3 w v ws)
  then have "word_ok w" "utf8_ok (join '' '' (v # ws))" "split_whitespace (join '' '' (v # ws)) = v # ws"
    by simp_all
  moreover from this have "utf8_ok (w @ '' '' @ join '' '' (v # ws))"
    by (intro utf8_ok_append) (simp_all add: word_ok_def)
  ultimately show ?case
    by (simp add: split_whitespace_step del: append_Cons append_Nil)
qed (simp add: split_whitespace_def)

lemma ws_codes_points: "list_all code_point ws_codes"
  by (simp add: ws_codes_def code_point_def is_continuation_def trailing_bytes_def)

lemma trim_end_stop:
  assumes "\<not> is_white (last (utf8_chars s))"
  shows "trim_end s = s"
proof -
  have "\<not> starts_with (rev w) (rev s)" if w: "w \<in> set ws_codes" for w
  proof
    assume "starts_with (rev w) (rev s)"
    then obtain t where "rev s = rev w @ t" by (auto simp: starts_with_iff)
    then have s: "s = rev t @ w" by (metis rev_append rev_rev_ident)
    have "code_point w" using w ws_codes_points by (auto simp: list_all_iff)
    then have "last (utf8_chars s) = w"
      unfolding s by (simp add: utf8_chars_append code_point_starts utf8_chars_code_point)
    with w assms show False by (simp add: is_white_def)
  qed
  then have "list_all (\<lambda>c. \<not> starts_with c (rev s)) (map rev ws_codes)" by (auto simp: list_all_iff)
  then show ?thesis by (simp add: trim_end_def strip_codes_stop)
qed

lemma word_ok_last: "word_ok w \<Longrightarrow> \<not> is_white (last (utf8_chars w))"
  by (auto simp: word_ok_def list_all_iff)

lemma last_join_words:
  assumes "list_all word_ok ws" "ws \<noteq> []"
  shows "\<not> is_white (last (utf8_chars (join '' '' ws))) \<and> join '' '' ws \<noteq> []"
  using assms
proof (induction ws rule: induct_list012)
  case (3 w v ws)
  let ?r = "join '' '' (v # ws)"
  have r: "utf8_ok ?r" "\<not> is_white (last (utf8_chars ?r))" "?r \<noteq> []"
    using 3 split_whitespace_join by simp_all
  then have "utf8_chars ((w @ '' '') @ ?r) = utf8_chars (w @ '' '') @ utf8_chars ?r"
    by (intro utf8_chars_append utf8_ok_starts)
  with r have "last (utf8_chars ((w @ '' '') @ ?r)) = last (utf8_chars ?r)" by simp
  with r show ?case by simp
qed (auto simp: word_ok_last word_ok_def)

text \<open>A line of words that starts with a slash has no white space at its ends.\<close>

lemma trim_start_slash: "trim_start (CHR ''/'' # w) = CHR ''/'' # w"
proof -
  have "list_all (\<lambda>c. \<not> starts_with c (CHR ''/'' # w)) ws_codes" by (simp add: ws_codes_def)
  then show ?thesis by (simp only: trim_start_def strip_codes_stop)
qed

text \<open>An ASCII text from a slash to a visible character has nothing to trim.\<close>

lemma trim_ascii_slash:
  assumes "is_ascii (CHR ''/'' # s)" "32 < (of_char (last (CHR ''/'' # s)) :: nat)"
  shows "trim (CHR ''/'' # s) = CHR ''/'' # s"
proof -
  let ?c = "last (CHR ''/'' # s)"
  have "(of_char ?c :: nat) < 128" using assms(1) by (auto simp: is_ascii_def list_all_iff)
  then have "\<not> is_white [?c]"
    using assms(2) unfolding is_white_def ws_codes_def by auto
  moreover have "last (utf8_chars (CHR ''/'' # s)) = [?c]"
    unfolding ascii_chars [OF assms(1)] by (rule last_map) simp
  ultimately show ?thesis unfolding trim_def trim_start_slash by (intro trim_end_stop) simp
qed

lemma trim_slash_words:
  assumes "list_all word_ok ws" "join '' '' ws = CHR ''/'' # s"
  shows "trim (join '' '' ws) = join '' '' ws"
proof -
  have "list_all (\<lambda>c. \<not> starts_with c (CHR ''/'' # s)) ws_codes" by (simp add: ws_codes_def)
  then have "trim_start (join '' '' ws) = join '' '' ws"
    by (simp only: trim_start_def assms(2) strip_codes_stop)
  moreover have "ws \<noteq> []" using assms by auto
  ultimately show ?thesis
    using trim_end_stop last_join_words [OF assms(1)] by (simp add: trim_def)
qed

section \<open>Lines\<close>

lemma LF_ascii: "(of_char LF :: nat) < 128" and CR_ascii: "(of_char CR :: nat) < 128"
  and LF_not_continuation: "\<not> is_continuation LF" and CR_not_continuation: "\<not> is_continuation CR"
  by (simp_all add: LF_def CR_def is_continuation_def)

lemma code_point_LF: "code_point c \<Longrightarrow> LF \<in> set c \<Longrightarrow> c = [LF]"
  using LF_ascii LF_not_continuation
  by (auto simp: code_point_def list_all_iff trailing_bytes_def Let_def split: list.splits)

lemma split_on_prefix:
  "c \<notin> set p \<Longrightarrow> split_on c (p @ s) = (p @ hd (split_on c s)) # tl (split_on c s)"
proof (induction p)
  case Nil
  then show ?case by (cases "split_on c s") (auto dest: arg_cong [where f = length])
qed (auto split: list.splits)

lemma split_on_points:
  "list_all code_point cs \<Longrightarrow>
     list_all utf8_ok (split_on LF (concat cs))
     \<and> sum_list (map (\<lambda>p. char_count p + 1) (split_on LF (concat cs))) = length cs + 1"
proof (induction cs)
  case (Cons c cs)
  show ?case
  proof (cases "c = [LF]")
    case False
    then have "LF \<notin> set c" using Cons code_point_LF by auto
    moreover obtain y ys where "split_on LF (concat cs) = y # ys"
      using split_on_not_Nil list.exhaust by metis
    ultimately show ?thesis
      using Cons by (simp add: split_on_prefix utf8_ok_append code_point_utf8_ok char_count_append
          utf8_ok_starts)
  qed (use Cons in simp)
qed simp

lemma split_lines_chars:
  assumes "utf8_ok s"
  shows "list_all utf8_ok (split_on LF s)"
    and "sum_list (map (\<lambda>p. char_count p + 1) (split_on LF s)) = char_count s + 1"
  using split_on_points [OF utf8_chars_points [OF assms]] by (simp_all add: char_count_def)

lemma strip_cr_le:
  assumes "utf8_ok l"
  shows "char_count (strip_cr l) \<le> char_count l"
proof (cases "l \<noteq> [] \<and> last l = CR")
  case True
  then have l: "l = butlast l @ [CR]" by (metis append_butlast_last_id)
  have "char_count (butlast l @ [CR]) = char_count (butlast l) + char_count [CR]"
    by (rule char_count_append) (simp add: CR_not_continuation)
  then show ?thesis using True l by (simp add: strip_cr_def)
qed (auto simp: strip_cr_def)

lemma sum_list_mono_list_all:
  "list_all (\<lambda>x. f x \<le> (g x :: nat)) xs \<Longrightarrow> sum_list (map f xs) \<le> sum_list (map g xs)"
  by (induction xs) (simp_all add: add_mono)

text \<open>The lines of a text, with one more position for each, have no more characters than the text.\<close>

lemma lines_chars:
  assumes "utf8_ok s"
  shows "sum_list (map (\<lambda>l. char_count l + 1) (str_lines s)) \<le> char_count s + 1"
proof -
  obtain ps p where ps: "split_on LF s = ps @ [p]"
    using split_on_not_Nil append_butlast_last_id by metis
  have "list_all (\<lambda>l. char_count (strip_cr l) + 1 \<le> char_count l + 1) ps"
    using split_lines_chars(1) [OF assms] strip_cr_le by (auto simp: ps list_all_iff)
  from sum_list_mono_list_all [OF this]
  have "sum_list (map (\<lambda>l. char_count l + 1) (map strip_cr ps)) \<le> sum_list (map (\<lambda>l. char_count l + 1) ps)"
    by (simp add: comp_def)
  then show ?thesis
    using split_lines_chars(2) [OF assms] by (auto simp: str_lines_def ps Let_def)
qed

section \<open>Escapes\<close>

definition BSLASH :: char where "BSLASH = CHR 0x5C"

lemma replace_single: "replace_all [c] r s = concat (map (\<lambda>x. if x = c then r else [x]) s)"
  by (induction s) simp_all

lemma replace_single_atom: "c \<notin> set p \<Longrightarrow> replace_all [c] r p = p"
  by (induction p) auto

lemma replace_single_append: "replace_all [c] r (s @ t) = replace_all [c] r s @ replace_all [c] r t"
  by (simp add: replace_single)

text \<open>How the replacement of an escape meets the pieces of an encoded text.\<close>

lemma replace_step:
  "c \<noteq> BSLASH \<Longrightarrow> replace_all (BSLASH # q) r (c # s) = c # replace_all (BSLASH # q) r s"
  by simp

lemma replace_skip:
  "BSLASH \<notin> set t \<Longrightarrow> replace_all (BSLASH # q) r (t @ s) = t @ replace_all (BSLASH # q) r s"
  by (induction t) auto

lemma replace_miss:
  "\<not> starts_with q s \<Longrightarrow>
   replace_all (BSLASH # q) r (BSLASH # s) = BSLASH # replace_all (BSLASH # q) r s"
  by simp

lemma replace_hit:
  "replace_all (BSLASH # q) r (BSLASH # q @ s) = r @ replace_all (BSLASH # q) r s"
  by simp

text \<open>A pattern of ordinary characters is met in the encoding exactly where it is met in the text.\<close>

lemma starts_encoded:
  assumes "\<And>c. f c = [c] \<or> (\<exists>q. f c = BSLASH # q)" "BSLASH \<notin> set p"
    and "\<And>c. c \<in> set p \<Longrightarrow> f c = [c]"
  shows "starts_with p (concat (map f v)) \<longleftrightarrow> starts_with p v"
  using assms(2,3)
proof (induction p arbitrary: v)
  case (Cons x p)
  show ?case
  proof (cases v)
    case v: (Cons c w)
    have IH: "starts_with p (concat (map f w)) \<longleftrightarrow> starts_with p w"
      using Cons.prems by (intro Cons.IH) auto
    from assms(1) [of c] show ?thesis
    proof
      assume "\<exists>q. f c = BSLASH # q"
      then show ?thesis using v Cons.prems by auto
    qed (use v IH in simp)
  qed simp
qed simp

lemma contains_iff: "contains p s \<longleftrightarrow> (\<exists>i \<le> length s. starts_with p (drop i s))"
  by (auto simp: contains_def list_ex_iff less_Suc_eq_le simp del: upt_Suc)

lemma contains_front: "starts_with p s \<Longrightarrow> contains p s"
  by (auto simp: contains_iff intro: exI [of _ 0])

lemma contains_tail: "contains p s \<Longrightarrow> contains p (c # s)"
  unfolding contains_iff by (metis Suc_le_mono drop_Suc_Cons length_Cons)

lemma backslashes_kept:
  assumes "\<not> starts_with q s" "hd q \<noteq> BSLASH" "q \<noteq> []"
  shows "replace_all (BSLASH # q) r (BSLASH # BSLASH # s)
      = BSLASH # BSLASH # replace_all (BSLASH # q) r s"
proof -
  have "\<not> starts_with q (BSLASH # s)" using assms(2,3) by (cases q) auto
  then show ?thesis using replace_miss assms(1) by metis
qed

end
