(* ===== verification/Slash_Commands.thy ===== *)
theory Slash_Commands
  imports Ui_Text
begin

text \<open>
  The slash commands of the terminal UI: the catalogue that autocompletion offers
  (\<open>src/app/commands/catalog.rs\<close>), the parser (\<open>parse.rs\<close>), the dispatch type (\<open>dispatch.rs\<close>) and the
  routing of a dispatched command to the asynchronous part of the program (\<open>src/app/runtime/loop.rs\<close>).

  The parser calls \<open>str::to_lowercase\<close>, which depends on the Unicode tables; it is the argument \<open>lower\<close>.
  What the theorems need of it is that it maps ASCII text as the ASCII function does (\<open>lower_ascii\<close>).
\<close>

section \<open>Data\<close>

datatype review_type = ReviewAll | ReviewCommitted | ReviewUncommitted

record review_options =
  ro_review_type :: review_type
  ro_base_branch :: "string option"
  ro_base_commit :: "string option"
  ro_no_tool :: bool

definition review_options_default :: review_options where
  "review_options_default =
     \<lparr>ro_review_type = ReviewAll, ro_base_branch = None, ro_base_commit = None, ro_no_tool = False\<rparr>"

datatype parsed_slash_command =
    PClear | PExit | PExport
  | PSummarize "string option"
  | PAutoSummarize string
  | PHelp | PConnect | PResume | PRewind | PFork | PVim | PTodos | PShells | PModel
  | PSafety "string list"
  | PReview review_options
  | PSpec string
  | PInvalid string
  | PUnknown string

datatype slash_command_dispatch =
    DClear | DExit | DExport
  | DSummarize "string option"
  | DAutoSummarize string
  | DHelp | DConnect | DResume | DRewind | DFork | DVim | DTodos | DShells | DModel
  | DSafety "string list"
  | DReview review_options
  | DSpec string
  | DInvalid string
  | DUnknown string

text \<open>\<open>SLASH_COMMANDS\<close>: the commands with their descriptions.\<close>

definition slash_commands :: "(string \<times> string) list" where
  "slash_commands =
     [(''/clear'', ''clear conversation history and free up context''),
      (''/connect'', ''connect an OpenAI-compatible provider account''),
      (''/exit'', ''exit the repl''),
      (''/export'', ''export the current conversation to a file or clipboard''),
      (''/fork'', ''fork (copy) a saved conversation as a new conversation''),
      (''/help'', ''show help information and available commands''),
      (''/model'', ''set the ai model for colossal code''),
      (''/resume'', ''resume a conversation''),
      (''/review'', ''review code changes. options: -t <all|committed|uncommitted>, --base <branch>, --base-commit <commit>, --no-tool''),
      (''/rewind'', ''restore the code and/or conversation to a previous point''),
      (''/safety'', ''configure safety mode (yolo/regular/readonly) and permissions''),
      (''/shells'', ''list and manage background shell sessions''),
      (''/status'', ''show tool statuses''),
      (''/stats'', ''show the total token count and duration of the current session''),
      (''/summarize'', ''summarize conversation to reduce context. optional: /summarize [custom instructions]''),
      (''/autosummarize'', ''show or set the auto-summarize trigger percent (percent of context used)''),
      (''/todos'', ''list current todo items''),
      (''/vim'', ''toggle between vim and normal editing modes''),
      (''/spec'', ''show current spec or load a new spec. usage: /spec [path|goal]''),
      (''/spec split'', ''split a step into sub-steps. usage: /spec split <index>''),
      (''/spec status'', ''show detailed spec status as JSON (steps + history)''),
      (''/spec abort'', ''abort the current orchestrator run'')]"

section \<open>Parsing\<close>

text \<open>The loop of \<open>parse_review_options\<close> over the words after the command.\<close>

fun review_loop :: "(string \<Rightarrow> string) \<Rightarrow> review_options \<Rightarrow> string list \<Rightarrow> string + review_options" where
  "review_loop lower opts [] = Inr opts"
| "review_loop lower opts (p # rest) =
     (if p = ''-t'' \<or> p = ''--type'' then
        (case rest of
           [] \<Rightarrow> Inl ''Missing value for -t/--type''
         | v # others \<Rightarrow>
             (if lower v = ''all'' then review_loop lower (opts\<lparr>ro_review_type := ReviewAll\<rparr>) others
              else if lower v = ''committed'' then review_loop lower (opts\<lparr>ro_review_type := ReviewCommitted\<rparr>) others
              else if lower v = ''uncommitted'' then review_loop lower (opts\<lparr>ro_review_type := ReviewUncommitted\<rparr>) others
              else Inl (''Invalid review type '' @ [CHR 0x27] @ lower v @ [CHR 0x27] @ ''. Use: all, committed, uncommitted'')))
      else if p = ''--base'' then
        (case rest of
           [] \<Rightarrow> Inl ''Missing value for --base''
         | v # others \<Rightarrow> review_loop lower (opts\<lparr>ro_base_branch := Some v\<rparr>) others)
      else if p = ''--base-commit'' then
        (case rest of
           [] \<Rightarrow> Inl ''Missing value for --base-commit''
         | v # others \<Rightarrow> review_loop lower (opts\<lparr>ro_base_commit := Some v\<rparr>) others)
      else if p = ''--no-tool'' then review_loop lower (opts\<lparr>ro_no_tool := True\<rparr>) rest
      else Inl (''Unknown option '' @ [CHR 0x27] @ p @ [CHR 0x27]
             @ ''. Use: -t <type>, --base <branch>, --base-commit <commit>, --no-tool''))"

definition parse_review_options :: "(string \<Rightarrow> string) \<Rightarrow> string \<Rightarrow> string + review_options" where
  "parse_review_options lower command =
     review_loop lower review_options_default (drop 1 (split_whitespace command))"

text \<open>
  The bytes that are cut off after \<open>/summarize\<close> are that word up to ASCII case, so the slice of the source
  starts on a character boundary.
\<close>

definition summarize_instructions :: "string \<Rightarrow> string option" where
  "summarize_instructions command =
     (if length ''/summarize'' < length command then
        (let rest = trim (drop (length ''/summarize'') command)
         in if rest = [] then None else Some rest)
      else None)"

definition parse_slash_command :: "(string \<Rightarrow> string) \<Rightarrow> string \<Rightarrow> parsed_slash_command" where
  "parse_slash_command lower command0 =
     (let command = trim command0; cmd_lower = lower command
      in if cmd_lower = ''/clear'' then PClear
         else if cmd_lower = ''/exit'' then PExit
         else if cmd_lower = ''/export'' then PExport
         else if starts_with ''/summarize'' cmd_lower then PSummarize (summarize_instructions command)
         else if starts_with ''/autosummarize'' cmd_lower then PAutoSummarize command
         else if cmd_lower = ''/help'' then PHelp
         else if cmd_lower = ''/connect'' then PConnect
         else if cmd_lower = ''/resume'' then PResume
         else if cmd_lower = ''/rewind'' then PRewind
         else if cmd_lower = ''/fork'' then PFork
         else if cmd_lower = ''/vim'' then PVim
         else if cmd_lower = ''/todos'' then PTodos
         else if cmd_lower = ''/shells'' then PShells
         else if cmd_lower = ''/model'' then PModel
         else if starts_with ''/safety'' cmd_lower then
           PSafety (map lower (drop 1 (split_whitespace command)))
         else if starts_with ''/review'' cmd_lower then
           (case parse_review_options lower command of
              Inr options \<Rightarrow> PReview options
            | Inl message \<Rightarrow> PInvalid message)
         else if starts_with ''/spec'' cmd_lower then PSpec command
         else PUnknown command)"

section \<open>Dispatch and routing\<close>

fun dispatch_from :: "parsed_slash_command \<Rightarrow> slash_command_dispatch" where
  "dispatch_from PClear = DClear"
| "dispatch_from PExit = DExit"
| "dispatch_from PExport = DExport"
| "dispatch_from (PSummarize i) = DSummarize i"
| "dispatch_from (PAutoSummarize c) = DAutoSummarize c"
| "dispatch_from PHelp = DHelp"
| "dispatch_from PConnect = DConnect"
| "dispatch_from PResume = DResume"
| "dispatch_from PRewind = DRewind"
| "dispatch_from PFork = DFork"
| "dispatch_from PVim = DVim"
| "dispatch_from PTodos = DTodos"
| "dispatch_from PShells = DShells"
| "dispatch_from PModel = DModel"
| "dispatch_from (PSafety args) = DSafety args"
| "dispatch_from (PReview options) = DReview options"
| "dispatch_from (PSpec c) = DSpec c"
| "dispatch_from (PInvalid m) = DInvalid m"
| "dispatch_from (PUnknown c) = DUnknown c"

definition dispatch_slash_command :: "(string \<Rightarrow> string) \<Rightarrow> string \<Rightarrow> slash_command_dispatch" where
  "dispatch_slash_command lower command = dispatch_from (parse_slash_command lower command)"

datatype command_runtime_route =
    RouteNone | RouteSummarizeEmpty | RouteExport | RouteReview review_options | RouteSpec string
  | RouteCompact "string option"

definition route_command_runtime :: "slash_command_dispatch \<Rightarrow> nat \<Rightarrow> command_runtime_route" where
  "route_command_runtime dispatch message_count =
     (case dispatch of
        DExport \<Rightarrow> RouteExport
      | DReview options \<Rightarrow> RouteReview options
      | DSpec command \<Rightarrow> RouteSpec command
      | DSummarize instructions \<Rightarrow>
          (if message_count \<le> 1 then RouteSummarizeEmpty else RouteCompact instructions)
      | _ \<Rightarrow> RouteNone)"

lemma dispatch_from_inject: "dispatch_from p = dispatch_from q \<longleftrightarrow> p = q"
  by (cases p; cases q) simp_all

section \<open>Lower case\<close>

definition lower_ascii :: "(string \<Rightarrow> string) \<Rightarrow> bool" where
  "lower_ascii lower \<longleftrightarrow> (\<forall>s. is_ascii s \<longrightarrow> lower s = to_ascii_lowercase s)"

lemma lower_asciiD: "lower_ascii lower \<Longrightarrow> is_ascii s \<Longrightarrow> lower s = to_ascii_lowercase s"
  by (simp add: lower_ascii_def)

lemma lower_ascii_refl [simp]: "lower_ascii to_ascii_lowercase"
  by (simp add: lower_ascii_def)

section \<open>The catalogue and the parser\<close>

definition is_unknown :: "parsed_slash_command \<Rightarrow> bool" where
  "is_unknown p = (case p of PUnknown _ \<Rightarrow> True | _ \<Rightarrow> False)"

lemma is_unknown_simps [simp]:
  "is_unknown (PUnknown c)" "\<not> is_unknown (PSummarize i)" "\<not> is_unknown (PAutoSummarize c)"
  "\<not> is_unknown PClear" "\<not> is_unknown PExit" "\<not> is_unknown PExport" "\<not> is_unknown PHelp"
  "\<not> is_unknown PConnect" "\<not> is_unknown PResume" "\<not> is_unknown PRewind" "\<not> is_unknown PFork"
  "\<not> is_unknown PVim" "\<not> is_unknown PTodos" "\<not> is_unknown PShells" "\<not> is_unknown PModel"
  "\<not> is_unknown (PSafety args)" "\<not> is_unknown (PSpec c)"
  "\<not> is_unknown (case r of Inl m \<Rightarrow> PInvalid m | Inr opts \<Rightarrow> PReview opts)"
  by (simp_all add: is_unknown_def split: sum.splits)

text \<open>A command that is written as the parser compares it: trimmed, ASCII and in lower case.\<close>

definition plain_command :: "string \<Rightarrow> bool" where
  "plain_command c \<longleftrightarrow> is_ascii c \<and> trim c = c \<and> to_ascii_lowercase c = c"

lemma plain_commandD:
  "plain_command c \<Longrightarrow> lower_ascii lower \<Longrightarrow> trim c = c \<and> lower c = c"
  by (simp add: plain_command_def lower_ascii_def)

lemma catalogue_names:
  "map fst slash_commands =
     [''/clear'', ''/connect'', ''/exit'', ''/export'', ''/fork'', ''/help'', ''/model'', ''/resume'', ''/review'', ''/rewind'',
      ''/safety'', ''/shells'', ''/status'', ''/stats'', ''/summarize'', ''/autosummarize'', ''/todos'', ''/vim'', ''/spec'',
      ''/spec split'', ''/spec status'', ''/spec abort'']"
  unfolding slash_commands_def list.map fst_conv ..

text \<open>The bytes of the commands: ASCII, and none of them a capital.\<close>

definition small_byte :: "char \<Rightarrow> bool" where
  "small_byte c \<longleftrightarrow> (of_char c :: nat) < 65 \<or> 90 < (of_char c :: nat) \<and> (of_char c :: nat) < 128"

lemma small_bytes: "list_all small_byte s \<Longrightarrow> is_ascii s \<and> to_ascii_lowercase s = s"
  by (induction s) (auto simp: small_byte_def to_ascii_lowercase_def to_lower_char_def)

lemma catalogue_small: "list_all (list_all small_byte) (map fst slash_commands)"
  unfolding catalogue_names by (simp add: small_byte_def)

lemma catalogue_plain: "list_all (\<lambda>(c, d). plain_command c) slash_commands"
proof -
  have t: "list_all (\<lambda>c. \<exists>w. c = CHR ''/'' # w \<and> 32 < (of_char (last c) :: nat)) (map fst slash_commands)"
    unfolding catalogue_names by simp
  have "plain_command c" if c: "(c, d) \<in> set slash_commands" for c d
  proof -
    have m: "c \<in> set (map fst slash_commands)" using c by force
    have a: "is_ascii c \<and> to_ascii_lowercase c = c"
      using catalogue_small m unfolding list_all_iff [of "list_all small_byte"] by (blast dest: small_bytes)
    obtain w where "c = CHR ''/'' # w" "32 < (of_char (last c) :: nat)" using t m unfolding list_all_iff by blast
    then have "trim c = c" using a trim_ascii_slash [of w] by blast
    then show ?thesis using a by (simp add: plain_command_def)
  qed
  then show ?thesis unfolding list_all_iff by fast
qed

text \<open>The words, in lower case, that the parser knows.\<close>

definition known_word :: "string \<Rightarrow> bool" where
  "known_word w \<longleftrightarrow>
     w \<in> set [''/clear'', ''/exit'', ''/export'', ''/help'', ''/connect'', ''/resume'', ''/rewind'', ''/fork'', ''/vim'',
       ''/todos'', ''/shells'', ''/model'']
     \<or> starts_with ''/summarize'' w \<or> starts_with ''/autosummarize'' w \<or> starts_with ''/safety'' w
     \<or> starts_with ''/review'' w \<or> starts_with ''/spec'' w"

lemma is_unknown_iff: "is_unknown (parse_slash_command lower c) \<longleftrightarrow> \<not> known_word (lower (trim c))"
  by (simp only: parse_slash_command_def Let_def known_word_def if_distrib [of is_unknown] is_unknown_simps
      list.set insert_iff empty_iff if_bool_eq_conj) blast

lemma catalogue_parsed:
  "list_all (\<lambda>c. known_word c \<longleftrightarrow> c \<noteq> ''/status'' \<and> c \<noteq> ''/stats'') (map fst slash_commands)"
  by code_simp

text \<open>Of the commands that autocompletion offers, the parser knows all except \<open>/status\<close> and
  \<open>/stats\<close>, which are rejected as unknown although the catalogue describes them.\<close>

theorem offered_commands_are_known:
  "lower_ascii lower \<Longrightarrow> (c, d) \<in> set slash_commands \<Longrightarrow>
   is_unknown (parse_slash_command lower c) \<longleftrightarrow> c = ''/status'' \<or> c = ''/stats''"
proof -
  assume l: "lower_ascii lower" and c: "(c, d) \<in> set slash_commands"
  then have "plain_command c" using catalogue_plain unfolding list_all_iff by fast
  then have "trim c = c \<and> lower c = c" using l by (rule plain_commandD)
  moreover have "c \<in> set (map fst slash_commands)" using c by force
  then have "known_word c \<longleftrightarrow> c \<noteq> ''/status'' \<and> c \<noteq> ''/stats''"
    using catalogue_parsed unfolding list_all_iff by blast
  ultimately show ?thesis unfolding is_unknown_iff by metis
qed

lemma offered_commands_are_known_witness:
  "is_unknown (parse_slash_command to_ascii_lowercase ''/stats'')"
proof -
  have "''/stats'' \<in> set (map fst slash_commands)" unfolding catalogue_names by simp
  then obtain d where "(''/stats'', d) \<in> set slash_commands" by auto
  then show ?thesis using offered_commands_are_known [OF lower_ascii_refl] by blast
qed

section \<open>Options of the review command\<close>

definition review_type_word :: "review_type \<Rightarrow> string" where
  "review_type_word t =
     (case t of ReviewAll \<Rightarrow> ''all'' | ReviewCommitted \<Rightarrow> ''committed'' | ReviewUncommitted \<Rightarrow> ''uncommitted'')"

definition review_words :: "review_options \<Rightarrow> string list" where
  "review_words opts =
     [''-t'', review_type_word (ro_review_type opts)]
     @ (case ro_base_branch opts of None \<Rightarrow> [] | Some b \<Rightarrow> [''--base'', b])
     @ (case ro_base_commit opts of None \<Rightarrow> [] | Some c \<Rightarrow> [''--base-commit'', c])
     @ (if ro_no_tool opts then [''--no-tool''] else [])"

text \<open>The command line that names every option.\<close>

definition review_line :: "review_options \<Rightarrow> string" where
  "review_line opts = join '' '' (''/review'' # review_words opts)"

lemma type_word_lower: "lower_ascii lower \<Longrightarrow> lower (review_type_word t) = review_type_word t"
proof -
  assume "lower_ascii lower"
  moreover have "is_ascii (review_type_word t)" by (cases t) (simp_all add: review_type_word_def)
  moreover have "to_ascii_lowercase (review_type_word t) = review_type_word t"
    by (cases t) (simp_all add: review_type_word_def to_ascii_lowercase_def to_lower_char_def)
  ultimately show ?thesis using lower_asciiD by metis
qed

lemma review_loop_words:
  assumes "lower_ascii lower"
  shows "review_loop lower review_options_default (review_words opts) = Inr opts"
  using type_word_lower [OF assms, of "ro_review_type opts"]
  by (cases "ro_review_type opts")
    (auto simp: review_words_def review_type_word_def review_options_default_def split: option.splits)

lemma review_words_ok:
  "pred_option word_ok (ro_base_branch opts) \<Longrightarrow> pred_option word_ok (ro_base_commit opts) \<Longrightarrow>
   list_all word_ok (''/review'' # review_words opts)"
proof -
  have "list_all word_ok [''/review'', ''-t'', ''all'', ''committed'', ''uncommitted'', ''--base'', ''--base-commit'', ''--no-tool'']"
    by code_simp
  then show "pred_option word_ok (ro_base_branch opts) \<Longrightarrow> pred_option word_ok (ro_base_commit opts) \<Longrightarrow> ?thesis"
    by (auto simp: review_words_def review_type_word_def split: option.splits review_type.splits)
qed

lemma parse_review_line:
  assumes "lower_ascii lower"
    and "pred_option word_ok (ro_base_branch opts)" "pred_option word_ok (ro_base_commit opts)"
  shows "parse_review_options lower (review_line opts) = Inr opts"
  using split_whitespace_join [OF review_words_ok [OF assms(2,3)]] review_loop_words [OF assms(1)]
  by (simp add: parse_review_options_def review_line_def)

lemma ascii_join: "list_all is_ascii ws \<Longrightarrow> is_ascii (join '' '' ws)"
  by (induction ws rule: induct_list012) simp_all

text \<open>The command line that names every option of a review is parsed back to these options.\<close>

theorem review_line_roundtrip:
  assumes "lower_ascii lower"
    and "pred_option (\<lambda>w. word_ok w \<and> is_ascii w) (ro_base_branch opts)"
    and "pred_option (\<lambda>w. word_ok w \<and> is_ascii w) (ro_base_commit opts)"
  shows "parse_slash_command lower (review_line opts) = PReview opts"
proof -
  let ?ws = "''/review'' # review_words opts"
  have words: "list_all word_ok ?ws"
    using assms by (intro review_words_ok) (auto simp: option.pred_set)
  have "list_all is_ascii ?ws"
    using assms by (auto simp: review_words_def review_type_word_def split: option.splits review_type.splits)
  then have ascii: "is_ascii (review_line opts)" unfolding review_line_def by (rule ascii_join)
  obtain r where r: "review_line opts = ''/review '' @ r"
    by (simp add: review_line_def review_words_def)
  then have "trim (review_line opts) = review_line opts"
    using trim_slash_words [OF words, of "''review '' @ r"] by (simp add: review_line_def)
  moreover have "lower (review_line opts) = ''/review '' @ to_ascii_lowercase r"
    using lower_asciiD [OF assms(1) ascii] by (simp add: r to_ascii_lowercase_def to_lower_char_def)
  moreover have "parse_review_options lower (review_line opts) = Inr opts"
    using assms by (intro parse_review_line) (auto simp: option.pred_set)
  ultimately show ?thesis by (simp add: parse_slash_command_def)
qed

lemma review_line_roundtrip_witness:
  "parse_slash_command to_ascii_lowercase
     (review_line \<lparr>ro_review_type = ReviewCommitted, ro_base_branch = Some ''main'',
        ro_base_commit = None, ro_no_tool = True\<rparr>)
   = PReview \<lparr>ro_review_type = ReviewCommitted, ro_base_branch = Some ''main'',
        ro_base_commit = None, ro_no_tool = True\<rparr>"
proof (rule review_line_roundtrip)
  have "word_ok ''main''" by code_simp
  then show "pred_option (\<lambda>w. word_ok w \<and> is_ascii w)
      (ro_base_branch \<lparr>ro_review_type = ReviewCommitted, ro_base_branch = Some ''main'',
        ro_base_commit = None, ro_no_tool = True\<rparr>)" by simp
qed simp_all

end
