(* ===== verification/Input_Editor.thy ===== *)
theory Input_Editor
  imports Slash_Commands
begin

text \<open>
  The input line of the terminal UI: \<open>src/app/input/cursor.rs\<close> (cursor, editing, history and
  autocompletion), \<open>src/app/input/vim_sync.rs\<close> (the text of the vim editor) and
  \<open>src/app/runtime/event_loop_handlers/paste.rs\<close>.

  The fields of \<open>App\<close> that these functions use form the record \<open>input_state\<close>; the rest of the UI extends it.
  The cursor \<open>character_index\<close> counts characters while the text is a byte sequence. The vim editor is the
  crate \<open>edtui\<close>: its lines, cursor and mode are modelled (\<open>editor_state\<close>), its key handling, and the third-party
  type its lines are parsed into, are the parameters of \<open>edtui\<close>. A panic of the source is \<open>None\<close>.
\<close>

section \<open>State\<close>

datatype editor_mode = VimNormal | VimInsert | VimVisual | VimSearch

record editor_state =
  ed_lines :: "string list list"
  ed_row :: nat
  ed_col :: nat
  ed_mode :: editor_mode

text \<open>\<open>Lines::from\<close> splits a text into rows of characters; a key event changes the editor.\<close>

record 'k edtui =
  lines_from :: "string \<Rightarrow> string list list"
  on_event :: "'k \<Rightarrow> editor_state \<Rightarrow> editor_state"

record input_state =
  input :: string
  character_index :: nat
  input_modified :: bool
  command_history :: "string list"
  history_index :: "nat option"
  temp_input :: "string option"
  queued_messages :: "string list"
  editing_queue_index :: "nat option"
  autocomplete_active :: bool
  autocomplete_suggestions :: "(string \<times> string) list"
  autocomplete_selected_index :: nat
  vim_mode_enabled :: bool
  vim_input_editor :: editor_state

section \<open>The vim editor\<close>

definition editor_new :: "string list list \<Rightarrow> editor_state" where
  "editor_new ls = \<lparr>ed_lines = ls, ed_row = 0, ed_col = 0, ed_mode = VimNormal\<rparr>"

definition set_text_content_preserving_mode :: "'k edtui \<Rightarrow> string \<Rightarrow> editor_state \<Rightarrow> editor_state" where
  "set_text_content_preserving_mode K content e =
     (editor_new (lines_from K content))\<lparr>ed_mode := ed_mode e\<rparr>"

definition get_text_content :: "editor_state \<Rightarrow> string" where
  "get_text_content e = join [LF] (map concat (ed_lines e))"

text \<open>The byte offset of a row and a column: rows are counted in bytes.\<close>

fun offset_scan :: "nat \<Rightarrow> nat \<Rightarrow> nat \<Rightarrow> string list \<Rightarrow> nat" where
  "offset_scan row col r [] = 0"
| "offset_scan row col r (l # ls) =
     (if r < row then length l + 1 + offset_scan row col (r + 1) ls
      else if r = row then min col (length l)
      else offset_scan row col (r + 1) ls)"

text \<open>The row and column of an offset: the loop that consumes \<open>remaining\<close>.\<close>

fun position_scan :: "nat \<Rightarrow> nat \<Rightarrow> string list \<Rightarrow> nat \<times> nat" where
  "position_scan remaining r [] = (r, 0)"
| "position_scan remaining r (l # ls) =
     (if remaining \<le> length l then (r, remaining)
      else position_scan (remaining - (length l + 1)) (r + 1) ls)"

definition sync_vim_input :: "'z input_state_scheme \<Rightarrow> 'z input_state_scheme" where
  "sync_vim_input s =
     (let text = get_text_content (vim_input_editor s);
          offset = offset_scan (ed_row (vim_input_editor s)) (ed_col (vim_input_editor s)) 0 (str_lines text)
      in s\<lparr>input := text, character_index := min offset (length text)\<rparr>)"

definition sync_input_to_vim :: "'k edtui \<Rightarrow> 'z input_state_scheme \<Rightarrow> 'z input_state_scheme" where
  "sync_input_to_vim K s =
     (let e = set_text_content_preserving_mode K (input s) (vim_input_editor s);
          (row, col) = position_scan (character_index s) 0 (str_lines (input s))
      in s\<lparr>vim_input_editor := e\<lparr>ed_row := row, ed_col := col\<rparr>\<rparr>)"

definition sync_if_vim :: "'k edtui \<Rightarrow> 'z input_state_scheme \<Rightarrow> 'z input_state_scheme" where
  "sync_if_vim K s = (if vim_mode_enabled s then sync_input_to_vim K s else s)"

section \<open>Autocompletion\<close>

definition should_show_autocomplete :: "string \<Rightarrow> bool" where
  "should_show_autocomplete s =
     (if \<not> starts_with ''/'' (trim_start s) then False
      else (let prefix = takeWhile (\<lambda>c. c \<noteq> ''/'') (utf8_chars s)
            in prefix = [] \<or> list_all is_white prefix))"

definition build_autocomplete_suggestions :: "string \<Rightarrow> (string \<times> string) list" where
  "build_autocomplete_suggestions s =
     (let after_slash = trim_start_matches ''/'' (trim_start s)
      in filter (\<lambda>(cmd, desc). starts_with after_slash (trim_start_matches ''/'' cmd)) slash_commands)"

definition clear_autocomplete :: "'z input_state_scheme \<Rightarrow> 'z input_state_scheme" where
  "clear_autocomplete s =
     s\<lparr>autocomplete_active := False, autocomplete_suggestions := [], autocomplete_selected_index := 0\<rparr>"

definition update_autocomplete :: "'z input_state_scheme \<Rightarrow> 'z input_state_scheme" where
  "update_autocomplete s =
     (if should_show_autocomplete (input s) then
        (let suggestions = build_autocomplete_suggestions (input s);
             t = s\<lparr>autocomplete_suggestions := suggestions, autocomplete_active := suggestions \<noteq> []\<rparr>
         in if suggestions \<noteq> [] then t\<lparr>autocomplete_selected_index := 0\<rparr> else t)
      else clear_autocomplete s)"

text \<open>Returns whether a suggestion was applied.\<close>

definition apply_autocomplete_selection :: "'z input_state_scheme \<Rightarrow> bool \<times> 'z input_state_scheme" where
  "apply_autocomplete_selection s =
     (if autocomplete_selected_index s < length (autocomplete_suggestions s) then
        (let cmd = fst (autocomplete_suggestions s ! autocomplete_selected_index s)
         in (True, clear_autocomplete (s\<lparr>input := cmd, character_index := char_count cmd\<rparr>)))
      else (False, s))"

definition move_autocomplete_selection_up :: "'z input_state_scheme \<Rightarrow> 'z input_state_scheme" where
  "move_autocomplete_selection_up s =
     (if autocomplete_suggestions s = [] then s
      else if autocomplete_selected_index s = 0 then
        s\<lparr>autocomplete_selected_index := length (autocomplete_suggestions s) - 1\<rparr>
      else s\<lparr>autocomplete_selected_index := autocomplete_selected_index s - 1\<rparr>)"

definition move_autocomplete_selection_down :: "'z input_state_scheme \<Rightarrow> 'z input_state_scheme" where
  "move_autocomplete_selection_down s =
     (if autocomplete_suggestions s = [] then s
      else if length (autocomplete_suggestions s) - 1 \<le> autocomplete_selected_index s then
        s\<lparr>autocomplete_selected_index := 0\<rparr>
      else s\<lparr>autocomplete_selected_index := autocomplete_selected_index s + 1\<rparr>)"

section \<open>Cursor and editing\<close>

fun cursor_scan :: "nat \<Rightarrow> nat \<Rightarrow> nat \<Rightarrow> string list \<Rightarrow> (nat \<times> nat) option" where
  "cursor_scan index row count [] = None"
| "cursor_scan index row count (l # ls) =
     (let n = char_count l + 1
      in if index < count + n then Some (row, index - count)
         else cursor_scan index (row + 1) (count + n) ls)"

definition cursor_position :: "string \<Rightarrow> nat \<Rightarrow> nat \<times> nat" where
  "cursor_position s index =
     (case cursor_scan index 0 0 (str_lines s) of
        Some p \<Rightarrow> p
      | None \<Rightarrow> (length (str_lines s) - 1, 0))"

definition get_cursor_row :: "'z input_state_scheme \<Rightarrow> nat" where
  "get_cursor_row s = fst (cursor_position (input s) (character_index s))"

definition get_cursor_col :: "'z input_state_scheme \<Rightarrow> nat" where
  "get_cursor_col s = snd (cursor_position (input s) (character_index s))"

definition is_at_start_of_first_line :: "'z input_state_scheme \<Rightarrow> bool" where
  "is_at_start_of_first_line s \<longleftrightarrow> get_cursor_row s = 0 \<and> get_cursor_col s = 0"

definition is_at_end_of_last_line :: "'z input_state_scheme \<Rightarrow> bool" where
  "is_at_end_of_last_line s =
     (let ls = str_lines (input s)
      in if get_cursor_row s \<noteq> length ls - 1 then False
         else if ls = [] then True
         else char_count (last ls) \<le> get_cursor_col s)"

definition clamp_cursor :: "'z input_state_scheme \<Rightarrow> nat \<Rightarrow> nat" where
  "clamp_cursor s new_pos = min new_pos (char_count (input s))"

definition reset_cursor :: "'z input_state_scheme \<Rightarrow> 'z input_state_scheme" where
  "reset_cursor s = s\<lparr>character_index := 0\<rparr>"

definition move_cursor_left :: "'z input_state_scheme \<Rightarrow> 'z input_state_scheme" where
  "move_cursor_left s = s\<lparr>character_index := clamp_cursor s (character_index s - 1)\<rparr>"

definition move_cursor_right :: "'z input_state_scheme \<Rightarrow> 'z input_state_scheme" where
  "move_cursor_right s = s\<lparr>character_index := clamp_cursor s (character_index s + 1)\<rparr>"

definition byte_index :: "'z input_state_scheme \<Rightarrow> nat" where
  "byte_index s =
     (let offsets = char_offsets (input s)
      in if character_index s < length offsets then offsets ! character_index s else length (input s))"

text \<open>\<open>String::insert\<close> panics off a character boundary.\<close>

definition enter_char :: "string \<Rightarrow> 'z input_state_scheme \<Rightarrow> 'z input_state_scheme option" where
  "enter_char c s =
     map_option (\<lambda>text. update_autocomplete (move_cursor_right (s\<lparr>input := text\<rparr>)\<lparr>input_modified := True\<rparr>))
       (insert_str (byte_index s) c (input s))"

definition delete_char :: "'z input_state_scheme \<Rightarrow> 'z input_state_scheme" where
  "delete_char s =
     (let t = (if character_index s \<noteq> 0 then
                 move_cursor_left
                   (s\<lparr>input := concat (take (character_index s - 1) (utf8_chars (input s))
                                     @ drop (character_index s) (utf8_chars (input s)))\<rparr>)
               else s);
          u = (if input t = [] then t\<lparr>input_modified := False\<rparr> else t)
      in update_autocomplete u)"

section \<open>History\<close>

text \<open>Shows the entry with an index: first the commands, then the messages in the queue.\<close>

definition show_item :: "nat \<Rightarrow> 'z input_state_scheme \<Rightarrow> 'z input_state_scheme" where
  "show_item idx s =
     (let n = length (command_history s)
      in if idx < n then
           s\<lparr>input := command_history s ! idx, character_index := 0, editing_queue_index := None\<rparr>
         else if idx - n < length (queued_messages s) then
           s\<lparr>input := queued_messages s ! (idx - n), character_index := 0, editing_queue_index := Some (idx - n)\<rparr>
         else s)"

definition total_items :: "'z input_state_scheme \<Rightarrow> nat" where
  "total_items s = length (command_history s) + length (queued_messages s)"

definition navigate_history_backwards :: "'k edtui \<Rightarrow> 'z input_state_scheme \<Rightarrow> 'z input_state_scheme" where
  "navigate_history_backwards K s =
     (if total_items s = 0 then s
      else (case history_index s of
          None \<Rightarrow> sync_if_vim K (show_item (total_items s - 1)
                    (s\<lparr>temp_input := Some (input s), history_index := Some (total_items s - 1)\<rparr>))
        | Some idx \<Rightarrow>
            (if 0 < idx then sync_if_vim K (show_item (idx - 1) (s\<lparr>history_index := Some (idx - 1)\<rparr>))
             else s)))"

text \<open>
  \<open>total_items - 1\<close> is a subtraction of machine integers: without items it overflows, which is a panic in
  a debug build (\<open>None\<close>).
\<close>

definition navigate_history_forwards :: "'k edtui \<Rightarrow> 'z input_state_scheme \<Rightarrow> 'z input_state_scheme option" where
  "navigate_history_forwards K s =
     (case history_index s of
        None \<Rightarrow> Some (sync_if_vim K s)
      | Some idx \<Rightarrow>
          (if total_items s = 0 then None
           else if idx < total_items s - 1 then
             Some (sync_if_vim K (show_item (idx + 1) (s\<lparr>history_index := Some (idx + 1)\<rparr>)))
           else
             (let t = s\<lparr>history_index := None, editing_queue_index := None, temp_input := None\<rparr>
              in Some (sync_if_vim K
                   (case temp_input s of
                      Some temp \<Rightarrow> t\<lparr>input := temp, character_index := char_count temp\<rparr>
                    | None \<Rightarrow> t\<lparr>input := [], character_index := 0\<rparr>)))))"

section \<open>Keys\<close>

definition handle_input_up_key :: "'k edtui \<Rightarrow> 'z input_state_scheme \<Rightarrow> 'z input_state_scheme" where
  "handle_input_up_key K s =
     (if autocomplete_active s \<and> autocomplete_suggestions s \<noteq> [] then move_autocomplete_selection_up s
      else if vim_mode_enabled s then navigate_history_backwards K s
      else if is_at_start_of_first_line s then navigate_history_backwards K s
      else s\<lparr>character_index := 0\<rparr>)"

text \<open>The end of the row \<open>row\<close>, in characters from the start of the text.\<close>

fun row_end :: "nat \<Rightarrow> nat \<Rightarrow> nat \<Rightarrow> string list \<Rightarrow> nat option" where
  "row_end row r count [] = None"
| "row_end row r count (l # ls) =
     (if r = row then Some (count + char_count l) else row_end row (r + 1) (count + (char_count l + 1)) ls)"

definition handle_input_down_key :: "'k edtui \<Rightarrow> 'z input_state_scheme \<Rightarrow> 'z input_state_scheme option" where
  "handle_input_down_key K s =
     (if autocomplete_active s \<and> autocomplete_suggestions s \<noteq> [] then
        Some (move_autocomplete_selection_down s)
      else
        (let ls = str_lines (input s); cursor_row = get_cursor_row s
         in if cursor_row < length ls - 1 then
              Some (sync_if_vim K
                (case row_end (cursor_row + 1) 0 0 ls of
                   Some i \<Rightarrow> s\<lparr>character_index := i\<rparr>
                 | None \<Rightarrow> s))
            else if is_at_end_of_last_line s then
              (if history_index s \<noteq> None then navigate_history_forwards K s else Some s)
            else Some (sync_if_vim K (s\<lparr>character_index := char_count (input s)\<rparr>))))"

text \<open>The event that a key was pressed is handed to the vim editor.\<close>

definition vim_key :: "'k edtui \<Rightarrow> 'k \<Rightarrow> 'z input_state_scheme \<Rightarrow> 'z input_state_scheme" where
  "vim_key K key s = sync_vim_input (s\<lparr>vim_input_editor := on_event K key (vim_input_editor s)\<rparr>)"

definition handle_input_char_key ::
  "'k edtui \<Rightarrow> 'k \<Rightarrow> string \<Rightarrow> 'z input_state_scheme \<Rightarrow> 'z input_state_scheme option" where
  "handle_input_char_key K key c s =
     (if vim_mode_enabled s then Some (vim_key K key s) else enter_char c s)"

definition handle_input_backspace_key ::
  "'k edtui \<Rightarrow> 'k \<Rightarrow> 'z input_state_scheme \<Rightarrow> 'z input_state_scheme" where
  "handle_input_backspace_key K key s = (if vim_mode_enabled s then vim_key K key s else delete_char s)"

text \<open>\<open>handle_runtime_paste\<close> while no connection dialog is open.\<close>

definition handle_runtime_paste :: "'k edtui \<Rightarrow> string \<Rightarrow> 'z input_state_scheme \<Rightarrow> 'z input_state_scheme option" where
  "handle_runtime_paste K data s =
     (if vim_mode_enabled s then
        (let text = get_text_content (vim_input_editor s);
             pos = offset_scan (ed_row (vim_input_editor s)) (ed_col (vim_input_editor s)) 0 (str_lines text)
         in map_option (\<lambda>new_text.
              (let (row, col) = position_scan (pos + length data) 0 (str_lines new_text);
                   e = set_text_content_preserving_mode K new_text (vim_input_editor s)
               in sync_vim_input (s\<lparr>vim_input_editor := e\<lparr>ed_row := row, ed_col := col\<rparr>\<rparr>)))
              (insert_str pos data text))
      else
        map_option (\<lambda>text. update_autocomplete
            (s\<lparr>input := text, character_index := character_index s + char_count data, input_modified := True\<rparr>))
          (insert_str (byte_index s) data (input s)))"

end
