(* ===== verification/Input_Props.thy ===== *)
theory Input_Props
  imports Input_Editor
begin

text \<open>
  What the input line guarantees. Editing without vim keys keeps the cursor inside the text and never
  panics (\<open>editing_is_safe\<close>), and refines a pair of character lists around the cursor (\<open>editing_refines_zipper\<close>).
  Browsing the history shows the entries from the newest to the oldest and gives the draft back
  (\<open>history_restores_draft\<close>). Autocompletion offers the commands that extend the input
  (\<open>suggestions_extend_input\<close>). The vim editor and the input line agree on ASCII text (\<open>vim_sync_roundtrip\<close>)
  but not on other text, where pasting can panic (\<open>vim_paste_panics\<close>).
\<close>

section \<open>Invariant\<close>

definition cursor_ok :: "'z input_state_scheme \<Rightarrow> bool" where
  "cursor_ok s \<longleftrightarrow> utf8_ok (input s) \<and> character_index s \<le> char_count (input s)"

definition texts_ok :: "'z input_state_scheme \<Rightarrow> bool" where
  "texts_ok s \<longleftrightarrow> list_all utf8_ok (command_history s) \<and> list_all utf8_ok (queued_messages s)
     \<and> pred_option utf8_ok (temp_input s)"

definition completion_ok :: "'z input_state_scheme \<Rightarrow> bool" where
  "completion_ok s \<longleftrightarrow>
     (autocomplete_active s \<longrightarrow> autocomplete_suggestions s \<noteq> [])
     \<and> (autocomplete_suggestions s \<noteq> [] \<longrightarrow> autocomplete_selected_index s < length (autocomplete_suggestions s))
     \<and> list_all (\<lambda>p. utf8_ok (fst p)) (autocomplete_suggestions s)"

definition browsing_ok :: "'z input_state_scheme \<Rightarrow> bool" where
  "browsing_ok s \<longleftrightarrow> pred_option (\<lambda>i. i < total_items s) (history_index s)"

definition input_inv :: "'z input_state_scheme \<Rightarrow> bool" where
  "input_inv s \<longleftrightarrow> cursor_ok s \<and> texts_ok s \<and> completion_ok s \<and> browsing_ok s \<and> \<not> vim_mode_enabled s"

lemmas input_inv_defs = input_inv_def cursor_ok_def texts_ok_def completion_ok_def browsing_ok_def

section \<open>Operations\<close>

text \<open>The keys that act on the input line, and pasting, while the vim keys are off.\<close>

datatype edit_op = EnterChar string | Backspace | CursorLeft | CursorRight | ArrowUp | ArrowDown | TabKey
  | Paste string

definition op_ok :: "edit_op \<Rightarrow> bool" where
  "op_ok x = (case x of EnterChar c \<Rightarrow> code_point c | Paste d \<Rightarrow> utf8_ok d | _ \<Rightarrow> True)"

definition edit_step :: "'k edtui \<Rightarrow> edit_op \<Rightarrow> 'z input_state_scheme \<Rightarrow> 'z input_state_scheme option" where
  "edit_step K x s =
     (case x of
        EnterChar c \<Rightarrow> enter_char c s
      | Backspace \<Rightarrow> Some (delete_char s)
      | CursorLeft \<Rightarrow> Some (move_cursor_left s)
      | CursorRight \<Rightarrow> Some (move_cursor_right s)
      | ArrowUp \<Rightarrow> Some (handle_input_up_key K s)
      | ArrowDown \<Rightarrow> handle_input_down_key K s
      | TabKey \<Rightarrow> Some (if autocomplete_active s then snd (apply_autocomplete_selection s) else s)
      | Paste d \<Rightarrow> handle_runtime_paste K d s)"

text \<open>A run stops at a panic.\<close>

definition edit_run :: "'k edtui \<Rightarrow> edit_op list \<Rightarrow> 'z input_state_scheme \<Rightarrow> 'z input_state_scheme option" where
  "edit_run K xs s = fold (\<lambda>x t. Option.bind t (edit_step K x)) xs (Some s)"

section \<open>The text around the cursor\<close>

type_synonym zipper = "string list \<times> string list"

definition around_cursor :: "'z input_state_scheme \<Rightarrow> zipper" where
  "around_cursor s =
     (take (character_index s) (utf8_chars (input s)), drop (character_index s) (utf8_chars (input s)))"

fun zipper_step :: "edit_op \<Rightarrow> zipper \<Rightarrow> zipper" where
  "zipper_step (EnterChar c) (b, a) = (b @ [c], a)"
| "zipper_step (Paste d) (b, a) = (b @ utf8_chars d, a)"
| "zipper_step Backspace (b, a) = (butlast b, a)"
| "zipper_step CursorLeft (b, a) = (if b = [] then (b, a) else (butlast b, last b # a))"
| "zipper_step CursorRight (b, a) = (if a = [] then (b, a) else (b @ [hd a], tl a))"
| "zipper_step x z = z"

definition editing_op :: "edit_op \<Rightarrow> bool" where
  "editing_op x \<longleftrightarrow> x \<notin> {ArrowUp, ArrowDown, TabKey}"

lemma update_autocomplete_frame [simp]:
  "input (update_autocomplete s) = input s" "character_index (update_autocomplete s) = character_index s"
  "command_history (update_autocomplete s) = command_history s"
  "queued_messages (update_autocomplete s) = queued_messages s"
  "temp_input (update_autocomplete s) = temp_input s"
  "history_index (update_autocomplete s) = history_index s"
  "editing_queue_index (update_autocomplete s) = editing_queue_index s"
  "vim_mode_enabled (update_autocomplete s) = vim_mode_enabled s"
  by (simp_all add: update_autocomplete_def clear_autocomplete_def Let_def)

lemma around_cursor_cong:
  "input t = input s \<Longrightarrow> character_index t = character_index s \<Longrightarrow> around_cursor t = around_cursor s"
  by (simp add: around_cursor_def)

lemma length_chars [simp]: "length (utf8_chars s) = char_count s"
  by (simp add: char_count_def)

text \<open>The byte index is the length of the text before the cursor.\<close>

lemma byte_index_before:
  "cursor_ok s \<Longrightarrow> byte_index s = length (concat (fst (around_cursor s)))"
  by (auto simp: byte_index_def Let_def char_offsets_def cursor_ok_def around_cursor_def)

text \<open>Inserting at the cursor is inserting between the two lists.\<close>

lemma insert_at_cursor:
  assumes "cursor_ok s"
  shows "insert_str (byte_index s) d (input s)
      = Some (concat (fst (around_cursor s)) @ d @ concat (snd (around_cursor s)))"
proof -
  let ?n = "character_index s" and ?cs = "utf8_chars (input s)"
  have n: "?n \<le> char_count (input s)" and ok: "utf8_ok (input s)"
    using assms by (simp_all add: cursor_ok_def)
  have "is_char_boundary (input s) (length (concat (take ?n ?cs)))"
    using drop_char_offset [OF n] utf8_ok_drop_chars [OF ok, of ?n]
    by (metis is_char_boundary_def utf8_ok_starts drop_all linorder_not_less nat_neq_iff
        order_le_imp_less_or_eq length_append split_at_char le_add1)
  then show ?thesis
    using take_char_offset [OF n] drop_char_offset [OF n] byte_index_before [OF assms]
    by (simp add: insert_str_def around_cursor_def)
qed

lemma insert_chars:
  assumes "cursor_ok s" "utf8_ok d"
  shows "utf8_chars (concat (fst (around_cursor s)) @ d @ concat (snd (around_cursor s)))
      = fst (around_cursor s) @ utf8_chars d @ snd (around_cursor s)"
  using assms
  by (simp add: around_cursor_def cursor_ok_def utf8_chars_append starts_char_append utf8_ok_starts
      utf8_ok_drop_chars utf8_chars_take utf8_chars_drop)

lemma insert_utf8_ok:
  assumes "cursor_ok s" "utf8_ok d"
  shows "utf8_ok (concat (fst (around_cursor s)) @ d @ concat (snd (around_cursor s)))"
  using assms
  by (simp add: around_cursor_def cursor_ok_def utf8_ok_append utf8_ok_drop_chars utf8_ok_take_chars)

lemma length_around:
  "cursor_ok s \<Longrightarrow> length (fst (around_cursor s)) = character_index s"
  by (simp add: around_cursor_def cursor_ok_def)

lemma around_cursor_put:
  "utf8_chars (input t) = b @ a \<Longrightarrow> character_index t = length b \<Longrightarrow> around_cursor t = (b, a)"
  by (simp add: around_cursor_def)

lemma char_count_put: "utf8_chars text = b @ a \<Longrightarrow> char_count text = length b + length a"
  by (simp add: char_count_def)

lemma enter_char_step:
  assumes "cursor_ok s" "code_point c"
  obtains t where "enter_char c s = Some t"
    and "utf8_chars (input t) = (fst (around_cursor s) @ [c]) @ snd (around_cursor s)"
    and "utf8_ok (input t)" and "character_index t = length (fst (around_cursor s) @ [c])"
proof -
  let ?text = "concat (fst (around_cursor s)) @ c @ concat (snd (around_cursor s))"
  have c: "utf8_ok c" "utf8_chars c = [c]"
    using assms by (simp_all add: code_point_utf8_ok utf8_chars_code_point)
  have chars: "utf8_chars ?text = (fst (around_cursor s) @ [c]) @ snd (around_cursor s)"
    using insert_chars [OF assms(1) c(1)] c(2) by simp
  have "char_count ?text = Suc (character_index s) + length (snd (around_cursor s))"
    using char_count_put [OF chars] length_around [OF assms(1)] by simp
  then show ?thesis
    using that chars insert_at_cursor [OF assms(1), of c] insert_utf8_ok [OF assms(1) c(1)]
      length_around [OF assms(1)]
    by (simp add: enter_char_def move_cursor_right_def clamp_cursor_def)
qed

lemma paste_step:
  assumes "cursor_ok s" "utf8_ok d" "\<not> vim_mode_enabled s"
  obtains t where "handle_runtime_paste K d s = Some t"
    and "utf8_chars (input t) = (fst (around_cursor s) @ utf8_chars d) @ snd (around_cursor s)"
    and "utf8_ok (input t)" and "character_index t = length (fst (around_cursor s) @ utf8_chars d)"
  using that insert_at_cursor [OF assms(1), of d] insert_utf8_ok [OF assms(1,2)] insert_chars [OF assms(1,2)]
    length_around [OF assms(1)] assms(3)
  by (simp add: handle_runtime_paste_def)

definition deleted_text :: "'z input_state_scheme \<Rightarrow> string list" where
  "deleted_text s = butlast (fst (around_cursor s)) @ snd (around_cursor s)"

lemma delete_char_fields:
  "input (delete_char s) =
     (if character_index s = 0 then input s
      else concat (take (character_index s - 1) (utf8_chars (input s)) @ drop (character_index s) (utf8_chars (input s))))"
  "character_index (delete_char s) =
     (if character_index s = 0 then 0 else min (character_index s - 1) (char_count (input (delete_char s))))"
  unfolding delete_char_def Let_def move_cursor_left_def clamp_cursor_def
  by (cases "character_index s = 0"; simp)+

lemma delete_char_input:
  assumes "cursor_ok s"
  shows "input (delete_char s) = concat (deleted_text s)"
  using assms delete_char_fields(1) [of s]
  by (cases "character_index s = 0")
    (simp_all add: deleted_text_def around_cursor_def cursor_ok_def butlast_take del: concat_append)

lemma deleted_text_points:
  assumes "cursor_ok s"
  shows "list_all code_point (deleted_text s)"
  using assms utf8_chars_points [of "input s"]
  unfolding deleted_text_def around_cursor_def cursor_ok_def list_all_iff
  by (auto dest: in_set_takeD in_set_dropD in_set_butlastD)

lemma delete_char_chars:
  assumes "cursor_ok s"
  shows "utf8_chars (input (delete_char s)) = butlast (fst (around_cursor s)) @ snd (around_cursor s)"
    and "utf8_ok (input (delete_char s))"
    and "character_index (delete_char s) = length (butlast (fst (around_cursor s)))"
proof -
  have points: "list_all code_point (deleted_text s)" by (rule deleted_text_points [OF assms])
  show chars: "utf8_chars (input (delete_char s)) = butlast (fst (around_cursor s)) @ snd (around_cursor s)"
    using utf8_chars_concat [OF points] by (simp add: delete_char_input [OF assms] deleted_text_def)
  show "utf8_ok (input (delete_char s))"
    using utf8_ok_concat [OF points] by (simp add: delete_char_input [OF assms])
  have "char_count (input (delete_char s))
      = length (butlast (fst (around_cursor s))) + length (snd (around_cursor s))"
    using char_count_put [OF chars] .
  then show "character_index (delete_char s) = length (butlast (fst (around_cursor s)))"
    using delete_char_fields(2) [of s] length_around [OF assms] by simp
qed

lemma butlast_take_drop:
  assumes "0 < n" "n \<le> length xs"
  shows "take (n - 1) xs = butlast (take n xs)" "drop (n - 1) xs = last (take n xs) # drop n xs"
proof -
  obtain m where n: "n = Suc m" using assms by (cases n) simp_all
  then have "take n xs = take m xs @ [xs ! m]" "drop m xs = xs ! m # drop n xs"
    using assms by (simp_all add: take_Suc_conv_app_nth Cons_nth_drop_Suc)
  then show "take (n - 1) xs = butlast (take n xs)" "drop (n - 1) xs = last (take n xs) # drop n xs"
    by (simp_all add: n)
qed

lemma cursor_left_zipper:
  "cursor_ok s \<Longrightarrow> around_cursor (move_cursor_left s) = zipper_step CursorLeft (around_cursor s)"
  using butlast_take_drop [of "character_index s" "utf8_chars (input s)"]
  by (auto simp: move_cursor_left_def clamp_cursor_def cursor_ok_def around_cursor_def)

lemma cursor_right_zipper:
  "cursor_ok s \<Longrightarrow> around_cursor (move_cursor_right s) = zipper_step CursorRight (around_cursor s)"
  by (auto simp: move_cursor_right_def clamp_cursor_def cursor_ok_def around_cursor_def
      take_Suc_conv_app_nth hd_drop_conv_nth drop_Suc tl_drop)

text \<open>C26: typing, pasting, deleting and moving the cursor act on the characters before and after the cursor
  as on a pair of lists, whatever the lengths of the characters in bytes; none of them panics.\<close>

theorem editing_refines_zipper:
  assumes "input_inv s" "op_ok x" "editing_op x"
  shows "map_option around_cursor (edit_step K x s) = Some (zipper_step x (around_cursor s))"
proof -
  have s: "cursor_ok s" "\<not> vim_mode_enabled s" using assms by (simp_all add: input_inv_def)
  obtain b a where ba: "around_cursor s = (b, a)" by fastforce
  show ?thesis
  proof (cases x)
    case (EnterChar c)
    with assms(2) have "code_point c" by (simp add: op_ok_def)
    then obtain t where "enter_char c s = Some t" "around_cursor t = (fst (around_cursor s) @ [c], snd (around_cursor s))"
      using enter_char_step [OF s(1)] around_cursor_put by metis
    then show ?thesis by (simp add: EnterChar edit_step_def ba)
  next
    case (Paste d)
    with assms(2) have "utf8_ok d" by (simp add: op_ok_def)
    then obtain t where "handle_runtime_paste K d s = Some t"
      "around_cursor t = (fst (around_cursor s) @ utf8_chars d, snd (around_cursor s))"
      using paste_step [OF s(1) _ s(2)] around_cursor_put by metis
    then show ?thesis by (simp add: Paste edit_step_def ba)
  next
    case Backspace
    have "around_cursor (delete_char s) = (butlast (fst (around_cursor s)), snd (around_cursor s))"
      using delete_char_chars [OF s(1)] around_cursor_put by metis
    then show ?thesis by (simp add: Backspace edit_step_def ba)
  qed (use assms(3) s cursor_left_zipper cursor_right_zipper in
        \<open>simp_all add: edit_step_def editing_op_def\<close>)
qed

section \<open>Every operation keeps the invariant\<close>

text \<open>What the editing of the text does not touch.\<close>

definition same_rest :: "'z input_state_scheme \<Rightarrow> 'z input_state_scheme \<Rightarrow> bool" where
  "same_rest s t \<longleftrightarrow> command_history t = command_history s \<and> queued_messages t = queued_messages s
     \<and> vim_mode_enabled t = vim_mode_enabled s"

lemma same_rest_refl [simp]: "same_rest s s"
  by (simp add: same_rest_def)

lemma same_rest_trans: "same_rest s t \<Longrightarrow> same_rest t u \<Longrightarrow> same_rest s u"
  by (simp add: same_rest_def)

lemma catalogue_utf8: "(c, d) \<in> set slash_commands \<Longrightarrow> utf8_ok c"
  using catalogue_plain by (auto simp: list_all_iff plain_command_def is_ascii_utf8_ok)

lemma completion_updated: "completion_ok (update_autocomplete s)"
  using catalogue_utf8
  by (auto simp: completion_ok_def update_autocomplete_def clear_autocomplete_def Let_def
      build_autocomplete_suggestions_def list_all_iff)

lemma input_inv_put:
  assumes "input_inv s" "cursor_ok t" "completion_ok t" "same_rest s t"
    and "temp_input t = temp_input s" "history_index t = history_index s"
  shows "input_inv t"
  using assms by (simp add: input_inv_def texts_ok_def browsing_ok_def same_rest_def total_items_def)

lemma cursor_ok_put:
  "utf8_chars (input t) = b @ a \<Longrightarrow> utf8_ok (input t) \<Longrightarrow> character_index t = length b \<Longrightarrow> cursor_ok t"
  using char_count_put [of "input t" b a] by (simp add: cursor_ok_def)

lemma enter_char_shape:
  "enter_char c s = Some t \<Longrightarrow> completion_ok t \<and> same_rest s t
     \<and> temp_input t = temp_input s \<and> history_index t = history_index s"
  by (auto simp: enter_char_def completion_updated same_rest_def move_cursor_right_def)

lemma paste_shape:
  "handle_runtime_paste K d s = Some t \<Longrightarrow> \<not> vim_mode_enabled s \<Longrightarrow> completion_ok t \<and> same_rest s t
     \<and> temp_input t = temp_input s \<and> history_index t = history_index s"
  by (auto simp: handle_runtime_paste_def completion_updated same_rest_def)

lemma delete_char_shape:
  "completion_ok (delete_char s) \<and> same_rest s (delete_char s)
     \<and> temp_input (delete_char s) = temp_input s \<and> history_index (delete_char s) = history_index s"
  by (simp add: delete_char_def Let_def completion_updated same_rest_def move_cursor_left_def)

lemma enter_char_inv:
  assumes "input_inv s" "code_point c"
  shows "\<exists>t. enter_char c s = Some t \<and> input_inv t \<and> same_rest s t"
proof -
  have "cursor_ok s" using assms by (simp add: input_inv_def)
  from enter_char_step [OF this assms(2)] obtain t where t: "enter_char c s = Some t" "cursor_ok t"
    using cursor_ok_put by metis
  then show ?thesis using enter_char_shape [OF t(1)] input_inv_put [OF assms(1) t(2)] by blast
qed

lemma paste_inv:
  assumes "input_inv s" "utf8_ok d"
  shows "\<exists>t. handle_runtime_paste K d s = Some t \<and> input_inv t \<and> same_rest s t"
proof -
  have s: "cursor_ok s" "\<not> vim_mode_enabled s" using assms by (simp_all add: input_inv_def)
  from paste_step [OF s(1) assms(2) s(2), of K]
  obtain t where t: "handle_runtime_paste K d s = Some t" "cursor_ok t"
    using cursor_ok_put by metis
  then show ?thesis using paste_shape [OF t(1) s(2)] input_inv_put [OF assms(1) t(2)] by blast
qed

lemma delete_char_inv:
  assumes "input_inv s"
  shows "input_inv (delete_char s) \<and> same_rest s (delete_char s)"
proof -
  have s: "cursor_ok s" using assms by (simp add: input_inv_def)
  show ?thesis
    using input_inv_put [OF assms cursor_ok_put [OF delete_char_chars [OF s]]] delete_char_shape by blast
qed

lemma move_cursor_inv:
  assumes "input_inv s"
  shows "input_inv (move_cursor_left s) \<and> same_rest s (move_cursor_left s)"
    and "input_inv (move_cursor_right s) \<and> same_rest s (move_cursor_right s)"
    and "input_inv (s\<lparr>character_index := 0\<rparr>) \<and> same_rest s (s\<lparr>character_index := 0\<rparr>)"
    and "input_inv (s\<lparr>character_index := char_count (input s)\<rparr>)
       \<and> same_rest s (s\<lparr>character_index := char_count (input s)\<rparr>)"
  using assms
  by (simp_all add: input_inv_defs move_cursor_left_def move_cursor_right_def clamp_cursor_def same_rest_def
      total_items_def)

lemma selection_inv:
  assumes "input_inv s"
  shows "input_inv (move_autocomplete_selection_up s) \<and> same_rest s (move_autocomplete_selection_up s)"
    and "input_inv (move_autocomplete_selection_down s) \<and> same_rest s (move_autocomplete_selection_down s)"
    and "input_inv (snd (apply_autocomplete_selection s)) \<and> same_rest s (snd (apply_autocomplete_selection s))"
proof -
  show "input_inv (move_autocomplete_selection_up s) \<and> same_rest s (move_autocomplete_selection_up s)"
    and "input_inv (move_autocomplete_selection_down s) \<and> same_rest s (move_autocomplete_selection_down s)"
    using assms
    by (auto simp: input_inv_defs move_autocomplete_selection_up_def move_autocomplete_selection_down_def
        same_rest_def total_items_def)
  show "input_inv (snd (apply_autocomplete_selection s)) \<and> same_rest s (snd (apply_autocomplete_selection s))"
    using assms
    by (auto simp: input_inv_defs apply_autocomplete_selection_def Let_def clear_autocomplete_def
        same_rest_def total_items_def list_all_length)
qed

lemma show_item_frame [simp]:
  "temp_input (show_item i s) = temp_input s" "history_index (show_item i s) = history_index s"
  "command_history (show_item i s) = command_history s" "queued_messages (show_item i s) = queued_messages s"
  "vim_mode_enabled (show_item i s) = vim_mode_enabled s" "total_items (show_item i s) = total_items s"
  by (simp_all add: show_item_def Let_def total_items_def)

lemma show_item_completion [simp]:
  "autocomplete_active (show_item i s) = autocomplete_active s"
  "autocomplete_suggestions (show_item i s) = autocomplete_suggestions s"
  "autocomplete_selected_index (show_item i s) = autocomplete_selected_index s"
  by (simp_all add: show_item_def Let_def)

lemma show_item_input:
  "i < total_items s \<Longrightarrow> input (show_item i s) = (command_history s @ queued_messages s) ! i
     \<and> character_index (show_item i s) = 0"
  by (auto simp: show_item_def Let_def total_items_def nth_append)

lemma show_item_inv:
  assumes "input_inv s" "i < total_items s" "pred_option utf8_ok temp"
  shows "input_inv (show_item i (s\<lparr>temp_input := temp, history_index := Some i\<rparr>))"
proof -
  let ?t = "s\<lparr>temp_input := temp, history_index := Some i\<rparr>"
  have "(command_history s @ queued_messages s) ! i \<in> set (command_history s @ queued_messages s)"
    using assms(2) by (intro nth_mem) (simp add: total_items_def)
  then have "utf8_ok (input (show_item i ?t))"
    using assms show_item_input [of i ?t] by (auto simp: input_inv_defs list_all_iff total_items_def)
  then show ?thesis
    using assms show_item_input [of i ?t]
    by (simp add: input_inv_defs total_items_def)
qed

lemma sync_if_no_vim [simp]: "\<not> vim_mode_enabled s \<Longrightarrow> sync_if_vim K s = s"
  by (simp add: sync_if_vim_def)

lemma backwards_inv:
  assumes "input_inv s"
  shows "input_inv (navigate_history_backwards K s) \<and> same_rest s (navigate_history_backwards K s)"
proof (cases "history_index s")
  case None
  then show ?thesis
    using assms show_item_inv [OF assms, of "total_items s - 1" "Some (input s)"]
    by (auto simp: navigate_history_backwards_def same_rest_def input_inv_def cursor_ok_def)
next
  case (Some i)
  then have "i < total_items s" "pred_option utf8_ok (temp_input s)"
    using assms by (simp_all add: input_inv_defs)
  then show ?thesis
    using Some assms show_item_inv [OF assms, of "i - 1" "temp_input s"]
    by (auto simp: navigate_history_backwards_def same_rest_def input_inv_def)
qed

lemma forwards_inv:
  assumes "input_inv s"
  shows "\<exists>t. navigate_history_forwards K s = Some t \<and> input_inv t \<and> same_rest s t"
proof (cases "history_index s")
  case None
  then show ?thesis using assms by (simp add: navigate_history_forwards_def input_inv_def)
next
  case (Some i)
  then have i: "i < total_items s" "pred_option utf8_ok (temp_input s)"
    using assms by (simp_all add: input_inv_defs)
  show ?thesis
  proof (cases "i < total_items s - 1")
    case True
    then show ?thesis
      using Some i assms show_item_inv [OF assms, of "i + 1" "temp_input s"]
      by (auto simp: navigate_history_forwards_def same_rest_def input_inv_def)
  next
    case False
    then show ?thesis
      using Some i assms
      by (auto simp: navigate_history_forwards_def same_rest_def input_inv_defs total_items_def Let_def
          split: option.splits)
  qed
qed

text \<open>The end of a row is inside the text.\<close>

lemma row_end_bound:
  "row_end row r n ls = Some i \<Longrightarrow> i + 1 \<le> n + sum_list (map (\<lambda>l. char_count l + 1) ls)"
  by (induction row r n ls rule: row_end.induct) (auto split: if_splits)

lemma put_index_inv:
  "input_inv s \<Longrightarrow> i \<le> char_count (input s) \<Longrightarrow>
   input_inv (s\<lparr>character_index := i\<rparr>) \<and> same_rest s (s\<lparr>character_index := i\<rparr>)"
  by (simp add: input_inv_defs same_rest_def total_items_def)

lemma down_key_inv:
  assumes "input_inv s"
  shows "\<exists>t. handle_input_down_key K s = Some t \<and> input_inv t \<and> same_rest s t"
proof -
  have s: "\<not> vim_mode_enabled s" "utf8_ok (input s)" using assms by (simp_all add: input_inv_defs)
  have row: "input_inv t \<and> same_rest s t"
    if "t = (case row_end r 0 0 (str_lines (input s)) of Some i \<Rightarrow> s\<lparr>character_index := i\<rparr> | None \<Rightarrow> s)" for r t
    using that assms lines_chars [OF s(2)] row_end_bound [of r 0 0 "str_lines (input s)"]
    by (auto split: option.splits intro!: put_index_inv)
  have "sync_if_vim K t = t" if "same_rest s t" for t
    using that s by (simp add: same_rest_def)
  then show ?thesis
    using row [OF refl] forwards_inv [OF assms, of K] selection_inv(2) [OF assms] assms
      put_index_inv [OF assms, of "char_count (input s)"]
    unfolding handle_input_down_key_def Let_def
    by (auto simp del: sync_if_no_vim)
qed

lemma up_key_inv:
  "input_inv s \<Longrightarrow> input_inv (handle_input_up_key K s) \<and> same_rest s (handle_input_up_key K s)"
  using backwards_inv [of s K] selection_inv(1) [of s] put_index_inv [of s 0]
  by (simp add: handle_input_up_key_def)

lemma edit_step_inv:
  assumes "input_inv s" "op_ok x"
  shows "\<exists>t. edit_step K x s = Some t \<and> input_inv t \<and> same_rest s t"
  using assms enter_char_inv [of s] paste_inv [of s] delete_char_inv [of s] move_cursor_inv [of s]
    up_key_inv [of s K] down_key_inv [of s K] selection_inv(3) [of s]
  by (cases x) (auto simp: edit_step_def op_ok_def)

text \<open>C27: whatever is typed, pasted, deleted, completed or browsed while the vim keys are off, the input line
  never panics, its cursor stays inside the text, the selected suggestion exists, and the history and the
  queue are not changed.\<close>

theorem editing_is_safe:
  assumes "input_inv s" "list_all op_ok xs"
  shows "\<exists>t. edit_run K xs s = Some t \<and> input_inv t \<and> same_rest s t"
  using assms
proof (induction xs rule: rev_induct)
  case (snoc x xs)
  then obtain t where t: "edit_run K xs s = Some t" "input_inv t" "same_rest s t" by auto
  moreover obtain u where "edit_step K x t = Some u" "input_inv u" "same_rest t u"
    using edit_step_inv [OF t(2)] snoc.prems by auto
  ultimately show ?case by (auto simp: edit_run_def intro: same_rest_trans)
qed (simp add: edit_run_def)

section \<open>History\<close>

lemma backwards_first:
  "history_index s = None \<Longrightarrow> 0 < total_items s \<Longrightarrow> \<not> vim_mode_enabled s \<Longrightarrow>
   navigate_history_backwards K s =
     show_item (total_items s - 1) (s\<lparr>temp_input := Some (input s), history_index := Some (total_items s - 1)\<rparr>)"
  by (simp add: navigate_history_backwards_def)

lemma backwards_next:
  "history_index s = Some (Suc i) \<Longrightarrow> 0 < total_items s \<Longrightarrow> \<not> vim_mode_enabled s \<Longrightarrow>
   navigate_history_backwards K s = show_item i (s\<lparr>history_index := Some i\<rparr>)"
  by (simp add: navigate_history_backwards_def)

text \<open>What \<open>k\<close> steps back from a draft have shown.\<close>

definition browsed :: "'z input_state_scheme \<Rightarrow> nat \<Rightarrow> 'z input_state_scheme \<Rightarrow> bool" where
  "browsed s k t \<longleftrightarrow>
     history_index t = Some (total_items s - k) \<and> temp_input t = Some (input s)
     \<and> input t = (command_history s @ queued_messages s) ! (total_items s - k)
     \<and> same_rest s t"

lemma browsed_total: "browsed s k t \<Longrightarrow> total_items t = total_items s"
  by (simp add: browsed_def same_rest_def total_items_def)

lemma browsed_back:
  assumes "history_index s = None" "\<not> vim_mode_enabled s" "k < total_items s"
  shows "browsed s (Suc k) ((navigate_history_backwards K ^^ Suc k) s)"
  using assms(3)
proof (induction k)
  case 0
  then show ?case
    using assms show_item_input [of "total_items s - 1"
        "s\<lparr>temp_input := Some (input s), history_index := Some (total_items s - 1)\<rparr>"]
    by (simp add: backwards_first browsed_def same_rest_def total_items_def)
next
  case (Suc k)
  let ?t = "(navigate_history_backwards K ^^ Suc k) s" and ?i = "total_items s - Suc (Suc k)"
  have t: "browsed s (Suc k) ?t" using Suc by simp
  have "history_index ?t = Some (Suc ?i)"
    using t Suc.prems by (simp add: browsed_def Suc_diff_Suc)
  then have step: "(navigate_history_backwards K ^^ Suc (Suc k)) s = show_item ?i (?t\<lparr>history_index := Some ?i\<rparr>)"
    using t assms Suc.prems browsed_total [OF t] backwards_next [of ?t ?i K]
    by (simp add: browsed_def same_rest_def)
  have "?i < total_items (?t\<lparr>history_index := Some ?i\<rparr>)"
    using browsed_total [OF t] Suc.prems by (simp add: total_items_def)
  from show_item_input [OF this] show ?case
    using t unfolding step by (simp add: browsed_def same_rest_def)
qed

lemma browsed_forward:
  assumes "browsed s (Suc (Suc k)) t" "Suc k < total_items s" "\<not> vim_mode_enabled s"
  shows "\<exists>u. navigate_history_forwards K t = Some u \<and> browsed s (Suc k) u"
proof -
  let ?i = "total_items s - Suc k"
  have t: "total_items t = total_items s" using assms browsed_total by blast
  have "?i < total_items (t\<lparr>history_index := Some ?i\<rparr>)" using t assms by (simp add: total_items_def)
  note show_item_input [OF this]
  moreover have "navigate_history_forwards K t = Some (show_item ?i (t\<lparr>history_index := Some ?i\<rparr>))"
    using assms t by (auto simp: navigate_history_forwards_def browsed_def same_rest_def Suc_diff_Suc)
  ultimately show ?thesis using assms by (simp add: browsed_def same_rest_def)
qed

lemma browsed_last_forward:
  assumes "browsed s (Suc 0) t" "0 < total_items s" "\<not> vim_mode_enabled s"
  shows "\<exists>u. navigate_history_forwards K t = Some u \<and> history_index u = None \<and> input u = input s
      \<and> character_index u = char_count (input s) \<and> same_rest s u"
  using assms browsed_total [OF assms(1)]
  by (auto simp: navigate_history_forwards_def browsed_def same_rest_def Let_def)

text \<open>Repeated steps forward, which stop at a panic.\<close>

primrec forwards_by :: "'k edtui \<Rightarrow> nat \<Rightarrow> 'z input_state_scheme \<Rightarrow> 'z input_state_scheme option" where
  "forwards_by K 0 s = Some s"
| "forwards_by K (Suc n) s = Option.bind (navigate_history_forwards K s) (forwards_by K n)"

lemma browsed_restore:
  assumes "browsed s (Suc k) t" "k < total_items s" "\<not> vim_mode_enabled s"
  shows "\<exists>u. forwards_by K (Suc k) t = Some u \<and> history_index u = None \<and> input u = input s
      \<and> character_index u = char_count (input s) \<and> same_rest s u"
  using assms
proof (induction k arbitrary: t)
  case 0
  then obtain u where "navigate_history_forwards K t = Some u" "history_index u = None" "input u = input s"
    "character_index u = char_count (input s)" "same_rest s u"
    using browsed_last_forward by blast
  then show ?case by simp
next
  case (Suc k)
  then obtain u where "navigate_history_forwards K t = Some u" "browsed s (Suc k) u"
    using browsed_forward by blast
  then show ?case using Suc by auto
qed

text \<open>Browsing back shows the queued messages and the commands from the newest to the oldest, and as many
  steps forward as back give the draft back with the cursor at its end.\<close>

theorem history_restores_draft:
  assumes "history_index s = None" "\<not> vim_mode_enabled s" "0 < k" "k \<le> total_items s"
  shows "input ((navigate_history_backwards K ^^ k) s)
        = (command_history s @ queued_messages s) ! (total_items s - k)
     \<and> map_option (\<lambda>t. (input t, character_index t, history_index t))
          (forwards_by K k ((navigate_history_backwards K ^^ k) s))
        = Some (input s, char_count (input s), None)"
proof -
  obtain j where k: "k = Suc j" using assms by (cases k) auto
  have b: "browsed s (Suc j) ((navigate_history_backwards K ^^ Suc j) s)"
    using assms k by (intro browsed_back) auto
  moreover have "j < total_items s" using assms k by simp
  ultimately show ?thesis
    using browsed_restore [OF b _ assms(2), of K] k by (auto simp: browsed_def)
qed

section \<open>Autocompletion\<close>

lemma catalogue_slash:
  "list_all (\<lambda>(c, d). c \<noteq> [] \<and> hd c = CHR ''/'' \<and> \<not> starts_with ''/'' (tl c)) slash_commands"
  by (simp add: slash_commands_def)

lemma trim_one_slash: "\<not> starts_with ''/'' w \<Longrightarrow> trim_start_matches ''/'' (CHR ''/'' # w) = w"
  using trim_start_matches_step [of "''/''" w] trim_start_matches_stop [of "''/''" w] by simp

lemma slash_command_shape:
  assumes "(c, d) \<in> set slash_commands"
  shows "trim_start_matches ''/'' c = tl c" and "c = CHR ''/'' # tl c"
proof -
  have c: "c \<noteq> []" "hd c = CHR ''/''" "\<not> starts_with ''/'' (tl c)"
    using assms catalogue_slash by (auto simp: list_all_iff)
  then show e: "c = CHR ''/'' # tl c" by (metis list.collapse)
  show "trim_start_matches ''/'' c = tl c"
    using trim_one_slash [OF c(3)] e by simp
qed

text \<open>After a slash, autocompletion is shown and offers exactly the commands of the catalogue that extend
  the input.\<close>

theorem suggestions_extend_input:
  assumes "\<not> starts_with ''/'' w" "utf8_ok w"
  shows "should_show_autocomplete (CHR ''/'' # w)
    \<and> build_autocomplete_suggestions (CHR ''/'' # w)
      = filter (\<lambda>(c, d). starts_with (CHR ''/'' # w) c) slash_commands"
proof -
  note trim_one_slash [OF assms(1)]
  moreover have "starts_with w (trim_start_matches ''/'' c) \<longleftrightarrow> starts_with (CHR ''/'' # w) c"
    if cd: "(c, d) \<in> set slash_commands" for c d
  proof -
    obtain t where "c = CHR ''/'' # t" using slash_command_shape(2) [OF cd] by blast
    then show ?thesis using slash_command_shape(1) [OF cd] by simp
  qed
  ultimately have "build_autocomplete_suggestions (CHR ''/'' # w)
      = filter (\<lambda>(c, d). starts_with (CHR ''/'' # w) c) slash_commands"
    by (auto simp: build_autocomplete_suggestions_def trim_start_slash intro!: filter_cong)
  moreover have "should_show_autocomplete (CHR ''/'' # w)"
    using utf8_ok_starts [OF assms(2)]
    by (cases w) (auto simp: should_show_autocomplete_def trim_start_slash Let_def is_white_def)
  ultimately show ?thesis by blast
qed

section \<open>Rows\<close>

lemma lines_trailing: "LF \<notin> set t \<Longrightarrow> str_lines (t @ [LF]) = [strip_cr t]"
  by (simp add: str_lines_def split_on_append Let_def)

text \<open>After a trailing line feed the cursor counts as being at the start of the first line, so the up key
  replaces the text by a history entry instead of moving the cursor.\<close>

theorem up_after_trailing_newline:
  assumes "input s = t @ [LF]" "LF \<notin> set t" "utf8_ok t" "character_index s = char_count (input s)"
    and "\<not> autocomplete_active s" "\<not> vim_mode_enabled s"
  shows "handle_input_up_key K s = navigate_history_backwards K s"
proof -
  have "char_count (input s) = char_count t + char_count [LF]"
    unfolding assms(1) by (rule char_count_append) (simp add: LF_not_continuation)
  then have "char_count (strip_cr t) + 1 \<le> character_index s"
    using assms(4) strip_cr_le [OF assms(3)] code_point_utf8_ok
    by (simp add: ascii_code_point [OF LF_ascii])
  then have "is_at_start_of_first_line s"
    using lines_trailing [OF assms(2)]
    by (simp add: is_at_start_of_first_line_def get_cursor_row_def get_cursor_col_def cursor_position_def
        assms(1) Let_def)
  then show ?thesis using assms(5,6) by (simp add: handle_input_up_key_def)
qed

section \<open>The vim editor\<close>

lemma position_row: "position_scan n r ls = (row, col) \<Longrightarrow> r \<le> row"
  by (induction n r ls rule: position_scan.induct) (auto split: if_splits)

lemma offset_of_position:
  "position_scan n r ls = (row, col) \<Longrightarrow> n \<le> sum_list (map (\<lambda>l. length l + 1) ls) \<Longrightarrow>
   offset_scan row col r ls = n"
proof (induction n r ls rule: position_scan.induct)
  case (2 n r l ls)
  then show ?case
  proof (cases "n \<le> length l")
    case False
    then have p: "position_scan (n - (length l + 1)) (r + 1) ls = (row, col)" using 2 by simp
    then have "r < row" using position_row by fastforce
    then show ?thesis using 2 False p by simp
  qed (use 2 in auto)
qed simp

lemma split_on_lengths: "sum_list (map (\<lambda>p. length p + 1) (split_on c s)) = length s + 1"
  by (induction s) (auto split: list.splits)

lemma strip_cr_free: "CR \<notin> set l \<Longrightarrow> strip_cr l = l"
  by (cases l rule: rev_cases) (auto simp: strip_cr_def)

lemma join_set: "p \<in> set ps \<Longrightarrow> set p \<subseteq> set (join sep ps)"
  by (induction ps rule: induct_list012) auto

lemma split_on_set: "p \<in> set (split_on c s) \<Longrightarrow> set p \<subseteq> set s"
  using join_set [of p "split_on c s" "[c]"] by (simp add: join_split_on)

lemma lines_lengths:
  assumes "CR \<notin> set s"
  shows "length s \<le> sum_list (map (\<lambda>l. length l + 1) (str_lines s))"
proof -
  obtain ps p where ps: "split_on LF s = ps @ [p]"
    using split_on_not_Nil append_butlast_last_id by metis
  have "map strip_cr ps = ps"
    using assms split_on_set [of _ LF s] by (intro map_idI strip_cr_free) (auto simp: ps)
  then show ?thesis
    using split_on_lengths [of LF s] by (auto simp: str_lines_def ps Let_def)
qed

text \<open>Handing the input line to the vim editor and reading it back changes neither the text nor the
  cursor, if the editor's lines hold the text they were made from and the text has no carriage return.\<close>

theorem vim_sync_roundtrip:
  assumes "join [LF] (map concat (lines_from K (input s))) = input s"
    and "CR \<notin> set (input s)" "character_index s \<le> length (input s)"
  shows "input (sync_vim_input (sync_input_to_vim K s)) = input s
     \<and> character_index (sync_vim_input (sync_input_to_vim K s)) = character_index s"
proof -
  obtain row col where p: "position_scan (character_index s) 0 (str_lines (input s)) = (row, col)"
    by fastforce
  have "offset_scan row col 0 (str_lines (input s)) = character_index s"
    using offset_of_position [OF p] lines_lengths [OF assms(2)] assms(3) by simp
  then show ?thesis
    using p assms
    by (simp add: sync_vim_input_def sync_input_to_vim_def set_text_content_preserving_mode_def
        get_text_content_def editor_new_def Let_def)
qed

lemma code_point_lines:
  assumes "code_point c" "2 \<le> length c"
  shows "str_lines c = [c]"
proof -
  have "LF \<notin> set c" using assms code_point_LF by force
  then have "split_on LF c = [c]" by (rule split_on_atom)
  then show ?thesis using assms by (auto simp: str_lines_def Let_def)
qed

text \<open>With the vim keys on, pasting after a character of more than one byte panics: the column of the
  editor counts characters but is used as a byte offset.\<close>

theorem vim_paste_panics:
  assumes "vim_mode_enabled s" "ed_lines (vim_input_editor s) = [[c]]"
    and "ed_row (vim_input_editor s) = 0" "ed_col (vim_input_editor s) = 1"
    and "code_point c" "2 \<le> length c"
  shows "handle_runtime_paste K d s = None"
proof -
  obtain b b' bs where c: "c = b # b' # bs"
    using assms(6) by (auto simp: numeral_2_eq_2 Suc_le_length_iff)
  then have "is_continuation b'" using assms(5) by (simp add: code_point_def)
  then have "\<not> is_char_boundary c 1" by (simp add: is_char_boundary_def c)
  then have "insert_str 1 d c = None" by (simp add: insert_str_def)
  moreover have "get_text_content (vim_input_editor s) = c"
    by (simp add: get_text_content_def assms(2))
  ultimately show ?thesis
    using assms code_point_lines [OF assms(5,6)] by (simp add: handle_runtime_paste_def Let_def)
qed

section \<open>Examples\<close>

text \<open>An input line with a character of two bytes, two old commands and a queued message.\<close>

definition e_acute :: string where
  "e_acute = [CHR 0xC3, CHR 0xA9]"

definition sample_input :: input_state where
  "sample_input = \<lparr>input = ''a'' @ e_acute, character_index = 2, input_modified = False,
     command_history = [''ls'', ''cd''], history_index = None, temp_input = None, queued_messages = [''go''],
     editing_queue_index = None, autocomplete_active = False, autocomplete_suggestions = [],
     autocomplete_selected_index = 0, vim_mode_enabled = False,
     vim_input_editor = \<lparr>ed_lines = [[e_acute]], ed_row = 0, ed_col = 1, ed_mode = VimInsert\<rparr>\<rparr>"

definition sample_edtui :: "unit edtui" where
  "sample_edtui = \<lparr>lines_from = (\<lambda>t. map utf8_chars (split_on LF t)), on_event = (\<lambda>k e. e)\<rparr>"

lemma sample_input_inv: "input_inv sample_input"
proof -
  have "cursor_ok sample_input" "list_all utf8_ok (command_history sample_input)"
    "list_all utf8_ok (queued_messages sample_input)"
    by code_simp+
  then show ?thesis
    by (simp add: input_inv_def texts_ok_def completion_ok_def browsing_ok_def sample_input_def)
qed

theorem editing_refines_zipper_witness:
  "input_inv sample_input \<and> op_ok Backspace \<and> editing_op Backspace
   \<and> map_option around_cursor (edit_step sample_edtui Backspace sample_input) = Some ([''a''], [])"
proof -
  have z: "zipper_step Backspace (around_cursor sample_input) = ([''a''], [])" by code_simp
  have op: "op_ok Backspace" "editing_op Backspace" by (simp_all add: op_ok_def editing_op_def)
  show ?thesis using editing_refines_zipper [OF sample_input_inv op, of sample_edtui] z sample_input_inv op by simp
qed

theorem editing_is_safe_witness:
  "input_inv sample_input \<and> list_all op_ok [ArrowUp, EnterChar e_acute, ArrowUp, Backspace]
   \<and> (\<exists>t. edit_run sample_edtui [ArrowUp, EnterChar e_acute, ArrowUp, Backspace] sample_input = Some t \<and> input_inv t)"
proof -
  have ok: "list_all op_ok [ArrowUp, EnterChar e_acute, ArrowUp, Backspace]" by code_simp
  show ?thesis using editing_is_safe [OF sample_input_inv ok, of sample_edtui] sample_input_inv ok by blast
qed

theorem history_restores_draft_witness:
  "input ((navigate_history_backwards sample_edtui ^^ 3) sample_input) = ''ls''
   \<and> map_option (\<lambda>t. (input t, character_index t, history_index t))
        (forwards_by sample_edtui 3 ((navigate_history_backwards sample_edtui ^^ 3) sample_input))
      = Some (''a'' @ e_acute, 2, None)"
proof -
  have s: "history_index sample_input = None" "\<not> vim_mode_enabled sample_input" "(0::nat) < 3"
    "3 \<le> total_items sample_input" "(command_history sample_input @ queued_messages sample_input) ! (total_items sample_input - 3) = ''ls''"
    "input sample_input = ''a'' @ e_acute"
    by (simp_all add: sample_input_def total_items_def)
  moreover have "char_count (input sample_input) = 2" by code_simp
  ultimately show ?thesis using history_restores_draft [OF s(1-4), of sample_edtui] by simp
qed

theorem suggestions_extend_input_witness:
  "\<not> starts_with ''/'' ''rew'' \<and> utf8_ok ''rew''
   \<and> map fst (build_autocomplete_suggestions ''/rew'') = [''/rewind'']"
proof -
  have w: "\<not> starts_with ''/'' ''rew''" "utf8_ok ''rew''" by code_simp+
  have "map fst (filter (\<lambda>(c, d). starts_with (CHR ''/'' # ''rew'') c) slash_commands) = [''/rewind'']" by code_simp
  then show ?thesis using suggestions_extend_input [OF w] w by simp
qed

theorem up_after_trailing_newline_witness:
  "input (handle_input_up_key sample_edtui (sample_input\<lparr>input := ''ab'' @ [LF], character_index := 3\<rparr>)) = ''go''"
proof -
  let ?s = "sample_input\<lparr>input := ''ab'' @ [LF], character_index := 3\<rparr>"
  have "handle_input_up_key sample_edtui ?s = navigate_history_backwards sample_edtui ?s"
  proof (rule up_after_trailing_newline)
    show "character_index ?s = char_count (input ?s)" "LF \<notin> set ''ab''" "utf8_ok ''ab''" by code_simp+
  qed (simp_all add: sample_input_def)
  moreover have "input (navigate_history_backwards sample_edtui ?s) = ''go''" by code_simp
  ultimately show ?thesis by simp
qed

theorem vim_sync_roundtrip_witness:
  "input (sync_vim_input (sync_input_to_vim sample_edtui (sample_input\<lparr>input := ''ab'' @ [LF] @ ''c''\<rparr>))) = ''ab'' @ [LF] @ ''c''
   \<and> character_index (sync_vim_input (sync_input_to_vim sample_edtui (sample_input\<lparr>input := ''ab'' @ [LF] @ ''c''\<rparr>))) = 2"
proof -
  let ?s = "sample_input\<lparr>input := ''ab'' @ [LF] @ ''c''\<rparr>"
  have "join [LF] (map concat (lines_from sample_edtui (input ?s))) = input ?s" "CR \<notin> set (input ?s)"
    "character_index ?s \<le> length (input ?s)"
    by code_simp+
  note vim_sync_roundtrip [OF this]
  then show ?thesis by (simp add: sample_input_def)
qed

theorem vim_paste_panics_witness:
  "handle_runtime_paste sample_edtui ''x'' (sample_input\<lparr>vim_mode_enabled := True\<rparr>) = None"
proof (rule vim_paste_panics)
  show "code_point e_acute" "2 \<le> length e_acute" by code_simp+
qed (simp_all add: sample_input_def)

end
