(* ===== verification/Input_History.thy ===== *)
theory Input_History
  imports Ui_Text
begin

text \<open>
  The history file of the input line: \<open>src/app/persistence/history.rs\<close> and \<open>save_to_history\<close> of
  \<open>src/app/commands/submit.rs\<close>. The file is the list of the commands, one per line, with backslashes and
  line feeds escaped; \<open>None\<close> is a file that cannot be read. Writing is the argument \<open>write\<close>, which gives the
  file after a write of some contents.

  \<open>history_survives_restart\<close> shows that a command that is saved is there after a restart; the commands that
  are not are those that spell out \<open>\n\<close> (\<open>spelled_newline_is_changed\<close>) and those that end in a carriage return.
\<close>

section \<open>The file\<close>

definition newline_code :: string where "newline_code = ''n''"
definition newline_escape :: string where "newline_escape = BSLASH # newline_code"

definition load_entry :: "string \<Rightarrow> string" where
  "load_entry l = replace_all [BSLASH, BSLASH] [BSLASH] (replace_all newline_escape [LF] l)"

definition save_entry :: "string \<Rightarrow> string" where
  "save_entry c = replace_all [LF] newline_escape (replace_all [BSLASH] [BSLASH, BSLASH] c)"

text \<open>The loop of \<open>deduplicate_history\<close>, with the last entry that was kept.\<close>

fun deduplicate_loop :: "string option \<Rightarrow> string list \<Rightarrow> string list" where
  "deduplicate_loop last_entry [] = []"
| "deduplicate_loop last_entry (entry # rest) =
     (if last_entry \<noteq> Some entry then entry # deduplicate_loop (Some entry) rest
      else deduplicate_loop last_entry rest)"

definition deduplicate_history :: "string list \<Rightarrow> string list" where
  "deduplicate_history h = deduplicate_loop None h"

definition load_history :: "string option \<Rightarrow> string list" where
  "load_history file =
     (case file of
        None \<Rightarrow> []
      | Some contents \<Rightarrow> deduplicate_history (map load_entry (str_lines contents)))"

definition history_contents :: "string list \<Rightarrow> string" where
  "history_contents h = join [LF] (map save_entry h)"

definition save_history ::
  "(string option \<Rightarrow> string \<Rightarrow> string option) \<Rightarrow> string list \<Rightarrow> string option \<Rightarrow> string option" where
  "save_history write h file = write file (history_contents h)"

text \<open>The commands in memory and the file.\<close>

type_synonym history_state = "string list \<times> string option"

definition save_to_history ::
  "(string option \<Rightarrow> string \<Rightarrow> string option) \<Rightarrow> string \<Rightarrow> history_state \<Rightarrow> history_state" where
  "save_to_history write command st =
     (let (h, file) = st
      in if trim command = [] then st
         else if h \<noteq> [] \<and> last h = command then st
         else (let h1 = h @ [command];
                   h2 = (if 1000 < length h1 then drop (length h1 - 1000) h1 else h1)
               in (h2, save_history write h2 file)))"

section \<open>Deduplication\<close>

text \<open>The loop is the library's removal of adjacent duplicates.\<close>

lemma deduplicate_loop_Some: "x # deduplicate_loop (Some x) h = remdups_adj (x # h)"
  by (induction h arbitrary: x) simp_all

lemma deduplicate_is_remdups_adj: "deduplicate_history h = remdups_adj h"
  by (cases h) (simp_all add: deduplicate_history_def deduplicate_loop_Some del: remdups_adj.simps(3))

section \<open>One entry\<close>

lemma backslash_LF [simp]: "BSLASH \<noteq> LF" "LF \<noteq> BSLASH" "BSLASH \<noteq> CHR ''n''" "CHR ''n'' \<noteq> BSLASH"
    "LF \<noteq> CHR ''n''" "CHR ''n'' \<noteq> LF"
  by (simp_all add: BSLASH_def LF_def)

definition saved_char :: "char \<Rightarrow> string" where
  "saved_char c =
     (if c = BSLASH then [BSLASH, BSLASH] else if c = LF then newline_escape else [c])"

definition saved_char1 :: "char \<Rightarrow> string" where
  "saved_char1 c = (if c = BSLASH then [BSLASH, BSLASH] else [c])"

lemma save_entry_map: "save_entry c = concat (map saved_char c)"
proof (induction c)
  case (Cons x c)
  have "save_entry (x # c) = save_entry [x] @ save_entry c"
    using replace_single_append [of _ _ "[_]"] by (simp add: save_entry_def replace_single)
  moreover have "save_entry [x] = saved_char x"
    by (simp add: save_entry_def saved_char_def replace_single)
  ultimately show ?case using Cons by simp
qed (simp add: save_entry_def)

lemma saved_char_simps [simp]:
  "saved_char BSLASH = [BSLASH, BSLASH]" "saved_char LF = newline_escape"
  "saved_char1 BSLASH = [BSLASH, BSLASH]" "saved_char1 LF = [LF]"
  "c \<noteq> BSLASH \<Longrightarrow> c \<noteq> LF \<Longrightarrow> saved_char c = [c]"
  "c \<noteq> BSLASH \<Longrightarrow> saved_char1 c = [c]"
  by (simp_all add: saved_char_def saved_char1_def)

lemma newline_code_simps [simp]:
  "hd newline_code \<noteq> BSLASH" "newline_code \<noteq> []" "BSLASH \<notin> set newline_code" "LF \<notin> set newline_code"
  by (simp_all add: newline_code_def)

lemma starts_newline: "starts_with newline_code (concat (map saved_char v)) \<longleftrightarrow> starts_with newline_code v"
proof (rule starts_encoded)
  show "c \<in> set newline_code \<Longrightarrow> saved_char c = [c]" for c
    by (rule saved_char_simps(5)) (metis newline_code_simps(3,4))+
qed (auto simp: saved_char_def newline_escape_def)

lemma load_step1:
  "\<not> contains newline_escape v \<Longrightarrow>
   replace_all newline_escape [LF] (concat (map saved_char v)) = concat (map saved_char1 v)"
proof (induction v)
  case (Cons c v)
  let ?r = "concat (map saved_char v)"
  have IH: "replace_all newline_escape [LF] ?r = concat (map saved_char1 v)"
    using Cons.IH Cons.prems contains_tail by metis
  have front: "\<not> starts_with newline_escape (c # v)" using Cons.prems contains_front by blast
  consider "c = BSLASH" | "c = LF" | "c \<noteq> BSLASH" "c \<noteq> LF" by blast
  then show ?case
  proof cases
    case 1
    then have "\<not> starts_with newline_code ?r" using front starts_newline by (simp add: newline_escape_def)
    from backslashes_kept [OF this] show ?thesis using 1 IH by (simp add: newline_escape_def)
  next
    case 2
    then show ?thesis using IH replace_hit [of newline_code "[LF]" ?r] by (simp add: newline_escape_def)
  next
    case 3
    then show ?thesis using IH replace_step [of c newline_code "[LF]" ?r] by (simp add: newline_escape_def)
  qed
qed simp

lemma load_step2: "replace_all [BSLASH, BSLASH] [BSLASH] (concat (map saved_char1 v)) = v"
  by (induction v) (auto simp: saved_char1_def)

lemma load_save: "\<not> contains newline_escape c \<Longrightarrow> load_entry (save_entry c) = c"
  by (simp add: load_entry_def save_entry_map load_step1 load_step2)

text \<open>A command that spells out the escape of a line feed comes back with a line feed in it.\<close>

theorem spelled_newline_is_changed: "load_entry (save_entry newline_escape) = [BSLASH, LF]"
  by code_simp

section \<open>The whole history\<close>

definition entry_ok :: "string \<Rightarrow> bool" where
  "entry_ok c \<longleftrightarrow> trim c \<noteq> [] \<and> \<not> contains newline_escape c \<and> last c \<noteq> CR"

definition history_ok :: "string list \<Rightarrow> bool" where
  "history_ok h \<longleftrightarrow> list_all entry_ok h \<and> distinct_adj h \<and> length h \<le> 1000"

lemma saved_no_LF: "LF \<notin> set (save_entry c)"
  by (auto simp: save_entry_map saved_char_def newline_escape_def newline_code_def)

lemma saved_not_Nil: "c \<noteq> [] \<Longrightarrow> save_entry c \<noteq> []"
  by (cases c) (simp_all add: save_entry_map saved_char_def newline_escape_def)

lemma saved_last: "c \<noteq> [] \<Longrightarrow> last c \<noteq> CR \<Longrightarrow> last (save_entry c) \<noteq> CR"
proof (cases c rule: rev_cases)
  case (snoc d x)
  assume "last c \<noteq> CR"
  moreover have "last (save_entry c) = last (saved_char x)"
    by (simp add: snoc save_entry_map saved_char_def newline_escape_def)
  ultimately show ?thesis
    by (auto simp: snoc saved_char_def newline_escape_def newline_code_def BSLASH_def CR_def)
qed simp

lemma split_on_join:
  assumes "ps \<noteq> []" "\<And>p. p \<in> set ps \<Longrightarrow> c \<notin> set p"
  shows "split_on c (join [c] ps) = ps"
  using assms
proof (induction ps rule: induct_list012)
  case (2 p)
  then show ?case by (simp add: split_on_atom)
next
  case (3 p q ps)
  then show ?case by (simp add: split_on_append)
qed simp

lemma lines_join:
  assumes "\<And>p. p \<in> set ps \<Longrightarrow> LF \<notin> set p \<and> p \<noteq> [] \<and> last p \<noteq> CR"
  shows "str_lines (join [LF] ps) = ps"
proof (cases "ps = []")
  case True
  then show ?thesis by (simp add: str_lines_def)
next
  case False
  then have "split_on LF (join [LF] ps) = ps" using assms by (intro split_on_join) auto
  moreover have "last ps \<noteq> []" using False assms [of "last ps"] by simp
  moreover have "map strip_cr (butlast ps) = butlast ps"
    using assms by (intro map_idI) (auto simp: strip_cr_def dest: in_set_butlastD)
  ultimately show ?thesis using False by (simp add: str_lines_def Let_def)
qed

lemma entry_ok_not_Nil: "entry_ok c \<Longrightarrow> c \<noteq> []"
  by (auto simp: entry_ok_def)

lemma load_contents:
  assumes "list_all entry_ok h"
  shows "load_history (Some (history_contents h)) = remdups_adj h"
proof -
  have ok: "entry_ok c" if "c \<in> set h" for c using that assms by (simp add: list_all_iff)
  have "str_lines (join [LF] (map save_entry h)) = map save_entry h"
    by (rule lines_join) (use ok saved_no_LF saved_not_Nil saved_last entry_ok_not_Nil in
        \<open>auto simp: entry_ok_def\<close>)
  moreover have "map (load_entry \<circ> save_entry) h = h"
    using ok by (intro map_idI) (simp add: load_save entry_ok_def)
  ultimately show ?thesis
    by (simp add: load_history_def history_contents_def deduplicate_is_remdups_adj)
qed

lemma distinct_adj_drop: "distinct_adj h \<Longrightarrow> distinct_adj (drop n h)"
  by (metis append_take_drop_id distinct_adj_appendD2)

lemma distinct_adj_snoc:
  "distinct_adj h \<Longrightarrow> h = [] \<or> last h \<noteq> c \<Longrightarrow> distinct_adj (h @ [c])"
  by (auto simp: distinct_adj_append_iff)

lemma save_to_history_ok:
  assumes "history_ok (fst st)" "entry_ok command"
  shows "history_ok (fst (save_to_history write command st))"
proof (cases "fst (save_to_history write command st) = fst st")
  case False
  obtain h f where st: "st = (h, f)" by fastforce
  let ?k = "length (h @ [command]) - 1000"
  have new: "fst (save_to_history write command st) = drop ?k (h @ [command])" "h = [] \<or> last h \<noteq> command"
    using False by (auto simp: st save_to_history_def Let_def split: if_splits)
  have "distinct_adj (h @ [command])"
    using assms new(2) by (intro distinct_adj_snoc) (simp_all add: st history_ok_def)
  then have "distinct_adj (drop ?k (h @ [command]))" by (rule distinct_adj_drop)
  moreover have "list_all entry_ok (drop ?k (h @ [command]))"
    using assms by (auto simp: st history_ok_def list_all_iff dest: in_set_dropD)
  moreover have "length (drop ?k (h @ [command])) \<le> 1000" by simp
  ultimately show ?thesis unfolding new(1) history_ok_def by blast
qed (use assms in simp)

text \<open>The program starts with the history of the file.\<close>

definition startup :: "string option \<Rightarrow> history_state" where
  "startup file = (load_history file, file)"

text \<open>The file is the one that was written last.\<close>

definition in_step :: "history_state \<Rightarrow> bool" where
  "in_step st \<longleftrightarrow> history_ok (fst st) \<and> load_history (snd st) = fst st"

lemma save_to_history_in_step:
  assumes "in_step st" "entry_ok command" "\<And>f c. write f c = Some c"
  shows "in_step (save_to_history write command st)"
proof -
  have ok: "history_ok (fst (save_to_history write command st))"
    using assms by (intro save_to_history_ok) (simp_all add: in_step_def)
  show ?thesis
  proof (cases "save_to_history write command st = st")
    case False
    then have "snd (save_to_history write command st)
        = Some (history_contents (fst (save_to_history write command st)))"
      using assms(3) by (auto simp: save_to_history_def Let_def save_history_def split: prod.splits if_splits)
    then show ?thesis
      using ok load_contents by (simp add: in_step_def history_ok_def distinct_adj_altdef)
  qed (use assms in simp)
qed

interpretation history: op_invariant
  "\<lambda>c st. if entry_ok c then save_to_history (\<lambda>f d. Some d) c st else st" in_step
  by unfold_locales (simp add: save_to_history_in_step)

text \<open>C32: after any commands that do not spell out the escape of a line feed, do not end in a carriage return
  and are not blank, a restart finds in the file exactly the history that was in memory: at most a thousand
  commands, none twice in a row.\<close>

theorem history_survives_restart:
  assumes "in_step st" "list_all entry_ok commands"
  shows "startup (snd (fold (save_to_history (\<lambda>f d. Some d)) commands st))
      = fold (save_to_history (\<lambda>f d. Some d)) commands st
    \<and> history_ok (fst (fold (save_to_history (\<lambda>f d. Some d)) commands st))"
proof -
  let ?step = "\<lambda>c st. if entry_ok c then save_to_history (\<lambda>f d. Some d) c st else st"
  have "fold ?step commands st = fold (save_to_history (\<lambda>f d. Some d)) commands st"
    using assms(2) by (intro fold_cong) (auto simp: list_all_iff)
  then have "in_step (fold (save_to_history (\<lambda>f d. Some d)) commands st)"
    using history.run_inv [OF assms(1), of commands] by simp
  then show ?thesis by (simp add: in_step_def startup_def prod_eq_iff)
qed

lemma history_survives_restart_witness:
  "startup (snd (fold (save_to_history (\<lambda>f d. Some d)) [''ls'', ''ls'', ''pwd''] ([], None))) =
     ([''ls'', ''pwd''], Some (''ls'' @ [LF] @ ''pwd''))"
proof -
  have "in_step ([], None)" by (simp add: in_step_def history_ok_def load_history_def)
  moreover have "list_all entry_ok [''ls'', ''ls'', ''pwd'']" by code_simp
  ultimately have "startup (snd (fold (save_to_history (\<lambda>f d. Some d)) [''ls'', ''ls'', ''pwd''] ([], None)))
      = fold (save_to_history (\<lambda>f d. Some d)) [''ls'', ''ls'', ''pwd''] ([], None)"
    using history_survives_restart by blast
  also have "\<dots> = ([''ls'', ''pwd''], Some (''ls'' @ [LF] @ ''pwd''))" by code_simp
  finally show ?thesis .
qed

end
