(* ===== verification/Ui_Message_Event.thy ===== *)
theory Ui_Message_Event
  imports Ui_Text
begin

text \<open>
  The events that the terminal UI stores as texts among the messages of a conversation
  (\<open>src/app/state/ui_message_event.rs\<close>): \<open>to_message\<close> encodes an event in brackets with its fields separated
  by bars, \<open>ui_parse\<close> reads it back. The theorems say which events survive: \<open>unescape_escape\<close> for a field,
  \<open>event_roundtrip\<close> for an event.

  The text of an \<open>f32\<close> (\<open>{:.6}\<close>) and its parser are the arguments \<open>fmt\<close> and \<open>parse_f32\<close>.
\<close>

section \<open>Events and their texts\<close>

datatype 'f ui_message_event =
    ThinkingAnimation
  | CommandEvent string
  | GenerationStats 'f nat nat 'f string
  | ToolCallStarted string string
  | ToolCallCompleted string string string "string option"

definition BAR :: char where "BAR = CHR 0x7C"
definition BRACKET :: char where "BRACKET = CHR 0x5D"

definition bar_code :: string where "bar_code = ''u{007C}''"
definition bracket_code :: string where "bracket_code = ''u{005D}''"
definition bar_escape :: string where "bar_escape = BSLASH # bar_code"
definition bracket_escape :: string where "bracket_escape = BSLASH # bracket_code"

definition escape_field :: "string \<Rightarrow> string" where
  "escape_field v =
     replace_all [BRACKET] bracket_escape
       (replace_all [BAR] bar_escape
         (replace_all [BSLASH] [BSLASH, BSLASH] v))"

definition unescape_field :: "string \<Rightarrow> string" where
  "unescape_field v =
     replace_all [BSLASH, BSLASH] [BSLASH]
       (replace_all bar_escape [BAR]
         (replace_all bracket_escape [BRACKET] v))"

definition command_tag :: string where "command_tag = ''[COMMAND:''"
definition stats_tag :: string where "stats_tag = ''[GEN_STATS:''"
definition started_tag :: string where "started_tag = ''[TOOL_CALL_STARTED:''"
definition completed_tag :: string where "completed_tag = ''[TOOL_CALL_COMPLETED:''"

lemmas tag_defs = command_tag_def stats_tag_def started_tag_def completed_tag_def

fun to_message :: "('f \<Rightarrow> string) \<Rightarrow> 'f ui_message_event \<Rightarrow> string" where
  "to_message fmt ThinkingAnimation = ''[THINKING_ANIMATION]''"
| "to_message fmt (CommandEvent content) = ''[COMMAND: '' @ content @ [BRACKET]"
| "to_message fmt (GenerationStats tps completion prompt ttft reason) =
     stats_tag @ fmt tps @ [BAR] @ nat_to_string completion @ [BAR] @ nat_to_string prompt @ [BAR] @ fmt ttft @ [BAR]
     @ escape_field reason @ [BRACKET]"
| "to_message fmt (ToolCallStarted name args) =
     started_tag @ escape_field name @ [BAR] @ escape_field args @ [BRACKET]"
| "to_message fmt (ToolCallCompleted name args result raw) =
     completed_tag @ escape_field name @ [BAR] @ escape_field args @ [BAR] @ escape_field result @ [BAR]
     @ escape_field (case raw of Some r \<Rightarrow> r | None \<Rightarrow> []) @ [BRACKET]"

text \<open>\<open>str::parse::<usize>\<close>: an optional plus sign and digits, in the range of the type.\<close>

definition parse_usize :: "string \<Rightarrow> nat option" where
  "parse_usize s =
     (let ds = (case s of [] \<Rightarrow> [] | c # cs \<Rightarrow> if c = CHR ''+'' then cs else s)
      in if ds \<noteq> [] \<and> list_all is_digit ds \<and> decimal_value ds < 2 ^ 64 then Some (decimal_value ds) else None)"

text \<open>The text between a tag and the closing brackets; both are removed as often as they occur.\<close>

definition payload :: "string \<Rightarrow> string \<Rightarrow> string" where
  "payload tag message = trim_end_matches [BRACKET] (trim_start_matches tag message)"

definition parse_stats :: "(string \<Rightarrow> 'f option) \<Rightarrow> string list \<Rightarrow> 'f ui_message_event option" where
  "parse_stats parse_f32 parts =
     (case parts of
        [tps, completion, prompt, ttft, reason] \<Rightarrow>
          (case (parse_f32 tps, parse_usize completion, parse_usize prompt, parse_f32 ttft) of
             (Some a, Some b, Some c, Some d) \<Rightarrow> Some (GenerationStats a b c d (unescape_field reason))
           | _ \<Rightarrow> None)
      | _ \<Rightarrow> None)"

definition parse_completed :: "string list \<Rightarrow> 'f ui_message_event option" where
  "parse_completed parts =
     (if 3 \<le> length parts then
        Some (ToolCallCompleted (unescape_field (parts ! 0)) (unescape_field (parts ! 1)) (unescape_field (parts ! 2))
          (if 3 < length parts then Some (unescape_field (parts ! 3)) else None))
      else None)"

definition parse_started :: "string list \<Rightarrow> 'f ui_message_event option" where
  "parse_started parts =
     (if length parts = 2 then
        Some (ToolCallStarted (unescape_field (parts ! 0)) (unescape_field (parts ! 1)))
      else None)"

definition ui_parse :: "(string \<Rightarrow> 'f option) \<Rightarrow> string \<Rightarrow> 'f ui_message_event option" where
  "ui_parse parse_f32 message =
     (if message = ''[THINKING_ANIMATION]'' then Some ThinkingAnimation
      else if starts_with command_tag message then Some (CommandEvent (trim (payload command_tag message)))
      else if starts_with stats_tag message then
        parse_stats parse_f32 (splitn 5 BAR (payload stats_tag message))
      else if starts_with completed_tag message then
        parse_completed (splitn 4 BAR (payload completed_tag message))
      else if starts_with started_tag message then
        parse_started (splitn 2 BAR (payload started_tag message))
      else None)"

section \<open>Fields\<close>

lemma special_chars [simp]:
  "BSLASH \<noteq> BAR" "BAR \<noteq> BSLASH" "BSLASH \<noteq> BRACKET" "BRACKET \<noteq> BSLASH" "BAR \<noteq> BRACKET"
  "BRACKET \<noteq> BAR"
  by (simp_all add: BSLASH_def BAR_def BRACKET_def)

lemma special_not_in_codes [simp]:
  "BSLASH \<notin> set bar_code" "BAR \<notin> set bar_code" "BRACKET \<notin> set bar_code"
  "BSLASH \<notin> set bracket_code" "BAR \<notin> set bracket_code" "BRACKET \<notin> set bracket_code"
  by (simp_all add: BSLASH_def BAR_def BRACKET_def bar_code_def bracket_code_def)

lemma special_not_in_escapes [simp]:
  "BAR \<notin> set bar_escape" "BRACKET \<notin> set bar_escape" "BAR \<notin> set bracket_escape" "BRACKET \<notin> set bracket_escape"
  by (simp_all add: bar_escape_def bracket_escape_def)

text \<open>The encoding of one character, and the two intermediate stages of the decoding.\<close>

definition escape_char :: "char \<Rightarrow> string" where
  "escape_char c =
     (if c = BSLASH then [BSLASH, BSLASH] else if c = BAR then bar_escape
      else if c = BRACKET then bracket_escape else [c])"

definition escape_char1 :: "char \<Rightarrow> string" where
  "escape_char1 c =
     (if c = BSLASH then [BSLASH, BSLASH] else if c = BAR then bar_escape else [c])"

definition escape_char2 :: "char \<Rightarrow> string" where
  "escape_char2 c = (if c = BSLASH then [BSLASH, BSLASH] else [c])"

lemma escape_field_map: "escape_field v = concat (map escape_char v)"
proof (induction v)
  case (Cons c v)
  have "escape_field (c # v) = escape_field [c] @ escape_field v"
    using replace_single_append [of _ _ "[_]"] by (simp add: escape_field_def replace_single)
  moreover have "escape_field [c] = escape_char c"
    by (simp add: escape_field_def escape_char_def replace_single_atom)
  ultimately show ?case using Cons by simp
qed (simp add: escape_field_def)

lemma escape_char_simps [simp]:
  "escape_char BSLASH = [BSLASH, BSLASH]" "escape_char BAR = bar_escape"
  "escape_char BRACKET = bracket_escape"
  "escape_char1 BSLASH = [BSLASH, BSLASH]" "escape_char1 BAR = bar_escape"
  "escape_char1 BRACKET = [BRACKET]" "escape_char2 BSLASH = [BSLASH, BSLASH]"
  "escape_char2 BAR = [BAR]" "escape_char2 BRACKET = [BRACKET]"
  by (simp_all add: escape_char_def escape_char1_def escape_char2_def)

lemma escape_char_plain:
  "c \<noteq> BSLASH \<Longrightarrow> c \<noteq> BAR \<Longrightarrow> c \<noteq> BRACKET \<Longrightarrow> escape_char c = [c]"
  "c \<noteq> BSLASH \<Longrightarrow> c \<noteq> BAR \<Longrightarrow> escape_char1 c = [c]"
  "c \<noteq> BSLASH \<Longrightarrow> escape_char2 c = [c]"
  by (simp_all add: escape_char_def escape_char1_def escape_char2_def)

lemma escape_char_shape:
  "escape_char c = [c] \<or> (\<exists>q. escape_char c = BSLASH # q)"
  "escape_char1 c = [c] \<or> (\<exists>q. escape_char1 c = BSLASH # q)"
  by (auto simp: escape_char_def escape_char1_def bar_escape_def bracket_escape_def)

lemma starts_bracket: "starts_with bracket_code (concat (map escape_char v)) \<longleftrightarrow> starts_with bracket_code v"
proof (rule starts_encoded)
  show "c \<in> set bracket_code \<Longrightarrow> escape_char c = [c]" for c
    by (rule escape_char_plain) (metis special_not_in_codes)+
qed (simp_all add: escape_char_shape)

lemma starts_bar: "starts_with bar_code (concat (map escape_char1 v)) \<longleftrightarrow> starts_with bar_code v"
proof (rule starts_encoded)
  show "c \<in> set bar_code \<Longrightarrow> escape_char1 c = [c]" for c
    by (rule escape_char_plain) (metis special_not_in_codes)+
qed (simp_all add: escape_char_shape)

lemma code_heads [simp]:
  "hd bracket_code \<noteq> BSLASH" "bracket_code \<noteq> []" "hd bar_code \<noteq> BSLASH" "bar_code \<noteq> []"
  by (simp_all add: bracket_code_def bar_code_def BSLASH_def)

lemma unescape_step1:
  "\<not> contains bracket_escape v \<Longrightarrow>
   replace_all bracket_escape [BRACKET] (concat (map escape_char v)) = concat (map escape_char1 v)"
proof (induction v)
  case (Cons c v)
  let ?r = "concat (map escape_char v)"
  have IH: "replace_all bracket_escape [BRACKET] ?r = concat (map escape_char1 v)"
    using Cons.IH Cons.prems contains_tail by metis
  have front: "\<not> starts_with bracket_escape (c # v)" using Cons.prems contains_front by blast
  consider "c = BSLASH" | "c = BAR" | "c = BRACKET" | "c \<noteq> BSLASH" "c \<noteq> BAR" "c \<noteq> BRACKET" by blast
  then show ?case
  proof cases
    case 1
    then have "\<not> starts_with bracket_code ?r" using front starts_bracket by (simp add: bracket_escape_def)
    from backslashes_kept [OF this] show ?thesis using 1 IH by (simp add: bracket_escape_def)
  next
    case 2
    then show ?thesis
      using IH replace_skip [of bar_code bracket_code "[BRACKET]" ?r]
        replace_miss [of bracket_code "bar_code @ ?r" "[BRACKET]"]
      by (simp add: bar_escape_def bracket_escape_def) (simp add: bar_code_def bracket_code_def)
  next
    case 3
    then show ?thesis
      using IH replace_hit [of bracket_code "[BRACKET]" ?r] by (simp add: bracket_escape_def)
  next
    case 4
    then show ?thesis
      using IH replace_step [of c bracket_code "[BRACKET]" ?r]
      by (simp add: escape_char_plain bracket_escape_def)
  qed
qed simp

lemma unescape_step2:
  "\<not> contains bar_escape v \<Longrightarrow>
   replace_all bar_escape [BAR] (concat (map escape_char1 v)) = concat (map escape_char2 v)"
proof (induction v)
  case (Cons c v)
  let ?r = "concat (map escape_char1 v)"
  have IH: "replace_all bar_escape [BAR] ?r = concat (map escape_char2 v)"
    using Cons.IH Cons.prems contains_tail by metis
  have front: "\<not> starts_with bar_escape (c # v)" using Cons.prems contains_front by blast
  consider "c = BSLASH" | "c = BAR" | "c \<noteq> BSLASH" "c \<noteq> BAR" by blast
  then show ?case
  proof cases
    case 1
    then have "\<not> starts_with bar_code ?r" using front starts_bar by (simp add: bar_escape_def)
    from backslashes_kept [OF this] show ?thesis using 1 IH by (simp add: bar_escape_def)
  next
    case 2
    then show ?thesis using IH replace_hit [of bar_code "[BAR]" ?r] by (simp add: bar_escape_def)
  next
    case 3
    then show ?thesis
      using IH replace_step [of c bar_code "[BAR]" ?r] by (simp add: escape_char_plain bar_escape_def)
  qed
qed simp

lemma unescape_step3: "replace_all [BSLASH, BSLASH] [BSLASH] (concat (map escape_char2 v)) = v"
  by (induction v) (auto simp: escape_char2_def)

text \<open>A field that does not spell out an escape is read back as it was.\<close>

lemma unescape_escape:
  "\<not> contains bar_escape v \<Longrightarrow> \<not> contains bracket_escape v \<Longrightarrow> unescape_field (escape_field v) = v"
  by (simp add: unescape_field_def escape_field_map unescape_step1 unescape_step2 unescape_step3)

text \<open>The text of an escape is not: decoding replaces it inside the doubled backslash.\<close>

theorem spelled_escape_is_lost: "unescape_field (escape_field bar_escape) = [BSLASH, BAR]"
  by code_simp

section \<open>Events\<close>

definition plain_field :: "string \<Rightarrow> bool" where
  "plain_field v \<longleftrightarrow> \<not> contains bar_escape v \<and> \<not> contains bracket_escape v"

text \<open>A float text that is read back and has no character with a meaning in a message.\<close>

definition float_ok :: "('f \<Rightarrow> string) \<Rightarrow> (string \<Rightarrow> 'f option) \<Rightarrow> 'f \<Rightarrow> bool" where
  "float_ok fmt parse_f32 x \<longleftrightarrow>
     parse_f32 (fmt x) = Some x \<and> BAR \<notin> set (fmt x) \<and> BRACKET \<notin> set (fmt x) \<and> CHR ''['' \<notin> set (fmt x)"

definition ui_event_ok :: "('f \<Rightarrow> string) \<Rightarrow> (string \<Rightarrow> 'f option) \<Rightarrow> 'f ui_message_event \<Rightarrow> bool" where
  "ui_event_ok fmt parse_f32 e =
     (case e of
        ThinkingAnimation \<Rightarrow> True
      | CommandEvent c \<Rightarrow> trim c = c \<and> (c \<noteq> [] \<longrightarrow> last c \<noteq> BRACKET)
      | GenerationStats a b c d r \<Rightarrow>
          float_ok fmt parse_f32 a \<and> b < 2 ^ 64 \<and> c < 2 ^ 64 \<and> float_ok fmt parse_f32 d \<and> plain_field r
      | ToolCallStarted name args \<Rightarrow>
          plain_field name \<and> plain_field args \<and> \<not> starts_with started_tag name
      | ToolCallCompleted name args result raw \<Rightarrow>
          plain_field name \<and> plain_field args \<and> plain_field result \<and> pred_option plain_field raw
          \<and> \<not> starts_with completed_tag name)"

text \<open>What is read back: missing raw arguments become empty ones.\<close>

definition stored_event :: "'f ui_message_event \<Rightarrow> 'f ui_message_event" where
  "stored_event e =
     (case e of
        ToolCallCompleted name args result raw \<Rightarrow>
          ToolCallCompleted name args result (Some (case raw of Some r \<Rightarrow> r | None \<Rightarrow> []))
      | _ \<Rightarrow> e)"

lemma escape_field_specials [simp]: "BAR \<notin> set (escape_field v)" "BRACKET \<notin> set (escape_field v)"
proof -
  have "BAR \<notin> set (escape_char c)" "BRACKET \<notin> set (escape_char c)" for c
    by (simp_all add: escape_char_def)
  then show "BAR \<notin> set (escape_field v)" "BRACKET \<notin> set (escape_field v)"
    by (simp_all add: escape_field_map)
qed

lemma unescape_plain [simp]: "plain_field v \<Longrightarrow> unescape_field (escape_field v) = v"
  by (simp add: plain_field_def unescape_escape)

lemma unescape_Nil [simp]: "unescape_field (escape_field []) = []"
  by (simp add: unescape_field_def escape_field_def)

lemma starts_before_bar:
  "BAR \<notin> set p \<Longrightarrow> starts_with p (e @ BAR # x) \<longleftrightarrow> starts_with p e"
proof (induction p arbitrary: e)
  case (Cons y p)
  then show ?case by (cases e) auto
qed simp

lemma starts_field:
  assumes "BSLASH \<notin> set p" "BAR \<notin> set p" "BRACKET \<notin> set p"
  shows "starts_with p (escape_field v @ BAR # x) \<longleftrightarrow> starts_with p v"
proof -
  have "starts_with p (concat (map escape_char v)) \<longleftrightarrow> starts_with p v"
  proof (rule starts_encoded)
    show "c \<in> set p \<Longrightarrow> escape_char c = [c]" for c
      using assms by (intro escape_char_plain) auto
  qed (use assms in \<open>simp_all add: escape_char_shape\<close>)
  then show ?thesis using assms(2) by (simp add: starts_before_bar escape_field_map)
qed

lemma tags_plain:
  "BSLASH \<notin> set started_tag" "BAR \<notin> set started_tag" "BRACKET \<notin> set started_tag"
  "BSLASH \<notin> set completed_tag" "BAR \<notin> set completed_tag" "BRACKET \<notin> set completed_tag"
  by (simp_all add: tag_defs BSLASH_def BAR_def BRACKET_def)

lemma tags_nonempty [simp]: "command_tag \<noteq> []" "stats_tag \<noteq> []" "started_tag \<noteq> []" "completed_tag \<noteq> []"
  by (simp_all add: tag_defs)

lemma tags_distinct [simp]:
  "\<not> starts_with command_tag (stats_tag @ x)" "\<not> starts_with command_tag (completed_tag @ x)"
  "\<not> starts_with command_tag (started_tag @ x)" "\<not> starts_with stats_tag (completed_tag @ x)"
  "\<not> starts_with stats_tag (started_tag @ x)" "\<not> starts_with completed_tag (started_tag @ x)"
  by (simp_all add: tag_defs)

lemma tags_not_thinking [simp]:
  "stats_tag @ x \<noteq> ''[THINKING_ANIMATION]''" "completed_tag @ x \<noteq> ''[THINKING_ANIMATION]''"
  "started_tag @ x \<noteq> ''[THINKING_ANIMATION]''" "command_tag @ x \<noteq> ''[THINKING_ANIMATION]''"
  by (simp_all add: tag_defs)

lemma payload_tag:
  assumes "tag \<noteq> []" "\<not> starts_with tag (body @ [BRACKET])" "body \<noteq> [] \<longrightarrow> last body \<noteq> BRACKET"
  shows "payload tag (tag @ body @ [BRACKET]) = body"
  using assms trim_end_matches_stop [of body BRACKET]
  by (auto simp: payload_def trim_start_matches_step trim_end_matches_step)

lemma last_not_bracket: "BRACKET \<notin> set body \<Longrightarrow> body \<noteq> [] \<longrightarrow> last body \<noteq> BRACKET"
  using last_in_set by metis

lemma splitn_field: "splitn (Suc (Suc n)) BAR (escape_field v @ BAR # x) = escape_field v # splitn (Suc n) BAR x"
  by (rule splitn_atom) simp

lemma started_roundtrip:
  assumes "plain_field name" "plain_field args" "\<not> starts_with started_tag name"
  shows "ui_parse parse_f32 (to_message fmt (ToolCallStarted name args)) = Some (ToolCallStarted name args)"
proof -
  let ?body = "escape_field name @ BAR # escape_field args"
  have "\<not> starts_with started_tag (?body @ [BRACKET])"
    using assms(3) tags_plain by (simp add: starts_field)
  then have "payload started_tag (started_tag @ ?body @ [BRACKET]) = ?body"
    by (intro payload_tag last_not_bracket) simp_all
  moreover have "splitn 2 BAR ?body = [escape_field name, escape_field args]"
    using splitn_field [of 0] by (simp add: numeral_2_eq_2)
  ultimately show ?thesis
    using assms by (simp add: ui_parse_def parse_started_def)
qed

lemma completed_roundtrip:
  assumes "plain_field name" "plain_field args" "plain_field result" "plain_field raw"
    and "\<not> starts_with completed_tag name"
  shows "ui_parse parse_f32 (completed_tag @ escape_field name @ [BAR] @ escape_field args @ [BAR]
      @ escape_field result @ [BAR] @ escape_field raw @ [BRACKET])
    = Some (ToolCallCompleted name args result (Some raw))"
proof -
  let ?body = "escape_field name @ BAR # escape_field args @ BAR # escape_field result @ BAR # escape_field raw"
  have "\<not> starts_with completed_tag (?body @ [BRACKET])"
    using assms(5) tags_plain by (simp add: starts_field)
  then have "payload completed_tag (completed_tag @ ?body @ [BRACKET]) = ?body"
    by (intro payload_tag last_not_bracket) simp_all
  moreover have "splitn 4 BAR ?body
      = [escape_field name, escape_field args, escape_field result, escape_field raw]"
    using splitn_field [of 2] splitn_field [of 1] splitn_field [of 0] by (simp add: eval_nat_numeral)
  ultimately show ?thesis
    using assms by (simp add: ui_parse_def parse_completed_def eval_nat_numeral)
qed

lemma parse_usize_nat: "n < 2 ^ 64 \<Longrightarrow> parse_usize (nat_to_string n) = Some n"
proof -
  assume "n < 2 ^ 64"
  obtain c ds where c: "nat_to_string n = c # ds" using nat_to_string_not_Nil list.exhaust by metis
  then have "c \<noteq> CHR ''+''" using nat_to_string_digits [of n] by (auto simp: is_digit_def)
  moreover have "list_all is_digit (nat_to_string n)" using nat_to_string_digits by (simp add: list_all_iff)
  moreover have "decimal_value (c # ds) = n" using decimal_value_nat_to_string [of n] c by simp
  ultimately show ?thesis using \<open>n < 2 ^ 64\<close> by (simp add: parse_usize_def c Let_def)
qed

lemma digits_plain: "BAR \<notin> set (nat_to_string n)" "BRACKET \<notin> set (nat_to_string n)"
  using nat_to_string_digits [of n] by (auto simp: is_digit_def BAR_def BRACKET_def)

lemma stats_roundtrip:
  assumes "float_ok fmt parse_f32 a" "b < 2 ^ 64" "c < 2 ^ 64" "float_ok fmt parse_f32 d" "plain_field r"
  shows "ui_parse parse_f32 (to_message fmt (GenerationStats a b c d r)) = Some (GenerationStats a b c d r)"
proof -
  let ?body = "fmt a @ BAR # nat_to_string b @ BAR # nat_to_string c @ BAR # fmt d @ BAR # escape_field r"
  have f: "BAR \<notin> set (fmt a)" "BAR \<notin> set (fmt d)" "BRACKET \<notin> set (fmt a)" "BRACKET \<notin> set (fmt d)"
    "parse_f32 (fmt a) = Some a" "parse_f32 (fmt d) = Some d" "CHR ''['' \<notin> set (fmt a)"
    using assms by (simp_all add: float_ok_def)
  have "\<not> starts_with stats_tag (?body @ [BRACKET])"
    using f(7) by (cases "fmt a") (auto simp: stats_tag_def BAR_def)
  then have "payload stats_tag (stats_tag @ ?body @ [BRACKET]) = ?body"
    using f digits_plain by (intro payload_tag last_not_bracket) simp_all
  moreover have "splitn 5 BAR ?body = [fmt a, nat_to_string b, nat_to_string c, fmt d, escape_field r]"
    using f digits_plain splitn_atom [of BAR "fmt a" 3] splitn_atom [of BAR "nat_to_string b" 2]
      splitn_atom [of BAR "nat_to_string c" 1] splitn_atom [of BAR "fmt d" 0]
    by (simp add: eval_nat_numeral)
  ultimately show ?thesis
    using assms f parse_usize_nat by (simp add: ui_parse_def parse_stats_def)
qed

lemma trim_space: "trim (CHR '' '' # c) = trim c"
proof -
  have "trim_start (CHR '' '' # c) = trim_start c"
    unfolding trim_start_def by (subst strip_codes.simps) (simp add: ws_codes_def)
  then show ?thesis by (simp add: trim_def)
qed

lemma command_roundtrip:
  assumes "trim c = c" "c \<noteq> [] \<longrightarrow> last c \<noteq> BRACKET"
  shows "ui_parse parse_f32 (to_message fmt (CommandEvent c)) = Some (CommandEvent c)"
proof -
  have m: "to_message fmt (CommandEvent c) = command_tag @ (CHR '' '' # c) @ [BRACKET]"
    by (simp add: command_tag_def)
  have "payload command_tag (command_tag @ (CHR '' '' # c) @ [BRACKET]) = CHR '' '' # c"
    using assms(2) by (intro payload_tag) (auto simp: command_tag_def BRACKET_def)
  then show ?thesis
    unfolding m using assms(1) by (simp add: ui_parse_def trim_space)
qed



end
