(* ===== verification/Thinking.thy ===== *)
theory Thinking
  imports Ui_Text
begin

text \<open>
  The reasoning text of a model: \<open>crates/agent_core/src/thinking_helpers.rs\<close>, which recognises the opening
  tag at the start of an answer, and \<open>thinking_summarizer.rs\<close>, which has the text summarised by
  asynchronous jobs. A job is an entry of \<open>su_running\<close>; which job ends next and with what result is an
  argument of the operations that read the channel. \<open>None\<close> is a wait that never ends.
\<close>

section \<open>Recognising the opening tag\<close>

record thinking_tags =
  open_tag :: string
  close_tag :: string
  summary_interval :: nat

definition default_thinking_tags :: thinking_tags where
  "default_thinking_tags = \<lparr>open_tag = ''<think>'', close_tag = ''</think>'', summary_interval = 200\<rparr>"

datatype thinking_start_decision = NeedMoreData | Detected nat | NotThinking

text \<open>The byte offset of the first character that is not white space.\<close>

definition leading_white :: "string \<Rightarrow> string" where
  "leading_white s = concat (takeWhile is_white (utf8_chars s))"

definition first_non_ws :: "string \<Rightarrow> nat option" where
  "first_non_ws s = (if list_all is_white (utf8_chars s) then None else Some (length (leading_white s)))"

definition analyze_thinking_start :: "string \<Rightarrow> string \<Rightarrow> thinking_start_decision" where
  "analyze_thinking_start buffer tag =
     (if trim buffer = [] then NeedMoreData
      else case first_non_ws buffer of
        None \<Rightarrow> NeedMoreData
      | Some start_idx \<Rightarrow>
          (let trimmed = drop start_idx buffer
           in if starts_with tag trimmed then Detected (start_idx + length tag)
              else if starts_with trimmed tag then NeedMoreData else NotThinking))"

definition has_visible_text :: "string \<Rightarrow> bool" where
  "has_visible_text s = list_ex (\<lambda>c. \<not> is_white c) (utf8_chars s)"

definition ellipsis :: string where
  "ellipsis = [CHR 0xE2, CHR 0x80, CHR 0xA6]"

definition preview_thinking :: "string \<Rightarrow> string" where
  "preview_thinking s = concat (take 80 (utf8_chars s)) @ (if 80 < char_count s then ellipsis else [])"

text \<open>\<open>str::find\<close>: the offset of the first occurrence.\<close>

definition str_find :: "string \<Rightarrow> string \<Rightarrow> nat option" where
  "str_find p s = find (\<lambda>i. starts_with p (drop i s)) [0..<Suc (length s)]"

text \<open>\<open>Agent::estimate_tokens_heuristic\<close>.\<close>

definition estimate_tokens_heuristic :: "string \<Rightarrow> nat" where
  "estimate_tokens_heuristic s = length s div 4"

section \<open>The summarizer\<close>

type_synonym summary = "string \<times> nat \<times> nat"

record thinking_summarizer =
  su_buffer :: string
  su_token_count :: nat
  su_chunk_count :: nat
  su_summaries :: "summary list"
  su_last_sent_count :: nat
  su_token_threshold :: nat
  su_channel :: "summary option list"
  su_pending_jobs :: nat
  su_running :: "summary list"

definition with_threshold :: "nat \<Rightarrow> thinking_summarizer" where
  "with_threshold n = \<lparr>su_buffer = [], su_token_count = 0, su_chunk_count = 0, su_summaries = [],
     su_last_sent_count = 0, su_token_threshold = n, su_channel = [], su_pending_jobs = 0, su_running = []\<rparr>"

text \<open>A job ends: its summary, or \<open>None\<close> where it failed, goes to the channel with the counts it was started with.\<close>

type_synonym job_end = "nat \<times> string option"

definition end_job :: "job_end \<Rightarrow> thinking_summarizer \<Rightarrow> thinking_summarizer" where
  "end_job e su =
     (case e of (k, r) \<Rightarrow>
        if k < length (su_running su) then
          su\<lparr>su_running := take k (su_running su) @ drop (Suc k) (su_running su),
             su_channel := su_channel su @ [map_option (\<lambda>t. (t, snd (su_running su ! k))) r]\<rparr>
        else su)"

text \<open>What a job makes of the response: \<open>parse\<close> gives the contents of the choices.\<close>

definition error_mark :: string where
  "error_mark = [CHR 0x22] @ ''error'' @ [CHR 0x22]"

definition summarize_response :: "(string \<Rightarrow> string list option) \<Rightarrow> string \<Rightarrow> string option" where
  "summarize_response parse response =
     (if contains error_mark response then None
      else case parse response of
        None \<Rightarrow> None
      | Some [] \<Rightarrow> Some []
      | Some (content # _) \<Rightarrow>
          (case str_lines content of [] \<Rightarrow> Some [] | first_line # _ \<Rightarrow> Some (trim first_line)))"

text \<open>One message of the channel is taken.\<close>

definition take_message :: "summary option \<Rightarrow> thinking_summarizer \<Rightarrow> thinking_summarizer" where
  "take_message m su =
     su\<lparr>su_pending_jobs := su_pending_jobs su - 1,
        su_summaries := su_summaries su @ (case m of None \<Rightarrow> [] | Some x \<Rightarrow> [x])\<rparr>"

text \<open>\<open>ends\<close> are the jobs that have ended by the time the channel is empty.\<close>

definition drain_ready_summaries :: "job_end list \<Rightarrow> thinking_summarizer \<Rightarrow> thinking_summarizer" where
  "drain_ready_summaries es su =
     (let su1 = fold end_job es su
      in (fold take_message (su_channel su1) su1)\<lparr>su_channel := []\<rparr>)"

definition spawn_summary_job :: "thinking_summarizer \<Rightarrow> thinking_summarizer" where
  "spawn_summary_job su =
     (if su_buffer su = [] \<or> su_token_count su = 0 then su
      else su\<lparr>su_running := su_running su @ [(su_buffer su, su_token_count su, su_chunk_count su)],
              su_pending_jobs := su_pending_jobs su + 1,
              su_buffer := [], su_token_count := 0, su_chunk_count := 0\<rparr>)"

definition add_thinking_chunk :: "job_end list \<Rightarrow> string \<Rightarrow> thinking_summarizer \<Rightarrow> thinking_summarizer" where
  "add_thinking_chunk es chunk su =
     (let su1 = drain_ready_summaries es su;
          su2 = su1\<lparr>su_buffer := su_buffer su1 @ chunk, su_chunk_count := su_chunk_count su1 + 1,
                    su_token_count := length (su_buffer su1 @ chunk) div 4\<rparr>
      in if su_token_threshold su2 \<le> su_token_count su2 then spawn_summary_job su2 else su2)"

text \<open>Waiting: a message of the channel, or of the next job that ends.\<close>

fun next_end :: "job_end list \<Rightarrow> thinking_summarizer \<Rightarrow> (job_end list \<times> thinking_summarizer) option" where
  "next_end [] su = None"
| "next_end (e # es) su = (if fst e < length (su_running su) then Some (es, end_job e su) else next_end es su)"

definition receive_summary ::
  "job_end list \<Rightarrow> thinking_summarizer \<Rightarrow> (job_end list \<times> thinking_summarizer) option" where
  "receive_summary es su =
     Option.bind (if su_channel su = [] then next_end es su else Some (es, su)) (\<lambda>(fs, su1).
       Some (fs, (take_message (hd (su_channel su1)) su1)\<lparr>su_channel := tl (su_channel su1)\<rparr>))"

fun wait_loop :: "nat \<Rightarrow> job_end list \<Rightarrow> thinking_summarizer \<Rightarrow> thinking_summarizer option" where
  "wait_loop 0 es su = Some su"
| "wait_loop (Suc n) es su = Option.bind (receive_summary es su) (\<lambda>(fs, su1). wait_loop n fs su1)"

text \<open>The loop runs while jobs are pending; each round takes one away.\<close>

definition wait_for_all_summaries :: "job_end list \<Rightarrow> thinking_summarizer \<Rightarrow> thinking_summarizer option" where
  "wait_for_all_summaries es su = wait_loop (su_pending_jobs su) es su"

definition flush_summaries :: "job_end list \<Rightarrow> job_end list \<Rightarrow> thinking_summarizer \<Rightarrow> thinking_summarizer option" where
  "flush_summaries es fs su =
     (let su1 = drain_ready_summaries es su;
          su2 = (if su_buffer su1 \<noteq> [] \<and> 0 < su_token_count su1 then spawn_summary_job su1 else su1)
      in wait_for_all_summaries fs su2)"

definition get_new_summaries :: "job_end list \<Rightarrow> thinking_summarizer \<Rightarrow> summary list \<times> thinking_summarizer" where
  "get_new_summaries es su =
     (let su1 = drain_ready_summaries es su
      in (drop (su_last_sent_count su1) (su_summaries su1),
          su1\<lparr>su_last_sent_count := length (su_summaries su1)\<rparr>))"

definition clear_summarizer :: "thinking_summarizer \<Rightarrow> thinking_summarizer" where
  "clear_summarizer su = with_threshold (su_token_threshold su)"

definition get_residual_token_count :: "thinking_summarizer \<Rightarrow> nat" where
  "get_residual_token_count su = su_token_count su"

definition branch_sign :: string where
  "branch_sign = concat [[CHR 0xE2, CHR 0x94, CHR 0x9C], [CHR 0xE2, CHR 0x94, CHR 0x80], [CHR 0xE2, CHR 0x94, CHR 0x80]] @ '' ''"

definition get_tree_lines :: "thinking_summarizer \<Rightarrow> string list" where
  "get_tree_lines su =
     map (\<lambda>(s, real_tokens, chunk_count).
       branch_sign @ s @ '' ('' @ nat_to_string real_tokens @ ''rt '' @ nat_to_string chunk_count @ ''ct)'')
       (su_summaries su)"

text \<open>The text of a \<open>ThinkingSummary\<close> message.\<close>

definition summary_text :: "summary \<Rightarrow> string" where
  "summary_text x = (case x of (s, tokens, chunks) \<Rightarrow> s @ ''|'' @ nat_to_string tokens @ ''|'' @ nat_to_string chunks)"

section \<open>Jobs and messages\<close>

text \<open>Every pending job runs or has its result in the channel; the token count is that of the buffer.\<close>

definition summarizer_ok :: "thinking_summarizer \<Rightarrow> bool" where
  "summarizer_ok su \<longleftrightarrow>
     su_pending_jobs su = length (su_running su) + length (su_channel su) \<and>
     su_token_count su = length (su_buffer su) div 4 \<and> su_last_sent_count su \<le> length (su_summaries su)"

text \<open>The chunks in the hands of the summarizer, in whatever form.\<close>

definition chunks_of :: "summary \<Rightarrow> nat" where "chunks_of x = snd (snd x)"

definition chunks_held :: "thinking_summarizer \<Rightarrow> nat" where
  "chunks_held su =
     sum_list (map chunks_of (su_summaries su)) + sum_list (map (\<lambda>m. case m of None \<Rightarrow> 0 | Some x \<Rightarrow> chunks_of x) (su_channel su))
     + sum_list (map chunks_of (su_running su)) + su_chunk_count su"

lemma with_threshold_ok: "summarizer_ok (with_threshold n)"
  by (simp add: summarizer_ok_def with_threshold_def)

lemma end_job_fields [simp]:
  "su_buffer (end_job e su) = su_buffer su" "su_token_count (end_job e su) = su_token_count su"
  "su_chunk_count (end_job e su) = su_chunk_count su" "su_summaries (end_job e su) = su_summaries su"
  "su_last_sent_count (end_job e su) = su_last_sent_count su" "su_pending_jobs (end_job e su) = su_pending_jobs su"
  by (simp_all add: end_job_def split: prod.splits)

lemma take_message_fields [simp]:
  "su_buffer (take_message m su) = su_buffer su" "su_token_count (take_message m su) = su_token_count su"
  "su_chunk_count (take_message m su) = su_chunk_count su" "su_running (take_message m su) = su_running su"
  "su_last_sent_count (take_message m su) = su_last_sent_count su"
  "su_pending_jobs (take_message m su) = su_pending_jobs su - 1"
  "su_summaries (take_message m su) = su_summaries su @ (case m of None \<Rightarrow> [] | Some x \<Rightarrow> [x])"
  by (simp_all add: take_message_def)

lemma end_job_ok: "summarizer_ok su \<Longrightarrow> summarizer_ok (end_job e su)"
  by (auto simp: summarizer_ok_def end_job_def split: prod.splits)

lemma nth_sum_list:
  "k < length xs \<Longrightarrow> sum_list (map f xs) = sum_list (map f (take k xs)) + f (xs ! k) + sum_list (map f (drop (Suc k) xs))"
  for f :: "'a \<Rightarrow> nat"
  by (subst id_take_nth_drop [of k xs]) simp_all

lemma end_job_held: "chunks_held (end_job (k, Some t) su) = chunks_held su"
  using nth_sum_list [of k "su_running su" chunks_of]
  by (auto simp: chunks_held_def end_job_def chunks_of_def)

interpretation ends: op_invariant end_job summarizer_ok
  by unfold_locales (rule end_job_ok)

lemma take_messages_fields [simp]:
  "su_buffer (fold take_message ms su) = su_buffer su"
  "su_token_count (fold take_message ms su) = su_token_count su"
  "su_chunk_count (fold take_message ms su) = su_chunk_count su"
  "su_running (fold take_message ms su) = su_running su"
  "su_last_sent_count (fold take_message ms su) = su_last_sent_count su"
  "su_pending_jobs (fold take_message ms su) = su_pending_jobs su - length ms"
  "su_summaries (fold take_message ms su) = su_summaries su @ concat (map (\<lambda>m. case m of None \<Rightarrow> [] | Some x \<Rightarrow> [x]) ms)"
  by (induction ms arbitrary: su) simp_all

lemma channel_chunks:
  "sum_list (map chunks_of (concat (map (\<lambda>m. case m of None \<Rightarrow> [] | Some x \<Rightarrow> [x]) ms))) =
   sum_list (map (\<lambda>m. case m of None \<Rightarrow> 0 | Some x \<Rightarrow> chunks_of x) ms)"
  by (induction ms) (auto split: option.splits)

lemma drain_ok: "summarizer_ok su \<Longrightarrow> summarizer_ok (drain_ready_summaries es su)"
  using ends.run_inv [of su es] by (auto simp: drain_ready_summaries_def Let_def summarizer_ok_def)

text \<open>No job fails.\<close>

definition all_succeed :: "job_end list \<Rightarrow> bool" where
  "all_succeed es = list_all (\<lambda>e. snd e \<noteq> None) es"

lemma ends_held: "all_succeed es \<Longrightarrow> chunks_held (fold end_job es su) = chunks_held su"
  by (induction es arbitrary: su) (auto simp: all_succeed_def end_job_held)

lemma drain_held: "all_succeed es \<Longrightarrow> chunks_held (drain_ready_summaries es su) = chunks_held su"
  using ends_held [of es su]
  by (simp add: drain_ready_summaries_def Let_def chunks_held_def channel_chunks)

lemma ends_fields [simp]:
  "su_summaries (fold end_job es su) = su_summaries su" "su_last_sent_count (fold end_job es su) = su_last_sent_count su"
  "su_buffer (fold end_job es su) = su_buffer su" "su_token_count (fold end_job es su) = su_token_count su"
  "su_chunk_count (fold end_job es su) = su_chunk_count su"
  by (induction es arbitrary: su) simp_all

lemma drain_fields [simp]:
  "su_last_sent_count (drain_ready_summaries es su) = su_last_sent_count su"
  "su_buffer (drain_ready_summaries es su) = su_buffer su"
  "su_token_count (drain_ready_summaries es su) = su_token_count su"
  "su_chunk_count (drain_ready_summaries es su) = su_chunk_count su"
  by (simp_all add: drain_ready_summaries_def Let_def)

lemma drain_grows: "\<exists>xs. su_summaries (drain_ready_summaries es su) = su_summaries su @ xs"
  by (simp add: drain_ready_summaries_def Let_def)

lemma spawn_fields [simp]:
  "su_summaries (spawn_summary_job su) = su_summaries su"
  "su_last_sent_count (spawn_summary_job su) = su_last_sent_count su"
  by (simp_all add: spawn_summary_job_def)

lemma spawn_ok: "summarizer_ok su \<Longrightarrow> summarizer_ok (spawn_summary_job su)"
  by (auto simp: summarizer_ok_def spawn_summary_job_def)

lemma spawn_held: "chunks_held (spawn_summary_job su) = chunks_held su"
  by (simp add: chunks_held_def spawn_summary_job_def chunks_of_def)

lemma add_ok: "summarizer_ok su \<Longrightarrow> summarizer_ok (add_thinking_chunk es c su)"
  using drain_ok [of su es]
  by (auto simp: add_thinking_chunk_def Let_def intro!: spawn_ok) (simp_all add: summarizer_ok_def)

lemma add_held: "all_succeed es \<Longrightarrow> chunks_held (add_thinking_chunk es c su) = chunks_held su + 1"
  using drain_held [of es su]
  by (simp add: add_thinking_chunk_def Let_def spawn_held) (simp add: chunks_held_def)

lemma add_grows:
  "su_last_sent_count (add_thinking_chunk es c su) = su_last_sent_count su \<and>
   (\<exists>xs. su_summaries (add_thinking_chunk es c su) = su_summaries su @ xs)"
  using drain_grows [of es su] by (simp add: add_thinking_chunk_def Let_def)

lemma next_end_props:
  "next_end es su = Some (fs, su1) \<Longrightarrow>
     (summarizer_ok su \<longrightarrow> summarizer_ok su1) \<and> (all_succeed es \<longrightarrow> all_succeed fs \<and> chunks_held su1 = chunks_held su) \<and>
     su_summaries su1 = su_summaries su \<and> su_last_sent_count su1 = su_last_sent_count su \<and>
     su_buffer su1 = su_buffer su \<and> su_pending_jobs su1 = su_pending_jobs su \<and> (su_channel su = [] \<longrightarrow> su_channel su1 \<noteq> [])"
proof (induction es)
  case (Cons e es)
  obtain k r where e: "e = (k, r)" by fastforce
  show ?case
    using Cons end_job_ok [of su e] end_job_held [of k _ su]
    by (cases r) (auto simp: e all_succeed_def end_job_def split: if_splits)
qed simp

lemma receive_props:
  assumes "receive_summary es su = Some (fs, su1)" "0 < su_pending_jobs su"
  shows "(summarizer_ok su \<longrightarrow> summarizer_ok su1) \<and>
     (all_succeed es \<longrightarrow> all_succeed fs \<and> chunks_held su1 = chunks_held su) \<and>
     (\<exists>xs. su_summaries su1 = su_summaries su @ xs) \<and> su_last_sent_count su1 = su_last_sent_count su \<and>
     su_buffer su1 = su_buffer su \<and> su_pending_jobs su1 = su_pending_jobs su - 1"
proof -
  let ?st = "if su_channel su = [] then next_end es su else Some (es, su)"
  from assms(1) obtain su2 where st: "?st = Some (fs, su2)"
    and su1: "su1 = (take_message (hd (su_channel su2)) su2)\<lparr>su_channel := tl (su_channel su2)\<rparr>"
    by (auto simp: receive_summary_def bind_eq_Some_conv)
  have 2: "(summarizer_ok su \<longrightarrow> summarizer_ok su2) \<and> (all_succeed es \<longrightarrow> all_succeed fs \<and> chunks_held su2 = chunks_held su) \<and>
     su_summaries su2 = su_summaries su \<and> su_last_sent_count su2 = su_last_sent_count su \<and>
     su_buffer su2 = su_buffer su \<and> su_pending_jobs su2 = su_pending_jobs su \<and> su_channel su2 \<noteq> []"
    using st next_end_props [of es su fs su2] by (auto split: if_splits)
  then obtain m ms where ms: "su_channel su2 = m # ms" by (cases "su_channel su2") auto
  have "summarizer_ok su2 \<Longrightarrow> summarizer_ok su1" "chunks_held su1 = chunks_held su2"
    using assms(2) 2 by (auto simp: su1 ms summarizer_ok_def chunks_held_def split: option.splits)
  then show ?thesis using 2 by (auto simp: su1)
qed

lemma wait_props:
  "wait_loop n es su = Some su1 \<Longrightarrow> n \<le> su_pending_jobs su \<Longrightarrow>
     (summarizer_ok su \<longrightarrow> summarizer_ok su1) \<and> (all_succeed es \<longrightarrow> chunks_held su1 = chunks_held su) \<and>
     (\<exists>xs. su_summaries su1 = su_summaries su @ xs) \<and> su_last_sent_count su1 = su_last_sent_count su \<and>
     su_buffer su1 = su_buffer su \<and> su_pending_jobs su1 = su_pending_jobs su - n"
proof (induction n arbitrary: es su)
  case (Suc n)
  then obtain fs su2 where r: "receive_summary es su = Some (fs, su2)" and w: "wait_loop n fs su2 = Some su1"
    by (auto simp: bind_eq_Some_conv)
  have p: "0 < su_pending_jobs su" "n \<le> su_pending_jobs su2"
    using Suc.prems(2) receive_props [OF r] by simp_all
  obtain ys zs where "su_summaries su2 = su_summaries su @ ys" "su_summaries su1 = su_summaries su2 @ zs"
    using receive_props [OF r p(1)] Suc.IH [OF w p(2)] by blast
  then have "\<exists>xs. su_summaries su1 = su_summaries su @ xs" by simp
  with receive_props [OF r p(1)] Suc.IH [OF w p(2)] show ?case by auto
qed simp

lemma flush_props:
  assumes "flush_summaries es fs su = Some su1"
  shows "(summarizer_ok su \<longrightarrow> summarizer_ok su1 \<and> su_token_count su1 = 0) \<and>
     (all_succeed es \<and> all_succeed fs \<longrightarrow> chunks_held su1 = chunks_held su) \<and>
     (\<exists>xs. su_summaries su1 = su_summaries su @ xs) \<and> su_last_sent_count su1 = su_last_sent_count su \<and>
     su_pending_jobs su1 = 0"
proof -
  let ?d = "drain_ready_summaries es su"
  let ?s = "if su_buffer ?d \<noteq> [] \<and> 0 < su_token_count ?d then spawn_summary_job ?d else ?d"
  have w: "wait_loop (su_pending_jobs ?s) fs ?s = Some su1"
    using assms by (simp add: flush_summaries_def wait_for_all_summaries_def Let_def)
  have s: "summarizer_ok su \<longrightarrow> summarizer_ok ?s \<and> length (su_buffer ?s) div 4 = 0"
    using drain_ok [of su es] spawn_ok [of ?d] by (auto simp: summarizer_ok_def spawn_summary_job_def)
  have g: "(\<exists>xs. su_summaries ?s = su_summaries su @ xs) \<and> su_last_sent_count ?s = su_last_sent_count su"
    using drain_grows [of es su] by auto
  have h: "all_succeed es \<Longrightarrow> chunks_held ?s = chunks_held su"
    using drain_held [of es su] by (simp add: spawn_held)
  from wait_props [OF w] s g h show ?thesis by (auto simp: summarizer_ok_def)
qed

text \<open>Waiting ends when the jobs do: \<open>ends_enough n es\<close> gives an end to each of \<open>n\<close> running jobs.\<close>

definition ends_enough :: "nat \<Rightarrow> job_end list \<Rightarrow> bool" where
  "ends_enough n es \<longleftrightarrow> n \<le> length (filter (\<lambda>e. fst e = 0) es)"

lemma end_job_running: "length (su_running (end_job e su)) \<le> length (su_running su)"
  by (auto simp: end_job_def split: prod.splits)

lemma next_end_returns:
  "su_running su \<noteq> [] \<Longrightarrow> ends_enough (length (su_running su)) es \<Longrightarrow>
     \<exists>fs su1. next_end es su = Some (fs, su1) \<and> length (su_running su1) = length (su_running su) - 1 \<and>
        ends_enough (length (su_running su1)) fs"
proof (induction es)
  case (Cons e es)
  then show ?case
    by (cases "fst e < length (su_running su)") (auto simp: ends_enough_def end_job_def split: prod.splits if_splits)
qed (simp add: ends_enough_def)

lemma wait_returns:
  "summarizer_ok su \<Longrightarrow> n \<le> su_pending_jobs su \<Longrightarrow> ends_enough (length (su_running su)) es \<Longrightarrow>
     \<exists>su1. wait_loop n es su = Some su1"
proof (induction n arbitrary: es su)
  case (Suc n)
  have "\<exists>fs su2. receive_summary es su = Some (fs, su2) \<and> ends_enough (length (su_running su2)) fs"
  proof (cases "su_channel su")
    case Nil
    then have "su_running su \<noteq> []" using Suc.prems by (auto simp: summarizer_ok_def)
    then show ?thesis
      using next_end_returns [OF _ Suc.prems(3)] Nil by (auto simp: receive_summary_def)
  qed (use Suc.prems in \<open>simp add: receive_summary_def\<close>)
  then obtain fs su2 where r: "receive_summary es su = Some (fs, su2)" "ends_enough (length (su_running su2)) fs" by blast
  have "summarizer_ok su2" "n \<le> su_pending_jobs su2" using receive_props [OF r(1)] Suc.prems by auto
  then show ?case using Suc.IH [OF _ _ r(2)] r(1) by simp
qed simp

lemma ends_running: "length (su_running (fold end_job es su)) \<le> length (su_running su)"
  by (induction es arbitrary: su) (auto intro: order_trans [OF _ end_job_running])

lemma ends_enough_mono: "ends_enough n es \<Longrightarrow> m \<le> n \<Longrightarrow> ends_enough m es"
  by (simp add: ends_enough_def)

lemma flush_returns:
  assumes "summarizer_ok su" "ends_enough (Suc (length (su_running su))) fs"
  shows "\<exists>su1. flush_summaries es fs su = Some su1"
proof -
  let ?d = "drain_ready_summaries es su"
  let ?s = "if su_buffer ?d \<noteq> [] \<and> 0 < su_token_count ?d then spawn_summary_job ?d else ?d"
  have "length (su_running ?d) \<le> length (su_running su)"
    using ends_running by (simp add: drain_ready_summaries_def Let_def)
  then have "length (su_running ?s) \<le> Suc (length (su_running su))" by (simp add: spawn_summary_job_def)
  moreover have "summarizer_ok ?s" using drain_ok [OF assms(1), of es] spawn_ok by auto
  ultimately show ?thesis
    using wait_returns [of ?s "su_pending_jobs ?s" fs] ends_enough_mono [OF assms(2)]
    by (simp add: flush_summaries_def wait_for_all_summaries_def Let_def)
qed

section \<open>A run of the summarizer\<close>

text \<open>The operations the agent calls, and the summaries that it hands on as new.\<close>

datatype summarizer_op =
    AddChunk "job_end list" string
  | NewSummaries "job_end list"
  | Flush "job_end list" "job_end list"

fun summarizer_run :: "summarizer_op list \<Rightarrow> thinking_summarizer \<Rightarrow> (summary list \<times> thinking_summarizer) option" where
  "summarizer_run [] su = Some ([], su)"
| "summarizer_run (AddChunk es c # xs) su = summarizer_run xs (add_thinking_chunk es c su)"
| "summarizer_run (NewSummaries es # xs) su =
     (case get_new_summaries es su of (new, su1) \<Rightarrow>
        map_option (\<lambda>(out, su2). (new @ out, su2)) (summarizer_run xs su1))"
| "summarizer_run (Flush es fs # xs) su = Option.bind (flush_summaries es fs su) (summarizer_run xs)"

primrec op_ends :: "summarizer_op \<Rightarrow> job_end list" where
  "op_ends (AddChunk es c) = es"
| "op_ends (NewSummaries es) = es"
| "op_ends (Flush es fs) = es @ fs"

primrec adds_chunk :: "summarizer_op \<Rightarrow> bool" where
  "adds_chunk (AddChunk es c) = True"
| "adds_chunk (NewSummaries es) = False"
| "adds_chunk (Flush es fs) = False"

lemma all_succeed_append [simp]: "all_succeed (es @ fs) \<longleftrightarrow> all_succeed es \<and> all_succeed fs"
  by (simp add: all_succeed_def)

lemma summarizer_run_props:
  "summarizer_run xs su = Some (out, su1) \<Longrightarrow> summarizer_ok su \<Longrightarrow>
     summarizer_ok su1 \<and>
     take (su_last_sent_count su1) (su_summaries su1) = take (su_last_sent_count su) (su_summaries su) @ out \<and>
     (list_all (all_succeed \<circ> op_ends) xs \<longrightarrow> chunks_held su1 = chunks_held su + length (filter adds_chunk xs))"
proof (induction xs su arbitrary: out rule: summarizer_run.induct)
  case (2 es c xs su)
  then show ?case
    using add_ok [of su es c] add_held [of es c su] add_grows [of es c su] by (auto simp: summarizer_ok_def)
next
  case (3 es xs su)
  let ?d = "drain_ready_summaries es su"
  let ?n = "?d\<lparr>su_last_sent_count := length (su_summaries ?d)\<rparr>"
  obtain out2 where r: "summarizer_run xs ?n = Some (out2, su1)" and out: "out = drop (su_last_sent_count su) (su_summaries ?d) @ out2"
    using 3(2) by (auto simp: get_new_summaries_def Let_def)
  have ok: "summarizer_ok ?n" using drain_ok [OF 3(3), of es] by (simp add: summarizer_ok_def)
  have h: "all_succeed es \<Longrightarrow> chunks_held ?n = chunks_held su"
    using drain_held [of es su] by (simp add: chunks_held_def)
  obtain ys where ys: "su_summaries ?d = su_summaries su @ ys" using drain_grows by blast
  have le: "su_last_sent_count su \<le> length (su_summaries su)" using 3(3) by (simp add: summarizer_ok_def)
  from 3(1) [OF _ r ok] show ?case
    using h le by (auto simp: out ys get_new_summaries_def Let_def)
next
  case (4 es fs xs su)
  then obtain su2 where f: "flush_summaries es fs su = Some su2" and r: "summarizer_run xs su2 = Some (out, su1)"
    by (auto simp: bind_eq_Some_conv)
  from 4(1) [OF f r] flush_props [OF f] 4(3) show ?case by (auto simp: summarizer_ok_def)
qed simp

text \<open>C25: every summary that was made is handed on exactly once and in order, and the chunk counts shown with
  the summaries account for all chunks of the reasoning: as long as no job fails, the chunks that were given to the
  summarizer are those of the finished summaries, of the jobs under way and of the buffer. After a flush nothing is
  pending and nothing is left that would be worth a summary.\<close>

theorem summaries_account_for_chunks:
  assumes "summarizer_run xs (with_threshold n) = Some (out, su)"
  shows "take (su_last_sent_count su) (su_summaries su) = out \<and>
     (list_all (all_succeed \<circ> op_ends) xs \<longrightarrow> chunks_held su = length (filter adds_chunk xs)) \<and>
     (flush_summaries es fs su = Some t \<longrightarrow> su_pending_jobs t = 0 \<and> get_residual_token_count t = 0)"
  using summarizer_run_props [OF assms with_threshold_ok] flush_props [of es fs su t]
  by (simp_all add: chunks_held_def with_threshold_def get_residual_token_count_def)

theorem summaries_account_for_chunks_witness:
  "\<exists>out su. summarizer_run [AddChunk [] ''abcd'', AddChunk [] ''efgh'', Flush [] [(0, Some ''s'')], NewSummaries []]
       (with_threshold 50) = Some (out, su) \<and> out = [(''s'', 2, 2)] \<and>
     take (su_last_sent_count su) (su_summaries su) = out \<and> chunks_held su = 2 \<and>
     (\<exists>t. flush_summaries [] [] su = Some t \<and> get_residual_token_count t = 0)"
proof -
  let ?ops = "[AddChunk [] ''abcd'', AddChunk [] ''efgh'', Flush [] [(0, Some ''s'')], NewSummaries []]"
  obtain out su t where r: "summarizer_run ?ops (with_threshold 50) = Some (out, su)" "out = [(''s'', 2, 2)]"
    "flush_summaries [] [] su = Some t"
    by (simp add: add_thinking_chunk_def drain_ready_summaries_def with_threshold_def flush_summaries_def
      spawn_summary_job_def wait_for_all_summaries_def receive_summary_def get_new_summaries_def end_job_def take_message_def)
  have ok: "list_all (all_succeed \<circ> op_ends) ?ops" by (simp add: all_succeed_def)
  note p = summaries_account_for_chunks [OF r(1)]
  have "take (su_last_sent_count su) (su_summaries su) = out" "chunks_held su = 2" "get_residual_token_count t = 0"
    using p ok r(3) by simp_all
  with r show ?thesis by blast
qed

end
