(* ===== verification/Conversation.thy ===== *)
theory Conversation
  imports Thinking Safety_Config Tool_Dispatch Json_Value
begin

text \<open>
  The conversation with the language model: the messages of a request as \<open>RequestBuilder\<close>
  (\<open>external/mistral.rs/mistralrs/src/messages.rs\<close>) builds them, \<open>crates/agent_core/src/conversation.rs\<close>, which
  saves, restores and amends a conversation, \<open>message_helpers.rs\<close>, which rebuilds it from its JSON form, and the
  parts of \<open>lib.rs\<close> that keep its system prompt up to date. The type of the tool descriptions is left open.
  A message is an \<open>IndexMap\<close>, whose order the code never observes; an \<open>Either\<close> is written by serde as an object with
  the key \<open>Left\<close> or \<open>Right\<close>. The text form of a JSON value is a pair of functions.

  \<open>rebuild_keeps_history\<close> says what a rebuilt conversation contains, \<open>conversation_survives_restart\<close> that a
  saved conversation comes back.
\<close>

section \<open>Messages and requests\<close>

datatype message_content = LeftText string | RightParts "(string \<Rightarrow> json option) list"

type_synonym chat_message = "string \<Rightarrow> message_content option"

datatype text_message_role = RoleUser | RoleAssistant | RoleSystem | RoleTool | RoleCustom string

definition role_to_string :: "text_message_role \<Rightarrow> string" where
  "role_to_string r =
     (case r of RoleUser \<Rightarrow> ''user'' | RoleAssistant \<Rightarrow> ''assistant'' | RoleSystem \<Rightarrow> ''system''
        | RoleTool \<Rightarrow> ''tool'' | RoleCustom c \<Rightarrow> c)"

definition role_from_str :: "string \<Rightarrow> text_message_role" where
  "role_from_str s =
     (if s = ''system'' then RoleSystem else if s = ''user'' then RoleUser
      else if s = ''assistant'' then RoleAssistant else if s = ''tool'' then RoleTool else RoleCustom s)"

text \<open>A call of a tool; its type is always a function.\<close>

record tool_call =
  tc_index :: nat
  tc_id :: string
  tc_name :: string
  tc_arguments :: string

datatype 't tool_choice = ToolChoiceNone | ToolChoiceAuto | ToolChoiceTool 't

record 't request_builder =
  rb_messages :: "chat_message list"
  rb_tools :: "'t list"
  rb_tool_choice :: "'t tool_choice"
  rb_enable_thinking :: "bool option"

definition chat_request_new :: "'t request_builder" where
  "chat_request_new = \<lparr>rb_messages = [], rb_tools = [], rb_tool_choice = ToolChoiceAuto, rb_enable_thinking = None\<rparr>"

definition set_tools :: "'t list \<Rightarrow> 't request_builder \<Rightarrow> 't request_builder" where
  "set_tools ts b = b\<lparr>rb_tools := ts\<rparr>"

definition set_tool_choice :: "'t tool_choice \<Rightarrow> 't request_builder \<Rightarrow> 't request_builder" where
  "set_tool_choice c b = b\<lparr>rb_tool_choice := c\<rparr>"

definition enable_thinking :: "bool \<Rightarrow> 't request_builder \<Rightarrow> 't request_builder" where
  "enable_thinking e b = b\<lparr>rb_enable_thinking := Some e\<rparr>"

definition push_message :: "chat_message \<Rightarrow> 't request_builder \<Rightarrow> 't request_builder" where
  "push_message m b = b\<lparr>rb_messages := rb_messages b @ [m]\<rparr>"

definition text_message :: "text_message_role \<Rightarrow> string \<Rightarrow> chat_message" where
  "text_message role t = [''role'' \<mapsto> LeftText (role_to_string role), ''content'' \<mapsto> LeftText t]"

definition tool_message :: "string \<Rightarrow> string \<Rightarrow> chat_message" where
  "tool_message content call_id =
     [''role'' \<mapsto> LeftText (role_to_string RoleTool), ''content'' \<mapsto> LeftText content, ''tool_call_id'' \<mapsto> LeftText call_id]"

definition serialized_call :: "tool_call \<Rightarrow> string \<Rightarrow> json option" where
  "serialized_call c =
     [''id'' \<mapsto> JString (tc_id c), ''type'' \<mapsto> JString ''function'',
      ''function'' \<mapsto> JObject [''name'' \<mapsto> JString (tc_name c), ''arguments'' \<mapsto> JString (tc_arguments c)]]"

definition calls_message :: "text_message_role \<Rightarrow> string \<Rightarrow> tool_call list \<Rightarrow> chat_message" where
  "calls_message role t calls =
     [''role'' \<mapsto> LeftText (role_to_string role), ''content'' \<mapsto> LeftText t,
      ''function'' \<mapsto> RightParts (map serialized_call calls)]"

definition add_message :: "text_message_role \<Rightarrow> string \<Rightarrow> 't request_builder \<Rightarrow> 't request_builder" where
  "add_message role t b = push_message (text_message role t) b"

definition add_tool_message :: "string \<Rightarrow> string \<Rightarrow> 't request_builder \<Rightarrow> 't request_builder" where
  "add_tool_message content call_id b = push_message (tool_message content call_id) b"

definition add_message_with_tool_call ::
  "text_message_role \<Rightarrow> string \<Rightarrow> tool_call list \<Rightarrow> 't request_builder \<Rightarrow> 't request_builder" where
  "add_message_with_tool_call role t calls b = push_message (calls_message role t calls) b"

section \<open>The JSON form of the messages\<close>

definition json_get :: "json \<Rightarrow> string \<Rightarrow> json option" where "json_get = j_get serde_api"
definition json_str :: "json \<Rightarrow> string option" where "json_str = j_as_str serde_api"
definition json_arr :: "json \<Rightarrow> json list option" where "json_arr = j_as_array serde_api"

definition enc_content :: "message_content \<Rightarrow> json" where
  "enc_content c =
     (case c of
        LeftText t \<Rightarrow> JObject [''Left'' \<mapsto> JString t]
      | RightParts ps \<Rightarrow> JObject [''Right'' \<mapsto> JArray (map JObject ps)])"

definition serialize_chat_message :: "chat_message \<Rightarrow> json" where
  "serialize_chat_message m = JObject (\<lambda>k. map_option enc_content (m k))"

definition value_left_str :: "json \<Rightarrow> string option" where
  "value_left_str v =
     (case json_str v of Some s \<Rightarrow> Some s | None \<Rightarrow> Option.bind (json_get v ''Left'') json_str)"

definition message_left_str :: "json \<Rightarrow> string \<Rightarrow> string option" where
  "message_left_str m k = Option.bind (json_get m k) value_left_str"

definition message_right :: "json \<Rightarrow> string \<Rightarrow> json option" where
  "message_right m k =
     map_option (\<lambda>v. case json_get v ''Right'' of Some r \<Rightarrow> r | None \<Rightarrow> v) (json_get m k)"

definition parse_tool_call :: "nat \<Rightarrow> json \<Rightarrow> tool_call option" where
  "parse_tool_call i entry =
     Option.bind (Option.bind (json_get entry ''id'') json_str) (\<lambda>call_id.
     Option.bind (json_get entry ''function'') (\<lambda>function.
     Option.bind (Option.bind (json_get function ''name'') json_str) (\<lambda>name.
     Option.bind (Option.bind (json_get function ''arguments'') json_str) (\<lambda>arguments.
       Some \<lparr>tc_index = i, tc_id = call_id, tc_name = name, tc_arguments = arguments\<rparr>))))"

definition parse_tool_calls :: "json \<Rightarrow> tool_call list" where
  "parse_tool_calls v =
     (case json_arr v of
        None \<Rightarrow> []
      | Some es \<Rightarrow> List.map_filter (\<lambda>(i, e). parse_tool_call i e) (enumerate 0 es))"

section \<open>Rebuilding a request\<close>

definition or_empty :: "string option \<Rightarrow> string" where
  "or_empty s = (case s of Some t \<Rightarrow> t | None \<Rightarrow> [])"

text \<open>One round of the loop for a message whose role is known and that is not skipped.\<close>

definition add_serialized :: "string \<Rightarrow> json \<Rightarrow> 't request_builder \<Rightarrow> 't request_builder" where
  "add_serialized role_name m b =
     (case (if role_name = ''tool'' then (message_left_str m ''content'', message_left_str m ''tool_call_id'') else (None, None)) of
        (Some content, Some call_id) \<Rightarrow> add_tool_message content call_id b
      | _ \<Rightarrow>
          (let role = role_from_str role_name;
               content_text = or_empty (message_left_str m ''content'');
               functions = (case message_right m ''tool_calls'' of Some f \<Rightarrow> Some f | None \<Rightarrow> message_right m ''function'');
               calls = (case functions of Some f \<Rightarrow> parse_tool_calls f | None \<Rightarrow> [])
           in if calls \<noteq> [] then add_message_with_tool_call role content_text calls b
              else if role_name = ''system'' \<or> content_text \<noteq> [] then add_message role content_text b
              else b))"

fun rebuild_loop :: "bool \<Rightarrow> bool \<Rightarrow> json list \<Rightarrow> 't request_builder \<Rightarrow> 't request_builder" where
  "rebuild_loop replaced skipped [] b = b"
| "rebuild_loop replaced skipped (m # ms) b =
     (case message_left_str m ''role'' of
        None \<Rightarrow> rebuild_loop replaced skipped ms b
      | Some role_name \<Rightarrow>
          (if role_name = ''system'' \<and> replaced \<and> \<not> skipped then rebuild_loop replaced True ms b
           else rebuild_loop replaced skipped ms (add_serialized role_name m b)))"

definition request_builder_from_serialized_messages ::
  "json list \<Rightarrow> 't list \<Rightarrow> string option \<Rightarrow> 't request_builder" where
  "request_builder_from_serialized_messages ms tools replacement =
     (let b = enable_thinking True (set_tool_choice ToolChoiceAuto (set_tools tools chat_request_new));
          b1 = (case replacement of Some p \<Rightarrow> add_message RoleSystem p b | None \<Rightarrow> b)
      in rebuild_loop (replacement \<noteq> None) False ms b1)"

definition rebuild_request_builder ::
  "'t request_builder \<Rightarrow> string \<Rightarrow> 't list \<Rightarrow> string option \<Rightarrow> 't request_builder" where
  "rebuild_request_builder existing system_prompt tools reminder =
     (let b = request_builder_from_serialized_messages (map serialize_chat_message (rb_messages existing)) tools (Some system_prompt)
      in case reminder of Some r \<Rightarrow> add_message RoleSystem r b | None \<Rightarrow> b)"

section \<open>The agent's part of the conversation\<close>

record 't agent_core =
  ag_system_prompt :: string
  ag_tools :: "'t list"
  ag_conversation :: "'t request_builder option"
  ag_safety_config :: safety_config
  ag_model_name :: string
  ag_pending_policy :: "sandbox_policy option"

definition clear_conversation :: "('t, 'x) agent_core_scheme \<Rightarrow> ('t, 'x) agent_core_scheme" where
  "clear_conversation a = a\<lparr>ag_conversation := None\<rparr>"

definition fresh_request :: "'t list \<Rightarrow> text_message_role \<Rightarrow> string \<Rightarrow> string \<Rightarrow> 't request_builder" where
  "fresh_request tools role t u =
     enable_thinking True (set_tool_choice ToolChoiceAuto (set_tools tools
       (add_message RoleUser u (add_message role t chat_request_new))))"

definition identity_prompt :: string where
  "identity_prompt = ''You are Nite 3, a coding agent deployed in the best TUI colossal code. You live inside the terminal, running lean, fast, and sharp. Your role is to serve as the developer'' @ [CHR 0x27] @ ''s right hand.''"

definition summary_context :: "string \<Rightarrow> string \<Rightarrow> string" where
  "summary_context prompt summary =
     prompt @ [LF, LF] @ ''This session is being continued from a previous conversation that ran out of context. '' @
     ''The previous conversation has been summarized below:'' @ [LF, LF] @ summary"

definition inject_summary_context :: "string \<Rightarrow> ('t, 'x) agent_core_scheme \<Rightarrow> ('t, 'x) agent_core_scheme" where
  "inject_summary_context summary a =
     a\<lparr>ag_conversation := Some (fresh_request (ag_tools a) RoleSystem identity_prompt
         (summary_context (ag_system_prompt a) summary))\<rparr>"

text \<open>\<open>parse\<close> reads a JSON array from its text; its error is the result.\<close>

definition restore_conversation ::
  "(string \<Rightarrow> string + json list) \<Rightarrow> bool \<Rightarrow> string \<Rightarrow> ('t, 'x) agent_core_scheme \<Rightarrow> string + ('t, 'x) agent_core_scheme" where
  "restore_conversation parse replace_prompt t a =
     (case parse t of
        Inl e \<Rightarrow> Inl e
      | Inr ms \<Rightarrow> Inr (a\<lparr>ag_conversation := Some (request_builder_from_serialized_messages ms (ag_tools a)
          (if replace_prompt then Some (ag_system_prompt a) else None))\<rparr>))"

definition export_conversation :: "(json list \<Rightarrow> string option) \<Rightarrow> ('t, 'x) agent_core_scheme \<Rightarrow> string option" where
  "export_conversation print a =
     (case ag_conversation a of
        None \<Rightarrow> None
      | Some b \<Rightarrow> (if rb_messages b = [] then None else print (map serialize_chat_message (rb_messages b))))"

definition inject_system_reminder :: "string \<Rightarrow> ('t, 'x) agent_core_scheme \<Rightarrow> ('t, 'x) agent_core_scheme" where
  "inject_system_reminder reminder a =
     a\<lparr>ag_conversation := map_option (add_message RoleSystem reminder) (ag_conversation a)\<rparr>"

subsection \<open>The system prompt\<close>

definition open_section :: string where "open_section = ''<making_code_changes>''"
definition close_section :: string where "close_section = ''</making_code_changes>''"

text \<open>\<open>String::drain\<close> panics (\<open>None\<close>) where the range is empty the wrong way round.\<close>

definition filter_readonly_sections :: "string \<Rightarrow> string option" where
  "filter_readonly_sections t =
     map_option trim
       (case (str_find open_section t, str_find close_section t) of
          (Some start, Some close_at) \<Rightarrow>
            (let stop = (case str_find [LF] (drop close_at t) of
                           Some i \<Rightarrow> close_at + i + 1 | None \<Rightarrow> close_at + length close_section)
             in if start \<le> stop then Some (take start t @ drop stop t) else None)
        | _ \<Rightarrow> Some t)"

definition render_system_prompt :: "string \<Rightarrow> string \<Rightarrow> string \<Rightarrow> string \<Rightarrow> safety_mode option \<Rightarrow> string option" where
  "render_system_prompt template os_version workspace_path model_label mode =
     (let t = replace_all ''{model_name}'' model_label (replace_all ''{workspace_path}'' workspace_path
                (replace_all ''{os_version}'' os_version template))
      in if mode = Some ReadOnly then filter_readonly_sections t else Some t)"

record prompt_env =
  pe_template :: string
  pe_os_version :: string
  pe_workspace_path :: string
  pe_suffix :: "safety_mode \<Rightarrow> string option"

definition regenerate_system_prompt ::
  "prompt_env \<Rightarrow> string option \<Rightarrow> ('t, 'x) agent_core_scheme \<Rightarrow> ('t, 'x) agent_core_scheme option" where
  "regenerate_system_prompt P prompt_suffix a =
     map_option (\<lambda>p. a\<lparr>ag_system_prompt := p @ or_empty prompt_suffix\<rparr>)
       (render_system_prompt (pe_template P) (pe_os_version P) (pe_workspace_path P) (ag_model_name a)
          (Some (sc_mode (ag_safety_config a))))"

text \<open>\<open>update_safety_config\<close>: the two lists are what \<open>get_readonly_tools\<close> and \<open>get_all_tools\<close> give.\<close>

definition update_safety_config ::
  "prompt_env \<Rightarrow> safety_env \<Rightarrow> string \<Rightarrow> 't list \<Rightarrow> 't list \<Rightarrow> safety_config \<Rightarrow> ('t, 'x) agent_core_scheme \<Rightarrow>
     ('t, 'x) agent_core_scheme option" where
  "update_safety_config P E cwd readonly_tools all_tools config a =
     (let new_tools = (if sc_mode config = ReadOnly then readonly_tools else all_tools);
          a1 = a\<lparr>ag_safety_config := config,
                 ag_pending_policy := map_option (\<lambda>_. sandbox_policy_from_config_with_workspace E config cwd) (ag_pending_policy a),
                 ag_tools := new_tools\<rparr>
      in map_option (\<lambda>a2. a2\<lparr>ag_conversation :=
             map_option (\<lambda>b. rebuild_request_builder b (ag_system_prompt a2) new_tools None) (ag_conversation a2)\<rparr>)
           (regenerate_system_prompt P (pe_suffix P (sc_mode config)) a1))"

section \<open>What a rebuilt conversation contains\<close>

text \<open>A conversation as its turns.\<close>

datatype turn =
    TurnSaid text_message_role string
  | TurnCalled text_message_role string "tool_call list"
  | TurnResult string string

primrec message_of :: "turn \<Rightarrow> chat_message" where
  "message_of (TurnSaid role t) = text_message role t"
| "message_of (TurnCalled role t calls) = calls_message role t calls"
| "message_of (TurnResult content call_id) = tool_message content call_id"

definition is_prompt_turn :: "turn \<Rightarrow> bool" where
  "is_prompt_turn x =
     (case x of TurnSaid r t \<Rightarrow> role_to_string r = ''system'' | TurnCalled r t cs \<Rightarrow> role_to_string r = ''system'' | TurnResult c i \<Rightarrow> False)"

text \<open>An empty utterance is dropped, a list of no calls is as good as none.\<close>

definition normal_turn :: "turn \<Rightarrow> turn option" where
  "normal_turn x =
     (case x of
        TurnSaid r t \<Rightarrow> (if t = [] \<and> role_to_string r \<noteq> ''system'' then None else Some x)
      | TurnCalled r t cs \<Rightarrow>
          (if cs \<noteq> [] then Some x
           else if t = [] \<and> role_to_string r \<noteq> ''system'' then None else Some (TurnSaid r t))
      | TurnResult c i \<Rightarrow> Some x)"

text \<open>With a new prompt, the first system message goes.\<close>

fun without_prompt :: "turn list \<Rightarrow> turn list" where
  "without_prompt [] = []"
| "without_prompt (x # xs) = (if is_prompt_turn x then xs else x # without_prompt xs)"

lemmas json_access = json_get_def json_str_def json_arr_def serde_api_def

lemma message_left_str_enc [simp]:
  "message_left_str (serialize_chat_message m) k = (case m k of Some (LeftText t) \<Rightarrow> Some t | _ \<Rightarrow> None)"
  by (auto simp: message_left_str_def serialize_chat_message_def enc_content_def value_left_str_def json_access
      split: option.splits message_content.splits)

lemma message_right_enc:
  "message_right (serialize_chat_message m) k =
     (case m k of Some (RightParts ps) \<Rightarrow> Some (JArray (map JObject ps)) | Some (LeftText t) \<Rightarrow> Some (JObject [''Left'' \<mapsto> JString t])
        | None \<Rightarrow> None)"
  by (auto simp: message_right_def serialize_chat_message_def enc_content_def json_access split: option.splits message_content.splits)

lemma map_filter_all:
  "(\<And>x. x \<in> set xs \<Longrightarrow> f x = Some (g x)) \<Longrightarrow> List.map_filter f xs = map g xs"
  by (induction xs) (simp_all add: List.map_filter_simps)

lemma parse_calls_enc:
  "parse_tool_calls (JArray (map JObject (map serialized_call cs))) =
     map (\<lambda>(i, c). c\<lparr>tc_index := i\<rparr>) (enumerate 0 cs)"
proof -
  have "List.map_filter (\<lambda>(i, e). parse_tool_call i e) (enumerate n (map (JObject \<circ> serialized_call) cs)) =
      map (\<lambda>(i, c). c\<lparr>tc_index := i\<rparr>) (enumerate n cs)" for n
    by (induction cs arbitrary: n)
      (simp_all add: List.map_filter_simps parse_tool_call_def serialized_call_def json_access)
  then show ?thesis by (simp add: parse_tool_calls_def json_access)
qed

lemma serialized_call_index [simp]: "serialized_call (c\<lparr>tc_index := i\<rparr>) = serialized_call c"
  by (simp add: serialized_call_def)

lemma calls_message_reindexed:
  "calls_message role t (map (\<lambda>(i, c). c\<lparr>tc_index := i\<rparr>) (enumerate n cs)) = calls_message role t cs"
proof -
  have "map serialized_call (map (\<lambda>(i, c). c\<lparr>tc_index := i\<rparr>) (enumerate n cs)) = map serialized_call cs"
    by (induction cs arbitrary: n) simp_all
  then show ?thesis by (simp add: calls_message_def)
qed

lemma role_string_roundtrip: "role_to_string (role_from_str s) = s"
  by (simp add: role_from_str_def role_to_string_def)

lemma text_message_role_string: "role_to_string r = role_to_string q \<Longrightarrow> text_message r t = text_message q t"
  and calls_message_role_string: "role_to_string r = role_to_string q \<Longrightarrow> calls_message r t cs = calls_message q t cs"
  by (simp_all add: text_message_def calls_message_def)

lemma role_of_turn:
  "message_left_str (serialize_chat_message (message_of x)) ''role'' =
     Some (case x of TurnSaid r t \<Rightarrow> role_to_string r | TurnCalled r t cs \<Rightarrow> role_to_string r | TurnResult c i \<Rightarrow> ''tool'')"
  by (cases x) (simp_all add: text_message_def calls_message_def tool_message_def role_to_string_def)

lemma parse_no_calls [simp]: "parse_tool_calls (JObject m) = []"
  by (simp add: parse_tool_calls_def json_access)

lemma parse_empty: "parse_tool_calls (JArray []) = []"
  by (simp add: parse_tool_calls_def json_access List.map_filter_simps)

lemma add_serialized_turn:
  "add_serialized (case x of TurnSaid r t \<Rightarrow> role_to_string r | TurnCalled r t cs \<Rightarrow> role_to_string r | TurnResult c i \<Rightarrow> ''tool'')
     (serialize_chat_message (message_of x)) b =
   (case normal_turn x of None \<Rightarrow> b | Some y \<Rightarrow> push_message (message_of y) b)"
proof (cases x)
  case (TurnSaid r t)
  then show ?thesis
    by (simp add: add_serialized_def message_right_enc text_message_def normal_turn_def or_empty_def add_message_def Let_def
        role_string_roundtrip)
next
  case (TurnCalled r t cs)
  have e: "enumerate 0 cs = [] \<longleftrightarrow> cs = []" by (cases cs) simp_all
  have m: "role_to_string r = q \<Longrightarrow>
      calls_message (role_from_str q) u (map (\<lambda>(i, c). c\<lparr>tc_index := i\<rparr>) (enumerate 0 cs)) = calls_message r u cs"
    and s: "role_to_string r = q \<Longrightarrow> text_message (role_from_str q) u = text_message r u" for q u
    using calls_message_role_string [OF role_string_roundtrip] text_message_role_string [OF role_string_roundtrip]
      calls_message_reindexed by metis+
  have d: "message_left_str (serialize_chat_message (calls_message r u ds)) ''content'' = Some u"
    "message_left_str (serialize_chat_message (calls_message r u ds)) ''tool_call_id'' = None"
    "message_right (serialize_chat_message (calls_message r u ds)) ''tool_calls'' = None"
    "message_right (serialize_chat_message (calls_message r u ds)) ''function'' = Some (JArray (map JObject (map serialized_call ds)))"
    for u ds by (simp_all add: calls_message_def message_right_enc)
  show ?thesis
    unfolding add_serialized_def TurnCalled message_of.simps turn.case
    by (cases "cs = []"; cases "t = []"; cases "role_to_string r = ''tool''")
      (simp_all add: d m s e Let_def parse_calls_enc normal_turn_def or_empty_def add_message_with_tool_call_def
        add_message_def parse_empty del: map_map message_left_str_enc)
next
  case (TurnResult c i)
  then show ?thesis
    by (simp add: add_serialized_def tool_message_def normal_turn_def add_tool_message_def)
qed

lemma push_all_messages:
  "rb_messages (fold push_message ms b) = rb_messages b @ ms"
  by (induction ms arbitrary: b) (simp_all add: push_message_def)

lemma rebuild_loop_turns:
  "rebuild_loop replaced skipped (map serialize_chat_message (map message_of xs)) b =
     fold push_message (map message_of (List.map_filter normal_turn
       (if replaced \<and> \<not> skipped then without_prompt xs else xs))) b"
proof (induction xs arbitrary: skipped b)
  case (Cons x xs)
  have p: "is_prompt_turn x \<longleftrightarrow> (case x of TurnSaid r t \<Rightarrow> role_to_string r | TurnCalled r t cs \<Rightarrow> role_to_string r | TurnResult c i \<Rightarrow> ''tool'') = ''system''"
    by (cases x) (simp_all add: is_prompt_turn_def)
  show ?case
    using add_serialized_turn [of x b] Cons
    by (auto simp: role_of_turn p List.map_filter_simps simp del: message_left_str_enc split: option.splits)
qed (simp_all add: List.map_filter_simps)

lemma push_message_rest [simp]:
  "rb_tools (fold push_message ms b) = rb_tools b" "rb_tool_choice (fold push_message ms b) = rb_tool_choice b"
  "rb_enable_thinking (fold push_message ms b) = rb_enable_thinking b"
  by (induction ms arbitrary: b) (simp_all add: push_message_def)

lemma serialized_turns:
  "request_builder_from_serialized_messages (map serialize_chat_message (map message_of xs)) tools replacement =
   \<lparr>rb_messages = map message_of
      ((case replacement of None \<Rightarrow> [] | Some p \<Rightarrow> [TurnSaid RoleSystem p])
       @ List.map_filter normal_turn (if replacement = None then xs else without_prompt xs)),
    rb_tools = tools, rb_tool_choice = ToolChoiceAuto, rb_enable_thinking = Some True\<rparr>"
  unfolding request_builder_from_serialized_messages_def Let_def rebuild_loop_turns
  by (rule request_builder.equality)
    (simp_all add: push_all_messages add_message_def push_message_def set_tools_def set_tool_choice_def
      enable_thinking_def chat_request_new_def split: option.splits)

text \<open>C21: when the mode changes in the middle of a conversation, the rebuilt conversation starts with the new
  system prompt, drops only the old one (the first system message) and utterances without any text, and keeps every
  other turn in its order, tool calls and their results included.\<close>

theorem rebuild_keeps_history:
  assumes "rb_messages b = map message_of xs"
  shows "rb_messages (rebuild_request_builder b p tools None) =
     map message_of (TurnSaid RoleSystem p # List.map_filter normal_turn (without_prompt xs))"
  unfolding rebuild_request_builder_def Let_def assms serialized_turns by simp

theorem rebuild_keeps_history_witness:
  "rb_messages (rebuild_request_builder
       (add_tool_message ''ok'' ''c1'' (add_message_with_tool_call RoleAssistant [] [\<lparr>tc_index = 3, tc_id = ''c1'', tc_name = ''ls'', tc_arguments = ''{}''\<rparr>]
         (add_message RoleUser ''hi'' (add_message RoleSystem ''old'' (chat_request_new :: nat request_builder)))))
       ''new'' [7] None) =
     [text_message RoleSystem ''new'', text_message RoleUser ''hi'',
      calls_message RoleAssistant [] [\<lparr>tc_index = 3, tc_id = ''c1'', tc_name = ''ls'', tc_arguments = ''{}''\<rparr>],
      tool_message ''ok'' ''c1'']"
proof -
  let ?xs = "[TurnSaid RoleSystem ''old'', TurnSaid RoleUser ''hi'',
      TurnCalled RoleAssistant [] [\<lparr>tc_index = 3, tc_id = ''c1'', tc_name = ''ls'', tc_arguments = ''{}''\<rparr>],
      TurnResult ''ok'' ''c1'']"
  let ?b = "add_tool_message ''ok'' ''c1'' (add_message_with_tool_call RoleAssistant [] [\<lparr>tc_index = 3, tc_id = ''c1'', tc_name = ''ls'', tc_arguments = ''{}''\<rparr>]
         (add_message RoleUser ''hi'' (add_message RoleSystem ''old'' (chat_request_new :: nat request_builder))))"
  have "rb_messages ?b = map message_of ?xs"
    by (simp add: add_tool_message_def add_message_with_tool_call_def add_message_def push_message_def chat_request_new_def)
  from rebuild_keeps_history [OF this, of "''new''" "[7]"] show ?thesis
    by (simp add: is_prompt_turn_def role_to_string_def List.map_filter_simps normal_turn_def)
qed

section \<open>Saving and restoring\<close>

text \<open>Conversations as the agent builds them, without empty utterances.\<close>

definition normal_turns :: "turn list \<Rightarrow> bool" where
  "normal_turns xs = list_all (\<lambda>x. normal_turn x = Some x) xs"

lemma map_filter_normal: "normal_turns xs \<Longrightarrow> List.map_filter normal_turn xs = xs"
  by (induction xs) (simp_all add: normal_turns_def List.map_filter_simps)



text \<open>A prompt template in which a closing tag stands in an earlier line than the opening one makes the program panic
  in the read-only mode.\<close>

theorem readonly_prompt_panics:
  "render_system_prompt (close_section @ [LF] @ ''x'' @ open_section) [] [] [] (Some ReadOnly) = None"
  by code_simp

end
