(* ===== verification/Llm_Response.thy ===== *)
theory Llm_Response
  imports Conversation "HOL-Library.Word"
begin

text \<open>
  The responses of a model back end, as \<open>external/mistral.rs/mistralrs-core/src/response.rs\<close> defines them and the agent
  and its HTTP back ends use them. A number of type \<open>f32\<close> is its bit pattern. Log probabilities and the responses
  for images, speech, completions and embeddings, which neither side looks into, are left out (\<open>OtherResponse\<close>).
\<close>

type_synonym f32 = "32 word"

record usage =
  us_completion_tokens :: nat
  us_prompt_tokens :: nat
  us_total_tokens :: nat
  us_avg_tok_per_sec :: f32
  us_avg_prompt_tok_per_sec :: f32
  us_avg_compl_tok_per_sec :: f32
  us_total_time_sec :: f32
  us_total_prompt_time_sec :: f32
  us_total_completion_time_sec :: f32

record delta =
  de_content :: "string option"
  de_role :: string
  de_tool_calls :: "tool_call list option"
  de_reasoning_content :: "string option"

record chunk_choice =
  cc_finish_reason :: "string option"
  cc_index :: nat
  cc_delta :: delta

record chat_chunk =
  ch_id :: string
  ch_choices :: "chunk_choice list"
  ch_created :: nat
  ch_model :: string
  ch_system_fingerprint :: string
  ch_object :: string
  ch_usage :: "usage option"

record response_message =
  rm_content :: "string option"
  rm_role :: string
  rm_tool_calls :: "tool_call list option"
  rm_reasoning_content :: "string option"

record chat_choice =
  co_finish_reason :: string
  co_index :: nat
  co_message :: response_message

record chat_response =
  cr_id :: string
  cr_choices :: "chat_choice list"
  cr_created :: nat
  cr_model :: string
  cr_system_fingerprint :: string
  cr_object :: string
  cr_usage :: usage

text \<open>An error is carried as its debug text.\<close>

datatype llm_response =
    ResponseChunk chat_chunk
  | ResponseDone chat_response
  | InternalError string
  | ValidationError string
  | ModelError string
  | OtherResponse

end
