(* ===== verification/Generation.thy ===== *)
theory Generation
  imports Llm_Response Step_Execution Prog_Logic
begin

text \<open>
  The generation loop of the agent: \<open>crates/agent_core/src/agent.rs\<close>. A message of the user is added to the
  conversation, the model answers in a stream, reasoning and answer go to the user as they arrive, and as long as the
  model asks for tools they are run and their results are sent back to it.

  The state holds the agent's conversation, its summarizer with the lock around it, the messages sent so far and the
  locals of a round (\<open>round\<close>). The back end, the clock, the jobs of the summarizer, the tools and the moment of a
  cancellation are functions of \<open>gen_env\<close> on a world. Control flow is a value: \<open>Fall\<close> goes on with the next
  statement, \<open>Continue\<close> and \<open>Break\<close> are those of the receiving loop, \<open>Return\<close> leaves the function. A lock is held to
  the end of its block on every way out. \<open>ge_block\<close> tells a deadlock and a job that never ends from a loop that ran
  out of fuel.
\<close>

section \<open>State and environment\<close>

datatype flow = Fall | Continue | Break | Return

datatype block_reason = NotBlocked | Deadlock | JobHangs

record round =
  ro_calls :: "(nat \<times> tool_call) list"
  ro_content :: string
  ro_start_time :: nat
  ro_first_token :: "nat option"
  ro_tokens :: nat
  ro_in_thinking :: bool
  ro_thinking :: string
  ro_allow_start :: bool
  ro_prefix :: string
  ro_response_prefix :: string
  ro_final_started :: bool

definition round_new :: "nat \<Rightarrow> round" where
  "round_new start = \<lparr>ro_calls = [], ro_content = [], ro_start_time = start, ro_first_token = None, ro_tokens = 0,
     ro_in_thinking = False, ro_thinking = [], ro_allow_start = True, ro_prefix = [], ro_response_prefix = [],
     ro_final_started = False\<rparr>"

record ('t, 'w) gen_state = "'t agent_core" +
  ge_world :: 'w
  ge_cancel :: bool
  ge_tags :: thinking_tags
  ge_summarizer :: thinking_summarizer
  ge_locked :: bool
  ge_block :: block_reason
  ge_sent :: "agent_message list"
  ge_request :: "'t request_builder"
  ge_round :: round

datatype stream_item = StreamItem llm_response | StreamEnd | TenMillis

record ('t, 'w) gen_env =
  start_stream :: "'t request_builder \<Rightarrow> 'w \<Rightarrow> (string + unit) \<times> 'w"
  next_item :: "'w \<Rightarrow> stream_item \<times> 'w"
  cancel_arrived :: "'w \<Rightarrow> bool \<times> 'w"
  now_nanos :: "'w \<Rightarrow> nat \<times> 'w"
  jobs_ended :: "summary list \<Rightarrow> 'w \<Rightarrow> job_end list \<times> 'w"
  latest_prompt_tokens :: "'w \<Rightarrow> nat option \<times> 'w"
  run_tool :: "tool_call \<Rightarrow> 'w \<Rightarrow> ((string + string) \<times> agent_message list) \<times> 'w"
  parse_yaml :: "string \<Rightarrow> json option"
  print_yaml :: "json \<Rightarrow> string option"
  secs_f32 :: "nat \<Rightarrow> f32"
  positive_f32 :: "f32 \<Rightarrow> bool"
  per_sec_f32 :: "nat \<Rightarrow> f32 \<Rightarrow> f32"

type_synonym ('t, 'w, 'a) gen = "(('t, 'w) gen_state, 'a) prog"

section \<open>Basic steps\<close>

definition gen_op :: "('w \<Rightarrow> 'a \<times> 'w) \<Rightarrow> ('t, 'w, 'a) gen" where
  "gen_op f = (\<lambda>s. let (r, w) = f (ge_world s) in (Ret r, s\<lparr>ge_world := w\<rparr>))"

definition andf :: "('s, flow) prog \<Rightarrow> ('s, flow) prog \<Rightarrow> ('s, flow) prog" where
  "andf p q = bindp p (\<lambda>c. if c = Fall then q else ret c)"

definition fall :: "('s, unit) prog \<Rightarrow> ('s, flow) prog" where
  "fall p = seqp p (ret Fall)"

definition send_msg :: "agent_message \<Rightarrow> ('t, 'w, unit) gen" where
  "send_msg m = upd (\<lambda>s. s\<lparr>ge_sent := ge_sent s @ [m]\<rparr>)"

definition set_round :: "(round \<Rightarrow> round) \<Rightarrow> ('t, 'w, unit) gen" where
  "set_round f = upd (\<lambda>s. s\<lparr>ge_round := f (ge_round s)\<rparr>)"

definition blocked :: "block_reason \<Rightarrow> ('t, 'w, 'a) gen" where
  "blocked b = seqp (upd (\<lambda>s. s\<lparr>ge_block := b\<rparr>)) stuck"

text \<open>The lock of the summarizer is not reentrant; the guard lives to the end of the block.\<close>

definition locked :: "('t, 'w, 'a) gen \<Rightarrow> ('t, 'w, 'a) gen" where
  "locked p = bindp (asks ge_locked) (\<lambda>held.
     if held then blocked Deadlock
     else seqp (upd (\<lambda>s. s\<lparr>ge_locked := True\<rparr>))
       (bindp p (\<lambda>x. seqp (upd (\<lambda>s. s\<lparr>ge_locked := False\<rparr>)) (ret x))))"

definition jobs :: "('t, 'w) gen_env \<Rightarrow> ('t, 'w, job_end list) gen" where
  "jobs E = bindp (asks (su_running \<circ> ge_summarizer)) (\<lambda>running. gen_op (jobs_ended E running))"

definition add_chunk :: "('t, 'w) gen_env \<Rightarrow> string \<Rightarrow> ('t, 'w, unit) gen" where
  "add_chunk E chunk = bindp (jobs E) (\<lambda>es. upd (\<lambda>s. s\<lparr>ge_summarizer := add_thinking_chunk es chunk (ge_summarizer s)\<rparr>))"

definition flush :: "('t, 'w) gen_env \<Rightarrow> ('t, 'w, unit) gen" where
  "flush E = bindp (jobs E) (\<lambda>es. bindp (jobs E) (\<lambda>fs. bindp (asks ge_summarizer) (\<lambda>su.
     case flush_summaries es fs su of
       None \<Rightarrow> blocked JobHangs
     | Some su1 \<Rightarrow> upd (\<lambda>s. s\<lparr>ge_summarizer := su1\<rparr>))))"

definition new_summaries :: "('t, 'w) gen_env \<Rightarrow> ('t, 'w, summary list) gen" where
  "new_summaries E = bindp (jobs E) (\<lambda>es. bindp (asks ge_summarizer) (\<lambda>su.
     case get_new_summaries es su of (new, su1) \<Rightarrow> seqp (upd (\<lambda>s. s\<lparr>ge_summarizer := su1\<rparr>)) (ret new)))"

text \<open>Sends the summaries; \<open>check\<close> is what follows each of them.\<close>

fun announce :: "('t, 'w, flow) gen \<Rightarrow> summary list \<Rightarrow> ('t, 'w, flow) gen" where
  "announce check [] = ret Fall"
| "announce check (x # xs) = seqp (send_msg (AmThinkingSummary (summary_text x))) (andf check (announce check xs))"

definition announce_new :: "('t, 'w) gen_env \<Rightarrow> ('t, 'w, flow) gen \<Rightarrow> ('t, 'w, flow) gen" where
  "announce_new E check = bindp (new_summaries E) (announce check)"

definition send_residual :: "('t, 'w, flow) gen" where
  "send_residual = bindp (asks (get_residual_token_count \<circ> ge_summarizer)) (\<lambda>n.
     fall (if 0 < n then send_msg (AmThinkingComplete n) else ret ()))"

section \<open>Cancellation\<close>

definition generation_stats_of :: "f32 \<Rightarrow> nat \<Rightarrow> nat \<Rightarrow> f32 \<Rightarrow> string \<Rightarrow> generation_stats" where
  "generation_stats_of rate completion prompt first reason =
     \<lparr>gs_avg_completion_tok_per_sec = rate, gs_completion_tokens = completion, gs_prompt_tokens = prompt,
      gs_time_to_first_token_sec = first, gs_stop_reason = reason\<rparr>"

text \<open>The seconds from the start of the stream to its first token.\<close>

definition time_to_first :: "('t, 'w) gen_env \<Rightarrow> round \<Rightarrow> f32" where
  "time_to_first E r = (case ro_first_token r of None \<Rightarrow> 0 | Some t \<Rightarrow> secs_f32 E (t - ro_start_time r))"

definition cancelled_stats :: "('t, 'w) gen_env \<Rightarrow> nat \<Rightarrow> nat option \<Rightarrow> round \<Rightarrow> generation_stats" where
  "cancelled_stats E instant prompt r =
     (let elapsed = secs_f32 E (instant - ro_start_time r)
      in generation_stats_of
           (if positive_f32 E elapsed \<and> 0 < ro_tokens r then per_sec_f32 E (ro_tokens r) elapsed else 0)
           (ro_tokens r) (case prompt of Some n \<Rightarrow> n | None \<Rightarrow> 0) (time_to_first E r) ''cancelled'')"

definition save_cancelled :: "('t, 'w) gen_state \<Rightarrow> ('t, 'w) gen_state" where
  "save_cancelled s =
     s\<lparr>ag_conversation := Some
        (if ro_content (ge_round s) = [] then ge_request s
         else add_message RoleAssistant (ro_content (ge_round s)) (ge_request s))\<rparr>"

definition wind_up :: "('t, 'w) gen_env \<Rightarrow> ('t, 'w, unit) gen" where
  "wind_up E =
     bindp (asks ge_round) (\<lambda>r.
       seqp (if ro_thinking r \<noteq> [] \<and> ro_in_thinking r
             then seqp (locked (seqp (add_chunk E (ro_thinking r)) (seqp (flush E) (announce_new E (ret Fall))))) (ret ())
             else ret ())
      (seqp (if ro_content r \<noteq> [] \<and> \<not> ro_in_thinking r
             then send_msg (AmAgentResponse (ro_content r) (estimate_tokens_heuristic (ro_content r))) else ret ())
      (bindp (gen_op (now_nanos E)) (\<lambda>instant.
       bindp (gen_op (latest_prompt_tokens E)) (\<lambda>prompt.
       seqp (send_msg (AmGenerationStats (cancelled_stats E instant prompt r)))
      (seqp (upd save_cancelled) (send_msg AmDone)))))))"

definition check_cancel :: "('t, 'w) gen_env \<Rightarrow> ('t, 'w, flow) gen" where
  "check_cancel E =
     bindp (gen_op (cancel_arrived E)) (\<lambda>b.
       seqp (upd (\<lambda>s. s\<lparr>ge_cancel := ge_cancel s \<or> b\<rparr>))
         (bindp (asks ge_cancel) (\<lambda>c. if c then seqp (wind_up E) (ret Return) else ret Fall)))"

section \<open>Reasoning and answer\<close>

definition note_first_token :: "('t, 'w) gen_env \<Rightarrow> nat \<Rightarrow> ('t, 'w, unit) gen" where
  "note_first_token E token_count =
     bindp (asks ge_round) (\<lambda>r.
       if ro_first_token r = None \<and> 0 < token_count
       then bindp (gen_op (now_nanos E)) (\<lambda>instant. set_round (\<lambda>r. r\<lparr>ro_first_token := Some instant\<rparr>))
       else ret ())"

definition count_tokens :: "('t, 'w) gen_env \<Rightarrow> nat \<Rightarrow> ('t, 'w, unit) gen" where
  "count_tokens E n = seqp (note_first_token E n) (set_round (\<lambda>r. r\<lparr>ro_tokens := ro_tokens r + n\<rparr>))"

definition send_thinking :: "('t, 'w) gen_env \<Rightarrow> string \<Rightarrow> ('t, 'w, unit) gen" where
  "send_thinking E t =
     (let n = estimate_tokens_heuristic t in seqp (count_tokens E n) (send_msg (AmThinkingContent t n)))"

text \<open>What comes after the closing tag.\<close>

definition after_thinking :: "('t, 'w) gen_env \<Rightarrow> string \<Rightarrow> ('t, 'w, unit) gen" where
  "after_thinking E after_think =
     (if after_think = [] then ret ()
      else if has_visible_text after_think then
        bindp (asks ge_round) (\<lambda>r.
          let outbound = ro_response_prefix r @ after_think; n = estimate_tokens_heuristic outbound
          in seqp (set_round (\<lambda>r. r\<lparr>ro_response_prefix := [], ro_content := ro_content r @ outbound\<rparr>))
            (seqp (count_tokens E n)
            (seqp (send_msg (AmAgentResponse outbound n)) (set_round (\<lambda>r. r\<lparr>ro_final_started := True\<rparr>)))))
      else set_round (\<lambda>r. r\<lparr>ro_response_prefix := ro_response_prefix r @ after_think\<rparr>))"

definition close_thinking :: "('t, 'w) gen_env \<Rightarrow> string \<Rightarrow> string \<Rightarrow> ('t, 'w, flow) gen" where
  "close_thinking E final_thinking after_think =
     seqp (set_round (\<lambda>r. r\<lparr>ro_in_thinking := False\<rparr>))
       (andf (if final_thinking = [] then ret Fall
              else seqp (send_thinking E final_thinking)
                (andf (check_cancel E)
                  (locked (seqp (add_chunk E final_thinking) (announce_new E (check_cancel E))))))
         (locked (seqp (flush E)
           (andf (announce_new E (check_cancel E))
           (andf send_residual
             (fall (seqp (after_thinking E after_think) (set_round (\<lambda>r. r\<lparr>ro_thinking := []\<rparr>)))))))))"

text \<open>The part of the reasoning that can be shown already goes out in pieces of a hundred characters.\<close>

function send_pieces :: "('t, 'w) gen_env \<Rightarrow> string list \<Rightarrow> ('t, 'w, flow) gen" where
  "send_pieces E cs =
     (if cs = [] then ret Fall
      else andf (check_cancel E)
        (if 100 < length cs then
           seqp (send_thinking E (concat (take 100 cs))) (andf (check_cancel E) (send_pieces E (drop 100 cs)))
         else fall (send_thinking E (concat cs))))"
  by pat_completeness auto
termination
  by (relation "measure (\<lambda>(E, cs). length cs)") auto

declare send_pieces.simps [simp del]

text \<open>The last eleven characters stay in the buffer: they may be the beginning of the closing tag.\<close>

definition stream_thinking :: "('t, 'w) gen_env \<Rightarrow> ('t, 'w, flow) gen" where
  "stream_thinking E =
     bindp (asks (utf8_chars \<circ> ro_thinking \<circ> ge_round)) (\<lambda>cs.
       if 11 < length cs then
         (let n = length cs - 11
          in andf (send_pieces E (take n cs))
            (locked (seqp (add_chunk E (concat (take n cs)))
              (andf (announce_new E (check_cancel E))
                (fall (set_round (\<lambda>r. r\<lparr>ro_thinking := concat (drop n cs)\<rparr>)))))))
       else ret Fall)"

definition handle_thinking :: "('t, 'w) gen_env \<Rightarrow> string \<Rightarrow> ('t, 'w, flow) gen" where
  "handle_thinking E chunk =
     (if chunk = [] then ret Continue
      else seqp (set_round (\<lambda>r. r\<lparr>ro_thinking := ro_thinking r @ chunk\<rparr>))
        (bindp (asks ge_tags) (\<lambda>tags. bindp (asks (ro_thinking \<circ> ge_round)) (\<lambda>t.
          case str_find (close_tag tags) t of
            Some end_idx \<Rightarrow> close_thinking E (take end_idx t) (drop (end_idx + length (close_tag tags)) t)
          | None \<Rightarrow> stream_thinking E))))"

definition handle_answer :: "('t, 'w) gen_env \<Rightarrow> string \<Rightarrow> ('t, 'w, flow) gen" where
  "handle_answer E chunk =
     bindp (asks ge_round) (\<lambda>r.
       if \<not> ro_final_started r \<and> \<not> has_visible_text chunk then
         seqp (set_round (\<lambda>r. r\<lparr>ro_response_prefix := ro_response_prefix r @ chunk\<rparr>))
           (andf (check_cancel E) (ret Continue))
       else
         (let outbound = ro_response_prefix r @ chunk;
              n = 1 + estimate_tokens_heuristic (take (length outbound - length chunk) outbound)
          in seqp (set_round (\<lambda>r. r\<lparr>ro_response_prefix := [], ro_content := ro_content r @ outbound\<rparr>))
            (seqp (count_tokens E n)
            (seqp (send_msg (AmAgentResponse outbound n))
            (seqp (if has_visible_text chunk then set_round (\<lambda>r. r\<lparr>ro_final_started := True\<rparr>) else ret ())
              (check_cancel E))))))"

definition handle_text :: "('t, 'w) gen_env \<Rightarrow> bool \<Rightarrow> string \<Rightarrow> ('t, 'w, flow) gen" where
  "handle_text E as_thinking chunk = (if as_thinking then handle_thinking E chunk else handle_answer E chunk)"

definition handle_content :: "('t, 'w) gen_env \<Rightarrow> string \<Rightarrow> ('t, 'w, flow) gen" where
  "handle_content E content =
     (if content = [] then ret Continue
      else bindp (asks ge_round) (\<lambda>r. bindp (asks ge_tags) (\<lambda>tags.
        if ro_allow_start r then
          (let buffer = ro_prefix r @ content
           in case analyze_thinking_start buffer (open_tag tags) of
                NeedMoreData \<Rightarrow>
                  seqp (set_round (\<lambda>r. r\<lparr>ro_prefix := buffer\<rparr>)) (andf (check_cancel E) (ret Continue))
              | Detected i \<Rightarrow>
                  seqp (set_round (\<lambda>r. r\<lparr>ro_allow_start := False, ro_in_thinking := True, ro_prefix := []\<rparr>))
                    (handle_text E True (drop i buffer))
              | NotThinking \<Rightarrow>
                  seqp (set_round (\<lambda>r. r\<lparr>ro_allow_start := False, ro_prefix := []\<rparr>))
                    (handle_text E (ro_in_thinking r) buffer))
        else handle_text E (ro_in_thinking r) content)))"

section \<open>Tool calls and the end of the stream\<close>

text \<open>\<open>IndexMap::insert\<close> keeps the place of a key that is there.\<close>

fun index_insert :: "'k \<Rightarrow> 'a \<Rightarrow> ('k \<times> 'a) list \<Rightarrow> ('k \<times> 'a) list" where
  "index_insert k x [] = [(k, x)]"
| "index_insert k x (y # ys) = (if fst y = k then (k, x) # ys else y # index_insert k x ys)"

definition insert_call :: "tool_call \<Rightarrow> ('t, 'w, unit) gen" where
  "insert_call c = set_round (\<lambda>r. r\<lparr>ro_calls := index_insert (tc_index c) c (ro_calls r)\<rparr>)"

definition call_started :: "tool_call \<Rightarrow> ('t, 'w, unit) gen" where
  "call_started c = send_msg (AmToolCallStarted (tc_name c) (tc_arguments c))"

fun note_calls :: "tool_call list \<Rightarrow> ('t, 'w, unit) gen" where
  "note_calls [] = ret ()"
| "note_calls (c # cs) =
     bindp (asks (ro_calls \<circ> ge_round)) (\<lambda>calls.
       seqp (insert_call c)
      (seqp (if (case map_of calls (tc_index c) of None \<Rightarrow> True | Some p \<Rightarrow> tc_arguments p \<noteq> tc_arguments c)
             then call_started c else ret ())
        (note_calls cs)))"

text \<open>Reasoning that is still in the buffer, handed to the summarizer for good.\<close>

definition settle_thinking :: "('t, 'w) gen_env \<Rightarrow> string \<Rightarrow> ('t, 'w, unit) gen" where
  "settle_thinking E t =
     seqp (locked (seqp (add_chunk E t) (seqp (flush E) (andf (announce_new E (ret Fall)) send_residual)))) (ret ())"

definition handle_calls :: "('t, 'w) gen_env \<Rightarrow> tool_call list \<Rightarrow> ('t, 'w, flow) gen" where
  "handle_calls E calls =
     bindp (asks ge_round) (\<lambda>r.
       seqp (if ro_in_thinking r \<and> ro_thinking r \<noteq> [] then
               seqp (send_thinking E (ro_thinking r))
              (seqp (settle_thinking E (ro_thinking r))
                (set_round (\<lambda>r. r\<lparr>ro_thinking := [], ro_in_thinking := False\<rparr>)))
             else ret ())
         (fall (note_calls calls)))"

text \<open>Prompt tokens are computed from the total where the back end does not give them.\<close>

definition prompt_tokens_of :: "usage \<Rightarrow> nat" where
  "prompt_tokens_of u =
     (if 0 < us_prompt_tokens u then us_prompt_tokens u
      else if us_completion_tokens u < us_total_tokens u then us_total_tokens u - us_completion_tokens u else 0)"

definition usage_stats :: "usage \<Rightarrow> string \<Rightarrow> generation_stats" where
  "usage_stats u reason =
     generation_stats_of (us_avg_compl_tok_per_sec u) (us_completion_tokens u) (prompt_tokens_of u)
       (us_total_prompt_time_sec u) reason"

text \<open>The stop reason of the first choice.\<close>

definition chunk_stop_reason :: "chat_chunk \<Rightarrow> string" where
  "chunk_stop_reason ch =
     (case ch_choices ch of
        [] \<Rightarrow> ''unknown''
      | c # _ \<Rightarrow> (case cc_finish_reason c of Some reason \<Rightarrow> reason | None \<Rightarrow> ''unknown''))"

definition response_stop_reason :: "chat_response \<Rightarrow> string" where
  "response_stop_reason resp =
     (case cr_choices resp of [] \<Rightarrow> ''unknown'' | c # _ \<Rightarrow> co_finish_reason c)"

definition send_stats_if_no_calls :: "generation_stats \<Rightarrow> ('t, 'w, unit) gen" where
  "send_stats_if_no_calls st =
     bindp (asks (ro_calls \<circ> ge_round)) (\<lambda>calls. if calls = [] then send_msg (AmGenerationStats st) else ret ())"

definition handle_chunk :: "('t, 'w) gen_env \<Rightarrow> chat_chunk \<Rightarrow> ('t, 'w, flow) gen" where
  "handle_chunk E ch =
     seqp (case ch_usage ch of None \<Rightarrow> ret () | Some u \<Rightarrow> send_stats_if_no_calls (usage_stats u (chunk_stop_reason ch)))
       (case ch_choices ch of
          [] \<Rightarrow> ret Fall
        | c # _ \<Rightarrow>
            (case de_tool_calls (cc_delta c) of
               Some calls \<Rightarrow> handle_calls E calls
             | None \<Rightarrow> (case de_content (cc_delta c) of Some content \<Rightarrow> handle_content E content | None \<Rightarrow> ret Fall)))"

fun take_final_calls :: "tool_call list \<Rightarrow> ('t, 'w, unit) gen" where
  "take_final_calls [] = ret ()"
| "take_final_calls (c # cs) = seqp (insert_call c) (seqp (call_started c) (take_final_calls cs))"

definition final_calls :: "chat_response \<Rightarrow> tool_call list" where
  "final_calls resp =
     (case cr_choices resp of
        [] \<Rightarrow> []
      | c # _ \<Rightarrow> (case rm_tool_calls (co_message c) of Some calls \<Rightarrow> calls | None \<Rightarrow> []))"

definition handle_done :: "chat_response \<Rightarrow> ('t, 'w, flow) gen" where
  "handle_done resp =
     bindp (asks (ro_calls \<circ> ge_round)) (\<lambda>calls.
       seqp (if calls = [] then take_final_calls (final_calls resp) else ret ())
      (seqp (send_stats_if_no_calls (usage_stats (cr_usage resp) (response_stop_reason resp)))
        (ret Break)))"

definition handle_response :: "('t, 'w) gen_env \<Rightarrow> llm_response \<Rightarrow> ('t, 'w, flow) gen" where
  "handle_response E resp =
     (case resp of
        ResponseChunk ch \<Rightarrow> handle_chunk E ch
      | ResponseDone d \<Rightarrow> handle_done d
      | InternalError e \<Rightarrow> seqp (send_msg (AmError (''Internal error: '' @ e))) (ret Break)
      | ValidationError e \<Rightarrow> seqp (send_msg (AmError (''Validation error: '' @ e))) (ret Break)
      | ModelError e \<Rightarrow> seqp (send_msg (AmError (''Model error: '' @ e))) (ret Break)
      | OtherResponse \<Rightarrow> ret Fall)"

section \<open>The loops\<close>

definition receive_step :: "('t, 'w) gen_env \<Rightarrow> ('t, 'w, flow) gen" where
  "receive_step E =
     andf (check_cancel E)
       (bindp (gen_op (next_item E)) (\<lambda>i.
          case i of
            StreamEnd \<Rightarrow> ret Break
          | TenMillis \<Rightarrow> andf (check_cancel E) (ret Continue)
          | StreamItem resp \<Rightarrow> handle_response E resp))"

text \<open>\<open>Fall\<close> after a \<open>break\<close>, \<open>Return\<close> after a cancellation.\<close>

fun receive_loop :: "('t, 'w) gen_env \<Rightarrow> nat \<Rightarrow> ('t, 'w, flow) gen" where
  "receive_loop E 0 = stuck"
| "receive_loop E (Suc fuel) =
     bindp (receive_step E) (\<lambda>c.
       if c = Return then ret Return else if c = Break then ret Fall else receive_loop E fuel)"

definition end_of_stream :: "('t, 'w) gen_env \<Rightarrow> ('t, 'w, unit) gen" where
  "end_of_stream E =
     seqp (bindp (asks ge_round) (\<lambda>r.
       if ro_prefix r \<noteq> [] then
         seqp (set_round (\<lambda>r. r\<lparr>ro_content := ro_content r @ ro_prefix r\<rparr>))
           (send_msg (AmAgentResponse (ro_prefix r) (estimate_tokens_heuristic (ro_prefix r))))
       else ret ()))
      (bindp (asks ge_round) (\<lambda>r.
         if ro_in_thinking r \<and> ro_thinking r \<noteq> [] then
           seqp (send_msg (AmThinkingContent (ro_thinking r) (estimate_tokens_heuristic (ro_thinking r))))
             (settle_thinking E (ro_thinking r))
         else ret ()))"

definition failure_value :: "string \<Rightarrow> string \<Rightarrow> json" where
  "failure_value tool message =
     JObject [''status'' \<mapsto> JString ''Failure'', ''message'' \<mapsto> JString message, ''tool'' \<mapsto> JString tool]"

definition failure_text :: "('t, 'w) gen_env \<Rightarrow> string \<Rightarrow> string \<Rightarrow> string" where
  "failure_text E tool message =
     (case print_yaml E (failure_value tool message) of
        Some t \<Rightarrow> t
      | None \<Rightarrow> ''status: Failure'' @ [LF] @ ''message: Tool execution failed'')"

definition text_field :: "json \<Rightarrow> string \<Rightarrow> string" where
  "text_field v k = or_empty (Option.bind (json_get v k) json_str)"

text \<open>A command that went to the background is announced.\<close>

definition background_message :: "('t, 'w) gen_env \<Rightarrow> tool_call \<Rightarrow> string \<Rightarrow> agent_message option" where
  "background_message E c result =
     (if tc_name c = ''exec_command'' then
        (case parse_yaml E result of
           Some v \<Rightarrow>
             (if Option.bind (json_get v ''status'') json_str = Some ''Background'' then
                Some (AmBackgroundTaskStarted (text_field v ''session_id'') (text_field v ''command'') (text_field v ''log_file''))
              else None)
         | None \<Rightarrow> None)
      else None)"

definition run_call :: "('t, 'w) gen_env \<Rightarrow> tool_call \<Rightarrow> ('t, 'w, unit) gen" where
  "run_call E c =
     bindp (gen_op (run_tool E c)) (\<lambda>(outcome, messages).
       seqp (upd (\<lambda>s. s\<lparr>ge_sent := ge_sent s @ messages\<rparr>))
         (let result = (case outcome of Inr t \<Rightarrow> t | Inl e \<Rightarrow> failure_text E (tc_name c) e)
          in seqp (send_msg (AmToolCallCompleted (tc_name c) result))
            (seqp (case outcome of
                     Inr t \<Rightarrow> (case background_message E c t of Some m \<Rightarrow> send_msg m | None \<Rightarrow> ret ())
                   | Inl e \<Rightarrow> ret ())
              (upd (\<lambda>s. s\<lparr>ge_request := add_tool_message result (tc_id c)
                 (add_message_with_tool_call RoleAssistant (ro_content (ge_round s)) [c] (ge_request s))\<rparr>)))))"

fun run_calls :: "('t, 'w) gen_env \<Rightarrow> tool_call list \<Rightarrow> ('t, 'w, unit) gen" where
  "run_calls E [] = ret ()"
| "run_calls E (c # cs) = seqp (run_call E c) (run_calls E cs)"

definition begin_round :: "('t, 'w) gen_env \<Rightarrow> ('t, 'w, unit) gen" where
  "begin_round E =
     bindp (asks ge_request) (\<lambda>req.
     bindp (gen_op (start_stream E req)) (\<lambda>r.
       seqp (lift_result r)
         (bindp (gen_op (now_nanos E)) (\<lambda>instant. set_round (\<lambda>_. round_new instant)))))"

fun run_generation :: "('t, 'w) gen_env \<Rightarrow> nat \<Rightarrow> ('t, 'w, unit) gen" where
  "run_generation E 0 = stuck"
| "run_generation E (Suc fuel) =
     seqp (begin_round E)
       (bindp (receive_loop E fuel) (\<lambda>c.
          if c = Return then ret ()
          else seqp (end_of_stream E)
            (bindp (asks (ro_calls \<circ> ge_round)) (\<lambda>calls.
               if calls = [] then
                 seqp (upd (\<lambda>s. s\<lparr>ag_conversation := Some (ge_request s)\<rparr>)) (send_msg AmDone)
               else seqp (run_calls E (map snd calls)) (run_generation E fuel)))))"

text \<open>The request for a message: the conversation is taken out of the agent.\<close>

definition first_request :: "string \<Rightarrow> ('t, 'w) gen_state \<Rightarrow> 't request_builder" where
  "first_request user_message s =
     (case ag_conversation s of
        Some b \<Rightarrow> add_message RoleUser user_message b
      | None \<Rightarrow> fresh_request (ag_tools s) RoleSystem (ag_system_prompt s) user_message)"

definition process_message :: "('t, 'w) gen_env \<Rightarrow> nat \<Rightarrow> string \<Rightarrow> ('t, 'w, unit) gen" where
  "process_message E fuel user_message =
     seqp (upd (\<lambda>s. s\<lparr>ge_cancel := False, ge_request := first_request user_message s, ag_conversation := None\<rparr>))
       (run_generation E fuel)"

end
