(* ===== verification/Generation_Logic.thy ===== *)
theory Generation_Logic
  imports Generation
begin

text \<open>
  What holds throughout a generation. A predicate on the request, the stored conversation and the messages sent
  that every progress message keeps (the locale \<open>gen_invariant\<close>) is kept by all the handlers of
  the receiving loop, unless a cancellation ends the function; then a second predicate holds. The triples also carry
  that the summarizer is well formed, whether the run is cancelled, and (\<open>z\<close>) that nothing is left in the
  summarizer's buffer.
\<close>

section \<open>Triples of the handlers\<close>

type_synonym 't gen_pred = "'t request_builder \<Rightarrow> 't request_builder option \<Rightarrow> agent_message list \<Rightarrow> bool"

definition going :: "'t gen_pred \<Rightarrow> bool \<Rightarrow> bool \<Rightarrow> ('t, 'w) gen_state \<Rightarrow> bool" where
  "going I z b s \<longleftrightarrow>
     I (ge_request s) (ag_conversation s) (ge_sent s) \<and> summarizer_ok (ge_summarizer s) \<and> ge_cancel s = b \<and>
     (z \<longrightarrow> su_token_count (ge_summarizer s) = 0)"

definition gone :: "'t gen_pred \<Rightarrow> ('t, 'w) gen_state \<Rightarrow> bool" where
  "gone F s \<longleftrightarrow> F (ge_request s) (ag_conversation s) (ge_sent s) \<and> ge_cancel s"

definition unit_ok :: "'t gen_pred \<Rightarrow> bool \<Rightarrow> ('t, 'w, 'a) gen \<Rightarrow> bool" where
  "unit_ok I z p \<longleftrightarrow> (\<forall>b. triple (going I z b) p (\<lambda>x. going I z b) (\<lambda>s. False) (\<lambda>s. True))"

definition flow_post :: "'t gen_pred \<Rightarrow> 't gen_pred \<Rightarrow> bool \<Rightarrow> flow \<Rightarrow> ('t, 'w) gen_state \<Rightarrow> bool" where
  "flow_post I F z c s \<longleftrightarrow> (if c = Return then gone F s else going I z False s)"

definition flow_ok :: "'t gen_pred \<Rightarrow> 't gen_pred \<Rightarrow> bool \<Rightarrow> ('t, 'w, flow) gen \<Rightarrow> bool" where
  "flow_ok I F z p \<longleftrightarrow> triple (going I z False) p (flow_post I F z) (\<lambda>s. False) (\<lambda>s. True)"

named_theorems gen_intros \<open>rules for the programs of the generation loop\<close>

lemma unit_okI: "(\<And>b. triple (going I z b) p (\<lambda>x. going I z b) (\<lambda>s. False) (\<lambda>s. True)) \<Longrightarrow> unit_ok I z p"
  by (simp add: unit_ok_def)

lemma unit_ok_here: "unit_ok I z p \<Longrightarrow> triple (going I z b) p (\<lambda>x. going I z b) (\<lambda>s. False) (\<lambda>s. True)"
  by (simp add: unit_ok_def)

lemma unit_ok_bind [gen_intros]: "unit_ok I z p \<Longrightarrow> (\<And>x. unit_ok I z (f x)) \<Longrightarrow> unit_ok I z (bindp p f)"
  unfolding unit_ok_def by (blast intro: triple_bindp)

lemma unit_ok_seq [gen_intros]: "unit_ok I z p \<Longrightarrow> unit_ok I z q \<Longrightarrow> unit_ok I z (seqp p q)"
  by (simp add: seqp_def unit_ok_bind)

lemma unit_ok_basic [gen_intros]: "unit_ok I z (ret x)" "unit_ok I z (asks g)" "unit_ok I z stuck"
  by (simp_all add: unit_ok_def triple_def)

lemma unit_ok_if [gen_intros]: "(b \<Longrightarrow> unit_ok I z p) \<Longrightarrow> (\<not> b \<Longrightarrow> unit_ok I z q) \<Longrightarrow> unit_ok I z (if b then p else q)"
  by simp

lemma unit_ok_option [gen_intros]:
  "unit_ok I z p \<Longrightarrow> (\<And>x. unit_ok I z (g x)) \<Longrightarrow> unit_ok I z (case r of None \<Rightarrow> p | Some x \<Rightarrow> g x)"
  by (cases r) simp_all

lemma unit_ok_frame:
  assumes "\<And>s. ge_request (f s) = ge_request s" "\<And>s. ag_conversation (f s) = ag_conversation s"
    "\<And>s. ge_sent (f s) = ge_sent s" "\<And>s. ge_summarizer (f s) = ge_summarizer s" "\<And>s. ge_cancel (f s) = ge_cancel s"
  shows "unit_ok I z (upd f)"
  using assms by (simp add: unit_ok_def triple_def going_def)

lemma unit_ok_set_round [gen_intros]: "unit_ok I z (set_round f)"
  unfolding set_round_def by (rule unit_ok_frame) simp_all

lemma unit_ok_gen_op [gen_intros]: "unit_ok I z (gen_op f)"
  by (auto simp: unit_ok_def gen_op_def triple_def going_def split: prod.splits)

lemma unit_ok_blocked [gen_intros]: "unit_ok I z (blocked b)"
  unfolding blocked_def by (intro gen_intros unit_ok_frame) simp_all

lemma unit_ok_jobs [gen_intros]: "unit_ok I z (jobs E)"
  unfolding jobs_def by (intro gen_intros)

lemma unit_ok_locked: "unit_ok I z p \<Longrightarrow> unit_ok I z (locked p)"
  unfolding locked_def by (intro gen_intros unit_ok_frame) simp_all

lemma unit_ok_add_chunk [gen_intros]: "unit_ok I False (add_chunk E c)"
  unfolding add_chunk_def
  by (intro gen_intros) (simp add: unit_ok_def triple_def going_def add_ok)

lemma get_new_props:
  "get_new_summaries es su = (new, su1) \<Longrightarrow> summarizer_ok su \<Longrightarrow>
     summarizer_ok su1 \<and> su_token_count su1 = su_token_count su"
  using drain_ok [of su es] by (auto simp: get_new_summaries_def Let_def summarizer_ok_def)

lemma unit_ok_new_summaries [gen_intros]: "unit_ok I z (new_summaries E)"
proof -
  have "triple (going I z b) (bindp (asks ge_summarizer) (\<lambda>su. case get_new_summaries es su of (new, su1) \<Rightarrow>
      seqp (upd (\<lambda>s. s\<lparr>ge_summarizer := su1\<rparr>)) (ret new))) (\<lambda>x. going I z b) (\<lambda>s. False) (\<lambda>s. True)" for b es
    by (rule tripleI) (auto simp: going_def split: prod.splits dest!: get_new_props)
  then show ?thesis unfolding new_summaries_def by (intro unit_ok_bind [OF unit_ok_jobs] unit_okI)
qed

text \<open>After a flush nothing is left in the buffer.\<close>

lemma triple_flush: "triple (going I z b) (flush E) (\<lambda>x. going I True b) (\<lambda>s. False) (\<lambda>s. True)"
proof -
  have "triple (going I z b) (bindp (asks ge_summarizer) (\<lambda>su. case flush_summaries es fs su of
      None \<Rightarrow> blocked JobHangs | Some su1 \<Rightarrow> upd (\<lambda>s. s\<lparr>ge_summarizer := su1\<rparr>)))
      (\<lambda>x. going I True b) (\<lambda>s. False) (\<lambda>s. True)" for es fs
    by (rule tripleI) (auto simp: going_def blocked_def split: option.splits dest!: flush_props)
  then show ?thesis
    unfolding flush_def by (intro triple_bindp [OF unit_ok_here [OF unit_ok_jobs]])
qed

lemma going_weaken: "going I z b s \<Longrightarrow> going I False b s"
  by (simp add: going_def)

lemma unit_ok_flush [gen_intros]: "unit_ok I False (flush E)"
  by (rule unit_okI, rule triple_post [OF triple_flush]) (rule going_weaken)

text \<open>Unit programs that start with a flush may rely on the empty buffer for the rest.\<close>

lemma unit_ok_after_flush:
  assumes "unit_ok I True q"
  shows "unit_ok I False (seqp (flush E) q)"
proof (rule unit_okI, unfold seqp_def, rule triple_bindp [OF triple_flush])
  fix b
  have "triple (going I True b) q (\<lambda>x. going I True b) (\<lambda>s. False) (\<lambda>s. True)"
    using assms by (simp add: unit_ok_def)
  then show "triple (going I True b) q (\<lambda>x. going I False b) (\<lambda>s. False) (\<lambda>s. True)"
    by (rule triple_post) (rule going_weaken)
qed

subsection \<open>Flow\<close>

lemma flow_ok_ret [gen_intros]: "c \<noteq> Return \<Longrightarrow> flow_ok I F z (ret c)"
  by (simp add: flow_ok_def triple_def flow_post_def)

lemma flow_ok_andf [gen_intros]:
  assumes "flow_ok I F z p" "flow_ok I F z q"
  shows "flow_ok I F z (andf p q)"
proof -
  have "triple (flow_post I F z c) (if c = Fall then q else ret c) (flow_post I F z) (\<lambda>s. False) (\<lambda>s. True)" for c
    using assms(2) by (cases "c = Fall") (auto simp: flow_ok_def triple_def flow_post_def)
  with assms(1) show ?thesis unfolding andf_def flow_ok_def by (rule triple_bindp)
qed

lemma flow_ok_bind [gen_intros]: "unit_ok I z p \<Longrightarrow> (\<And>x. flow_ok I F z (f x)) \<Longrightarrow> flow_ok I F z (bindp p f)"
  unfolding flow_ok_def by (rule triple_bindp, rule unit_ok_here)

lemma flow_ok_seq [gen_intros]: "unit_ok I z p \<Longrightarrow> flow_ok I F z q \<Longrightarrow> flow_ok I F z (seqp p q)"
  by (simp add: seqp_def flow_ok_bind)

lemma flow_ok_fall [gen_intros]: "unit_ok I z p \<Longrightarrow> flow_ok I F z (fall p)"
  unfolding fall_def by (intro gen_intros) simp_all

lemma flow_ok_if [gen_intros]:
  "(b \<Longrightarrow> flow_ok I F z p) \<Longrightarrow> (\<not> b \<Longrightarrow> flow_ok I F z q) \<Longrightarrow> flow_ok I F z (if b then p else q)"
  by simp

lemma flow_ok_option [gen_intros]:
  "flow_ok I F z p \<Longrightarrow> (\<And>x. flow_ok I F z (g x)) \<Longrightarrow> flow_ok I F z (case r of None \<Rightarrow> p | Some x \<Rightarrow> g x)"
  by (cases r) simp_all

lemma flow_ok_list [gen_intros]:
  "flow_ok I F z p \<Longrightarrow> (\<And>x xs. flow_ok I F z (g x xs)) \<Longrightarrow> flow_ok I F z (case r of [] \<Rightarrow> p | x # xs \<Rightarrow> g x xs)"
  by (cases r) simp_all

lemma flow_post_lock: "flow_post I F z c (s\<lparr>ge_locked := b\<rparr>) = flow_post I F z c s"
  by (simp add: flow_post_def gone_def going_def)

lemma flow_ok_locked [gen_intros]:
  assumes "flow_ok I F z p"
  shows "flow_ok I F z (locked p)"
proof -
  have u: "triple (flow_post I F z c) (seqp (upd (\<lambda>s. s\<lparr>ge_locked := False\<rparr>)) (ret c)) (flow_post I F z)
      (\<lambda>s. False) (\<lambda>s. True)" for c
    by (auto simp: triple_def flow_post_lock)
  have "flow_ok I F z (bindp p (\<lambda>c. seqp (upd (\<lambda>s. s\<lparr>ge_locked := False\<rparr>)) (ret c)))"
    unfolding flow_ok_def by (rule triple_bindp [OF assms [unfolded flow_ok_def] u])
  moreover have "flow_ok I F z (blocked Deadlock)"
    by (auto simp: blocked_def flow_ok_def triple_def)
  moreover have "unit_ok I z (upd (\<lambda>s. s\<lparr>ge_locked := True\<rparr>))" by (rule unit_ok_frame) simp_all
  ultimately show ?thesis
    unfolding locked_def by (intro flow_ok_bind [OF unit_ok_basic(2)] flow_ok_if flow_ok_seq)
qed

text \<open>A block that starts with a flush.\<close>

lemma flow_ok_after_flush:
  assumes "flow_ok I F True q"
  shows "flow_ok I F False (seqp (flush E) q)"
proof (unfold flow_ok_def seqp_def, rule triple_bindp [OF triple_flush])
  show "triple (going I True False) q (flow_post I F False) (\<lambda>s. False) (\<lambda>s. True)"
    using assms unfolding flow_ok_def by (rule triple_post) (auto simp: flow_post_def intro: going_weaken split: if_splits)
qed

section \<open>Invariants of a generation\<close>

text \<open>The messages of the receiving loop that report progress. \<open>ThinkingComplete\<close> is not among them.\<close>

definition progress_message :: "agent_message \<Rightarrow> bool" where
  "progress_message m =
     (case m of
        AmAgentResponse t n \<Rightarrow> True | AmThinkingContent t n \<Rightarrow> True | AmThinkingSummary t \<Rightarrow> True
      | AmToolCallStarted n a \<Rightarrow> True | AmError e \<Rightarrow> True | AmGenerationStats st \<Rightarrow> True | _ \<Rightarrow> False)"

lemma progress_message_simps [simp]:
  "progress_message (AmAgentResponse t n)" "progress_message (AmThinkingContent t n)"
  "progress_message (AmThinkingSummary t)" "progress_message (AmToolCallStarted t a)"
  "progress_message (AmError t)" "progress_message (AmGenerationStats st)"
  "\<not> progress_message AmDone" "\<not> progress_message (AmThinkingComplete n)"
  by (simp_all add: progress_message_def)

text \<open>What a cancellation leaves in the conversation.\<close>

definition cancelled_request :: "'t request_builder \<Rightarrow> 't request_builder \<Rightarrow> bool" where
  "cancelled_request q q' \<longleftrightarrow> q' = q \<or> (\<exists>t. t \<noteq> [] \<and> q' = add_message RoleAssistant t q)"

locale gen_invariant =
  fixes I F :: "'t gen_pred"
  assumes sent: "I q c tr \<Longrightarrow> progress_message m \<Longrightarrow> I q c (tr @ [m])"
    and finish: "I q c tr \<Longrightarrow> cancelled_request q q' \<Longrightarrow> F q (Some q') (tr @ [AmDone])"
begin

lemma send_ok [gen_intros]: "progress_message m \<Longrightarrow> unit_ok I z (send_msg m)"
  by (simp add: unit_ok_def triple_def send_msg_def going_def sent)

lemma announce_unit [gen_intros]: "unit_ok I z (announce (ret Fall) xs)"
proof (induction xs)
  case (Cons x xs)
  show ?case unfolding announce.simps andf_def by (intro gen_intros progress_message_simps Cons.IH)
qed (simp only: announce.simps gen_intros)

lemma announce_ok [gen_intros]: "flow_ok I F z check \<Longrightarrow> flow_ok I F z (announce check xs)"
  by (induction xs) (auto intro!: gen_intros)

lemma announce_new_ok [gen_intros]: "flow_ok I F z check \<Longrightarrow> flow_ok I F z (announce_new E check)"
  unfolding announce_new_def by (intro gen_intros)

lemma announce_new_unit [gen_intros]: "unit_ok I z (announce_new E (ret Fall))"
  unfolding announce_new_def by (intro gen_intros)

lemma residual_unit: "unit_ok I True send_residual"
  by (auto simp: unit_ok_def triple_def send_residual_def fall_def going_def get_residual_token_count_def)

lemma residual_ok: "flow_ok I F True send_residual"
  by (auto simp: flow_ok_def triple_def send_residual_def fall_def going_def get_residual_token_count_def flow_post_def)

lemma wind_up_ok: "triple (going I False True) (wind_up E) (\<lambda>x. gone F) (\<lambda>s. False) (\<lambda>s. True)"
proof -
  have last: "triple (going I False True) (seqp (upd save_cancelled) (send_msg AmDone)) (\<lambda>x. gone F) (\<lambda>s. False) (\<lambda>s. True)"
    by (auto simp: triple_def send_msg_def gone_def save_cancelled_def going_def cancelled_request_def intro!: finish)
  show ?thesis
    unfolding wind_up_def
    by (rule triple_bindp, rule unit_ok_here, (intro gen_intros; fail),
        rule triple_seqp, rule unit_ok_here, (intro gen_intros unit_ok_locked; fail),
        rule triple_seqp, rule unit_ok_here, (intro gen_intros progress_message_simps; fail),
        rule triple_bindp, rule unit_ok_here, (intro gen_intros; fail),
        rule triple_bindp, rule unit_ok_here, (intro gen_intros; fail),
        rule triple_seqp, rule unit_ok_here, (intro gen_intros progress_message_simps; fail), rule last)
qed

lemma check_cancel_ok [gen_intros]: "flow_ok I F z (check_cancel E)"
proof -
  have "meets (flow_post I F z) (\<lambda>s. False) (\<lambda>s. True) r t"
    if s: "going I z False s" and r: "check_cancel E s = (r, t)" for s r t
  proof -
    obtain b w where b: "cancel_arrived E (ge_world s) = (b, w)" by fastforce
    let ?s = "s\<lparr>ge_world := w, ge_cancel := ge_cancel s \<or> b\<rparr>"
    show ?thesis
    proof (cases b)
      case True
      then have "going I False True ?s" using s by (simp add: going_def)
      moreover obtain q u where q: "wind_up E ?s = (q, u)" by fastforce
      ultimately have "meets (\<lambda>x. gone F) (\<lambda>s. False) (\<lambda>s. True) q u" using wind_up_ok [of E] by (blast intro: tripleD)
      then show ?thesis
        using r b True s q by (cases q) (auto simp: check_cancel_def gen_op_def bindp_def seqp_def upd_def asks_def ret_def flow_post_def going_def)
    next
      case False
      then show ?thesis
        using r b s by (auto simp: check_cancel_def gen_op_def bindp_def seqp_def upd_def asks_def ret_def flow_post_def going_def)
    qed
  qed
  then show ?thesis unfolding flow_ok_def by (blast intro: tripleI)
qed

lemma send_thinking_ok [gen_intros]: "unit_ok I z (send_thinking E t)"
  unfolding send_thinking_def count_tokens_def note_first_token_def Let_def
  by (intro gen_intros progress_message_simps)

lemma after_thinking_ok [gen_intros]: "unit_ok I z (after_thinking E t)"
  unfolding after_thinking_def count_tokens_def note_first_token_def Let_def
  by (intro gen_intros progress_message_simps)

lemma close_thinking_ok [gen_intros]: "flow_ok I F False (close_thinking E t u)"
proof -
  have f: "flow_ok I F False (seqp (flush E) (andf (announce_new E (check_cancel E)) (andf send_residual
      (fall (seqp (after_thinking E u) (set_round (\<lambda>r. r\<lparr>ro_thinking := []\<rparr>)))))))"
    by (rule flow_ok_after_flush) (intro gen_intros residual_ok)
  show ?thesis
    unfolding close_thinking_def
    by (rule flow_ok_seq, (intro gen_intros; fail), rule flow_ok_andf [OF _ flow_ok_locked [OF f]], intro gen_intros) simp_all
qed

lemma send_pieces_ok [gen_intros]: "flow_ok I F z (send_pieces E cs)"
proof (induction E cs rule: send_pieces.induct)
  case (1 E cs)
  then show ?case by (subst send_pieces.simps) (intro gen_intros; simp)
qed

lemma stream_thinking_ok [gen_intros]: "flow_ok I F False (stream_thinking E)"
  unfolding stream_thinking_def Let_def by (intro gen_intros) simp_all

lemma handle_content_ok [gen_intros]: "flow_ok I F False (handle_content E t)"
proof -
  have a: "flow_ok I F False (handle_answer E u)" for u
    unfolding handle_answer_def count_tokens_def note_first_token_def Let_def
    by (intro gen_intros progress_message_simps) simp_all
  have h: "flow_ok I F False (handle_thinking E u)" for u
    unfolding handle_thinking_def by (intro gen_intros) simp_all
  have t: "flow_ok I F False (handle_text E b u)" for b u
    unfolding handle_text_def by (intro gen_intros a h)
  show ?thesis
    unfolding handle_content_def Let_def
    by (intro gen_intros t) (auto split: thinking_start_decision.splits intro!: gen_intros t)
qed

lemma settle_ok [gen_intros]: "unit_ok I False (settle_thinking E t)"
proof -
  have "unit_ok I False (seqp (flush E) (andf (announce_new E (ret Fall)) send_residual))"
    unfolding andf_def by (rule unit_ok_after_flush) (intro gen_intros residual_unit)
  then show ?thesis
    unfolding settle_thinking_def
    by (intro unit_ok_seq [OF unit_ok_locked] unit_ok_seq [OF unit_ok_add_chunk] unit_ok_basic)
qed

lemma note_calls_ok [gen_intros]: "unit_ok I z (note_calls cs)"
proof (induction cs)
  case (Cons c cs)
  show ?case
    unfolding note_calls.simps insert_call_def call_started_def by (intro gen_intros progress_message_simps Cons.IH)
qed (simp only: note_calls.simps gen_intros)

lemma take_final_calls_ok [gen_intros]: "unit_ok I z (take_final_calls cs)"
proof (induction cs)
  case (Cons c cs)
  show ?case
    unfolding take_final_calls.simps insert_call_def call_started_def by (intro gen_intros progress_message_simps Cons.IH)
qed (simp only: take_final_calls.simps gen_intros)

lemma handle_response_ok [gen_intros]: "flow_ok I F False (handle_response E resp)"
proof (cases resp)
  case (ResponseChunk ch)
  have "flow_ok I F False (handle_calls E cs)" for cs
    unfolding handle_calls_def by (intro gen_intros)
  then show ?thesis
    unfolding ResponseChunk handle_response_def handle_chunk_def send_stats_if_no_calls_def llm_response.case
    by (intro gen_intros progress_message_simps) simp_all
next
  case (ResponseDone d)
  then show ?thesis
    unfolding ResponseDone handle_response_def handle_done_def send_stats_if_no_calls_def llm_response.case
    by (intro gen_intros progress_message_simps) simp_all
qed (auto simp: handle_response_def intro!: gen_intros)

lemma receive_step_ok [gen_intros]: "flow_ok I F False (receive_step E)"
proof -
  have "flow_ok I F False (case i of StreamEnd \<Rightarrow> ret Break | TenMillis \<Rightarrow> andf (check_cancel E) (ret Continue)
      | StreamItem resp \<Rightarrow> handle_response E resp)" for i
    by (cases i) (auto intro!: gen_intros)
  then show ?thesis unfolding receive_step_def by (intro gen_intros)
qed

lemma receive_loop_ok: "flow_ok I F False (receive_loop E fuel)"
proof (induction fuel)
  case (Suc fuel)
  have "triple (flow_post I F False c) (if c = Return then ret Return else if c = Break then ret Fall else receive_loop E fuel)
      (flow_post I F False) (\<lambda>s. False) (\<lambda>s. True)" for c
    using Suc by (cases c) (auto simp: flow_ok_def triple_def flow_post_def)
  then show ?case
    using receive_step_ok unfolding receive_loop.simps flow_ok_def by (blast intro: triple_bindp)
qed (simp add: flow_ok_def triple_def)

lemma end_of_stream_ok: "unit_ok I False (end_of_stream E)"
  unfolding end_of_stream_def by (intro gen_intros progress_message_simps)

end

end
