(* ===== verification/Generation_Sample.thy ===== *)
theory Generation_Sample
  imports Generation
begin

text \<open>
  A concrete environment and agent for the examples of the generation loop. The world holds the rest of the
  stream, the streams to come and the number of polls until the user cancels; a patient user never does.
\<close>

type_synonym sample_world = "stream_item list \<times> stream_item list list \<times> nat"

definition scripted_env :: "bool \<Rightarrow> (sample_world \<Rightarrow> (string + unit) \<times> sample_world) \<Rightarrow> (unit, sample_world) gen_env" where
  "scripted_env patient start =
     \<lparr>start_stream = (\<lambda>req. start),
      next_item = (\<lambda>(is, rest, n). case is of [] \<Rightarrow> (StreamEnd, [], rest, n) | i # is \<Rightarrow> (i, is, rest, n)),
      cancel_arrived = (\<lambda>(is, rest, n). (\<not> patient \<and> n = 1, is, rest, n - 1)),
      now_nanos = (\<lambda>w. (0, w)),
      jobs_ended = (\<lambda>js w. (replicate (Suc (length js)) (0, Some ''sum''), w)),
      latest_prompt_tokens = (\<lambda>w. (None, w)),
      run_tool = (\<lambda>c w. ((Inr ''ok'', []), w)),
      parse_yaml = (\<lambda>t. None), print_yaml = (\<lambda>j. None),
      secs_f32 = (\<lambda>n. 0), positive_f32 = (\<lambda>x. False), per_sec_f32 = (\<lambda>n x. 0)\<rparr>"

text \<open>The same stream for every request, and one stream after the other.\<close>

definition same_stream :: "stream_item list \<Rightarrow> sample_world \<Rightarrow> (string + unit) \<times> sample_world" where
  "same_stream is w = (Inr (), is, snd w)"

fun next_stream :: "sample_world \<Rightarrow> (string + unit) \<times> sample_world" where
  "next_stream (is, [], n) = (Inl ''down'', is, [], n)"
| "next_stream (is, js # rest, n) = (Inr (), js, rest, n)"

definition sample_chunk :: "string option \<Rightarrow> tool_call list option \<Rightarrow> stream_item" where
  "sample_chunk content calls =
     StreamItem (ResponseChunk \<lparr>ch_id = ''1'',
       ch_choices = [\<lparr>cc_finish_reason = None, cc_index = 0,
         cc_delta = \<lparr>de_content = content, de_role = ''assistant'', de_tool_calls = calls, de_reasoning_content = None\<rparr>\<rparr>],
       ch_created = 0, ch_model = ''m'', ch_system_fingerprint = ''local'', ch_object = ''chunk'', ch_usage = None\<rparr>)"

definition listing_call :: tool_call where
  "listing_call = \<lparr>tc_index = 0, tc_id = ''c1'', tc_name = ''ls'', tc_arguments = ''{}''\<rparr>"

definition sample_round :: round where "sample_round = round_new 0"

definition sample_agent :: "nat \<Rightarrow> sample_world \<Rightarrow> (unit, sample_world) gen_state" where
  "sample_agent threshold w =
     \<lparr>ag_system_prompt = ''be kind'', ag_tools = [], ag_conversation = None, ag_safety_config = safety_config_default,
      ag_model_name = ''m'', ag_pending_policy = None, ge_world = w, ge_cancel = False, ge_tags = default_thinking_tags,
      ge_summarizer = with_threshold threshold, ge_locked = False, ge_block = NotBlocked, ge_sent = [],
      ge_request = chat_request_new, ge_round = sample_round\<rparr>"

text \<open>A tool is called and its result sent back; the text of the second stream is the answer.\<close>

definition tool_session :: sample_world where
  "tool_session = ([], [[sample_chunk None (Some [listing_call])], [TenMillis, sample_chunk (Some ''done'') None]], 0)"

text \<open>Reasoning in two pieces, and the user cancels when the first summary is shown.\<close>

definition cancel_session :: "nat \<Rightarrow> sample_world" where
  "cancel_session n = ([], [[sample_chunk (Some ''<think>one two three four'') None]], n)"

definition tool_run :: "unit outcome \<times> (unit, sample_world) gen_state" where
  "tool_run = process_message (scripted_env False next_stream) 9 ''hi'' (sample_agent 200 tool_session)"

definition cancelled_run :: "nat \<Rightarrow> unit outcome \<times> (unit, sample_world) gen_state" where
  "cancelled_run n = process_message (scripted_env False next_stream) 9 ''hi'' (sample_agent 1 (cancel_session n))"

lemma sample_ready:
  "summarizer_ok (ge_summarizer (sample_agent k w))" "\<not> ge_locked (sample_agent k w)"
  "ge_tags (sample_agent k w) = default_thinking_tags" "ge_sent (sample_agent k w) = []" "ge_world (sample_agent k w) = w"
  by (simp_all add: sample_agent_def with_threshold_ok)

lemma tool_run_returns: "fst tool_run = Ret ()" "\<not> ge_cancel (snd tool_run)"
  by code_simp+

lemma cancelled_run_stuck: "fst (cancelled_run 3) = Stuck"
  by code_simp

lemmas sample_defs =
  scripted_env_def sample_chunk_def listing_call_def sample_round_def sample_agent_def tool_session_def cancel_session_def
  same_stream_def

end
