(* ===== verification/Generation_Props.thy ===== *)
theory Generation_Props
  imports Generation_Logic Generation_Sample
begin

text \<open>
  What a message to the agent leaves behind: in the conversation and in the messages that were sent. The
  interpretations of \<open>gen_invariant\<close> cover the receiving loop; the run is an induction over its rounds.
\<close>

section \<open>The conversation\<close>

text \<open>A call of a tool as it enters the conversation: the text of the round, the call, its result.\<close>

type_synonym exchange = "string \<times> tool_call \<times> string"

definition add_exchange :: "exchange \<Rightarrow> 't request_builder \<Rightarrow> 't request_builder" where
  "add_exchange x q =
     (case x of (t, c, result) \<Rightarrow> add_tool_message result (tc_id c) (add_message_with_tool_call RoleAssistant t [c] q))"

definition exchange_turns :: "exchange \<Rightarrow> turn list" where
  "exchange_turns x = (case x of (t, c, result) \<Rightarrow> [TurnCalled RoleAssistant t [c], TurnResult result (tc_id c)])"

lemma exchange_messages:
  "rb_messages (fold add_exchange xs q) = rb_messages q @ map message_of (concat (map exchange_turns xs))"
  by (induction xs arbitrary: q)
    (auto simp: add_exchange_def exchange_turns_def add_tool_message_def add_message_with_tool_call_def push_message_def
      split: prod.splits)

section \<open>The messages\<close>

definition quiet_message :: "agent_message \<Rightarrow> bool" where
  "quiet_message m = (case m of AmDone \<Rightarrow> False | AmThinkingComplete n \<Rightarrow> False | _ \<Rightarrow> True)"

definition grown :: "bool \<Rightarrow> agent_message list \<Rightarrow> agent_message list \<Rightarrow> bool" where
  "grown b tr0 tr \<longleftrightarrow> (\<exists>ms. tr = tr0 @ ms \<and> (b \<longrightarrow> list_all quiet_message ms))"

definition quiet_tools :: "('t, 'w) gen_env \<Rightarrow> bool" where
  "quiet_tools E \<longleftrightarrow> (\<forall>c w. list_all quiet_message (snd (fst (run_tool E c w))))"

lemma grown_refl [simp]: "grown b tr tr"
  by (simp add: grown_def)

lemma grown_append: "grown b tr0 tr \<Longrightarrow> (b \<longrightarrow> list_all quiet_message ms) \<Longrightarrow> grown b tr0 (tr @ ms)"
  by (auto simp: grown_def)

lemma progress_quiet: "progress_message m \<Longrightarrow> quiet_message m"
  by (cases m) (simp_all add: progress_message_def quiet_message_def)

definition open_pred :: "'t request_builder \<Rightarrow> bool \<Rightarrow> agent_message list \<Rightarrow> 't gen_pred" where
  "open_pred q0 b tr0 q c tr \<longleftrightarrow> q = q0 \<and> c = None \<and> grown b tr0 tr"

definition closed_pred :: "'t request_builder \<Rightarrow> bool \<Rightarrow> agent_message list \<Rightarrow> 't gen_pred" where
  "closed_pred q0 b tr0 q c tr \<longleftrightarrow>
     (\<exists>q' tr'. c = Some q' \<and> cancelled_request q0 q' \<and> tr = tr' @ [AmDone] \<and> grown b tr0 tr')"

interpretation history: gen_invariant "open_pred q0 b tr0" "closed_pred q0 b tr0" for q0 b tr0
  by unfold_locales (auto simp: open_pred_def closed_pred_def progress_quiet intro: grown_append)

section \<open>A run\<close>

definition run_open :: "'t request_builder \<Rightarrow> bool \<Rightarrow> agent_message list \<Rightarrow> ('t, 'w) gen_state \<Rightarrow> bool" where
  "run_open q0 b tr0 s \<longleftrightarrow>
     (\<exists>xs. ge_request s = fold add_exchange xs q0) \<and> ag_conversation s = None \<and> grown b tr0 (ge_sent s) \<and>
     summarizer_ok (ge_summarizer s) \<and> \<not> ge_cancel s"

definition run_closed :: "'t request_builder \<Rightarrow> bool \<Rightarrow> agent_message list \<Rightarrow> ('t, 'w) gen_state \<Rightarrow> bool" where
  "run_closed q0 b tr0 s \<longleftrightarrow>
     (\<exists>xs q'. ag_conversation s = Some q' \<and>
        (if ge_cancel s then cancelled_request (fold add_exchange xs q0) q' else q' = fold add_exchange xs q0)) \<and>
     (\<exists>tr'. ge_sent s = tr' @ [AmDone] \<and> grown b tr0 tr')"

definition run_failed :: "bool \<Rightarrow> agent_message list \<Rightarrow> ('t, 'w) gen_state \<Rightarrow> bool" where
  "run_failed b tr0 s \<longleftrightarrow> ag_conversation s = None \<and> grown b tr0 (ge_sent s)"

lemma going_open: "going (open_pred q b tr0) False False s \<longleftrightarrow>
    ge_request s = q \<and> ag_conversation s = None \<and> grown b tr0 (ge_sent s) \<and> summarizer_ok (ge_summarizer s) \<and> \<not> ge_cancel s"
  by (auto simp: going_def open_pred_def)

lemma run_open_going: "run_open q0 b tr0 s \<longleftrightarrow> (\<exists>xs. going (open_pred (fold add_exchange xs q0) b tr0) False False s)"
  by (auto simp: run_open_def going_open)

lemma gone_closed: "gone (closed_pred (fold add_exchange xs q0) b tr0) s \<Longrightarrow> run_closed q0 b tr0 s"
  by (auto simp: gone_def closed_pred_def run_closed_def)

lemma run_call_ok:
  assumes "b \<longrightarrow> quiet_tools E"
  shows "triple (run_open q0 b tr0) (run_call E c) (\<lambda>x. run_open q0 b tr0) (run_failed b tr0) (\<lambda>s. True)"
proof (rule tripleI)
  fix s r t assume s: "run_open q0 b tr0 s" and r: "run_call E c s = (r, t)"
  obtain outcome ms w where o: "run_tool E c (ge_world s) = ((outcome, ms), w)" by (metis surj_pair)
  then have ms: "b \<longrightarrow> list_all quiet_message ms" using assms by (auto simp: quiet_tools_def dest!: spec [of _ c] spec [of _ "ge_world s"])
  let ?result = "case outcome of Inr t \<Rightarrow> t | Inl e \<Rightarrow> failure_text E (tc_name c) e"
  let ?bg = "case outcome of Inr t \<Rightarrow> (case background_message E c t of Some m \<Rightarrow> [m] | None \<Rightarrow> []) | Inl e \<Rightarrow> []"
  let ?new = "ms @ AmToolCallCompleted (tc_name c) ?result # ?bg"
  have bg: "list_all quiet_message ?bg"
    by (auto simp: background_message_def quiet_message_def split: sum.splits option.splits if_splits)
  have t: "r = Ret ()" "ge_sent t = ge_sent s @ ?new" "ag_conversation t = ag_conversation s"
    "ge_request t = add_exchange (ro_content (ge_round s), c, ?result) (ge_request s)"
    "ge_summarizer t = ge_summarizer s" "ge_cancel t = ge_cancel s"
    using r o by (auto simp: run_call_def gen_op_def bindp_def seqp_def upd_def send_msg_def ret_def add_exchange_def Let_def
        split: sum.splits option.splits)
  obtain xs where "ge_request s = fold add_exchange xs q0" using s by (auto simp: run_open_def)
  then have "ge_request t = fold add_exchange (xs @ [(ro_content (ge_round s), c, ?result)]) q0" by (simp add: t)
  then have "\<exists>ys. ge_request t = fold add_exchange ys q0" by blast
  moreover have "grown b tr0 (ge_sent s @ ?new)"
    using s ms bg by (intro grown_append) (auto simp: run_open_def quiet_message_def)
  ultimately show "meets (\<lambda>x. run_open q0 b tr0) (run_failed b tr0) (\<lambda>s. True) r t"
    using s unfolding t(1) meets.simps run_open_def t(2,3,5,6) by simp
qed

lemma run_calls_ok:
  assumes "b \<longrightarrow> quiet_tools E"
  shows "triple (run_open q0 b tr0) (run_calls E cs) (\<lambda>x. run_open q0 b tr0) (run_failed b tr0) (\<lambda>s. True)"
proof (induction cs)
  case (Cons c cs)
  show ?case unfolding run_calls.simps by (rule triple_seqp [OF run_call_ok [OF assms] Cons])
qed (simp add: triple_def)

lemma run_step:
  assumes "\<And>xs. triple (going (open_pred (fold add_exchange xs q0) b tr0) False False) p (\<lambda>x. Q x) X Z"
  shows "triple (run_open q0 b tr0) p (\<lambda>x. Q x) X Z"
  using assms by (auto simp: triple_def run_open_going)

lemma begin_round_ok: "triple (run_open q0 b tr0) (begin_round E) (\<lambda>x. run_open q0 b tr0) (run_failed b tr0) (\<lambda>s. True)"
  by (rule tripleI)
    (auto simp: begin_round_def gen_op_def bindp_def seqp_def asks_def lift_result_def set_round_def upd_def ret_def throw_def
      run_open_def run_failed_def split: prod.splits sum.splits, blast)

lemma end_of_stream_run:
  "triple (run_open q0 b tr0) (end_of_stream E) (\<lambda>x. run_open q0 b tr0) (run_failed b tr0) (\<lambda>s. True)"
proof (rule run_step)
  fix xs
  have "triple (going (open_pred (fold add_exchange xs q0) b tr0) False False) (end_of_stream E)
      (\<lambda>x. going (open_pred (fold add_exchange xs q0) b tr0) False False) (\<lambda>s. False) (\<lambda>s. True)"
    by (rule unit_ok_here [OF history.end_of_stream_ok])
  then show "triple (going (open_pred (fold add_exchange xs q0) b tr0) False False) (end_of_stream E)
      (\<lambda>x. run_open q0 b tr0) (run_failed b tr0) (\<lambda>s. True)"
    by (rule triple_conseq) (auto simp: run_open_going)
qed

definition loop_post :: "'t request_builder \<Rightarrow> bool \<Rightarrow> agent_message list \<Rightarrow> flow \<Rightarrow> ('t, 'w) gen_state \<Rightarrow> bool" where
  "loop_post q0 b tr0 c s \<longleftrightarrow> (if c = Return then run_closed q0 b tr0 s else run_open q0 b tr0 s)"

lemma receive_loop_run:
  "triple (run_open q0 b tr0) (receive_loop E fuel) (loop_post q0 b tr0) (run_failed b tr0) (\<lambda>s. True)"
proof (rule run_step)
  fix xs
  show "triple (going (open_pred (fold add_exchange xs q0) b tr0) False False) (receive_loop E fuel)
      (loop_post q0 b tr0) (run_failed b tr0) (\<lambda>s. True)"
    using history.receive_loop_ok [of "fold add_exchange xs q0" b tr0 E fuel] unfolding flow_ok_def
    by (rule triple_conseq) (auto simp: flow_post_def loop_post_def run_open_going intro: gone_closed split: if_splits)
qed

lemma run_generation_ok:
  assumes "b \<longrightarrow> quiet_tools E"
  shows "triple (run_open q0 b tr0) (run_generation E fuel) (\<lambda>x. run_closed q0 b tr0) (run_failed b tr0) (\<lambda>s. True)"
proof (induction fuel)
  case (Suc fuel)
  have store: "triple (run_open q0 b tr0) (seqp (upd (\<lambda>s. s\<lparr>ag_conversation := Some (ge_request s)\<rparr>)) (send_msg AmDone))
      (\<lambda>x. run_closed q0 b tr0) (run_failed b tr0) (\<lambda>s. True)"
    by (auto simp: triple_def run_open_def run_closed_def send_msg_def)
  have tail: "triple (run_open q0 b tr0) (bindp (asks (ro_calls \<circ> ge_round)) (\<lambda>calls.
      if calls = [] then seqp (upd (\<lambda>s. s\<lparr>ag_conversation := Some (ge_request s)\<rparr>)) (send_msg AmDone)
      else seqp (run_calls E (map snd calls)) (run_generation E fuel)))
      (\<lambda>x. run_closed q0 b tr0) (run_failed b tr0) (\<lambda>s. True)"
    using store triple_seqp [OF run_calls_ok [OF assms] Suc]
    by (intro triple_asks) (auto intro: triple_at)
  have "triple (loop_post q0 b tr0 c) (if c = Return then ret ()
      else seqp (end_of_stream E) (bindp (asks (ro_calls \<circ> ge_round)) (\<lambda>calls.
        if calls = [] then seqp (upd (\<lambda>s. s\<lparr>ag_conversation := Some (ge_request s)\<rparr>)) (send_msg AmDone)
        else seqp (run_calls E (map snd calls)) (run_generation E fuel))))
      (\<lambda>x. run_closed q0 b tr0) (run_failed b tr0) (\<lambda>s. True)" for c
    using triple_seqp [OF end_of_stream_run tail] by (auto simp: loop_post_def triple_def)
  with receive_loop_run show ?case
    unfolding run_generation.simps by (intro triple_seqp [OF begin_round_ok] triple_bindp)
qed (auto simp: triple_def)

lemma process_message_ok:
  assumes "b \<longrightarrow> quiet_tools E" "summarizer_ok (ge_summarizer s)" "process_message E fuel m s = (r, t)"
  shows "meets (\<lambda>x. run_closed (first_request m s) b (ge_sent s)) (run_failed b (ge_sent s)) (\<lambda>s. True) r t"
proof -
  let ?s = "s\<lparr>ge_cancel := False, ge_request := first_request m s, ag_conversation := None\<rparr>"
  have "run_open (first_request m s) b (ge_sent s) ?s"
    using assms(2) by (auto simp: run_open_def intro: exI [of _ "[]"])
  then show ?thesis
    using tripleD [OF run_generation_ok [OF assms(1)]] assms(3) by (simp add: process_message_def)
qed


text \<open>C24: every message ends with exactly one \<open>Done\<close>, after everything else it sends, unless it fails, and then
  there is none. The completion of the reasoning is never announced: nothing is left of it after a flush.\<close>

theorem done_is_sent_once:
  assumes "summarizer_ok (ge_summarizer s)" "quiet_tools E" "process_message E fuel m s = (r, t)"
  shows "(r = Ret () \<longrightarrow> (\<exists>ms. ge_sent t = ge_sent s @ ms @ [AmDone] \<and> list_all quiet_message ms)) \<and>
     (\<forall>e. r = Throw e \<longrightarrow> (\<exists>ms. ge_sent t = ge_sent s @ ms \<and> list_all quiet_message ms))"
  using process_message_ok [of True E s fuel m r t] assms
  by (cases r) (auto simp: run_closed_def run_failed_def grown_def)


theorem done_is_sent_once_witness:
  "\<exists>ms. ge_sent (snd tool_run) = ms @ [AmDone] \<and> list_all quiet_message ms"
proof -
  have "process_message (scripted_env False next_stream) 9 ''hi'' (sample_agent 200 tool_session) = (Ret (), snd tool_run)"
    using tool_run_returns(1) by (metis prod.collapse tool_run_def)
  moreover have "quiet_tools (scripted_env False next_stream)" by (simp add: quiet_tools_def scripted_env_def)
  ultimately show ?thesis
    using done_is_sent_once [OF sample_ready(1)] by (simp add: sample_ready)
qed

end
