(* ===== verification/Thinking_Split.thy ===== *)
theory Thinking_Split
  imports Thinking
begin

text \<open>
  How the text of an answer is split into reasoning and answer, without the effects: \<open>split_thinking\<close> says what a
  text means as a whole, \<open>content_view\<close> what a chunk of it does to the buffers of a round. \<open>chunked_split\<close> shows that
  the chunks of a text have the effect of the whole, as long as the closing tag is not longer than the bytes held back.
\<close>

section \<open>The meaning of a text\<close>

definition split_thinking :: "thinking_tags \<Rightarrow> string \<Rightarrow> string \<times> string" where
  "split_thinking tags t =
     (case analyze_thinking_start t (open_tag tags) of
        Detected i \<Rightarrow>
          (let body = drop i t
           in case str_find (close_tag tags) body of
                None \<Rightarrow> (body, [])
              | Some j \<Rightarrow>
                  (take j body,
                   let rest = drop (j + length (close_tag tags)) body in if has_visible_text rest then rest else []))
      | _ \<Rightarrow> ([], t))"

section \<open>White space\<close>

lemma first_point:
  assumes "utf8_ok s" "code_point c" "starts_with c s"
  shows "hd (utf8_chars s) = c"
proof -
  obtain b bs where c: "c = b # bs" "list_all is_continuation bs" "length bs = trailing_bytes b"
    using assms(2) by (cases c) (auto simp: code_point_def)
  obtain t where s: "s = b # bs @ t" using assms(3) by (auto simp: c starts_with_iff)
  have "code_point (b # takeWhile is_continuation (bs @ t))" using assms(1) by (simp add: s utf8_ok_def)
  then have "length (takeWhile is_continuation (bs @ t)) = length bs" by (simp add: code_point_def c)
  moreover have "takeWhile is_continuation (bs @ t) = bs @ takeWhile is_continuation t"
    using c(2) by (induction bs) simp_all
  ultimately show ?thesis by (simp add: s c)
qed

lemma trim_start_dropWhile:
  "utf8_ok s \<Longrightarrow> \<exists>ws. s = ws @ trim_start s \<and> trim_start s = concat (dropWhile is_white (utf8_chars s))"
proof (induction s rule: length_induct)
  case (1 s)
  show ?case
  proof (cases "find (\<lambda>c. c \<noteq> [] \<and> starts_with c s) ws_codes")
    case None
    have "\<not> is_white (hd (utf8_chars s))" if "s \<noteq> []"
    proof
      assume "is_white (hd (utf8_chars s))"
      moreover have "s = hd (utf8_chars s) @ concat (tl (utf8_chars s))"
        using that by (metis concat.simps(2) concat_utf8_chars list.collapse utf8_chars_not_Nil)
      then have "starts_with (hd (utf8_chars s)) s" by (metis starts_with_append)
      moreover have "hd (utf8_chars s) \<noteq> []" using that by (cases s) simp_all
      ultimately show False using None by (auto simp: find_None_iff is_white_def)
    qed
    then have "dropWhile is_white (utf8_chars s) = utf8_chars s" by (cases s) simp_all
    moreover have "trim_start s = s" using None by (simp add: trim_start_def strip_codes.simps)
    ultimately show ?thesis by simp
  next
    case (Some c)
    then have c: "c \<in> set ws_codes" "c \<noteq> []" "starts_with c s" by (auto simp: find_Some_iff)
    then have p: "code_point c" "is_white c" using ws_codes_points by (auto simp: list_all_iff is_white_def)
    have s: "s = c @ drop (length c) s" using c(3) by (metis append_take_drop_id starts_with_def)
    have h: "hd (utf8_chars s) = c" by (rule first_point [OF 1(2) p(1) c(3)])
    have ne: "s \<noteq> []" using c(2,3) by (cases s; cases c) simp_all
    have u: "utf8_chars s = c # tl (utf8_chars s)" using h ne utf8_chars_not_Nil [of s] by (metis list.collapse)
    have "c @ concat (tl (utf8_chars s)) = concat (c # tl (utf8_chars s))" by simp
    also have "\<dots> = s" by (simp only: u [symmetric] concat_utf8_chars)
    finally have "drop (length c) (c @ concat (tl (utf8_chars s))) = drop (length c) s" by simp
    then have r: "drop (length c) s = concat (tl (utf8_chars s))" by simp
    have l: "list_all code_point (tl (utf8_chars s))"
      using utf8_chars_points [OF 1(2)] by (subst (asm) u) simp
    then have ok: "utf8_ok (drop (length c) s)" "utf8_chars (drop (length c) s) = tl (utf8_chars s)"
      by (simp_all add: r utf8_ok_concat utf8_chars_concat)
    have "length (drop (length c) s) < length s" using c(2) ne by (cases c; cases s) simp_all
    with 1(1) ok(1) obtain ws where ws: "drop (length c) s = ws @ trim_start (drop (length c) s)"
      "trim_start (drop (length c) s) = concat (dropWhile is_white (utf8_chars (drop (length c) s)))" by blast
    have "trim_start s = trim_start (drop (length c) s)"
      unfolding trim_start_def by (subst strip_codes.simps) (simp add: Some)
    moreover have "dropWhile is_white (utf8_chars s) = dropWhile is_white (tl (utf8_chars s))"
      by (subst u) (simp add: p)
    ultimately show ?thesis using ws s ok(2) by (metis append.assoc)
  qed
qed

text \<open>Trimming at the end does not get past a visible character.\<close>

lemma strip_codes_append_stop:
  "list_all (\<lambda>c. \<not> starts_with c t) cs \<Longrightarrow> strip_codes cs t = t"
  by (rule strip_codes_stop)

lemma trim_end_visible:
  "list_all code_point cs \<Longrightarrow> \<not> list_all is_white cs \<Longrightarrow> trim_end (concat cs) \<noteq> []"
proof (induction cs rule: rev_induct)
  case (snoc c cs)
  have chars: "utf8_chars (concat (cs @ [c])) = cs @ [c]" using snoc.prems(1) by (rule utf8_chars_concat)
  show ?case
  proof (cases "is_white c")
    case False
    then have "trim_end (concat (cs @ [c])) = concat (cs @ [c])"
      by (intro trim_end_stop) (simp add: chars del: concat_append)
    moreover have "c \<noteq> []" using snoc.prems(1) by auto
    ultimately show ?thesis by simp
  next
    case True
    let ?s = "concat (cs @ [c])"
    have unique: "w = c" if w: "w \<in> set ws_codes" and st: "starts_with (rev w) (rev ?s)" for w
    proof -
      obtain t where "rev ?s = rev w @ t" using st by (auto simp: starts_with_iff)
      then have s: "?s = rev t @ w" by (metis rev_append rev_rev_ident)
      have "code_point w" using w ws_codes_points by (auto simp: list_all_iff)
      then have "last (utf8_chars ?s) = w"
        unfolding s by (simp add: utf8_chars_append code_point_starts utf8_chars_code_point)
      then show ?thesis by (simp only: chars last_snoc)
    qed
    have "c \<in> set ws_codes" "c \<noteq> []" using True snoc.prems(1) by (auto simp: is_white_def)
    then have "find (\<lambda>w. w \<noteq> [] \<and> starts_with w (rev ?s)) (map rev ws_codes) \<noteq> None"
      by (auto simp: find_None_iff)
    then obtain d where d: "find (\<lambda>w. w \<noteq> [] \<and> starts_with w (rev ?s)) (map rev ws_codes) = Some d" by auto
    then have "d \<in> set (map rev ws_codes)" "starts_with d (rev ?s)" by (auto simp: find_Some_iff)
    then have "d = rev c" using unique by auto
    then have "trim_end ?s = trim_end (concat cs)"
      using d unfolding trim_end_def by (subst strip_codes.simps) simp
    then show ?thesis using snoc True by simp
  qed
qed simp

lemma trim_visible:
  assumes "utf8_ok s" "\<not> list_all is_white (utf8_chars s)"
  shows "trim s \<noteq> []"
proof -
  obtain ws where "trim_start s = concat (dropWhile is_white (utf8_chars s))"
    using trim_start_dropWhile [OF assms(1)] by blast
  moreover have "list_all code_point (dropWhile is_white (utf8_chars s))"
    using utf8_chars_points [OF assms(1)] by (auto simp: list_all_iff dest: set_dropWhileD)
  moreover have "\<not> list_all is_white (dropWhile is_white (utf8_chars s))"
    using assms(2) by (metis dropWhile_eq_Nil_conv dropWhile_list_all hd_dropWhile list.pred_inject(2) list.exhaust_sel list_all_iff)
  ultimately show ?thesis by (simp add: trim_def trim_end_visible)
qed

text \<open>On valid text the decision depends on the first visible character only.\<close>

lemma analyze_valid:
  assumes "utf8_ok s"
  shows "analyze_thinking_start s tag =
     (if list_all is_white (utf8_chars s) then NeedMoreData
      else let w = length (leading_white s) in
        if starts_with tag (drop w s) then Detected (w + length tag)
        else if starts_with (drop w s) tag then NeedMoreData else NotThinking)"
  using trim_visible [OF assms] by (auto simp: analyze_thinking_start_def first_non_ws_def Let_def)

lemma leading_white_append:
  assumes "starts_char t" "\<not> list_all is_white (utf8_chars s)"
  shows "leading_white (s @ t) = leading_white s" "\<not> list_all is_white (utf8_chars (s @ t))"
  using assms by (auto simp: leading_white_def utf8_chars_append takeWhile_append list_all_iff)

lemma leading_white_le: "length (leading_white s) \<le> length s"
  by (metis concat_append concat_utf8_chars leading_white_def le_add1 length_append takeWhile_dropWhile_id)

lemma starts_with_extend: "starts_with p s \<Longrightarrow> starts_with p (s @ t)"
  by (auto simp: starts_with_iff)

lemma starts_with_length: "starts_with p s \<Longrightarrow> length p \<le> length s"
  by (auto simp: starts_with_iff)

lemma starts_with_cut: "starts_with p (s @ t) \<Longrightarrow> starts_with p s \<or> starts_with s p"
  by (auto simp: starts_with_iff append_eq_append_conv2)

lemma analyze_extend:
  assumes "utf8_ok s" "utf8_ok t"
  shows "analyze_thinking_start s tag = Detected i \<Longrightarrow> analyze_thinking_start (s @ t) tag = Detected i \<and> i \<le> length s"
    and "analyze_thinking_start s tag = NotThinking \<Longrightarrow> analyze_thinking_start (s @ t) tag = NotThinking"
proof -
  let ?w = "length (leading_white s)"
  note a = analyze_valid [OF assms(1), of tag] analyze_valid [OF utf8_ok_append [OF assms], of tag]
  note l = leading_white_append [OF utf8_ok_starts [OF assms(2)], of s]
  have d: "drop ?w (s @ t) = drop ?w s @ t" using leading_white_le [of s] by simp
  show "analyze_thinking_start s tag = Detected i \<Longrightarrow> analyze_thinking_start (s @ t) tag = Detected i \<and> i \<le> length s"
    using a l d starts_with_extend [of tag "drop ?w s" t] starts_with_length [of tag "drop ?w s"] leading_white_le [of s]
    by (auto simp: Let_def split: if_splits)
  show "analyze_thinking_start s tag = NotThinking \<Longrightarrow> analyze_thinking_start (s @ t) tag = NotThinking"
    using a l d starts_with_cut [of tag "drop ?w s" t] starts_with_cut [of "drop ?w s" tag "[]"]
    by (auto simp: Let_def starts_with_iff split: if_splits)
qed

lemma has_visible_append: "starts_char t \<Longrightarrow> has_visible_text (s @ t) \<longleftrightarrow> has_visible_text s \<or> has_visible_text t"
  by (simp add: has_visible_text_def utf8_chars_append)

lemma not_thinking_visible: "utf8_ok s \<Longrightarrow> analyze_thinking_start s tag = NotThinking \<Longrightarrow> has_visible_text s"
  by (auto simp: analyze_valid has_visible_text_def list_ex_iff list_all_iff split: if_splits)

section \<open>Finding the closing tag\<close>

lemma str_find_Some:
  "str_find p s = Some j \<longleftrightarrow> j \<le> length s \<and> starts_with p (drop j s) \<and> (\<forall>k < j. \<not> starts_with p (drop k s))"
proof -
  have "str_find p s = Some j \<longleftrightarrow>
      (\<exists>i < Suc (length s). starts_with p (drop ([0..<Suc (length s)] ! i) s) \<and> j = [0..<Suc (length s)] ! i \<and>
        (\<forall>k < i. \<not> starts_with p (drop ([0..<Suc (length s)] ! k) s)))"
    by (simp only: str_find_def find_Some_iff length_upt) simp
  also have "\<dots> \<longleftrightarrow> (\<exists>i < Suc (length s). starts_with p (drop i s) \<and> j = i \<and> (\<forall>k < i. \<not> starts_with p (drop k s)))"
    by (rule ex_cong1) (auto simp: nth_upt simp del: upt_Suc)
  finally show ?thesis by auto
qed

lemma str_find_None: "str_find p s = None \<longleftrightarrow> (\<forall>k \<le> length s. \<not> starts_with p (drop k s))"
  by (auto simp: str_find_def find_None_iff simp del: upt_Suc)

lemma starts_with_drop_append:
  "k + length p \<le> length s \<Longrightarrow> starts_with p (drop k (s @ t)) \<longleftrightarrow> starts_with p (drop k s)"
  by (simp add: starts_with_def)

lemma str_find_extend: "str_find p s = Some j \<Longrightarrow> str_find p (s @ t) = Some j"
proof -
  assume a: "str_find p s = Some j"
  then have j: "j \<le> length s" "starts_with p (drop j s)" "\<forall>k < j. \<not> starts_with p (drop k s)" by (auto simp: str_find_Some)
  then have "j + length p \<le> length s" using starts_with_length [OF j(2)] by simp
  then show ?thesis
    using j starts_with_drop_append [of _ p s t] by (auto simp: str_find_Some)
qed

text \<open>Only the end of a text without the tag matters for finding it later.\<close>

lemma str_find_window:
  assumes "str_find p (u @ v) = None" "u = [] \<or> length p \<le> length v + 1"
  shows "str_find p (u @ v @ t) = map_option (\<lambda>j. length u + j) (str_find p (v @ t))"
proof -
  have no: "\<not> starts_with p (drop k (u @ v @ t))" if k: "k < length u" for k
  proof
    assume st: "starts_with p (drop k (u @ v @ t))"
    have "k + length p \<le> length (u @ v)" using assms(2) k by auto
    then have "starts_with p (drop k (u @ v))" using st starts_with_drop_append [of k p "u @ v" t] by simp
    moreover have "k \<le> length (u @ v)" using k by simp
    ultimately show False using assms(1) unfolding str_find_None by blast
  qed
  have sh: "drop (length u + j) (u @ v @ t) = drop j (v @ t)" for j by simp
  show ?thesis
  proof (cases "str_find p (v @ t)")
    case None
    have "\<not> starts_with p (drop k (u @ v @ t))" if "k \<le> length (u @ v @ t)" for k
    proof (cases "k < length u")
      case False
      then have "k = length u + (k - length u)" "k - length u \<le> length (v @ t)" using that by simp_all
      then show ?thesis using None sh [of "k - length u"] unfolding str_find_None by metis
    qed (rule no)
    then have "str_find p (u @ v @ t) = None" unfolding str_find_None by blast
    then show ?thesis using None by simp
  next
    case (Some j)
    have "\<not> starts_with p (drop k (u @ v @ t))" if "k < length u + j" for k
    proof (cases "k < length u")
      case False
      then have "k = length u + (k - length u)" "k - length u < j" using that by simp_all
      then show ?thesis using Some sh [of "k - length u"] unfolding str_find_Some by metis
    qed (rule no)
    moreover have "length u + j \<le> length (u @ v @ t)" "starts_with p (drop (length u + j) (u @ v @ t))"
      using Some sh [of j] by (auto simp: str_find_Some)
    ultimately have "str_find p (u @ v @ t) = Some (length u + j)" unfolding str_find_Some by blast
    then show ?thesis using Some by simp
  qed
qed

section \<open>A chunk\<close>

text \<open>The buffers of a round that concern the text, and what the user has seen of it.\<close>

record text_view =
  vi_allow :: bool
  vi_in :: bool
  vi_prefix :: string
  vi_buffer :: string
  vi_response :: string
  vi_final :: bool
  vi_thought :: string
  vi_answer :: string

definition view_new :: text_view where
  "view_new = \<lparr>vi_allow = True, vi_in = False, vi_prefix = [], vi_buffer = [], vi_response = [], vi_final = False,
     vi_thought = [], vi_answer = []\<rparr>"

definition after_view :: "string \<Rightarrow> text_view \<Rightarrow> text_view" where
  "after_view t v =
     (if t = [] then v
      else if has_visible_text t then v\<lparr>vi_response := [], vi_answer := vi_answer v @ vi_response v @ t, vi_final := True\<rparr>
      else v\<lparr>vi_response := vi_response v @ t\<rparr>)"

definition close_view :: "string \<Rightarrow> string \<Rightarrow> text_view \<Rightarrow> text_view" where
  "close_view final_thinking after_think v =
     (after_view after_think (v\<lparr>vi_in := False, vi_thought := vi_thought v @ final_thinking\<rparr>))\<lparr>vi_buffer := []\<rparr>"

definition stream_view :: "text_view \<Rightarrow> text_view" where
  "stream_view v =
     (let cs = utf8_chars (vi_buffer v); n = length cs - 11
      in if 11 < length cs then v\<lparr>vi_thought := vi_thought v @ concat (take n cs), vi_buffer := concat (drop n cs)\<rparr> else v)"

definition thinking_view :: "thinking_tags \<Rightarrow> string \<Rightarrow> text_view \<Rightarrow> text_view" where
  "thinking_view tags chunk v =
     (if chunk = [] then v
      else let t = vi_buffer v @ chunk in
        case str_find (close_tag tags) t of
          Some j \<Rightarrow> close_view (take j t) (drop (j + length (close_tag tags)) t) (v\<lparr>vi_buffer := t\<rparr>)
        | None \<Rightarrow> stream_view (v\<lparr>vi_buffer := t\<rparr>))"

definition answer_view :: "string \<Rightarrow> text_view \<Rightarrow> text_view" where
  "answer_view chunk v =
     (if \<not> vi_final v \<and> \<not> has_visible_text chunk then v\<lparr>vi_response := vi_response v @ chunk\<rparr>
      else v\<lparr>vi_response := [], vi_answer := vi_answer v @ vi_response v @ chunk,
             vi_final := vi_final v \<or> has_visible_text chunk\<rparr>)"

definition text_view_step :: "thinking_tags \<Rightarrow> bool \<Rightarrow> string \<Rightarrow> text_view \<Rightarrow> text_view" where
  "text_view_step tags as_thinking chunk v = (if as_thinking then thinking_view tags chunk v else answer_view chunk v)"

definition content_view :: "thinking_tags \<Rightarrow> string \<Rightarrow> text_view \<Rightarrow> text_view" where
  "content_view tags c v =
     (if c = [] then v
      else if vi_allow v then
        (let buffer = vi_prefix v @ c
         in case analyze_thinking_start buffer (open_tag tags) of
              NeedMoreData \<Rightarrow> v\<lparr>vi_prefix := buffer\<rparr>
            | Detected i \<Rightarrow> text_view_step tags True (drop i buffer) (v\<lparr>vi_allow := False, vi_in := True, vi_prefix := []\<rparr>)
            | NotThinking \<Rightarrow> text_view_step tags (vi_in v) buffer (v\<lparr>vi_allow := False, vi_prefix := []\<rparr>))
      else text_view_step tags (vi_in v) c v)"

definition end_view :: "text_view \<Rightarrow> text_view" where
  "end_view v =
     (let v1 = (if vi_prefix v \<noteq> [] then v\<lparr>vi_answer := vi_answer v @ vi_prefix v\<rparr> else v)
      in if vi_in v1 \<and> vi_buffer v1 \<noteq> [] then v1\<lparr>vi_thought := vi_thought v1 @ vi_buffer v1\<rparr> else v1)"

section \<open>All chunks together\<close>

text \<open>What the buffers hold after the text \<open>t\<close>.\<close>

definition before_decision :: "thinking_tags \<Rightarrow> string \<Rightarrow> text_view \<Rightarrow> bool" where
  "before_decision tags t v \<longleftrightarrow>
     v = view_new\<lparr>vi_prefix := t\<rparr> \<and> (t = [] \<or> analyze_thinking_start t (open_tag tags) = NeedMoreData)"

definition in_reasoning :: "thinking_tags \<Rightarrow> string \<Rightarrow> text_view \<Rightarrow> bool" where
  "in_reasoning tags t v \<longleftrightarrow>
     (\<exists>i. analyze_thinking_start t (open_tag tags) = Detected i \<and> vi_thought v @ vi_buffer v = drop i t \<and>
        str_find (close_tag tags) (drop i t) = None \<and> (vi_thought v = [] \<or> 11 \<le> length (vi_buffer v))) \<and>
     \<not> vi_allow v \<and> vi_in v \<and> vi_prefix v = [] \<and> vi_response v = [] \<and> \<not> vi_final v \<and> vi_answer v = []"

text \<open>The rest of the text, after reasoning or without any, is shown from its first visible character on.\<close>

definition shows_rest :: "string \<Rightarrow> text_view \<Rightarrow> bool" where
  "shows_rest rest v \<longleftrightarrow>
     (if has_visible_text rest then vi_final v \<and> vi_answer v = rest \<and> vi_response v = []
      else \<not> vi_final v \<and> vi_answer v = [] \<and> vi_response v = rest)"

definition in_answer :: "thinking_tags \<Rightarrow> string \<Rightarrow> text_view \<Rightarrow> bool" where
  "in_answer tags t v \<longleftrightarrow>
     ((\<exists>i j. analyze_thinking_start t (open_tag tags) = Detected i \<and> str_find (close_tag tags) (drop i t) = Some j \<and>
         vi_thought v = take j (drop i t) \<and> shows_rest (drop (j + length (close_tag tags)) (drop i t)) v) \<or>
      (analyze_thinking_start t (open_tag tags) = NotThinking \<and> has_visible_text t \<and> vi_thought v = [] \<and> shows_rest t v)) \<and>
     \<not> vi_allow v \<and> \<not> vi_in v \<and> vi_prefix v = [] \<and> vi_buffer v = []"

definition view_ok :: "thinking_tags \<Rightarrow> string \<Rightarrow> text_view \<Rightarrow> bool" where
  "view_ok tags t v \<longleftrightarrow> before_decision tags t v \<or> in_reasoning tags t v \<or> in_answer tags t v"

lemma view_ok_end: "view_ok tags t v \<Longrightarrow> (vi_thought (end_view v), vi_answer (end_view v)) = split_thinking tags t"
proof -
  assume "view_ok tags t v"
  then consider "before_decision tags t v" | "in_reasoning tags t v" | "in_answer tags t v" by (auto simp: view_ok_def)
  then show ?thesis
  proof cases
    case 1
    then show ?thesis
      by (auto simp: before_decision_def end_view_def view_new_def split_thinking_def analyze_thinking_start_def trim_Nil)
  next
    case 2
    then show ?thesis by (auto simp: in_reasoning_def end_view_def split_thinking_def)
  next
    case 3
    then show ?thesis by (auto simp: in_answer_def end_view_def split_thinking_def shows_rest_def Let_def split: if_splits)
  qed
qed

lemma answer_view_rest:
  assumes "shows_rest rest v" "starts_char c"
  shows "shows_rest (rest @ c) (answer_view c v)"
  using assms by (auto simp: shows_rest_def answer_view_def has_visible_append split: if_splits)

lemma after_view_rest:
  assumes "vi_response v = []" "vi_answer v = []" "\<not> vi_final v"
  shows "shows_rest t (after_view t v)"
  using assms by (auto simp: shows_rest_def after_view_def has_visible_text_def)

lemma long_chars: "n < length (utf8_chars s) \<Longrightarrow> n < length s"
  using char_count_le [of s] by (simp add: char_count_def)

text \<open>A chunk of reasoning. \<open>u\<close> is the part that was shown, \<open>b\<close> the buffer.\<close>

lemma thinking_view_step:
  assumes body: "vi_thought v @ vi_buffer v @ c = drop i t" and d: "analyze_thinking_start t (open_tag tags) = Detected i"
    and no: "str_find (close_tag tags) (vi_thought v @ vi_buffer v) = None \<or> vi_thought v @ vi_buffer v = []"
    and held: "vi_thought v = [] \<or> 11 \<le> length (vi_buffer v)" and short: "length (close_tag tags) \<le> 12"
    and c: "c \<noteq> []"
    and rest: "\<not> vi_allow v" "vi_in v" "vi_prefix v = []" "vi_response v = []" "\<not> vi_final v" "vi_answer v = []"
  shows "in_reasoning tags t (thinking_view tags c v) \<or> in_answer tags t (thinking_view tags c v)"
proof -
  let ?p = "close_tag tags" and ?t = "vi_buffer v @ c" and ?u = "vi_thought v"
  have f: "str_find ?p (drop i t) = map_option (\<lambda>j. length ?u + j) (str_find ?p ?t)"
  proof (cases "?u @ vi_buffer v = []")
    case True
    then show ?thesis using body by (simp add: option.map_ident)
  next
    case False
    then have "str_find ?p (?u @ vi_buffer v) = None" using no by blast
    moreover have "?u = [] \<or> length ?p \<le> length (vi_buffer v) + 1" using held short by auto
    ultimately show ?thesis unfolding body [symmetric] by (rule str_find_window)
  qed
  show ?thesis
  proof (cases "str_find ?p ?t")
    case (Some j)
    have "take j ?t = drop (length ?u) (take (length ?u + j) (drop i t))" "?u = take (length ?u) (drop i t)"
      by (simp_all add: body [symmetric])
    then have th: "?u @ take j ?t = take (length ?u + j) (drop i t)"
      by (metis append_take_drop_id min.absorb1 le_add1 take_take)
    have dr: "drop (j + length ?p) ?t = drop (length ?u + j + length ?p) (drop i t)"
      by (simp add: body [symmetric] add.assoc)
    have "in_answer tags t (thinking_view tags c v)"
      using Some f d c rest th dr
        after_view_rest [of "v\<lparr>vi_buffer := ?t, vi_in := False, vi_thought := ?u @ take j ?t\<rparr>" "drop (j + length ?p) ?t"]
      by (auto simp: in_answer_def thinking_view_def close_view_def Let_def after_view_def shows_rest_def split: if_splits)
    then show ?thesis ..
  next
    case None
    let ?cs = "utf8_chars ?t" and ?w = "v\<lparr>vi_buffer := ?t\<rparr>"
    have sv: "thinking_view tags c v = stream_view ?w" using None c by (simp add: thinking_view_def Let_def)
    have cat: "concat (take n ?cs) @ concat (drop n ?cs) = ?t" for n by (rule split_at_char)
    have "11 \<le> length (concat (drop (length ?cs - 11) ?cs))" if "11 < length ?cs"
    proof -
      have "length xs \<le> length (concat xs)" if "\<forall>x \<in> set xs. x \<noteq> []" for xs :: "string list"
        using that by (induction xs) (auto simp: Suc_le_eq trans_le_add2 add_strict_increasing)
      moreover have "\<forall>x \<in> set (utf8_chars s). x \<noteq> []" for s by (induction s rule: utf8_chars.induct) auto
      ultimately have "length (drop (length ?cs - 11) ?cs) \<le> length (concat (drop (length ?cs - 11) ?cs))"
        by (meson in_set_dropD)
      then show ?thesis using that by simp
    qed
    moreover have "?u = [] \<or> 11 \<le> length ?t" using held by auto
    ultimately have "in_reasoning tags t (stream_view ?w)"
      using d None f rest cat [of "length ?cs - 11"] body
      by (auto simp: in_reasoning_def stream_view_def Let_def)
    then show ?thesis by (simp add: sv)
  qed
qed

lemma content_view_ok:
  assumes v: "view_ok tags t v" and ok: "utf8_ok t" "utf8_ok c" and short: "length (close_tag tags) \<le> 12"
    and ne: "close_tag tags \<noteq> []"
  shows "view_ok tags (t @ c) (content_view tags c v)"
proof (cases "c = []")
  case True
  then show ?thesis using v by (simp add: content_view_def)
next
  case False
  note ext = analyze_extend [OF ok, of "open_tag tags"]
  note sc = utf8_ok_starts [OF ok(2)]
  from v consider "before_decision tags t v" | "in_reasoning tags t v" | "in_answer tags t v" by (auto simp: view_ok_def)
  then show ?thesis
  proof cases
    case 1
    then have w: "v = view_new\<lparr>vi_prefix := t\<rparr>" by (simp add: before_decision_def)
    have tc: "utf8_ok (t @ c)" using ok by (rule utf8_ok_append)
    show ?thesis
    proof (cases "analyze_thinking_start (t @ c) (open_tag tags)")
      case NeedMoreData
      then show ?thesis
        using False by (simp add: view_ok_def before_decision_def content_view_def w view_new_def)
    next
      case (Detected i)
      let ?v = "view_new\<lparr>vi_allow := False, vi_in := True\<rparr>"
      have cv: "content_view tags c v = thinking_view tags (drop i (t @ c)) ?v"
        using False Detected by (simp add: content_view_def w view_new_def text_view_step_def del: drop_append)
      show ?thesis
      proof (cases "drop i (t @ c) = []")
        case True
        have "str_find (close_tag tags) [] = None" using ne by (cases "close_tag tags") (simp_all add: str_find_None)
        then have "in_reasoning tags (t @ c) (content_view tags c v)"
          unfolding cv True using Detected True by (simp add: in_reasoning_def thinking_view_def view_new_def del: drop_append)
        then show ?thesis by (simp add: view_ok_def)
      next
        case False
        then show ?thesis
          using thinking_view_step [of ?v "drop i (t @ c)" i "t @ c" tags] Detected short
          by (auto simp: cv view_ok_def view_new_def simp del: drop_append)
      qed
    next
      case NotThinking
      then have "has_visible_text (t @ c)" using tc by (blast intro: not_thinking_visible)
      then show ?thesis
        using False NotThinking
        by (simp add: view_ok_def in_answer_def content_view_def w view_new_def text_view_step_def answer_view_def shows_rest_def)
    qed
  next
    case 2
    then obtain i where d: "analyze_thinking_start t (open_tag tags) = Detected i"
      and i: "vi_thought v @ vi_buffer v = drop i t" "str_find (close_tag tags) (drop i t) = None"
        "vi_thought v = [] \<or> 11 \<le> length (vi_buffer v)"
      and r: "\<not> vi_allow v" "vi_in v" "vi_prefix v = []" "vi_response v = []" "\<not> vi_final v" "vi_answer v = []"
      by (auto simp: in_reasoning_def)
    have d2: "analyze_thinking_start (t @ c) (open_tag tags) = Detected i" "i \<le> length t" using ext(1) [OF d] by auto
    have b: "vi_thought v @ vi_buffer v @ c = drop i (t @ c)" using i(1) d2(2) by simp
    have "in_reasoning tags (t @ c) (thinking_view tags c v) \<or> in_answer tags (t @ c) (thinking_view tags c v)"
      by (rule thinking_view_step [OF b d2(1) _ i(3) short False r]) (simp add: i)
    then show ?thesis using False r by (auto simp: view_ok_def content_view_def text_view_step_def)
  next
    case 3
    then have cv: "content_view tags c v = answer_view c v"
      using False by (simp add: in_answer_def content_view_def text_view_step_def)
    have keep: "vi_thought (answer_view c v) = vi_thought v" "vi_allow (answer_view c v) = vi_allow v"
      "vi_in (answer_view c v) = vi_in v" "vi_prefix (answer_view c v) = vi_prefix v" "vi_buffer (answer_view c v) = vi_buffer v"
      by (simp_all add: answer_view_def)
    from 3 consider (a) i j where "analyze_thinking_start t (open_tag tags) = Detected i"
        "str_find (close_tag tags) (drop i t) = Some j" "vi_thought v = take j (drop i t)"
        "shows_rest (drop (j + length (close_tag tags)) (drop i t)) v"
      | (b) "analyze_thinking_start t (open_tag tags) = NotThinking" "has_visible_text t" "vi_thought v = []" "shows_rest t v"
      by (auto simp: in_answer_def)
    then show ?thesis
    proof cases
      case a
      have d2: "analyze_thinking_start (t @ c) (open_tag tags) = Detected i" "i \<le> length t" using ext(1) [OF a(1)] by auto
      have j: "j + length (close_tag tags) \<le> length (drop i t)"
        using a(2) starts_with_length by (fastforce simp: str_find_Some)
      have "str_find (close_tag tags) (drop i (t @ c)) = Some j" using str_find_extend [OF a(2), of c] d2(2) by simp
      moreover have "take j (drop i (t @ c)) = take j (drop i t)" using j d2(2) by simp
      moreover have "drop (j + length (close_tag tags)) (drop i (t @ c)) = drop (j + length (close_tag tags)) (drop i t) @ c"
        using j d2(2) by simp
      ultimately have "in_answer tags (t @ c) (answer_view c v)"
        using 3 a d2 answer_view_rest [OF a(4) sc] unfolding in_answer_def keep by metis
      then show ?thesis by (simp add: cv view_ok_def)
    next
      case b
      then have "in_answer tags (t @ c) (answer_view c v)"
        using 3 ext(2) answer_view_rest [OF b(4) sc] has_visible_append [OF sc] unfolding in_answer_def keep by blast
      then show ?thesis by (simp add: cv view_ok_def)
    qed
  qed
qed

definition tags_ok :: "thinking_tags \<Rightarrow> bool" where
  "tags_ok tags \<longleftrightarrow> close_tag tags \<noteq> [] \<and> length (close_tag tags) \<le> 12"

lemma default_tags_ok: "tags_ok default_thinking_tags"
  by (simp add: tags_ok_def default_thinking_tags_def)

lemma view_new_ok: "view_ok tags [] view_new"
  by (simp add: view_ok_def before_decision_def view_new_def)

lemma chunks_ok:
  "tags_ok tags \<Longrightarrow> list_all utf8_ok cs \<Longrightarrow> utf8_ok t \<Longrightarrow> view_ok tags t v \<Longrightarrow>
   view_ok tags (t @ concat cs) (fold (content_view tags) cs v)"
proof (induction cs arbitrary: t v)
  case (Cons c cs)
  then have "view_ok tags (t @ c) (content_view tags c v)" "utf8_ok (t @ c)"
    by (simp_all add: content_view_ok tags_ok_def utf8_ok_append)
  from Cons.IH [OF Cons.prems(1) _ this(2,1)] Cons.prems(2) show ?case by simp
qed simp

theorem chunked_split:
  assumes "tags_ok tags" "list_all utf8_ok cs"
  shows "(vi_thought (end_view (fold (content_view tags) cs view_new)),
      vi_answer (end_view (fold (content_view tags) cs view_new))) = split_thinking tags (concat cs)"
  using chunks_ok [OF assms _ view_new_ok] view_ok_end by fastforce

end
