(* ===== verification/Generation_Text.thy ===== *)
theory Generation_Text
  imports Generation_Sample Thinking_Split
begin

text \<open>
  What the user sees of an answer. The programs of \<open>Generation\<close> are related to the text views of \<open>Thinking_Split\<close>:
  \<open>falls\<close> says that a program goes on with the next statement and changes the view from \<open>v\<close> to \<open>v'\<close>, \<open>goes\<close> that it goes
  on or to the next round of the loop. The stream is a list of items in the world (\<open>scripted\<close>), and nobody cancels.
\<close>

section \<open>Runs without a cancellation\<close>

text \<open>\<open>q\<close> reads the rest of the stream off the world; only receiving an item changes it.\<close>

definition scripted :: "('w \<Rightarrow> stream_item list) \<Rightarrow> ('t, 'w) gen_env \<Rightarrow> bool" where
  "scripted q E \<longleftrightarrow>
     (\<forall>w. fst (cancel_arrived E w) = False \<and> q (snd (cancel_arrived E w)) = q w \<and> q (snd (now_nanos E w)) = q w \<and>
        (\<forall>js. q (snd (jobs_ended E js w)) = q w) \<and>
        fst (next_item E w) = (case q w of [] \<Rightarrow> StreamEnd | i # is \<Rightarrow> i) \<and> q (snd (next_item E w)) = tl (q w))"

definition thought_text :: "agent_message list \<Rightarrow> string" where
  "thought_text ms = concat (map (\<lambda>m. case m of AmThinkingContent t n \<Rightarrow> t | _ \<Rightarrow> []) ms)"

definition answer_text :: "agent_message list \<Rightarrow> string" where
  "answer_text ms = concat (map (\<lambda>m. case m of AmAgentResponse t n \<Rightarrow> t | _ \<Rightarrow> []) ms)"

text \<open>Every job of the summarizer ends, the one that a flush starts included.\<close>

definition jobs_return :: "('t, 'w) gen_env \<Rightarrow> bool" where
  "jobs_return E \<longleftrightarrow> (\<forall>js w. ends_enough (Suc (length js)) (fst (jobs_ended E js w)))"

text \<open>The round agrees with the view, and the messages sent since \<open>fst tr\<close> are those of the view; \<open>snd tr\<close> tells
  whether the summarizer is locked.\<close>

definition round_view :: "text_view \<Rightarrow> round \<Rightarrow> bool" where
  "round_view v r \<longleftrightarrow>
     ro_allow_start r = vi_allow v \<and> ro_in_thinking r = vi_in v \<and> ro_prefix r = vi_prefix v \<and> ro_thinking r = vi_buffer v \<and>
     ro_response_prefix r = vi_response v \<and> ro_final_started r = vi_final v \<and> ro_calls r = []"

definition seen_view ::
  "('w \<Rightarrow> stream_item list) \<Rightarrow> stream_item list \<Rightarrow> thinking_tags \<Rightarrow> agent_message list \<times> bool \<Rightarrow> text_view \<Rightarrow>
    ('t, 'w) gen_state \<Rightarrow> bool" where
  "seen_view q is tags tr v s \<longleftrightarrow>
     q (ge_world s) = is \<and> ge_tags s = tags \<and> \<not> ge_cancel s \<and> ge_locked s = snd tr \<and> summarizer_ok (ge_summarizer s) \<and>
     round_view v (ge_round s) \<and>
     thought_text (ge_sent s) = thought_text (fst tr) @ vi_thought v \<and>
     answer_text (ge_sent s) = answer_text (fst tr) @ vi_answer v"

type_synonym 'w script = "('w \<Rightarrow> stream_item list) \<times> stream_item list \<times> thinking_tags \<times> agent_message list \<times> bool"

text \<open>The same with the lock taken.\<close>

definition hold :: "'w script \<Rightarrow> 'w script" where
  "hold S = (case S of (q, is, tags, tr, b) \<Rightarrow> (q, is, tags, tr, True))"

definition free :: "'w script \<Rightarrow> bool" where
  "free S \<longleftrightarrow> \<not> snd (snd (snd (snd S)))"

definition seen :: "'w script \<Rightarrow> text_view \<Rightarrow> ('t, 'w) gen_state \<Rightarrow> bool" where
  "seen S v s = (case S of (q, is, tags, tr) \<Rightarrow> seen_view q is tags tr v s)"

definition moves :: "'w script \<Rightarrow> text_view \<Rightarrow> ('t, 'w, 'a) gen \<Rightarrow> text_view \<Rightarrow> bool" where
  "moves S v p v' \<longleftrightarrow> triple (seen S v) p (\<lambda>x. seen S v') (\<lambda>s. False) (\<lambda>s. False)"

definition falls :: "'w script \<Rightarrow> text_view \<Rightarrow> ('t, 'w, flow) gen \<Rightarrow> text_view \<Rightarrow> bool" where
  "falls S v p v' \<longleftrightarrow> triple (seen S v) p (\<lambda>c s. c = Fall \<and> seen S v' s) (\<lambda>s. False) (\<lambda>s. False)"

definition goes :: "'w script \<Rightarrow> text_view \<Rightarrow> ('t, 'w, flow) gen \<Rightarrow> text_view \<Rightarrow> bool" where
  "goes S v p v' \<longleftrightarrow>
     triple (seen S v) p (\<lambda>c s. (c = Fall \<or> c = Continue) \<and> seen S v' s) (\<lambda>s. False) (\<lambda>s. False)"

lemma thought_text_append [simp]: "thought_text (xs @ ys) = thought_text xs @ thought_text ys"
  and answer_text_append [simp]: "answer_text (xs @ ys) = answer_text xs @ answer_text ys"
  by (simp_all add: thought_text_def answer_text_def)

lemma goes_falls: "falls S v p v' \<Longrightarrow> goes S v p v'"
  unfolding falls_def goes_def by (erule triple_post) auto

lemma moves_ret: "moves S v (ret x) v"
  by (simp add: moves_def triple_def)

lemma falls_ret: "falls S v (ret Fall) v"
  by (simp add: falls_def triple_def)

lemma goes_continue: "goes S v (ret Continue) v"
  by (simp add: goes_def triple_def)

lemma moves_bind: "moves S v p u \<Longrightarrow> (\<And>x. moves S u (f x) v') \<Longrightarrow> moves S v (bindp p f) v'"
  unfolding moves_def by (rule triple_bindp)

lemma moves_seq: "moves S v p u \<Longrightarrow> moves S u q v' \<Longrightarrow> moves S v (seqp p q) v'"
  by (simp add: seqp_def moves_bind)

lemma falls_bind: "moves S v p u \<Longrightarrow> (\<And>x. falls S u (f x) v') \<Longrightarrow> falls S v (bindp p f) v'"
  unfolding moves_def falls_def by (rule triple_bindp)

lemma falls_seq: "moves S v p u \<Longrightarrow> falls S u q v' \<Longrightarrow> falls S v (seqp p q) v'"
  by (simp add: seqp_def falls_bind)

lemma goes_bind: "moves S v p u \<Longrightarrow> (\<And>x. goes S u (f x) v') \<Longrightarrow> goes S v (bindp p f) v'"
  unfolding moves_def goes_def by (rule triple_bindp)

lemma goes_seq: "moves S v p u \<Longrightarrow> goes S u q v' \<Longrightarrow> goes S v (seqp p q) v'"
  by (simp add: seqp_def goes_bind)

lemma falls_andf: "falls S v p u \<Longrightarrow> falls S u q v' \<Longrightarrow> falls S v (andf p q) v'"
  unfolding falls_def andf_def by (rule triple_bindp, assumption) (auto simp: triple_def)

lemma goes_andf: "falls S v p u \<Longrightarrow> goes S u q v' \<Longrightarrow> goes S v (andf p q) v'"
  unfolding falls_def goes_def andf_def by (rule triple_bindp, assumption) (auto simp: triple_def)

lemma falls_fall: "moves S v p v' \<Longrightarrow> falls S v (fall p) v'"
  unfolding fall_def by (erule falls_seq) (rule falls_ret)

text \<open>Reading a part of the state that the view determines.\<close>

lemma shows_round: "seen S v s \<Longrightarrow> round_view v (ge_round s)"
  by (auto simp: seen_def seen_view_def split: prod.splits)

lemma triple_read:
  "(\<And>s. seen S v s \<Longrightarrow> triple (seen S v) (f (g s)) R X Z) \<Longrightarrow> triple (seen S v) (bindp (asks g) f) R X Z"
  by (auto simp: triple_def)

lemma moves_read: "(\<And>s. seen S v s \<Longrightarrow> moves S v (f (g s)) v') \<Longrightarrow> moves S v (bindp (asks g) f) v'"
  unfolding moves_def by (rule triple_read) blast

lemma falls_read: "(\<And>s. seen S v s \<Longrightarrow> falls S v (f (g s)) v') \<Longrightarrow> falls S v (bindp (asks g) f) v'"
  unfolding falls_def by (rule triple_read) blast

lemma goes_read: "(\<And>s. seen S v s \<Longrightarrow> goes S v (f (g s)) v') \<Longrightarrow> goes S v (bindp (asks g) f) v'"
  unfolding goes_def by (rule triple_read) blast

text \<open>Basic steps. \<open>steady\<close> is an environment whose script is \<open>S\<close>'s.\<close>

definition steady :: "'w script \<Rightarrow> ('t, 'w) gen_env \<Rightarrow> bool" where
  "steady S E \<longleftrightarrow> scripted (fst S) E \<and> jobs_return E"

lemma steady_hold: "steady S E \<Longrightarrow> steady (hold S) E"
  by (auto simp: steady_def hold_def split: prod.splits)

lemma moves_set_round:
  assumes "\<And>r. round_view v r \<Longrightarrow> round_view v' (f r)" "vi_thought v' = vi_thought v" "vi_answer v' = vi_answer v"
  shows "moves S v (set_round f) v'"
  using assms by (auto simp: moves_def triple_def set_round_def seen_def seen_view_def split: prod.splits)

lemma moves_send:
  assumes "thought_text [m] = t" "answer_text [m] = a"
  shows "moves S v (send_msg m) (v\<lparr>vi_thought := vi_thought v @ t, vi_answer := vi_answer v @ a\<rparr>)"
  using assms by (auto simp: moves_def triple_def send_msg_def seen_def seen_view_def round_view_def split: prod.splits)

lemma moves_send_other: "thought_text [m] = [] \<Longrightarrow> answer_text [m] = [] \<Longrightarrow> moves S v (send_msg m) v"
  using moves_send [of m "[]" "[]" S v] by simp

lemma moves_upd_other:
  assumes "\<And>s. ge_world (f s) = ge_world s \<and> ge_tags (f s) = ge_tags s \<and> ge_cancel (f s) = ge_cancel s \<and>
     ge_round (f s) = ge_round s \<and> ge_sent (f s) = ge_sent s \<and> ge_locked (f s) = ge_locked s \<and>
     (summarizer_ok (ge_summarizer s) \<longrightarrow> summarizer_ok (ge_summarizer (f s)))"
  shows "moves S v (upd f) v"
  using assms by (auto simp: moves_def triple_def seen_def seen_view_def split: prod.splits)

lemma moves_gen_op:
  "(\<And>w. fst S (snd (f w)) = fst S w) \<Longrightarrow> moves S v (gen_op f) v"
  by (auto simp: moves_def triple_def gen_op_def seen_def seen_view_def split: prod.splits) (metis snd_conv)

lemma moves_jobs: "steady S E \<Longrightarrow> moves S v (jobs E) v"
  unfolding jobs_def by (rule moves_read, rule moves_gen_op) (simp add: steady_def scripted_def)

lemma moves_add_chunk: "steady S E \<Longrightarrow> moves S v (add_chunk E c) v"
  unfolding add_chunk_def by (rule moves_bind [OF moves_jobs], assumption, rule moves_upd_other) (simp add: add_ok)

lemma jobs_run:
  "jobs E s = (Ret (fst (jobs_ended E (su_running (ge_summarizer s)) (ge_world s))),
     s\<lparr>ge_world := snd (jobs_ended E (su_running (ge_summarizer s)) (ge_world s))\<rparr>)"
  by (simp add: jobs_def gen_op_def bindp_def asks_def split: prod.splits)

lemma seen_summarizer: "seen S v s \<Longrightarrow> summarizer_ok (ge_summarizer s)"
  by (auto simp: seen_def seen_view_def split: prod.splits)

lemma flush_runs:
  assumes "jobs_return E" "summarizer_ok (ge_summarizer s)" "jobs_ended E (su_running (ge_summarizer s)) (ge_world s) = (es, w)"
    "jobs_ended E (su_running (ge_summarizer s)) w = (fs, w')"
  obtains su where "flush E s = (Ret (), s\<lparr>ge_world := w', ge_summarizer := su\<rparr>)" "summarizer_ok su"
proof -
  have "ends_enough (Suc (length (su_running (ge_summarizer s)))) fs"
    using assms(1,4) unfolding jobs_return_def by (metis fst_conv)
  then obtain su where su: "flush_summaries es fs (ge_summarizer s) = Some su" using flush_returns [OF assms(2)] by blast
  show ?thesis
    by (rule that [of su])
      (use flush_props [OF su] assms su in \<open>simp_all add: flush_def bindp_def jobs_run asks_def upd_def\<close>)
qed

lemma moves_flush:
  assumes "steady S E"
  shows "moves S v (flush E) v"
  unfolding moves_def
proof (rule tripleI)
  fix s r t assume s: "seen S v s" and r: "flush E s = (r, t)"
  let ?js = "su_running (ge_summarizer s)"
  obtain es w fs w' where js: "jobs_ended E ?js (ge_world s) = (es, w)" "jobs_ended E ?js w = (fs, w')" by fastforce
  have "fst S w' = fst S (ge_world s)"
    using assms js unfolding steady_def scripted_def by (metis snd_conv)
  moreover obtain su where "flush E s = (Ret (), s\<lparr>ge_world := w', ge_summarizer := su\<rparr>)" "summarizer_ok su"
    using flush_runs [OF _ seen_summarizer [OF s] js] assms by (auto simp: steady_def)
  ultimately show "meets (\<lambda>x. seen S v) (\<lambda>s. False) (\<lambda>s. False) r t"
    using r s by (auto simp: seen_def seen_view_def split: prod.splits)
qed

lemma moves_new_summaries: "steady S E \<Longrightarrow> moves S v (new_summaries E) v"
  unfolding new_summaries_def
proof (rule moves_bind [OF moves_jobs], assumption, rule moves_read)
  fix es s assume s: "seen S v s"
  obtain new su where n: "get_new_summaries es (ge_summarizer s) = (new, su)" by fastforce
  have "summarizer_ok su"
    using n drain_ok [OF seen_summarizer [OF s], of es] by (auto simp: get_new_summaries_def Let_def summarizer_ok_def)
  then have "moves S v (seqp (upd (\<lambda>s. s\<lparr>ge_summarizer := su\<rparr>)) (ret new)) v"
    by (intro moves_seq [OF moves_upd_other moves_ret]) simp
  then show "moves S v (case get_new_summaries es (ge_summarizer s) of (new, su1) \<Rightarrow>
      seqp (upd (\<lambda>s. s\<lparr>ge_summarizer := su1\<rparr>)) (ret new)) v"
    by (simp add: n)
qed

text \<open>Under the lock.\<close>

lemma falls_locked:
  assumes "free S" "falls (hold S) v p v'"
  shows "falls S v (locked p) v'"
proof -
  have r: "triple (\<lambda>s. c = Fall \<and> seen (hold S) v' s) (seqp (upd (\<lambda>s. s\<lparr>ge_locked := False\<rparr>)) (ret c))
      (\<lambda>c s. c = Fall \<and> seen S v' s) (\<lambda>s. False) (\<lambda>s. False)" for c
    using assms(1) by (auto simp: triple_def seen_def seen_view_def hold_def free_def split: prod.splits)
  have l: "triple (seen S v) (upd (\<lambda>s. s\<lparr>ge_locked := True\<rparr>)) (\<lambda>x. seen (hold S) v) (\<lambda>s. False) (\<lambda>s. False)"
    by (auto simp: triple_def seen_def seen_view_def hold_def split: prod.splits)
  have "falls S v (seqp (upd (\<lambda>s. s\<lparr>ge_locked := True\<rparr>)) (bindp p (\<lambda>c. seqp (upd (\<lambda>s. s\<lparr>ge_locked := False\<rparr>)) (ret c)))) v'"
    unfolding falls_def by (rule triple_seqp [OF l triple_bindp [OF assms(2) [unfolded falls_def] r]])
  then show ?thesis
    unfolding locked_def using assms(1)
    by (intro falls_read) (auto simp: seen_def seen_view_def free_def split: prod.splits)
qed

lemma moves_locked:
  assumes "free S" "falls (hold S) v p v'"
  shows "moves S v (seqp (locked p) (ret ())) v'"
proof -
  have "moves S v (locked p) v'" using falls_locked [OF assms] unfolding falls_def moves_def by (rule triple_post) simp
  then show ?thesis by (rule moves_seq) (rule moves_ret)
qed

lemma falls_check: "steady S E \<Longrightarrow> falls S v (check_cancel E) v"
  unfolding check_cancel_def falls_def
  by (auto simp: steady_def scripted_def gen_op_def bindp_def seqp_def upd_def asks_def ret_def triple_def seen_def seen_view_def
      split: prod.splits) (metis fst_conv snd_conv)+

lemma falls_announce: "steady S E \<Longrightarrow> (\<And>v. falls S v check v) \<Longrightarrow> falls S v (announce check xs) v"
proof (induction xs)
  case (Cons x xs)
  then show ?case
    unfolding announce.simps
    by (intro falls_seq [OF moves_send_other] falls_andf) (simp_all add: thought_text_def answer_text_def)
qed (simp only: announce.simps falls_ret)

lemma falls_announce_new: "steady S E \<Longrightarrow> (\<And>v. falls S v check v) \<Longrightarrow> falls S v (announce_new E check) v"
  unfolding announce_new_def by (rule falls_bind [OF moves_new_summaries falls_announce])

lemma falls_residual: "falls S v send_residual v"
  unfolding send_residual_def
  by (rule falls_read, rule falls_fall) (auto intro: moves_ret moves_send_other simp: thought_text_def answer_text_def)

section \<open>The handlers\<close>

lemma moves_count: "steady S E \<Longrightarrow> moves S v (count_tokens E n) v"
  unfolding count_tokens_def note_first_token_def
  by (rule moves_seq [of _ _ _ v], rule moves_read)
    (auto simp: steady_def scripted_def round_view_def intro!: moves_set_round moves_ret moves_bind [OF moves_gen_op])

lemma moves_thinking:
  "steady S E \<Longrightarrow> v' = v\<lparr>vi_thought := vi_thought v @ t\<rparr> \<Longrightarrow> moves S v (send_thinking E t) v'"
  unfolding send_thinking_def Let_def
  using moves_seq [OF moves_count moves_send [of "AmThinkingContent t (estimate_tokens_heuristic t)" t "[]"]]
  by (simp add: thought_text_def answer_text_def)

lemma moves_response:
  "v' = v\<lparr>vi_answer := vi_answer v @ t\<rparr> \<Longrightarrow> moves S v (send_msg (AmAgentResponse t n)) v'"
  using moves_send [of "AmAgentResponse t n" "[]" t S v] by (simp add: thought_text_def answer_text_def)

lemma moves_after:
  assumes "steady S E"
  shows "moves S v (after_thinking E t) (after_view t v)"
proof (cases "t = []")
  case False
  show ?thesis
  proof (cases "has_visible_text t")
    case True
    have "moves S v (let outbound = vi_response v @ t; n = estimate_tokens_heuristic outbound
          in seqp (set_round (\<lambda>r. r\<lparr>ro_response_prefix := [], ro_content := ro_content r @ outbound\<rparr>))
            (seqp (count_tokens E n)
            (seqp (send_msg (AmAgentResponse outbound n)) (set_round (\<lambda>r. r\<lparr>ro_final_started := True\<rparr>))))) (after_view t v)"
      unfolding Let_def
      by (rule moves_seq [of _ _ _ "v\<lparr>vi_response := []\<rparr>"], rule moves_set_round,
          (simp_all add: round_view_def)[3], rule moves_seq [OF moves_count [OF assms]],
          rule moves_seq [OF moves_response [OF refl]], rule moves_set_round)
        (auto simp: after_view_def False True round_view_def)
    then show ?thesis
      unfolding after_thinking_def using False True
      by (auto intro!: moves_read dest!: shows_round simp: round_view_def)
  qed (use False in \<open>auto simp: after_thinking_def after_view_def round_view_def intro!: moves_set_round\<close>)
qed (simp add: after_thinking_def after_view_def moves_ret)

lemma falls_close:
  assumes "steady S E" "free S"
  shows "falls S v (close_thinking E t u) (close_view t u v)"
proof -
  let ?v1 = "v\<lparr>vi_in := False\<rparr>" and ?v2 = "v\<lparr>vi_in := False, vi_thought := vi_thought v @ t\<rparr>"
  note held = steady_hold [OF assms(1)]
  note check = falls_check [OF assms(1)] and announce = falls_announce_new [OF held falls_check [OF held]]
    and locked = falls_locked [OF assms(2)]
  have m1: "moves S v (set_round (\<lambda>r. r\<lparr>ro_in_thinking := False\<rparr>)) ?v1"
    by (rule moves_set_round) (simp_all add: round_view_def)
  have m2: "moves S ?v1 (send_thinking E t) ?v2" by (rule moves_thinking [OF assms(1)]) simp
  have m3: "falls S ?v1 (if t = [] then ret Fall else seqp (send_thinking E t)
      (andf (check_cancel E) (locked (seqp (add_chunk E t) (announce_new E (check_cancel E)))))) ?v2"
    using m2 by (auto intro!: falls_ret falls_seq falls_andf check locked announce moves_add_chunk [OF held]
        simp del: text_view.simps)
  have m4: "moves (hold S) u (set_round (\<lambda>r. r\<lparr>ro_thinking := []\<rparr>)) (u\<lparr>vi_buffer := []\<rparr>)" for u
    by (rule moves_set_round) (simp_all add: round_view_def)
  show ?thesis
    unfolding close_thinking_def close_view_def
    by (intro falls_seq [OF m1] falls_andf [OF m3] locked falls_seq [OF moves_flush [OF held]]
        falls_andf [OF announce] falls_andf [OF falls_residual] falls_fall moves_seq [OF moves_after [OF held] m4])
qed

lemma falls_pieces:
  assumes "steady S E"
  shows "falls S v (send_pieces E cs) (v\<lparr>vi_thought := vi_thought v @ concat cs\<rparr>)"
  using assms
proof (induction E cs arbitrary: v rule: send_pieces.induct)
  case (1 E cs)
  show ?case
  proof (cases "cs = []")
    case False
    show ?thesis
    proof (cases "100 < length cs")
      case True
      let ?u = "v\<lparr>vi_thought := vi_thought v @ concat (take 100 cs)\<rparr>"
      have "vi_thought v @ concat (take 100 cs) @ concat (drop 100 cs) = vi_thought v @ concat cs"
        by (metis append_take_drop_id concat_append)
      then have "falls S ?u (send_pieces E (drop 100 cs)) (v\<lparr>vi_thought := vi_thought v @ concat cs\<rparr>)"
        using 1(1) [OF False True 1(2), of ?u] by simp
      then show ?thesis
        using False True
        by (subst send_pieces.simps)
          (simp, intro falls_andf [OF falls_check [OF 1(2)]] falls_seq [OF moves_thinking [OF 1(2) refl]])
    next
      case short: False
      then show ?thesis
        using False
        by (subst send_pieces.simps)
          (simp, intro falls_andf [OF falls_check [OF 1(2)]] falls_fall [OF moves_thinking [OF 1(2) refl]])
    qed
  next
    case True
    have "falls S v (ret Fall) (v\<lparr>vi_thought := vi_thought v @ concat cs\<rparr>)" using falls_ret [of S v] True by simp
    then show ?thesis using True by (subst send_pieces.simps) (simp only: if_True True)
  qed
qed

lemma falls_stream:
  assumes "steady S E" "free S"
  shows "falls S v (stream_thinking E) (stream_view v)"
proof -
  let ?cs = "utf8_chars (vi_buffer v)"
  let ?n = "length ?cs - 11"
  have m: "moves (hold S) (v\<lparr>vi_thought := vi_thought v @ concat (take ?n ?cs)\<rparr>)
      (set_round (\<lambda>r. r\<lparr>ro_thinking := concat (drop ?n ?cs)\<rparr>))
      (v\<lparr>vi_thought := vi_thought v @ concat (take ?n ?cs), vi_buffer := concat (drop ?n ?cs)\<rparr>)"
    by (rule moves_set_round) (simp_all add: round_view_def)
  note held = steady_hold [OF assms(1)]
  have "falls S v (if 11 < length ?cs then let n = ?n in andf (send_pieces E (take n ?cs))
            (locked (seqp (add_chunk E (concat (take n ?cs)))
              (andf (announce_new E (check_cancel E))
                (fall (set_round (\<lambda>r. r\<lparr>ro_thinking := concat (drop n ?cs)\<rparr>))))))
       else ret Fall) (stream_view v)"
    unfolding stream_view_def Let_def
    by (cases "11 < length ?cs")
      (simp_all add: falls_ret falls_andf [OF falls_pieces [OF assms(1)]] falls_locked [OF assms(2)] falls_seq [OF moves_add_chunk [OF held]]
        falls_andf [OF falls_announce_new [OF held falls_check [OF held]]] falls_fall [OF m])
  then show ?thesis
    unfolding stream_thinking_def by (intro falls_read) (auto dest!: shows_round simp: round_view_def)
qed

lemma moves_set_buffer:
  "moves S v (set_round (\<lambda>r. r\<lparr>ro_thinking := ro_thinking r @ c\<rparr>)) (v\<lparr>vi_buffer := vi_buffer v @ c\<rparr>)"
  by (rule moves_set_round) (simp_all add: round_view_def)

lemma seen_tags: "seen (q, is, tags, tr) v s \<Longrightarrow> ge_tags s = tags"
  by (simp add: seen_def seen_view_def)

lemma seen_facts: "seen (q, is, tags, tr) v s \<Longrightarrow> ge_tags s = tags \<and> round_view v (ge_round s)"
  by (simp add: seen_tags shows_round)

lemma goes_thinking:
  assumes "steady (q, is, tags, tr) E" "free (q, is, tags, tr)"
  shows "goes (q, is, tags, tr) v (handle_thinking E c) (thinking_view tags c v)"
proof (cases "c = []")
  case True
  then show ?thesis by (simp add: handle_thinking_def thinking_view_def goes_continue)
next
  case False
  let ?t = "vi_buffer v @ c" and ?v = "v\<lparr>vi_buffer := vi_buffer v @ c\<rparr>"
  have "falls (q, is, tags, tr) ?v (case str_find (close_tag tags) ?t of
      Some j \<Rightarrow> close_thinking E (take j ?t) (drop (j + length (close_tag tags)) ?t) | None \<Rightarrow> stream_thinking E)
      (thinking_view tags c v)"
    using falls_close [OF assms, of ?v] falls_stream [OF assms, of ?v] False
    by (auto simp: thinking_view_def Let_def split: option.splits)
  note body = goes_falls [OF this]
  show ?thesis
    unfolding handle_thinking_def if_not_P [OF False]
  proof (rule goes_seq [OF moves_set_buffer], rule goes_read, rule goes_read)
    fix s s' assume "seen (q, is, tags, tr) ?v s" "seen (q, is, tags, tr) ?v s'"
    then have eqs: "ge_tags s = tags" "(ro_thinking \<circ> ge_round) s' = ?t"
      by (auto dest!: seen_facts simp: round_view_def)
    show "goes (q, is, tags, tr) ?v (case str_find (close_tag (ge_tags s)) ((ro_thinking \<circ> ge_round) s') of
        Some end_idx \<Rightarrow> close_thinking E (take end_idx ((ro_thinking \<circ> ge_round) s'))
          (drop (end_idx + length (close_tag (ge_tags s))) ((ro_thinking \<circ> ge_round) s'))
      | None \<Rightarrow> stream_thinking E) (thinking_view tags c v)"
      unfolding eqs by (rule body)
  qed
qed

lemma goes_answer:
  assumes "steady S E"
  shows "goes S v (handle_answer E c) (answer_view c v)"
proof (cases "\<not> vi_final v \<and> \<not> has_visible_text c")
  case True
  have m: "moves S v (set_round (\<lambda>r. r\<lparr>ro_response_prefix := ro_response_prefix r @ c\<rparr>)) (answer_view c v)"
    by (rule moves_set_round) (auto simp: round_view_def answer_view_def True)
  show ?thesis
    unfolding handle_answer_def
    using True by (auto intro!: goes_read goes_seq [OF m] goes_andf [OF falls_check [OF assms]] goes_continue
        dest!: shows_round simp: round_view_def)
next
  case False
  let ?u = "v\<lparr>vi_response := []\<rparr>" and ?w = "v\<lparr>vi_response := [], vi_answer := vi_answer v @ vi_response v @ c\<rparr>"
  have m1: "moves S v (set_round (\<lambda>r. r\<lparr>ro_response_prefix := [], ro_content := ro_content r @ x\<rparr>)) ?u" for x
    by (rule moves_set_round) (simp_all add: round_view_def)
  have m2: "moves S ?u (send_msg (AmAgentResponse (vi_response v @ c) n)) ?w" for n
    by (rule moves_response) simp
  have m3: "moves S ?w (if has_visible_text c then set_round (\<lambda>r. r\<lparr>ro_final_started := True\<rparr>) else ret ()) (answer_view c v)"
  proof (cases "has_visible_text c")
    case True
    then show ?thesis by (auto simp: answer_view_def round_view_def intro!: moves_set_round)
  next
    case hidden: False
    then have "answer_view c v = ?w" using False by (cases v) (simp add: answer_view_def)
    then show ?thesis using hidden by (simp add: moves_ret)
  qed
  have body: "goes S v (let outbound = vi_response v @ c;
        n = 1 + estimate_tokens_heuristic (take (length outbound - length c) outbound)
      in seqp (set_round (\<lambda>r. r\<lparr>ro_response_prefix := [], ro_content := ro_content r @ outbound\<rparr>))
        (seqp (count_tokens E n) (seqp (send_msg (AmAgentResponse outbound n))
        (seqp (if has_visible_text c then set_round (\<lambda>r. r\<lparr>ro_final_started := True\<rparr>) else ret ()) (check_cancel E)))))
      (answer_view c v)"
    unfolding Let_def
    by (intro goes_seq [OF m1] goes_seq [OF moves_count [OF assms]] goes_seq [OF m2] goes_seq [OF m3]
        goes_falls [OF falls_check [OF assms]])
  show ?thesis
    unfolding handle_answer_def
  proof (rule goes_read)
    fix s assume "seen S v s"
    then have "ro_response_prefix (ge_round s) = vi_response v" "ro_final_started (ge_round s) = vi_final v"
      by (auto dest!: shows_round simp: round_view_def)
    then show "goes S v (if \<not> ro_final_started (ge_round s) \<and> \<not> has_visible_text c then
         seqp (set_round (\<lambda>r. r\<lparr>ro_response_prefix := ro_response_prefix r @ c\<rparr>)) (andf (check_cancel E) (ret Continue))
       else (let outbound = ro_response_prefix (ge_round s) @ c;
              n = 1 + estimate_tokens_heuristic (take (length outbound - length c) outbound)
          in seqp (set_round (\<lambda>r. r\<lparr>ro_response_prefix := [], ro_content := ro_content r @ outbound\<rparr>))
            (seqp (count_tokens E n) (seqp (send_msg (AmAgentResponse outbound n))
            (seqp (if has_visible_text c then set_round (\<lambda>r. r\<lparr>ro_final_started := True\<rparr>) else ret ())
              (check_cancel E)))))) (answer_view c v)"
      using body False by auto
  qed
qed

lemma goes_text:
  "steady (q, is, tags, tr) E \<Longrightarrow> free (q, is, tags, tr) \<Longrightarrow>
     goes (q, is, tags, tr) v (handle_text E b c) (text_view_step tags b c v)"
  by (simp add: handle_text_def text_view_step_def goes_thinking goes_answer)

lemma goes_content:
  assumes "steady (q, is, tags, tr) E" "free (q, is, tags, tr)"
  shows "goes (q, is, tags, tr) v (handle_content E c) (content_view tags c v)"
proof (cases "c = []")
  case True
  then show ?thesis by (simp add: handle_content_def content_view_def goes_continue)
next
  case False
  note piece = goes_text [OF assms]
  have m1: "moves (q, is, tags, tr) v (set_round (\<lambda>r. r\<lparr>ro_prefix := b\<rparr>)) (v\<lparr>vi_prefix := b\<rparr>)"
    and m2: "moves (q, is, tags, tr) v (set_round (\<lambda>r. r\<lparr>ro_allow_start := False, ro_in_thinking := True, ro_prefix := []\<rparr>))
      (v\<lparr>vi_allow := False, vi_in := True, vi_prefix := []\<rparr>)"
    and m3: "moves (q, is, tags, tr) v (set_round (\<lambda>r. r\<lparr>ro_allow_start := False, ro_prefix := []\<rparr>))
      (v\<lparr>vi_allow := False, vi_prefix := []\<rparr>)" for b
    by (rule moves_set_round; simp add: round_view_def)+
  have a: "goes (q, is, tags, tr) v (let buffer = vi_prefix v @ c in case analyze_thinking_start buffer (open_tag tags) of
       NeedMoreData \<Rightarrow> seqp (set_round (\<lambda>r. r\<lparr>ro_prefix := buffer\<rparr>)) (andf (check_cancel E) (ret Continue))
     | Detected i \<Rightarrow> seqp (set_round (\<lambda>r. r\<lparr>ro_allow_start := False, ro_in_thinking := True, ro_prefix := []\<rparr>))
         (handle_text E True (drop i buffer))
     | NotThinking \<Rightarrow> seqp (set_round (\<lambda>r. r\<lparr>ro_allow_start := False, ro_prefix := []\<rparr>)) (handle_text E (vi_in v) buffer))
     (content_view tags c v)" if "vi_allow v"
    using False that unfolding content_view_def Let_def
    by (auto split: thinking_start_decision.split intro!: goes_seq [OF m1] goes_seq [OF m2] goes_seq [OF m3] piece
        goes_andf [OF falls_check [OF assms(1)]] goes_continue simp del: drop_append)
  have b: "goes (q, is, tags, tr) v (handle_text E (vi_in v) c) (content_view tags c v)" if "\<not> vi_allow v"
    using False that piece by (simp add: content_view_def)
  show ?thesis
    unfolding handle_content_def if_not_P [OF False]
  proof (rule goes_read, rule goes_read)
    fix s s' assume "seen (q, is, tags, tr) v s" "seen (q, is, tags, tr) v s'"
    then have eqs: "ge_tags s' = tags" "ro_allow_start (ge_round s) = vi_allow v" "ro_prefix (ge_round s) = vi_prefix v"
      "ro_in_thinking (ge_round s) = vi_in v"
      by (auto dest!: seen_facts simp: round_view_def)
    show "goes (q, is, tags, tr) v (if ro_allow_start (ge_round s) then
          (let buffer = ro_prefix (ge_round s) @ c
           in case analyze_thinking_start buffer (open_tag (ge_tags s')) of
                NeedMoreData \<Rightarrow>
                  seqp (set_round (\<lambda>r. r\<lparr>ro_prefix := buffer\<rparr>)) (andf (check_cancel E) (ret Continue))
              | Detected i \<Rightarrow>
                  seqp (set_round (\<lambda>r. r\<lparr>ro_allow_start := False, ro_in_thinking := True, ro_prefix := []\<rparr>))
                    (handle_text E True (drop i buffer))
              | NotThinking \<Rightarrow>
                  seqp (set_round (\<lambda>r. r\<lparr>ro_allow_start := False, ro_prefix := []\<rparr>))
                    (handle_text E (ro_in_thinking (ge_round s)) buffer))
        else handle_text E (ro_in_thinking (ge_round s)) c) (content_view tags c v)"
      unfolding eqs using a b by (cases "vi_allow v") simp_all
  qed
qed

section \<open>The loop\<close>

text \<open>The pieces of text in a response, and in a stream that asks for no tools and reports no error. The loop comes
  by every ten milliseconds without an item as well.\<close>

definition response_texts :: "llm_response \<Rightarrow> string list option" where
  "response_texts resp =
     (case resp of
        ResponseChunk ch \<Rightarrow>
          (case ch_choices ch of
             [] \<Rightarrow> Some []
           | x # _ \<Rightarrow>
               (if de_tool_calls (cc_delta x) = None
                then Some (case de_content (cc_delta x) of None \<Rightarrow> [] | Some c \<Rightarrow> [c]) else None))
      | OtherResponse \<Rightarrow> Some []
      | _ \<Rightarrow> None)"

fun stream_texts :: "stream_item list \<Rightarrow> string list option" where
  "stream_texts [] = Some []"
| "stream_texts (StreamEnd # is) = Some []"
| "stream_texts (TenMillis # is) = stream_texts is"
| "stream_texts (StreamItem resp # is) =
     (case resp of
        ResponseDone d \<Rightarrow> if final_calls d = [] then Some [] else None
      | _ \<Rightarrow> (case response_texts resp of
                None \<Rightarrow> None
              | Some xs \<Rightarrow> map_option (\<lambda>ys. xs @ ys) (stream_texts is)))"

lemma moves_stats: "moves S v (send_stats_if_no_calls st) v"
  unfolding send_stats_if_no_calls_def
  by (rule moves_read) (auto intro: moves_ret moves_send_other simp: thought_text_def answer_text_def)

lemma triple_next:
  assumes "scripted q E"
  shows "triple (seen (q, is, tags, tr) v) (gen_op (next_item E))
     (\<lambda>i s. i = (case is of [] \<Rightarrow> StreamEnd | j # js \<Rightarrow> j) \<and> seen (q, tl is, tags, tr) v s) (\<lambda>s. False) (\<lambda>s. False)"
  using assms
  by (auto simp: scripted_def triple_def gen_op_def seen_def seen_view_def split: prod.splits)
    (metis fst_conv snd_conv)+

lemma goes_response:
  assumes "steady (q, is, tags, tr) E" "free (q, is, tags, tr)" "response_texts resp = Some cs"
  shows "goes (q, is, tags, tr) v (handle_response E resp) (fold (content_view tags) cs v)"
proof (cases resp)
  case (ResponseChunk ch)
  have stats: "moves (q, is, tags, tr) v (case ch_usage ch of None \<Rightarrow> ret ()
      | Some u \<Rightarrow> send_stats_if_no_calls (usage_stats u (chunk_stop_reason ch))) v"
    by (auto split: option.splits intro: moves_ret moves_stats)
  show ?thesis
    using assms(3) goes_seq [OF stats goes_falls [OF falls_ret]] goes_seq [OF stats goes_content [OF assms(1,2)]]
    by (auto simp: ResponseChunk response_texts_def handle_response_def handle_chunk_def
        split: list.splits option.splits if_splits)
next
  case OtherResponse
  then show ?thesis using assms(3) by (simp add: response_texts_def handle_response_def goes_falls [OF falls_ret])
qed (use assms(3) in \<open>simp_all add: response_texts_def\<close>)

text \<open>A step of the loop: it ends, or the script is one item shorter.\<close>

definition step_ends :: "'w script \<Rightarrow> text_view \<Rightarrow> flow \<Rightarrow> ('t, 'w) gen_state \<Rightarrow> bool" where
  "step_ends S v c s \<longleftrightarrow> c = Break \<and> seen S v s"

definition step_goes :: "'w script \<Rightarrow> text_view \<Rightarrow> flow \<Rightarrow> ('t, 'w) gen_state \<Rightarrow> bool" where
  "step_goes S v c s \<longleftrightarrow> (c = Fall \<or> c = Continue) \<and> seen S v s"

lemma goes_step: "goes S v p u \<Longrightarrow> triple (seen S v) p (step_goes S u) (\<lambda>s. False) (\<lambda>s. False)"
  unfolding goes_def by (erule triple_post) (simp add: step_goes_def)

lemma step_shows:
  assumes "scripted q E" "jobs_return E"
    and "triple (seen (q, tl is, tags, tr) v)
       (case (case is of [] \<Rightarrow> StreamEnd | j # js \<Rightarrow> j) of StreamEnd \<Rightarrow> ret Break
          | TenMillis \<Rightarrow> andf (check_cancel E) (ret Continue) | StreamItem resp \<Rightarrow> handle_response E resp) R (\<lambda>s. False) (\<lambda>s. False)"
  shows "triple (seen (q, is, tags, tr) v) (receive_step E) R (\<lambda>s. False) (\<lambda>s. False)"
proof -
  have st: "steady (q, is, tags, tr) E" using assms(1,2) by (simp add: steady_def)
  have "triple (\<lambda>s. i = (case is of [] \<Rightarrow> StreamEnd | j # js \<Rightarrow> j) \<and> seen (q, tl is, tags, tr) v s)
      (case i of StreamEnd \<Rightarrow> ret Break | TenMillis \<Rightarrow> andf (check_cancel E) (ret Continue)
         | StreamItem resp \<Rightarrow> handle_response E resp) R (\<lambda>s. False) (\<lambda>s. False)" for i
    using assms(3) by (auto simp: triple_def)
  then have "triple (seen (q, is, tags, tr) v) (bindp (gen_op (next_item E)) (\<lambda>i. case i of StreamEnd \<Rightarrow> ret Break
         | TenMillis \<Rightarrow> andf (check_cancel E) (ret Continue) | StreamItem resp \<Rightarrow> handle_response E resp))
      R (\<lambda>s. False) (\<lambda>s. False)"
    by (rule triple_bindp [OF triple_next [OF assms(1)]])
  with falls_check [OF st, of v] show ?thesis
    unfolding receive_step_def andf_def falls_def by (elim triple_bindp) (auto simp: triple_def)
qed

definition loop_ends :: "'w script \<Rightarrow> text_view \<Rightarrow> flow \<Rightarrow> ('t, 'w) gen_state \<Rightarrow> bool" where
  "loop_ends S v c s \<longleftrightarrow> c = Fall \<and> (\<exists>is. seen (fst S, is, snd (snd S)) v s)"

lemma loop_ends_shorter: "loop_ends (q, i # is, S) v = loop_ends (q, is, S) v"
  by (intro ext) (simp add: loop_ends_def)

lemma loop_break:
  assumes "triple (seen S v) (receive_step E) (step_ends S' v) (\<lambda>s. False) (\<lambda>s. False)" "fst S' = fst S" "snd (snd S') = snd (snd S)"
  shows "triple (seen S v) (receive_loop E (Suc n)) (loop_ends S v) (\<lambda>s. False) (\<lambda>s. False)"
proof -
  have "triple (step_ends S' v c) (if c = Return then ret Return else if c = Break then ret Fall else receive_loop E n)
      (loop_ends S v) (\<lambda>s. False) (\<lambda>s. False)" for c
    using assms(2,3) by (cases S') (auto simp: triple_def step_ends_def loop_ends_def)
  with assms(1) show ?thesis unfolding receive_loop.simps by (rule triple_bindp)
qed

lemma loop_step:
  assumes "triple (seen S v) (receive_step E) (step_goes S' u) (\<lambda>s. False) (\<lambda>s. False)"
    and "triple (seen S' u) (receive_loop E n) R (\<lambda>s. False) (\<lambda>s. False)"
  shows "triple (seen S v) (receive_loop E (Suc n)) R (\<lambda>s. False) (\<lambda>s. False)"
proof -
  have "triple (step_goes S' u c) (if c = Return then ret Return else if c = Break then ret Fall else receive_loop E n)
      R (\<lambda>s. False) (\<lambda>s. False)" for c
    using assms(2) by (auto simp: triple_def step_goes_def)
  with assms(1) show ?thesis unfolding receive_loop.simps by (rule triple_bindp)
qed

lemma loop_shows:
  assumes sc: "scripted q E" "jobs_return E" and tr: "\<not> snd tr"
  shows "stream_texts is = Some cs \<Longrightarrow> length is < fuel \<Longrightarrow>
     triple (seen (q, is, tags, tr) v) (receive_loop E fuel) (loop_ends (q, is, tags, tr) (fold (content_view tags) cs v))
       (\<lambda>s. False) (\<lambda>s. False)"
proof (induction "is" arbitrary: cs v fuel rule: stream_texts.induct)
  case 1
  have "triple (seen (q, [], tags, tr) v) (receive_step E) (step_ends (q, [], tags, tr) v) (\<lambda>s. False) (\<lambda>s. False)"
    by (rule step_shows [OF sc]) (simp add: triple_def step_ends_def)
  from loop_break [OF this, of "fuel - 1"] 1 show ?case by (cases fuel) simp_all
next
  case (2 "is")
  have "triple (seen (q, StreamEnd # is, tags, tr) v) (receive_step E) (step_ends (q, is, tags, tr) v) (\<lambda>s. False) (\<lambda>s. False)"
    by (rule step_shows [OF sc]) (simp add: triple_def step_ends_def)
  from loop_break [OF this, of "fuel - 1"] 2 show ?case by (cases fuel) simp_all
next
  case (3 "is")
  have st: "steady (q, is, tags, tr) E" using sc by (simp add: steady_def)
  have "goes (q, is, tags, tr) v (andf (check_cancel E) (ret Continue)) v"
    by (rule goes_andf [OF falls_check [OF st] goes_continue])
  then have "triple (seen (q, TenMillis # is, tags, tr) v) (receive_step E) (step_goes (q, is, tags, tr) v) (\<lambda>s. False) (\<lambda>s. False)"
    by (intro step_shows [OF sc]) (simp add: goes_step)
  from loop_step [OF this 3(1), of cs "fuel - 1"] 3(2,3) show ?case by (cases fuel) (simp_all add: loop_ends_def)
next
  case (4 resp "is")
  have st: "steady (q, is, tags, tr) E" and fr: "free (q, is, tags, tr)" using sc tr by (simp_all add: steady_def free_def)
  obtain n where n: "fuel = Suc n" "length is < n" using 4(7) by (cases fuel) simp_all
  show ?case
  proof (cases "\<exists>d. resp = ResponseDone d")
    case True
    then obtain d where d: "resp = ResponseDone d" "final_calls d = []" "cs = []" using 4(6) by (auto split: if_splits)
    have "triple (seen (q, is, tags, tr) v) (handle_response E resp) (step_ends (q, is, tags, tr) v) (\<lambda>s. False) (\<lambda>s. False)"
      unfolding handle_response_def handle_done_def llm_response.case d(1,2) take_final_calls.simps if_cancel
      by (rule triple_read, rule triple_seqp, rule moves_ret [unfolded moves_def], rule triple_seqp,
          rule moves_stats [unfolded moves_def]) (simp add: triple_def step_ends_def)
    then have "triple (seen (q, StreamItem resp # is, tags, tr) v) (receive_step E) (step_ends (q, is, tags, tr) v)
        (\<lambda>s. False) (\<lambda>s. False)"
      by (intro step_shows [OF sc]) simp
    from loop_break [OF this, of n] show ?thesis by (simp add: n d)
  next
    case False
    then obtain xs ys where xs: "response_texts resp = Some xs" "stream_texts is = Some ys" "cs = xs @ ys"
      using 4(6) by (auto split: llm_response.splits option.splits)
    let ?u = "fold (content_view tags) xs v"
    have "goes (q, is, tags, tr) v (handle_response E resp) ?u" by (rule goes_response [OF st fr xs(1)])
    then have s: "triple (seen (q, StreamItem resp # is, tags, tr) v) (receive_step E) (step_goes (q, is, tags, tr) ?u)
        (\<lambda>s. False) (\<lambda>s. False)"
      by (intro step_shows [OF sc]) (simp add: goes_step)
    have "triple (seen (q, is, tags, tr) ?u) (receive_loop E n)
        (loop_ends (q, is, tags, tr) (fold (content_view tags) ys ?u)) (\<lambda>s. False) (\<lambda>s. False)"
      using False xs n(2) by (cases resp) (auto intro: 4(1-5))
    from loop_step [OF s this] show ?thesis by (simp add: n xs(3) loop_ends_shorter)
  qed
qed

lemma moves_settle:
  assumes "steady S E" "free S"
  shows "moves S v (settle_thinking E t) v"
proof -
  note held = steady_hold [OF assms(1)]
  show ?thesis
    unfolding settle_thinking_def
    by (intro moves_locked [OF assms(2)] falls_seq [OF moves_add_chunk [OF held]] falls_seq [OF moves_flush [OF held]]
        falls_andf [OF falls_announce_new [OF held falls_ret]] falls_residual)
qed

lemma moves_end:
  assumes "steady S E" "free S"
  shows "moves S v (end_of_stream E) (end_view v)"
proof -
  let ?w = "if vi_prefix v \<noteq> [] then v\<lparr>vi_answer := vi_answer v @ vi_prefix v\<rparr> else v"
  have m: "moves S v (set_round (\<lambda>r. r\<lparr>ro_content := ro_content r @ x\<rparr>)) v" for x
    by (rule moves_set_round) (simp_all add: round_view_def)
  have 1: "moves S v (bindp (asks ge_round) (\<lambda>r. if ro_prefix r \<noteq> [] then
        seqp (set_round (\<lambda>q. q\<lparr>ro_content := ro_content q @ ro_prefix q\<rparr>))
          (send_msg (AmAgentResponse (ro_prefix r) (estimate_tokens_heuristic (ro_prefix r)))) else ret ())) ?w"
    by (rule moves_read)
      (auto dest!: shows_round simp: round_view_def intro!: moves_seq [of _ _ _ v] moves_response moves_ret moves_set_round)
  have 2: "moves S ?w (bindp (asks ge_round) (\<lambda>r. if ro_in_thinking r \<and> ro_thinking r \<noteq> [] then
        seqp (send_msg (AmThinkingContent (ro_thinking r) (estimate_tokens_heuristic (ro_thinking r))))
          (settle_thinking E (ro_thinking r)) else ret ())) (end_view v)"
  proof (rule moves_read)
    fix s assume "seen S ?w s"
    then have r: "ro_in_thinking (ge_round s) = vi_in v" "ro_thinking (ge_round s) = vi_buffer v"
      by (auto dest!: shows_round simp: round_view_def split: if_split_asm)
    have "moves S ?w (seqp (send_msg (AmThinkingContent t n)) (settle_thinking E t)) (?w\<lparr>vi_thought := vi_thought ?w @ t\<rparr>)" for t n
      using moves_seq [OF moves_send [of "AmThinkingContent t n" t "[]" S ?w] moves_settle [OF assms]]
      by (simp add: thought_text_def answer_text_def)
    then show "moves S ?w (if ro_in_thinking (ge_round s) \<and> ro_thinking (ge_round s) \<noteq> [] then
        seqp (send_msg (AmThinkingContent (ro_thinking (ge_round s)) (estimate_tokens_heuristic (ro_thinking (ge_round s)))))
          (settle_thinking E (ro_thinking (ge_round s))) else ret ()) (end_view v)"
      using moves_ret [of S ?w "()"] by (auto simp: r end_view_def Let_def)
  qed
  show ?thesis unfolding end_of_stream_def by (rule moves_seq [OF 1 2])
qed

section \<open>A whole message\<close>

text \<open>The back end accepts every request, and answers with the script.\<close>

definition answers :: "('w \<Rightarrow> stream_item list) \<Rightarrow> stream_item list \<Rightarrow> ('t, 'w) gen_env \<Rightarrow> bool" where
  "answers q is E \<longleftrightarrow> (\<forall>req w. fst (start_stream E req w) = Inr () \<and> q (snd (start_stream E req w)) = is)"

definition message_ready :: "thinking_tags \<Rightarrow> agent_message list \<Rightarrow> ('t, 'w) gen_state \<Rightarrow> bool" where
  "message_ready tags ms s \<longleftrightarrow>
     \<not> ge_cancel s \<and> \<not> ge_locked s \<and> summarizer_ok (ge_summarizer s) \<and> ge_tags s = tags \<and> ge_sent s = ms"

lemma begin_shows:
  fixes E :: "('t, 'w) gen_env"
  assumes "scripted q E" "answers q is E"
  shows "triple (message_ready tags ms) (begin_round E)
     (\<lambda>x. seen (q, is, tags, ms, False) view_new) (\<lambda>s. False) (\<lambda>s. False)"
proof (rule tripleI)
  fix s :: "('t, 'w) gen_state" and r t
  assume s: "message_ready tags ms s" and r: "begin_round E s = (r, t)"
  obtain w where e: "start_stream E (ge_request s) (ge_world s) = (Inr (), w)" and w: "q w = is"
    using assms(2) by (auto simp: answers_def) (metis prod.collapse)
  obtain n w' where n: "now_nanos E w = (n, w')" by fastforce
  have "q w' = q w" using assms(1) n by (auto simp: scripted_def dest: spec [of _ w])
  then show "meets (\<lambda>x. seen (q, is, tags, ms, False) view_new) (\<lambda>s. False) (\<lambda>s. False) r t"
    using r s e n w
    by (auto simp: begin_round_def gen_op_def bindp_def seqp_def asks_def lift_result_def set_round_def upd_def ret_def
        message_ready_def seen_def seen_view_def round_view_def view_new_def round_new_def)
qed

lemma run_shows:
  assumes sc: "scripted q E" "jobs_return E" and "answers q is E" "stream_texts is = Some cs" "Suc (length is) < fuel"
  shows "triple (message_ready tags ms) (run_generation E fuel)
     (\<lambda>x s. \<exists>js. seen (q, js, tags, ms, False) (end_view (fold (content_view tags) cs view_new)) s) (\<lambda>s. False) (\<lambda>s. False)"
proof (cases fuel)
  case (Suc n)
  let ?v = "fold (content_view tags) cs view_new"
  let ?S = "\<lambda>js. (q, js, tags, ms, False)"
  let ?Q = "\<lambda>x s. \<exists>js. seen (?S js) (end_view ?v) s"
  have st: "steady (?S js) E" "free (?S js)" for js using sc by (simp_all add: steady_def free_def)
  let ?tail = "bindp (asks (ro_calls \<circ> ge_round)) (\<lambda>calls.
      if calls = [] then seqp (upd (\<lambda>s. s\<lparr>ag_conversation := Some (ge_request s)\<rparr>)) (send_msg AmDone)
      else seqp (run_calls E (map snd calls)) (run_generation E n))"
  have store: "triple (seen (?S js) (end_view ?v)) ?tail ?Q (\<lambda>s. False) (\<lambda>s. False)" for js
  proof (rule triple_read)
    fix s assume "seen (?S js) (end_view ?v) s"
    then have "(ro_calls \<circ> ge_round) s = []" by (auto dest!: seen_facts simp: round_view_def)
    moreover have "moves (?S js) (end_view ?v) (seqp (upd (\<lambda>s. s\<lparr>ag_conversation := Some (ge_request s)\<rparr>)) (send_msg AmDone))
        (end_view ?v)"
      by (rule moves_seq [OF moves_upd_other moves_send_other]) (simp_all add: thought_text_def answer_text_def)
    ultimately show "triple (seen (?S js) (end_view ?v)) (if (ro_calls \<circ> ge_round) s = [] then
         seqp (upd (\<lambda>s. s\<lparr>ag_conversation := Some (ge_request s)\<rparr>)) (send_msg AmDone)
       else seqp (run_calls E (map snd ((ro_calls \<circ> ge_round) s))) (run_generation E n)) ?Q (\<lambda>s. False) (\<lambda>s. False)"
      by (auto simp: moves_def elim!: triple_conseq)
  qed
  have "triple (seen (?S js) ?v) (seqp (end_of_stream E) ?tail) ?Q (\<lambda>s. False) (\<lambda>s. False)" for js
    by (rule triple_seqp [OF moves_end [OF st, unfolded moves_def] store])
  then have c: "triple (loop_ends (?S is) ?v c) (if c = Return then ret () else seqp (end_of_stream E) ?tail)
      ?Q (\<lambda>s. False) (\<lambda>s. False)" for c
    by (auto simp: loop_ends_def triple_def)
  have l: "triple (seen (?S is) view_new) (receive_loop E n) (loop_ends (?S is) ?v) (\<lambda>s. False) (\<lambda>s. False)"
    by (rule loop_shows [OF sc _ assms(4)]) (use assms(5) Suc in simp_all)
  show ?thesis
    unfolding Suc run_generation.simps
    by (rule triple_seqp [OF begin_shows [OF sc(1) assms(3)] triple_bindp [OF l c]])
qed (use assms(5) in simp)

lemma message_shows:
  assumes "scripted q E" "jobs_return E" "answers q is E" "stream_texts is = Some cs" "Suc (length is) < fuel"
    and "summarizer_ok (ge_summarizer s)" "\<not> ge_locked s"
  shows "\<exists>t. process_message E fuel m s = (Ret (), t) \<and>
     thought_text (ge_sent t) = thought_text (ge_sent s) @ vi_thought (end_view (fold (content_view (ge_tags s)) cs view_new)) \<and>
     answer_text (ge_sent t) = answer_text (ge_sent s) @ vi_answer (end_view (fold (content_view (ge_tags s)) cs view_new))"
proof -
  let ?s = "s\<lparr>ge_cancel := False, ge_request := first_request m s, ag_conversation := None\<rparr>"
  let ?v = "fold (content_view (ge_tags s)) cs view_new"
  obtain r t where r: "run_generation E fuel ?s = (r, t)" by fastforce
  have "message_ready (ge_tags s) (ge_sent s) ?s" using assms(6,7) by (simp add: message_ready_def)
  from tripleD [OF run_shows [OF assms(1-5)] this r]
  have "r = Ret () \<and> (\<exists>js. seen (q, js, ge_tags s, ge_sent s, False) (end_view ?v) t)" by (cases r) simp_all
  then show ?thesis using r by (auto simp: seen_def seen_view_def process_message_def)
qed

text \<open>C7: a stream of text is received to its end and the message returns, without a deadlock. What the user sees of
  the answer, as reasoning and as text, does not depend on the pieces in which it arrived: it is the split of the whole
  text at the tags. The text after the closing tag is shown from its first visible character on, or not at all; a
  text without an opening tag is shown as it is. The closing tag must not be longer than twelve bytes: eleven
  characters are held back.\<close>

theorem answer_independent_of_chunks:
  assumes "scripted q E" "jobs_return E" "answers q is E" "stream_texts is = Some cs" "list_all utf8_ok cs"
    and "tags_ok (ge_tags s)" "summarizer_ok (ge_summarizer s)" "\<not> ge_locked s" "Suc (length is) < fuel"
  shows "\<exists>t. process_message E fuel m s = (Ret (), t) \<and>
     thought_text (ge_sent t) = thought_text (ge_sent s) @ fst (split_thinking (ge_tags s) (concat cs)) \<and>
     answer_text (ge_sent t) = answer_text (ge_sent s) @ snd (split_thinking (ge_tags s) (concat cs))"
  using message_shows [OF assms(1-4,9,7,8)] unfolding chunked_split [OF assms(6,5), symmetric] by simp

section \<open>Examples\<close>

text \<open>A closing tag in two pieces.\<close>

definition split_texts :: "string list" where
  "split_texts = [''<think>a</th'', ''ink>b'']"

definition split_stream :: "stream_item list" where
  "split_stream = [sample_chunk None None, sample_chunk (Some ''<think>a</th'') None, TenMillis, sample_chunk (Some ''ink>b'') None]"

lemma split_texts_split: "split_thinking default_thinking_tags (concat split_texts) = (''a'', ''b'')"
  by code_simp

lemma patient_env:
  "scripted fst (scripted_env True (same_stream is))" "jobs_return (scripted_env True (same_stream is))"
  "answers fst is (scripted_env True (same_stream is))"
  by (auto simp: scripted_def scripted_env_def jobs_return_def ends_enough_def answers_def same_stream_def split: list.splits)

theorem answer_independent_of_chunks_witness:
  "\<exists>t. process_message (scripted_env True (same_stream split_stream)) 9 ''hi'' (sample_agent 200 ([], [], 0)) = (Ret (), t) \<and>
     thought_text (ge_sent t) = ''a'' \<and> answer_text (ge_sent t) = ''b''"
proof -
  have "stream_texts split_stream = Some split_texts"
    by (simp add: split_stream_def split_texts_def sample_chunk_def response_texts_def)
  moreover have "list_all utf8_ok split_texts" by code_simp
  ultimately show ?thesis
    using answer_independent_of_chunks [OF patient_env, of split_stream split_texts "sample_agent 200 ([], [], 0)" 9 "''hi''"]
      default_tags_ok split_texts_split
    by (simp add: sample_ready split_stream_def thought_text_def answer_text_def)
qed

text \<open>A closing tag of sixteen bytes that arrives in two pieces is shown as reasoning, and the answer with it.\<close>

definition long_tags :: thinking_tags where
  "long_tags = default_thinking_tags\<lparr>close_tag := ''</reasoning-end>''\<rparr>"

definition long_texts :: "string list" where
  "long_texts = [''<think>ab</reasoning-en'', ''d>c'']"

definition long_agent :: "(unit, sample_world) gen_state" where
  "long_agent = sample_agent 200 ([], [], 0)\<lparr>ge_tags := long_tags\<rparr>"

lemma long_texts_views:
  "vi_thought (end_view (fold (content_view long_tags) long_texts view_new)) = ''ab</reasoning-end>c''"
  "vi_answer (end_view (fold (content_view long_tags) long_texts view_new)) = []"
  "split_thinking long_tags (concat long_texts) = (''ab'', ''c'')"
  by code_simp+

theorem long_close_tag_is_missed:
  assumes "is = map (\<lambda>c. sample_chunk (Some c) None) long_texts"
  shows "split_thinking long_tags (concat long_texts) = (''ab'', ''c'') \<and>
     (\<exists>t. process_message (scripted_env True (same_stream is)) 9 ''hi'' long_agent = (Ret (), t) \<and>
        thought_text (ge_sent t) = ''ab</reasoning-end>c'' \<and> answer_text (ge_sent t) = [])"
proof -
  have "stream_texts is = Some long_texts" "Suc (length is) < 9"
    by (simp_all add: assms long_texts_def sample_chunk_def response_texts_def)
  moreover have "summarizer_ok (ge_summarizer long_agent)" "\<not> ge_locked long_agent" "ge_tags long_agent = long_tags"
    "ge_sent long_agent = []"
    by (simp_all add: long_agent_def sample_ready)
  ultimately show ?thesis
    using message_shows [OF patient_env, of "is" long_texts 9 long_agent "''hi''"]
    by (simp add: long_texts_views thought_text_def answer_text_def)
qed

end
