(* ===== verification/Generation_Live.thy ===== *)
theory Generation_Live
  imports Generation_Text
begin

text \<open>
  When a message returns. \<open>live\<close> says of a program that it never runs out of fuel and never waits for ever, unless
  it was cancelled while it holds the lock of the summarizer: winding up takes the lock again. The work left in
  the world is measured by \<open>\<mu>\<close>, which every item of a stream and every new stream takes down.
\<close>

section \<open>Programs that return\<close>

definition shrinks :: "('w \<Rightarrow> nat) \<Rightarrow> ('t, 'w) gen_env \<Rightarrow> bool" where
  "shrinks \<mu> E \<longleftrightarrow>
     (\<forall>w. \<mu> (snd (cancel_arrived E w)) \<le> \<mu> w \<and> \<mu> (snd (now_nanos E w)) \<le> \<mu> w \<and> \<mu> (snd (latest_prompt_tokens E w)) \<le> \<mu> w \<and>
        (\<forall>js. \<mu> (snd (jobs_ended E js w)) \<le> \<mu> w) \<and> (\<forall>c. \<mu> (snd (run_tool E c w)) \<le> \<mu> w) \<and>
        \<mu> (snd (next_item E w)) \<le> \<mu> w \<and> (fst (next_item E w) \<noteq> StreamEnd \<longrightarrow> \<mu> (snd (next_item E w)) < \<mu> w) \<and>
        (\<forall>req. fst (start_stream E req w) = Inr () \<longrightarrow> \<mu> (snd (start_stream E req w)) < \<mu> w))"

definition lively :: "('w \<Rightarrow> nat) \<Rightarrow> ('t, 'w) gen_env \<Rightarrow> bool" where
  "lively \<mu> E \<longleftrightarrow> shrinks \<mu> E \<and> jobs_return E"

text \<open>At most \<open>k\<close> is left to do, the lock is in state \<open>l\<close>, and with \<open>c\<close> the run is cancelled.\<close>

definition at_ease :: "('w \<Rightarrow> nat) \<Rightarrow> nat \<Rightarrow> bool \<Rightarrow> bool \<Rightarrow> ('t, 'w) gen_state \<Rightarrow> bool" where
  "at_ease \<mu> k l c s \<longleftrightarrow>
     \<mu> (ge_world s) \<le> k \<and> ge_locked s = l \<and> summarizer_ok (ge_summarizer s) \<and> (c \<longrightarrow> ge_cancel s)"

definition dead :: "('t, 'w) gen_state \<Rightarrow> bool" where
  "dead s \<longleftrightarrow> ge_block s = Deadlock \<and> ge_cancel s"

definition live :: "('w \<Rightarrow> nat) \<Rightarrow> nat \<Rightarrow> bool \<Rightarrow> bool \<Rightarrow> ('t, 'w, 'a) gen \<Rightarrow> bool" where
  "live \<mu> k l c p \<longleftrightarrow> triple (at_ease \<mu> k l c) p (\<lambda>x. at_ease \<mu> k l c) (\<lambda>s. True) dead"

named_theorems live_intros \<open>rules for programs that return\<close>

lemma live_ret [live_intros]: "live \<mu> k l c (ret x)"
  and live_throw [live_intros]: "live \<mu> k l c (throw e)"
  and live_asks [live_intros]: "live \<mu> k l c (asks g)"
  by (simp_all add: live_def triple_def)

lemma live_lift [live_intros]: "live \<mu> k l c (lift_result r)"
  by (cases r) (simp_all add: lift_result_def live_intros)

lemma live_bind [live_intros]: "live \<mu> k l c p \<Longrightarrow> (\<And>x. live \<mu> k l c (f x)) \<Longrightarrow> live \<mu> k l c (bindp p f)"
  unfolding live_def by (rule triple_bindp)

lemma live_seq [live_intros]: "live \<mu> k l c p \<Longrightarrow> live \<mu> k l c q \<Longrightarrow> live \<mu> k l c (seqp p q)"
  by (simp add: seqp_def live_bind)

lemma live_andf [live_intros]: "live \<mu> k l c p \<Longrightarrow> live \<mu> k l c q \<Longrightarrow> live \<mu> k l c (andf p q)"
  unfolding andf_def by (intro live_bind) (simp_all add: live_ret)

lemma live_fall [live_intros]: "live \<mu> k l c p \<Longrightarrow> live \<mu> k l c (fall p)"
  unfolding fall_def by (intro live_intros)

lemma live_if [live_intros]: "(b \<Longrightarrow> live \<mu> k l c p) \<Longrightarrow> (\<not> b \<Longrightarrow> live \<mu> k l c q) \<Longrightarrow> live \<mu> k l c (if b then p else q)"
  by simp

lemma live_option [live_intros]:
  "live \<mu> k l c p \<Longrightarrow> (\<And>x. live \<mu> k l c (g x)) \<Longrightarrow> live \<mu> k l c (case r of None \<Rightarrow> p | Some x \<Rightarrow> g x)"
  by (cases r) simp_all

lemma live_let [live_intros]: "(\<And>x. live \<mu> k l c (f x)) \<Longrightarrow> live \<mu> k l c (let x = a in f x)"
  by simp

text \<open>\<open>at_ease\<close> reads four fields only.\<close>

lemma live_frame:
  assumes "\<And>s. ge_world (f s) = ge_world s" "\<And>s. ge_locked (f s) = ge_locked s"
    "\<And>s. summarizer_ok (ge_summarizer s) \<Longrightarrow> summarizer_ok (ge_summarizer (f s))" "\<And>s. ge_cancel s \<Longrightarrow> ge_cancel (f s)"
  shows "live \<mu> k l c (upd f)"
  using assms by (simp add: live_def triple_def at_ease_def)

lemma live_set_round [live_intros]: "live \<mu> k l c (set_round f)"
  unfolding set_round_def by (rule live_frame) simp_all

lemma live_send [live_intros]: "live \<mu> k l c (send_msg m)"
  unfolding send_msg_def by (rule live_frame) simp_all

lemma live_gen_op: "(\<And>w. \<mu> (snd (f w)) \<le> \<mu> w) \<Longrightarrow> live \<mu> k l c (gen_op f)"
  by (auto simp: live_def triple_def gen_op_def at_ease_def split: prod.splits) (metis snd_conv order_trans)+

lemma live_now [live_intros]: "lively \<mu> E \<Longrightarrow> live \<mu> k l c (gen_op (now_nanos E))"
  and live_prompt [live_intros]: "lively \<mu> E \<Longrightarrow> live \<mu> k l c (gen_op (latest_prompt_tokens E))"
  and live_cancel [live_intros]: "lively \<mu> E \<Longrightarrow> live \<mu> k l c (gen_op (cancel_arrived E))"
  and live_tool [live_intros]: "lively \<mu> E \<Longrightarrow> live \<mu> k l c (gen_op (run_tool E call))"
  and live_ends [live_intros]: "lively \<mu> E \<Longrightarrow> live \<mu> k l c (gen_op (jobs_ended E js))"
  by (rule live_gen_op, simp add: lively_def shrinks_def)+

lemma live_jobs [live_intros]: "lively \<mu> E \<Longrightarrow> live \<mu> k l c (jobs E)"
  unfolding jobs_def by (intro live_intros)

lemma live_add_chunk [live_intros]: "lively \<mu> E \<Longrightarrow> live \<mu> k l c (add_chunk E t)"
  unfolding add_chunk_def by (intro live_intros live_frame) (simp_all add: add_ok)

lemma live_new_summaries [live_intros]:
  fixes E :: "('t, 'w) gen_env"
  assumes "lively \<mu> E"
  shows "live \<mu> k l c (new_summaries E)"
proof -
  have "live \<mu> k l c (bindp (asks (ge_summarizer :: ('t, 'w) gen_state \<Rightarrow> _)) (\<lambda>su. case get_new_summaries es su of (new, su1) \<Rightarrow>
      seqp (upd (\<lambda>s. s\<lparr>ge_summarizer := su1\<rparr>)) (ret new)))" for es
    unfolding live_def
  proof (rule tripleI)
    fix s :: "('t, 'w) gen_state" and r t
    assume "at_ease \<mu> k l c s" "bindp (asks ge_summarizer) (\<lambda>su. case get_new_summaries es su of (new, su1) \<Rightarrow>
      seqp (upd (\<lambda>s. s\<lparr>ge_summarizer := su1\<rparr>)) (ret new)) s = (r, t)"
    moreover from this have "summarizer_ok (drain_ready_summaries es (ge_summarizer s))"
      by (intro drain_ok) (simp add: at_ease_def)
    ultimately show "meets (\<lambda>x. at_ease \<mu> k l c) (\<lambda>s. True) dead r t"
      by (auto simp: at_ease_def get_new_summaries_def Let_def) (simp add: summarizer_ok_def)+
  qed
  then show ?thesis unfolding new_summaries_def using assms by (intro live_bind [OF live_jobs])
qed

lemma live_flush [live_intros]:
  assumes "lively \<mu> E"
  shows "live \<mu> k l c (flush E)"
  unfolding live_def
proof (rule tripleI)
  fix s r t assume s: "at_ease \<mu> k l c s" and r: "flush E s = (r, t)"
  let ?js = "su_running (ge_summarizer s)"
  obtain es w fs w' where js: "jobs_ended E ?js (ge_world s) = (es, w)" "jobs_ended E ?js w = (fs, w')" by fastforce
  have "\<mu> w' \<le> \<mu> (ge_world s)"
    using assms js unfolding lively_def shrinks_def by (metis snd_conv order_trans)
  moreover obtain su where "flush E s = (Ret (), s\<lparr>ge_world := w', ge_summarizer := su\<rparr>)" "summarizer_ok su"
    using flush_runs [OF _ _ js] assms s by (auto simp: lively_def at_ease_def)
  ultimately show "meets (\<lambda>x. at_ease \<mu> k l c) (\<lambda>s. True) dead r t"
    using r s by (auto simp: at_ease_def)
qed

lemma live_announce [live_intros]: "live \<mu> k l c check \<Longrightarrow> live \<mu> k l c (announce check xs)"
  by (induction xs) (simp_all only: announce.simps live_intros)

lemma live_announce_new [live_intros]: "lively \<mu> E \<Longrightarrow> live \<mu> k l c check \<Longrightarrow> live \<mu> k l c (announce_new E check)"
  unfolding announce_new_def by (intro live_intros)

lemma live_residual [live_intros]: "live \<mu> k l c send_residual"
  unfolding send_residual_def by (intro live_intros)

text \<open>A free lock is taken and given back; a lock that is held is a deadlock.\<close>

lemma live_locked [live_intros]:
  assumes "live \<mu> k True c p"
  shows "live \<mu> k False c (locked p)"
proof -
  have l: "triple (at_ease \<mu> k False c) (upd (\<lambda>s. s\<lparr>ge_locked := True\<rparr>)) (\<lambda>x. at_ease \<mu> k True c) (\<lambda>s. True) dead"
    by (simp add: triple_def at_ease_def)
  have u: "triple (at_ease \<mu> k True c) (seqp (upd (\<lambda>s. s\<lparr>ge_locked := False\<rparr>)) (ret x)) (\<lambda>x. at_ease \<mu> k False c) (\<lambda>s. True) dead" for x
    by (simp add: triple_def at_ease_def)
  have "triple (at_ease \<mu> k False c) (seqp (upd (\<lambda>s. s\<lparr>ge_locked := True\<rparr>))
      (bindp p (\<lambda>x. seqp (upd (\<lambda>s. s\<lparr>ge_locked := False\<rparr>)) (ret x)))) (\<lambda>x. at_ease \<mu> k False c) (\<lambda>s. True) dead"
    using triple_seqp [OF l triple_bindp [OF assms [unfolded live_def] u]] .
  then show ?thesis
    unfolding locked_def live_def by (intro triple_asks) (auto simp: at_ease_def intro: triple_at)
qed

lemma dead_locked: "live \<mu> k True True (locked p)"
  by (auto simp: live_def triple_def locked_def blocked_def at_ease_def dead_def)

lemma live_wind_up:
  assumes "lively \<mu> E"
  shows "live \<mu> k l True (wind_up E)"
proof -
  have "live \<mu> k l True (locked (seqp (add_chunk E t) (seqp (flush E) (announce_new E (ret Fall)))))" for t
    using assms by (cases l) (simp_all only: dead_locked live_intros)
  then show ?thesis
    unfolding wind_up_def save_cancelled_def using assms by (intro live_intros live_frame) simp_all
qed

lemma live_check [live_intros]:
  fixes E :: "('t, 'w) gen_env"
  assumes "lively \<mu> E"
  shows "live \<mu> k l c (check_cancel E)"
proof -
  have "live \<mu> k l c (bindp (asks ge_cancel) (\<lambda>b. if b then seqp (wind_up E) (ret Return) else ret Fall))"
    unfolding live_def
  proof (rule triple_asks)
    fix s :: "('t, 'w) gen_state"
    assume s: "at_ease \<mu> k l c s"
    have "live \<mu> k l True (seqp (wind_up E) (ret Return))" by (intro live_intros live_wind_up assms)
    then have "triple (at_ease \<mu> k l True) (seqp (wind_up E) (ret Return)) (\<lambda>x. at_ease \<mu> k l c) (\<lambda>s. True) dead"
      unfolding live_def by (rule triple_post) (simp add: at_ease_def)
    then show "triple (\<lambda>t. t = s) (if ge_cancel s then seqp (wind_up E) (ret Return) else ret Fall)
        (\<lambda>x. at_ease \<mu> k l c) (\<lambda>s. True) dead"
      using s by (auto simp: at_ease_def triple_def)
  qed
  note rest = this
  have "live \<mu> k l c (upd (\<lambda>s. s\<lparr>ge_cancel := ge_cancel s \<or> b\<rparr>) :: ('t, 'w, unit) gen)" for b
    by (rule live_frame) simp_all
  then show ?thesis
    unfolding check_cancel_def by (intro live_bind [OF live_cancel [OF assms]] live_seq [OF _ rest])
qed

section \<open>The handlers\<close>

lemma live_count [live_intros]: "lively \<mu> E \<Longrightarrow> live \<mu> k l c (count_tokens E n)"
  unfolding count_tokens_def note_first_token_def by (intro live_intros)

lemma live_thinking [live_intros]: "lively \<mu> E \<Longrightarrow> live \<mu> k l c (send_thinking E t)"
  unfolding send_thinking_def by (intro live_intros)

lemma live_after [live_intros]: "lively \<mu> E \<Longrightarrow> live \<mu> k l c (after_thinking E t)"
  unfolding after_thinking_def by (intro live_intros)

lemma live_close [live_intros]: "lively \<mu> E \<Longrightarrow> live \<mu> k False c (close_thinking E t u)"
  unfolding close_thinking_def by (intro live_intros)

lemma live_pieces [live_intros]: "lively \<mu> E \<Longrightarrow> live \<mu> k l c (send_pieces E cs)"
proof (induction E cs rule: send_pieces.induct)
  case (1 E cs)
  have "live \<mu> k l c (send_pieces E (drop 100 cs))" if "cs \<noteq> []" "100 < length cs" using that 1 by blast
  then show ?case using 1(2) by (subst send_pieces.simps) (intro live_intros)
qed

lemma live_stream [live_intros]: "lively \<mu> E \<Longrightarrow> live \<mu> k False c (stream_thinking E)"
  unfolding stream_thinking_def by (intro live_intros)

lemma live_handle_thinking [live_intros]: "lively \<mu> E \<Longrightarrow> live \<mu> k False c (handle_thinking E t)"
  unfolding handle_thinking_def by (intro live_intros)

lemma live_answer [live_intros]: "lively \<mu> E \<Longrightarrow> live \<mu> k l c (handle_answer E t)"
  unfolding handle_answer_def by (intro live_intros)

lemma live_text [live_intros]: "lively \<mu> E \<Longrightarrow> live \<mu> k False c (handle_text E b t)"
  unfolding handle_text_def by (intro live_intros)

lemma live_decision:
  "live \<mu> k l c p \<Longrightarrow> (\<And>i. live \<mu> k l c (f i)) \<Longrightarrow> live \<mu> k l c q \<Longrightarrow>
     live \<mu> k l c (case d of NeedMoreData \<Rightarrow> p | Detected i \<Rightarrow> f i | NotThinking \<Rightarrow> q)"
  by (cases d) simp_all

lemma live_content [live_intros]: "lively \<mu> E \<Longrightarrow> live \<mu> k False c (handle_content E t)"
  unfolding handle_content_def by (intro live_intros live_decision)

lemma live_insert [live_intros]: "live \<mu> k l c (insert_call call)"
  unfolding insert_call_def by (intro live_intros)

lemma live_started [live_intros]: "live \<mu> k l c (call_started call)"
  unfolding call_started_def by (intro live_intros)

lemma live_note_calls [live_intros]: "live \<mu> k l c (note_calls calls)"
  by (induction calls) (simp_all only: note_calls.simps live_intros)

lemma live_settle [live_intros]: "lively \<mu> E \<Longrightarrow> live \<mu> k False c (settle_thinking E t)"
  unfolding settle_thinking_def by (intro live_intros)

lemma live_calls [live_intros]: "lively \<mu> E \<Longrightarrow> live \<mu> k False c (handle_calls E calls)"
  unfolding handle_calls_def by (intro live_intros)

lemma live_stats [live_intros]: "live \<mu> k l c (send_stats_if_no_calls st)"
  unfolding send_stats_if_no_calls_def by (intro live_intros)

lemma live_chunk [live_intros]: "lively \<mu> E \<Longrightarrow> live \<mu> k False c (handle_chunk E ch)"
  unfolding handle_chunk_def by (cases "ch_choices ch") (simp_all only: list.case, (intro live_intros; assumption)+)

lemma live_final_calls [live_intros]: "live \<mu> k l c (take_final_calls calls)"
  by (induction calls) (simp_all only: take_final_calls.simps live_intros)

lemma live_done [live_intros]: "live \<mu> k l c (handle_done d)"
  unfolding handle_done_def by (intro live_intros)

lemma live_response [live_intros]: "lively \<mu> E \<Longrightarrow> live \<mu> k False c (handle_response E resp)"
  unfolding handle_response_def by (cases resp) (simp_all only: llm_response.case live_intros)

lemma live_end_of_stream [live_intros]: "lively \<mu> E \<Longrightarrow> live \<mu> k False c (end_of_stream E)"
  unfolding end_of_stream_def by (intro live_intros)

lemma live_run_call [live_intros]:
  assumes "lively \<mu> E"
  shows "live \<mu> k l c (run_call E call)"
proof -
  have "live \<mu> k l c (case outcome of Inr t \<Rightarrow> (case background_message E call t of Some m \<Rightarrow> send_msg m | None \<Rightarrow> ret ())
      | Inl e \<Rightarrow> ret ())" for outcome
    by (cases outcome) (simp_all only: sum.case live_intros)
  then show ?thesis
    unfolding run_call_def split_def using assms by (intro live_intros live_frame) simp_all
qed

lemma live_run_calls [live_intros]: "lively \<mu> E \<Longrightarrow> live \<mu> k l c (run_calls E calls)"
  by (induction calls) (simp_all only: run_calls.simps live_intros)

section \<open>The loops\<close>

lemma liveD: "live \<mu> k l c p \<Longrightarrow> triple (at_ease \<mu> k l c) p (\<lambda>x. at_ease \<mu> k l c) (\<lambda>s. True) dead"
  by (simp add: live_def)

lemma at_ease_mono: "at_ease \<mu> j l c s \<Longrightarrow> j \<le> k \<Longrightarrow> at_ease \<mu> k l c s"
  by (simp add: at_ease_def)

text \<open>Less is left after an item.\<close>

definition less_left :: "('w \<Rightarrow> nat) \<Rightarrow> nat \<Rightarrow> ('t, 'w) gen_state \<Rightarrow> bool" where
  "less_left \<mu> k s \<longleftrightarrow> (\<exists>j<k. at_ease \<mu> j False False s)"

lemma less_leftI: "at_ease \<mu> j False False s \<Longrightarrow> j < k \<Longrightarrow> less_left \<mu> k s"
  by (auto simp: less_left_def)

lemma triple_less: "(\<And>j. j < k \<Longrightarrow> triple (at_ease \<mu> j False False) p Q X Z) \<Longrightarrow> triple (less_left \<mu> k) p Q X Z"
  by (auto simp: triple_def less_left_def)

lemma live_less: "(\<And>j. j < k \<Longrightarrow> live \<mu> j False False p) \<Longrightarrow> triple (less_left \<mu> k) p (\<lambda>x. less_left \<mu> k) (\<lambda>s. True) dead"
  by (rule triple_less, rule triple_post [OF liveD]) (auto simp: less_left_def)

lemma less_at_ease: "less_left \<mu> k s \<Longrightarrow> at_ease \<mu> k False False s"
  by (auto simp: less_left_def elim: at_ease_mono)

definition step_post :: "('w \<Rightarrow> nat) \<Rightarrow> nat \<Rightarrow> flow \<Rightarrow> ('t, 'w) gen_state \<Rightarrow> bool" where
  "step_post \<mu> k c s \<longleftrightarrow> at_ease \<mu> k False False s \<and> (c = Break \<or> c = Return \<or> less_left \<mu> k s)"

lemma step_lives:
  fixes E :: "('t, 'w) gen_env"
  assumes "lively \<mu> E"
  shows "triple (at_ease \<mu> k False False) (receive_step E) (step_post \<mu> k) (\<lambda>s. True) dead"
proof -
  let ?body = "\<lambda>i. case i of StreamEnd \<Rightarrow> ret Break | TenMillis \<Rightarrow> andf (check_cancel E) (ret Continue)
      | StreamItem resp \<Rightarrow> handle_response E resp"
  have n: "triple (at_ease \<mu> k False False) (gen_op (next_item E) :: ('t, 'w, stream_item) gen)
      (\<lambda>i s. at_ease \<mu> k False False s \<and> (i = StreamEnd \<or> less_left \<mu> k s)) (\<lambda>s. True) dead"
  proof (rule tripleI)
    fix s :: "('t, 'w) gen_state" and r t
    assume s: "at_ease \<mu> k False False s" and r: "gen_op (next_item E) s = (r, t)"
    obtain i w where i: "next_item E (ge_world s) = (i, w)" by fastforce
    then have "\<mu> w \<le> \<mu> (ge_world s)" "i \<noteq> StreamEnd \<longrightarrow> \<mu> w < \<mu> (ge_world s)"
      using assms unfolding lively_def shrinks_def by (metis fst_conv snd_conv)+
    moreover have "less_left \<mu> k (s\<lparr>ge_world := w\<rparr>)" if "\<mu> w < \<mu> (ge_world s)"
      using that s by (intro less_leftI [of \<mu> "\<mu> w"]) (simp_all add: at_ease_def)
    ultimately show "meets (\<lambda>i s. at_ease \<mu> k False False s \<and> (i = StreamEnd \<or> less_left \<mu> k s)) (\<lambda>s. True) dead r t"
      using s r i by (auto simp: gen_op_def at_ease_def)
  qed
  have l: "triple (less_left \<mu> k) p (\<lambda>c s. step_post \<mu> k c s) (\<lambda>s. True) dead"
    if "\<And>j. live \<mu> j False False p" for p :: "('t, 'w, flow) gen"
    by (rule triple_post [OF live_less [OF that]]) (simp add: step_post_def less_at_ease)
  have b: "triple (\<lambda>s. at_ease \<mu> k False False s \<and> (i = StreamEnd \<or> less_left \<mu> k s)) (?body i :: ('t, 'w, flow) gen)
      (step_post \<mu> k) (\<lambda>s. True) dead" for i
  proof (cases i)
    case (StreamItem resp)
    have "triple (less_left \<mu> k) (handle_response E resp) (step_post \<mu> k) (\<lambda>s. True) dead"
      by (intro l live_intros assms)
    then show ?thesis by (auto simp: triple_def StreamItem)
  next
    case TenMillis
    have "triple (less_left \<mu> k) (andf (check_cancel E) (ret Continue)) (step_post \<mu> k) (\<lambda>s. True) dead"
      by (intro l live_intros assms)
    then show ?thesis by (auto simp: triple_def TenMillis)
  qed (simp add: triple_def step_post_def)
  have c: "triple (at_ease \<mu> k False False) (check_cancel E) (\<lambda>c s. at_ease \<mu> k False False s \<and> (c = Fall \<or> c = Return)) (\<lambda>s. True) dead"
  proof (rule tripleI)
    fix s :: "('t, 'w) gen_state" and r t
    assume s: "at_ease \<mu> k False False s" and r: "check_cancel E s = (r, t)"
    have "c = Fall \<or> c = Return" if "r = Ret c" for c
      using r that
      by (auto simp: check_cancel_def bindp_def seqp_def asks_def upd_def ret_def split: prod.splits outcome.splits if_splits)
    then show "meets (\<lambda>c s. at_ease \<mu> k False False s \<and> (c = Fall \<or> c = Return)) (\<lambda>s. True) dead r t"
      using tripleD [OF liveD [OF live_check [OF assms]] s r] by (cases r) simp_all
  qed
  have d: "triple (\<lambda>s. at_ease \<mu> k False False s \<and> (c = Fall \<or> c = Return))
      (if c = Fall then bindp (gen_op (next_item E)) ?body else ret c) (step_post \<mu> k) (\<lambda>s. True) dead" for c
    using triple_bindp [OF n b] by (cases "c = Fall") (auto simp: triple_def step_post_def)
  show ?thesis unfolding receive_step_def andf_def [of "check_cancel E" "bindp (gen_op (next_item E)) _"] by (rule triple_bindp [OF c d])
qed

lemma live_loop:
  assumes "lively \<mu> E"
  shows "k < fuel \<Longrightarrow> live \<mu> k False False (receive_loop E fuel)"
proof (induction fuel arbitrary: k)
  case (Suc n)
  have "triple (step_post \<mu> k c) (if c = Return then ret Return else if c = Break then ret Fall else receive_loop E n)
      (\<lambda>x. at_ease \<mu> k False False) (\<lambda>s. True) dead" for c
  proof (cases "c = Return \<or> c = Break")
    case False
    have "triple (less_left \<mu> k) (receive_loop E n) (\<lambda>x. less_left \<mu> k) (\<lambda>s. True) dead"
      by (rule live_less) (use Suc in simp)
    then have "triple (step_post \<mu> k c) (receive_loop E n) (\<lambda>x. at_ease \<mu> k False False) (\<lambda>s. True) dead"
      by (rule triple_conseq) (use False in \<open>auto simp: step_post_def less_at_ease\<close>)
    then show ?thesis using False by simp
  qed (auto simp: triple_def step_post_def)
  then show ?case unfolding receive_loop.simps live_def by (rule triple_bindp [OF step_lives [OF assms]])
qed simp

lemma begin_lives:
  fixes E :: "('t, 'w) gen_env"
  assumes "lively \<mu> E"
  shows "triple (at_ease \<mu> k False False) (begin_round E) (\<lambda>x. less_left \<mu> k) (\<lambda>s. True) dead"
proof (rule tripleI)
  fix s :: "('t, 'w) gen_state" and r t
  assume s: "at_ease \<mu> k False False s" and r: "begin_round E s = (r, t)"
  obtain e w where e: "start_stream E (ge_request s) (ge_world s) = (e, w)" by fastforce
  obtain n w' where n: "now_nanos E w = (n, w')" by fastforce
  have "e = Inr () \<longrightarrow> \<mu> w < \<mu> (ge_world s)" "\<mu> w' \<le> \<mu> w"
    using assms e n unfolding lively_def shrinks_def by (metis fst_conv snd_conv)+
  then show "meets (\<lambda>x. less_left \<mu> k) (\<lambda>s. True) dead r t"
    using s r e n
    by (cases e) (auto simp: begin_round_def gen_op_def bindp_def seqp_def asks_def lift_result_def set_round_def upd_def ret_def
        throw_def at_ease_def intro!: less_leftI [of \<mu> "\<mu> w"])
qed

lemma live_run:
  fixes E :: "('t, 'w) gen_env"
  assumes "lively \<mu> E"
  shows "k < fuel \<Longrightarrow> live \<mu> k False False (run_generation E fuel)"
proof (induction fuel arbitrary: k)
  case (Suc n)
  have store: "live \<mu> j False False (upd (\<lambda>s. s\<lparr>ag_conversation := Some (ge_request s)\<rparr>) :: ('t, 'w, unit) gen)" for j
    by (rule live_frame) simp_all
  have "triple (less_left \<mu> k) (bindp (receive_loop E n) (\<lambda>c. if c = Return then ret ()
      else seqp (end_of_stream E) (bindp (asks (ro_calls \<circ> ge_round)) (\<lambda>calls.
        if calls = [] then seqp (upd (\<lambda>s. s\<lparr>ag_conversation := Some (ge_request s)\<rparr>)) (send_msg AmDone)
        else seqp (run_calls E (map snd calls)) (run_generation E n))))) (\<lambda>x. less_left \<mu> k) (\<lambda>s. True) dead"
  proof (rule live_less)
    fix j assume "j < k"
    with Suc.prems have j: "j < n" by simp
    show "live \<mu> j False False (bindp (receive_loop E n) (\<lambda>c. if c = Return then ret ()
      else seqp (end_of_stream E) (bindp (asks (ro_calls \<circ> ge_round)) (\<lambda>calls.
        if calls = [] then seqp (upd (\<lambda>s. s\<lparr>ag_conversation := Some (ge_request s)\<rparr>)) (send_msg AmDone)
        else seqp (run_calls E (map snd calls)) (run_generation E n)))))"
      by (intro live_intros live_loop assms j Suc.IH store)
  qed
  then have "triple (at_ease \<mu> k False False) (run_generation E (Suc n)) (\<lambda>x. less_left \<mu> k) (\<lambda>s. True) dead"
    unfolding run_generation.simps by (rule triple_seqp [OF begin_lives [OF assms]])
  then show ?case unfolding live_def by (rule triple_post) (rule less_at_ease)
qed simp


text \<open>The example: a cancellation while the summaries of streamed reasoning are announced.\<close>

definition sample_left :: "sample_world \<Rightarrow> nat" where
  "sample_left w = length (fst w) + sum_list (map (Suc \<circ> length) (fst (snd w)))"

lemma next_stream_left: "fst (next_stream w) = Inr () \<Longrightarrow> sample_left (snd (next_stream w)) < sample_left w"
  by (cases w rule: next_stream.cases) (auto simp: sample_left_def)

lemma sample_lively: "lively sample_left (scripted_env b next_stream)"
proof -
  have "sample_left (snd (next_item (scripted_env b next_stream) w)) \<le> sample_left w \<and>
      (fst (next_item (scripted_env b next_stream) w) \<noteq> StreamEnd \<longrightarrow>
        sample_left (snd (next_item (scripted_env b next_stream) w)) < sample_left w)" for w
    by (cases w) (auto simp: scripted_env_def sample_left_def split: list.splits)
  moreover have "sample_left (snd (cancel_arrived (scripted_env b next_stream) w)) = sample_left w" for w
    by (cases w) (simp add: scripted_env_def sample_left_def)
  ultimately have "shrinks sample_left (scripted_env b next_stream)"
    using next_stream_left by (simp add: shrinks_def) (simp add: scripted_env_def)
  then show ?thesis by (simp add: lively_def jobs_return_def scripted_env_def ends_enough_def)
qed


end
