(* ===== verification/Openai_Stream.thy ===== *)
theory Openai_Stream
  imports Llm_Response
begin

text \<open>
  The stream of an OpenAI-compatible server: \<open>crates/agent_core/src/llm_backend/openai_stream.rs\<close> and
  \<open>openai_wire.rs\<close>. The body of the response arrives in chunks of bytes; events are cut out of them at empty lines,
  decoded, and turned into the responses of \<open>Llm_Response\<close>, which go to the generation loop over a channel.

  The state holds the locals of \<open>process_sse_stream\<close>, the shared usage and the responses sent. The receiver of the
  channel, the clock, fresh identifiers and serde's decoder are functions of \<open>sse_env\<close>. A step answers
  whether the function goes on (\<open>False\<close> after \<open>return Ok\<close>); an error is \<open>Throw\<close>.
\<close>

section \<open>Wire types\<close>

record openai_usage =
  ou_completion_tokens :: "nat option"
  ou_prompt_tokens :: "nat option"
  ou_total_tokens :: "nat option"

record openai_call =
  oc_index :: "nat option"
  oc_id :: "string option"
  oc_function :: "(string option \<times> string option) option"

datatype openai_content = ContentText string | ContentParts "string option list"

definition to_text :: "openai_content \<Rightarrow> string" where
  "to_text c =
     (case c of
        ContentText t \<Rightarrow> t
      | ContentParts ps \<Rightarrow> concat (map (\<lambda>p. case p of Some t \<Rightarrow> t | None \<Rightarrow> []) ps))"

record openai_choice =
  ok_index :: nat
  ok_content :: "openai_content option"
  ok_role :: "string option"
  ok_tool_calls :: "openai_call list option"
  ok_finish_reason :: "string option"

record openai_response =
  or_id :: "string option"
  or_model :: "string option"
  or_created :: "nat option"
  or_system_fingerprint :: "string option"
  or_object :: "string option"
  or_choices :: "openai_choice list"
  or_usage :: "openai_usage option"

definition estimate_tokens :: "string \<Rightarrow> nat" where
  "estimate_tokens t = max (length (split_whitespace t)) 1"

section \<open>Events\<close>

text \<open>The first empty line: its place and the length of the separator.\<close>

definition crlf2 :: string where "crlf2 = [CR, LF, CR, LF]"

fun find_sse_separator :: "string \<Rightarrow> (nat \<times> nat) option" where
  "find_sse_separator (a # b # rest) =
     (if a = LF \<and> b = LF then Some (0, 2)
      else if starts_with crlf2 (a # b # rest) then Some (0, 4)
      else map_option (\<lambda>(i, n). (Suc i, n)) (find_sse_separator (b # rest)))"
| "find_sse_separator s = None"

definition extract_sse_event :: "string \<Rightarrow> (string \<times> string) option" where
  "extract_sse_event buffer =
     map_option (\<lambda>(i, n). (take i buffer, drop (i + n) buffer)) (find_sse_separator buffer)"

text \<open>\<open>String::from_utf8_lossy\<close>: the longest prefix of a character that starts the bytes, and whether it is whole.\<close>

definition in_range :: "nat \<Rightarrow> nat \<Rightarrow> string \<Rightarrow> bool" where
  "in_range lo hi s \<longleftrightarrow> (case s of [] \<Rightarrow> False | c # _ \<Rightarrow> lo \<le> (of_char c :: nat) \<and> (of_char c :: nat) \<le> hi)"

definition second_byte :: "nat \<Rightarrow> (nat \<times> nat \<times> nat) option" where
  "second_byte b =
     (if 0xC2 \<le> b \<and> b \<le> 0xDF then Some (2, 0x80, 0xBF)
      else if b = 0xE0 then Some (3, 0xA0, 0xBF) else if b = 0xED then Some (3, 0x80, 0x9F)
      else if 0xE1 \<le> b \<and> b \<le> 0xEF then Some (3, 0x80, 0xBF)
      else if b = 0xF0 then Some (4, 0x90, 0xBF) else if b = 0xF4 then Some (4, 0x80, 0x8F)
      else if 0xF1 \<le> b \<and> b \<le> 0xF3 then Some (4, 0x80, 0xBF) else None)"

definition valid_prefix :: "string \<Rightarrow> nat \<times> bool" where
  "valid_prefix s =
     (case s of
        [] \<Rightarrow> (0, True)
      | c # s1 \<Rightarrow>
          (if (of_char c :: nat) < 0x80 then (1, True)
           else case second_byte (of_char c) of
             None \<Rightarrow> (1, False)
           | Some (n, lo, hi) \<Rightarrow>
               (if \<not> in_range lo hi s1 then (1, False)
                else if n = 2 then (2, True)
                else if \<not> in_range 0x80 0xBF (drop 1 s1) then (2, False)
                else if n = 3 then (3, True)
                else if \<not> in_range 0x80 0xBF (drop 2 s1) then (3, False)
                else (4, True))))"

definition replacement_char :: string where
  "replacement_char = [CHR 0xEF, CHR 0xBF, CHR 0xBD]"

function from_utf8_lossy :: "string \<Rightarrow> string" where
  "from_utf8_lossy s =
     (if s = [] then []
      else (case valid_prefix s of (n, ok) \<Rightarrow>
        (if ok then take n s else replacement_char) @ from_utf8_lossy (drop (max n 1) s)))"
  by pat_completeness auto
termination
  by (relation "measure length") auto

declare from_utf8_lossy.simps [simp del]

definition data_prefix :: string where "data_prefix = ''data:''"

definition sse_data_from_event :: "string \<Rightarrow> string option" where
  "sse_data_from_event event =
     (let data_lines = map (\<lambda>l. trim_start (drop (length data_prefix) l))
            (filter (starts_with data_prefix) (str_lines (from_utf8_lossy event)))
      in if data_lines = [] then None else Some (join [LF] data_lines))"

section \<open>Tool calls in pieces\<close>

record streaming_call =
  sc_id :: "string option"
  sc_name :: string
  sc_arguments :: string

definition streaming_call_default :: streaming_call where
  "streaming_call_default = \<lparr>sc_id = None, sc_name = [], sc_arguments = []\<rparr>"

definition grow :: "nat \<Rightarrow> streaming_call list \<Rightarrow> streaming_call list" where
  "grow idx st = st @ replicate (Suc idx - length st) streaming_call_default"

definition merge_call :: "openai_call \<Rightarrow> streaming_call \<Rightarrow> streaming_call" where
  "merge_call call e =
     (let e1 = (case oc_id call of Some i \<Rightarrow> e\<lparr>sc_id := Some i\<rparr> | None \<Rightarrow> e)
      in case oc_function call of
           None \<Rightarrow> e1
         | Some (name, arguments) \<Rightarrow>
             (let e2 = (case name of Some n \<Rightarrow> if n \<noteq> [] then e1\<lparr>sc_name := n\<rparr> else e1 | None \<Rightarrow> e1)
              in case arguments of Some a \<Rightarrow> e2\<lparr>sc_arguments := sc_arguments e2 @ a\<rparr> | None \<Rightarrow> e2))"

definition call_response :: "nat \<Rightarrow> streaming_call \<Rightarrow> tool_call" where
  "call_response idx e =
     \<lparr>tc_index = idx, tc_id = (case sc_id e of Some i \<Rightarrow> i | None \<Rightarrow> ''call-'' @ nat_to_string idx),
      tc_name = sc_name e, tc_arguments = sc_arguments e\<rparr>"

definition call_place :: "openai_call \<Rightarrow> streaming_call list \<Rightarrow> nat" where
  "call_place call st = (case oc_index call of Some i \<Rightarrow> i | None \<Rightarrow> length st)"

definition update_call :: "openai_call \<Rightarrow> streaming_call list \<Rightarrow> streaming_call list" where
  "update_call call st =
     (let idx = call_place call st; st1 = grow idx st in st1[idx := merge_call call (st1 ! idx)])"

fun update_streaming_tool_calls :: "openai_call list \<Rightarrow> streaming_call list \<Rightarrow> tool_call list \<times> streaming_call list" where
  "update_streaming_tool_calls [] st = ([], st)"
| "update_streaming_tool_calls (call # calls) st =
     (let idx = call_place call st; st1 = update_call call st;
          (responses, st2) = update_streaming_tool_calls calls st1
      in (call_response idx (st1 ! idx) # responses, st2))"

definition finalize_stream_tool_calls :: "streaming_call list \<Rightarrow> tool_call list option" where
  "finalize_stream_tool_calls st =
     (let calls = map (\<lambda>(idx, e). call_response idx e)
            (filter (\<lambda>(idx, e). \<not> (sc_name e = [] \<and> sc_arguments e = [])) (enumerate 0 st))
      in if calls = [] then None else Some calls)"

section \<open>Usage\<close>

definition usage_of :: "nat \<Rightarrow> nat \<Rightarrow> nat \<Rightarrow> usage" where
  "usage_of completion prompt total_tokens =
     \<lparr>us_completion_tokens = completion, us_prompt_tokens = prompt, us_total_tokens = total_tokens, us_avg_tok_per_sec = 0,
      us_avg_prompt_tok_per_sec = 0, us_avg_compl_tok_per_sec = 0, us_total_time_sec = 0, us_total_prompt_time_sec = 0,
      us_total_completion_time_sec = 0\<rparr>"

definition usage_from_openai :: "openai_usage option \<Rightarrow> string \<Rightarrow> usage" where
  "usage_from_openai u content =
     (case u of
        Some u \<Rightarrow>
          (let completion = (case ou_completion_tokens u of Some n \<Rightarrow> n | None \<Rightarrow> estimate_tokens content);
               prompt = (case ou_prompt_tokens u of Some n \<Rightarrow> n | None \<Rightarrow> 0)
           in usage_of completion prompt (case ou_total_tokens u of Some n \<Rightarrow> n | None \<Rightarrow> completion + prompt))
      | None \<Rightarrow> usage_of (estimate_tokens content) 0 (estimate_tokens content))"

text \<open>Comparisons of \<open>f32\<close> with zero, on the bit pattern.\<close>

definition f32_zero :: "f32 \<Rightarrow> bool" where "f32_zero x \<longleftrightarrow> x = 0 \<or> x = 0x80000000"
definition f32_positive :: "f32 \<Rightarrow> bool" where "f32_positive x \<longleftrightarrow> 0 < x \<and> x \<le> 0x7F800000"

record stream_metrics =
  me_completion_tokens :: nat
  me_total_time_sec :: f32
  me_time_to_first_token_sec :: f32

text \<open>\<open>rate\<close> divides, with a least divisor of a millisecond.\<close>

definition with_metrics :: "(nat \<Rightarrow> f32 \<Rightarrow> f32) \<Rightarrow> stream_metrics \<Rightarrow> usage \<Rightarrow> usage" where
  "with_metrics rate m u =
     (let u1 = (if us_completion_tokens u = 0 \<and> 0 < me_completion_tokens m
                then u\<lparr>us_completion_tokens := me_completion_tokens m, us_total_tokens := me_completion_tokens m\<rparr> else u);
          u2 = (if f32_zero (us_avg_compl_tok_per_sec u1) \<and> 0 < me_completion_tokens m \<and> f32_positive (me_total_time_sec m)
                then u1\<lparr>us_avg_compl_tok_per_sec := rate (me_completion_tokens m) (me_total_time_sec m),
                        us_total_completion_time_sec := me_total_time_sec m, us_total_time_sec := me_total_time_sec m\<rparr>
                else u1)
      in if f32_zero (us_total_prompt_time_sec u2) \<and> f32_positive (me_time_to_first_token_sec m)
         then u2\<lparr>us_total_prompt_time_sec := me_time_to_first_token_sec m\<rparr> else u2)"

section \<open>The stream\<close>

record 'w sse_env =
  so_closed :: "'w \<Rightarrow> bool \<times> 'w"
  so_now :: "'w \<Rightarrow> nat \<times> 'w"
  so_fresh_id :: "'w \<Rightarrow> string \<times> 'w"
  so_timestamp :: "'w \<Rightarrow> nat \<times> 'w"
  so_parse :: "string \<Rightarrow> string + openai_response"
  so_error :: "string \<Rightarrow> string option"
  so_secs :: "nat \<Rightarrow> f32"
  so_rate :: "nat \<Rightarrow> f32 \<Rightarrow> f32"
  so_start :: nat
  so_fallback_model :: string

record 'w sse_state =
  ss_world :: 'w
  ss_buffer :: string
  ss_content :: string
  ss_tools :: "streaming_call list"
  ss_finish_reason :: string
  ss_role :: string
  ss_id :: "string option"
  ss_model :: "string option"
  ss_created :: "nat option"
  ss_fingerprint :: "string option"
  ss_usage :: "openai_usage option"
  ss_first_token :: "nat option"
  ss_tokens :: nat
  ss_shared_usage :: "usage option"
  ss_sent :: "llm_response list"

definition sse_new :: "'w \<Rightarrow> usage option \<Rightarrow> 'w sse_state" where
  "sse_new w shared = \<lparr>ss_world = w, ss_buffer = [], ss_content = [], ss_tools = [], ss_finish_reason = ''stop'',
     ss_role = ''assistant'', ss_id = None, ss_model = None, ss_created = None, ss_fingerprint = None, ss_usage = None,
     ss_first_token = None, ss_tokens = 0, ss_shared_usage = shared, ss_sent = []\<rparr>"

type_synonym ('w, 'a) sse = "('w sse_state, 'a) prog"

definition sse_op :: "('w \<Rightarrow> 'a \<times> 'w) \<Rightarrow> ('w, 'a) sse" where
  "sse_op f = (\<lambda>s. case f (ss_world s) of (x, w) \<Rightarrow> (Ret x, s\<lparr>ss_world := w\<rparr>))"

text \<open>Sending fails when the receiver is gone.\<close>

definition send_response :: "'w sse_env \<Rightarrow> llm_response \<Rightarrow> ('w, bool) sse" where
  "send_response E r =
     bindp (sse_op (so_closed E)) (\<lambda>closed.
       if closed then ret False else seqp (upd (\<lambda>s. s\<lparr>ss_sent := ss_sent s @ [r]\<rparr>)) (ret True))"

definition share_usage :: "('w, unit) sse" where
  "share_usage = upd (\<lambda>s. case ss_usage s of
     None \<Rightarrow> s | Some u \<Rightarrow> s\<lparr>ss_shared_usage := Some (usage_from_openai (Some u) (ss_content s))\<rparr>)"

text \<open>A value, or one that is made when it is missing.\<close>

definition or_make :: "'a option \<Rightarrow> ('w, 'a) sse \<Rightarrow> ('w, 'a) sse" where
  "or_make x p = (case x of Some v \<Rightarrow> ret v | None \<Rightarrow> p)"

definition nite_id :: "'w sse_env \<Rightarrow> ('w, string) sse" where
  "nite_id E = bindp (sse_op (so_fresh_id E)) (\<lambda>i. ret (''nite-http-'' @ i))"

definition from_timing :: "'w sse_env \<Rightarrow> ('w, stream_metrics) sse" where
  "from_timing E =
     bindp (sse_op (so_now E)) (\<lambda>t. asks (\<lambda>s.
       \<lparr>me_completion_tokens = ss_tokens s, me_total_time_sec = so_secs E (t - so_start E),
        me_time_to_first_token_sec =
          (case ss_first_token s of Some ts \<Rightarrow> so_secs E (ts - so_start E) | None \<Rightarrow> 0)\<rparr>))"

definition final_choice :: "'w sse_state \<Rightarrow> chat_choice" where
  "final_choice s =
     \<lparr>co_finish_reason = (if ss_finish_reason s = [] then ''stop'' else ss_finish_reason s), co_index = 0,
      co_message = \<lparr>rm_content = Some (ss_content s), rm_role = ss_role s,
        rm_tool_calls = finalize_stream_tool_calls (ss_tools s), rm_reasoning_content = None\<rparr>\<rparr>"

definition final_response :: "'w sse_env \<Rightarrow> stream_metrics \<Rightarrow> 'w sse_state \<Rightarrow> string \<Rightarrow> nat \<Rightarrow> chat_response" where
  "final_response E m s i created =
     \<lparr>cr_id = i, cr_choices = [final_choice s], cr_created = created,
      cr_model = (case ss_model s of Some n \<Rightarrow> n | None \<Rightarrow> so_fallback_model E),
      cr_system_fingerprint = or_empty (ss_fingerprint s), cr_object = ''chat.completion'',
      cr_usage = with_metrics (so_rate E) m (usage_from_openai (ss_usage s) (ss_content s))\<rparr>"

definition send_final_done :: "'w sse_env \<Rightarrow> ('w, unit) sse" where
  "send_final_done E =
     bindp (from_timing E) (\<lambda>m.
     bindp (asks id) (\<lambda>s.
     bindp (or_make (ss_id s) (nite_id E)) (\<lambda>i.
     bindp (or_make (ss_created s) (sse_op (so_timestamp E))) (\<lambda>created.
       seqp (send_response E (ResponseDone (final_response E m s i created))) (ret ())))))"

definition is_missing :: "'a option \<Rightarrow> bool" where "is_missing x \<longleftrightarrow> x = None"

definition note_response :: "openai_response \<Rightarrow> 'w sse_state \<Rightarrow> 'w sse_state" where
  "note_response p s =
     (let s1 = (if is_missing (ss_id s) then s\<lparr>ss_id := or_id p\<rparr> else s);
          s2 = (if is_missing (ss_model s1) then s1\<lparr>ss_model := or_model p\<rparr> else s1);
          s3 = (if \<not> is_missing (or_created p) \<and> is_missing (ss_created s2) then s2\<lparr>ss_created := or_created p\<rparr> else s2)
      in if \<not> is_missing (or_system_fingerprint p) \<and> is_missing (ss_fingerprint s3)
         then s3\<lparr>ss_fingerprint := or_system_fingerprint p\<rparr> else s3)"

definition first_of :: "'a option \<Rightarrow> 'a option \<Rightarrow> 'a option" where
  "first_of x y = (case x of Some v \<Rightarrow> Some v | None \<Rightarrow> y)"

text \<open>The fields that all chunks of an event share.\<close>

definition chunk_head :: "'w sse_env \<Rightarrow> openai_response \<Rightarrow> ('w, chat_chunk) sse" where
  "chunk_head E p =
     bindp (asks id) (\<lambda>s.
     bindp (or_make (first_of (or_id p) (ss_id s)) (nite_id E)) (\<lambda>i.
     bindp (or_make (first_of (or_created p) (ss_created s)) (sse_op (so_timestamp E))) (\<lambda>created.
       ret \<lparr>ch_id = i, ch_choices = [], ch_created = created,
            ch_model = (case first_of (or_model p) (ss_model s) of Some n \<Rightarrow> n | None \<Rightarrow> so_fallback_model E),
            ch_system_fingerprint = or_empty (first_of (or_system_fingerprint p) (ss_fingerprint s)),
            ch_object = (case or_object p of Some t \<Rightarrow> t | None \<Rightarrow> ''chat.completion.chunk''), ch_usage = None\<rparr>)))"

text \<open>The text of a choice, if it is not empty, is added to the answer.\<close>

definition take_content :: "'w sse_env \<Rightarrow> openai_choice \<Rightarrow> ('w, string option) sse" where
  "take_content E c =
     (case ok_content c of
        None \<Rightarrow> ret None
      | Some v \<Rightarrow>
          (let t = to_text v
           in if t = [] then ret None
              else seqp (upd (\<lambda>s. s\<lparr>ss_content := ss_content s @ t\<rparr>))
                (bindp (asks ss_first_token) (\<lambda>first.
                  seqp (case first of
                          Some _ \<Rightarrow> ret ()
                        | None \<Rightarrow> bindp (sse_op (so_now E)) (\<lambda>n. upd (\<lambda>s. s\<lparr>ss_first_token := Some n\<rparr>)))
                    (seqp (upd (\<lambda>s. s\<lparr>ss_tokens := ss_tokens s + estimate_tokens t\<rparr>)) (ret (Some t)))))))"

definition take_calls :: "openai_choice \<Rightarrow> ('w, tool_call list) sse" where
  "take_calls c =
     (case ok_tool_calls c of
        None \<Rightarrow> ret []
      | Some calls \<Rightarrow>
          bindp (asks ss_tools) (\<lambda>st. case update_streaming_tool_calls calls st of (responses, st1) \<Rightarrow>
            seqp (upd (\<lambda>s. s\<lparr>ss_tools := st1\<rparr>)) (ret responses)))"

definition note_choice :: "openai_choice \<Rightarrow> 'w sse_state \<Rightarrow> 'w sse_state" where
  "note_choice c s =
     (let s1 = (case ok_finish_reason c of Some r \<Rightarrow> s\<lparr>ss_finish_reason := r\<rparr> | None \<Rightarrow> s)
      in case ok_role c of Some r \<Rightarrow> s1\<lparr>ss_role := r\<rparr> | None \<Rightarrow> s1)"

definition delta_of :: "openai_choice \<Rightarrow> string \<Rightarrow> string option \<Rightarrow> tool_call list \<Rightarrow> chunk_choice" where
  "delta_of c role content calls =
     \<lparr>cc_finish_reason = ok_finish_reason c, cc_index = ok_index c,
      cc_delta = \<lparr>de_content = content, de_role = role,
        de_tool_calls = (if calls = [] then None else Some calls), de_reasoning_content = None\<rparr>\<rparr>"

definition send_choice :: "'w sse_env \<Rightarrow> chat_chunk \<Rightarrow> openai_choice \<Rightarrow> ('w, bool) sse" where
  "send_choice E head c =
     seqp (upd (note_choice c))
    (bindp (asks ss_role) (\<lambda>role.
     bindp (take_content E c) (\<lambda>content.
     bindp (take_calls c) (\<lambda>calls.
       if content = None \<and> calls = [] \<and> ok_finish_reason c = None then ret True
       else send_response E (ResponseChunk (head\<lparr>ch_choices := [delta_of c role content calls]\<rparr>))))))"

fun send_choices :: "'w sse_env \<Rightarrow> chat_chunk \<Rightarrow> openai_choice list \<Rightarrow> ('w, bool) sse" where
  "send_choices E head [] = ret True"
| "send_choices E head (c # cs) = bindp (send_choice E head c) (\<lambda>go. if go then send_choices E head cs else ret False)"

definition done_mark :: string where "done_mark = ''[DONE]''"

definition parse_data :: "'w sse_env \<Rightarrow> string \<Rightarrow> ('w, openai_response) sse" where
  "parse_data E d =
     (case so_parse E d of
        Inr p \<Rightarrow> ret p
      | Inl e \<Rightarrow> (case so_error E d of
                    Some x \<Rightarrow> throw (''Remote error: '' @ x)
                  | None \<Rightarrow> throw (''Failed to parse stream chunk: '' @ e)))"

definition handle_data :: "'w sse_env \<Rightarrow> string \<Rightarrow> ('w, bool) sse" where
  "handle_data E d =
     (if trim d = [] then ret True
      else if trim d = done_mark then seqp (send_final_done E) (ret False)
      else bindp (parse_data E d) (\<lambda>p.
        seqp (upd (note_response p))
       (seqp (if is_missing (or_usage p) then ret ()
              else seqp (upd (\<lambda>s. s\<lparr>ss_usage := or_usage p\<rparr>)) share_usage)
       (bindp (chunk_head E p) (\<lambda>head. send_choices E head (or_choices p))))))"

text \<open>One turn of the inner loop; the receiver may be gone.\<close>

definition handle_event :: "'w sse_env \<Rightarrow> string \<Rightarrow> ('w, bool) sse" where
  "handle_event E event =
     bindp (sse_op (so_closed E)) (\<lambda>closed.
       if closed then seqp share_usage (ret False)
       else if event = [] then ret True
       else (case sse_data_from_event event of None \<Rightarrow> ret True | Some d \<Rightarrow> handle_data E d))"

subsection \<open>What an event leaves alone\<close>

text \<open>An event neither reads nor changes the buffer, so every turn of the loop makes it shorter.\<close>

definition blind :: "('w, 'a) sse \<Rightarrow> bool" where
  "blind p \<longleftrightarrow> (\<forall>s b. p (s\<lparr>ss_buffer := b\<rparr>) = map_prod id (\<lambda>t. t\<lparr>ss_buffer := b\<rparr>) (p s))"

named_theorems blind_intros \<open>programs that do not look at the buffer\<close>

lemma blindD: "blind p \<Longrightarrow> p s = (r, t) \<Longrightarrow> p (s\<lparr>ss_buffer := b\<rparr>) = (r, t\<lparr>ss_buffer := b\<rparr>)"
  by (simp add: blind_def)

lemma blind_buffer: "blind p \<Longrightarrow> p s = (r, t) \<Longrightarrow> ss_buffer t = ss_buffer s"
  using blindD [of p s r t "ss_buffer s"] by (simp, metis sse_state.select_convs(2) sse_state.surjective sse_state.update_convs(2))

lemma blind_ret [blind_intros]: "blind (ret x)"
  and blind_throw [blind_intros]: "blind (throw e)"
  by (simp_all add: blind_def)

lemma blind_bind [blind_intros]:
  assumes "blind p" "\<And>x. blind (f x)"
  shows "blind (bindp p f)"
  unfolding blind_def
proof (intro allI)
  fix s b
  obtain r t where p: "p s = (r, t)" by fastforce
  show "bindp p f (s\<lparr>ss_buffer := b\<rparr>) = map_prod id (\<lambda>t. t\<lparr>ss_buffer := b\<rparr>) (bindp p f s)"
    using p blindD [OF assms(1) p, of b] assms(2) by (cases r) (simp_all add: bindp_def blind_def)
qed

lemma blind_seq [blind_intros]: "blind p \<Longrightarrow> blind q \<Longrightarrow> blind (seqp p q)"
  by (simp add: seqp_def blind_bind)

lemma blind_if [blind_intros]: "(c \<Longrightarrow> blind p) \<Longrightarrow> (\<not> c \<Longrightarrow> blind q) \<Longrightarrow> blind (if c then p else q)"
  by simp

lemma blind_asks:
  assumes "\<And>s b. f (g (s\<lparr>ss_buffer := b\<rparr>)) = f (g s)" "\<And>s. blind (f (g s))"
  shows "blind (bindp (asks g) f)"
  using assms by (simp add: blind_def)

lemma blind_field: "(\<And>s b. g (s\<lparr>ss_buffer := b\<rparr>) = g s) \<Longrightarrow> (\<And>x. blind (f x)) \<Longrightarrow> blind (bindp (asks g) f)"
  by (rule blind_asks) simp_all

lemma blind_upd: "(\<And>s b. f (s\<lparr>ss_buffer := b\<rparr>) = (f s)\<lparr>ss_buffer := b\<rparr>) \<Longrightarrow> blind (upd f)"
  by (simp add: blind_def)

lemma blind_op [blind_intros]: "blind (sse_op f)"
  by (simp add: blind_def sse_op_def split: prod.splits)

lemma blind_send [blind_intros]: "blind (send_response E r)"
  unfolding send_response_def by (intro blind_intros blind_upd) simp

lemma blind_make [blind_intros]: "blind p \<Longrightarrow> blind (or_make x p)"
  by (cases x) (simp_all add: or_make_def blind_ret)

lemma blind_share [blind_intros]: "blind share_usage"
  unfolding share_usage_def by (rule blind_upd) (simp split: option.splits)

lemma blind_id [blind_intros]: "blind (nite_id E)"
  unfolding nite_id_def by (intro blind_intros)

lemma blind_timing [blind_intros]: "blind (from_timing E)"
  unfolding from_timing_def by (intro blind_intros) (simp add: blind_def)

lemma blind_done [blind_intros]: "blind (send_final_done E)"
  unfolding send_final_done_def
  by (rule blind_bind [OF blind_timing], rule blind_asks) (simp add: final_response_def final_choice_def, (intro blind_intros))

lemma blind_head [blind_intros]: "blind (chunk_head E p)"
  unfolding chunk_head_def by (rule blind_asks) (simp, (intro blind_intros))

lemma blind_content [blind_intros]: "blind (take_content E c)"
  unfolding take_content_def Let_def
  by (auto split: option.splits intro!: blind_intros blind_upd blind_field)

lemma blind_calls [blind_intros]: "blind (take_calls c)"
  unfolding take_calls_def
  by (auto split: option.splits prod.splits intro!: blind_intros blind_upd blind_field)

lemma note_choice_buffer: "note_choice c (s\<lparr>ss_buffer := b\<rparr>) = (note_choice c s)\<lparr>ss_buffer := b\<rparr>"
  by (simp add: note_choice_def Let_def split: option.splits)

lemma note_response_buffer: "note_response p (s\<lparr>ss_buffer := b\<rparr>) = (note_response p s)\<lparr>ss_buffer := b\<rparr>"
  by (simp add: note_response_def Let_def)

lemma blind_choice [blind_intros]: "blind (send_choice E head c)"
  unfolding send_choice_def
  by (rule blind_seq [OF blind_upd [OF note_choice_buffer]], rule blind_field) (simp, intro blind_intros)

lemma blind_choices [blind_intros]: "blind (send_choices E head cs)"
  by (induction cs) (simp_all only: send_choices.simps blind_intros)

lemma blind_parse [blind_intros]: "blind (parse_data E d)"
  by (simp add: parse_data_def blind_intros split: sum.splits option.splits)

lemma blind_data [blind_intros]: "blind (handle_data E d)"
proof -
  have "blind (upd (\<lambda>s. s\<lparr>ss_usage := u\<rparr>))" for u by (rule blind_upd) simp
  then show ?thesis
    unfolding handle_data_def by (intro blind_intros blind_upd [OF note_response_buffer])
qed

lemma blind_event: "blind (handle_event E event)"
  unfolding handle_event_def by (auto split: option.splits intro!: blind_intros)

lemmas handle_event_buffer = blind_buffer [OF blind_event]

lemma separator_bounds: "find_sse_separator s = Some (i, n) \<Longrightarrow> 0 < n \<and> i + n \<le> length s"
proof (induction s arbitrary: i n rule: find_sse_separator.induct)
  case (1 a b rest)
  have "starts_with crlf2 (a # b # rest) \<Longrightarrow> 4 \<le> length (a # b # rest)"
    by (auto simp: starts_with_def crlf2_def dest!: arg_cong [of _ _ length])
  then show ?case using 1 by (auto split: if_splits)
qed simp_all

lemma extract_shorter: "extract_sse_event b = Some (event, rest) \<Longrightarrow> length rest < length b"
  using separator_bounds [of b] by (fastforce simp: extract_sse_event_def)

subsection \<open>The loops\<close>

text \<open>The inner loop: all events that the buffer holds.\<close>

function drain_events :: "'w sse_env \<Rightarrow> 'w sse_state \<Rightarrow> bool outcome \<times> 'w sse_state" where
  "drain_events E s =
     (case extract_sse_event (ss_buffer s) of
        None \<Rightarrow> (Ret True, s)
      | Some (event, rest) \<Rightarrow>
          (case handle_event E event (s\<lparr>ss_buffer := rest\<rparr>) of
             (r, t) \<Rightarrow> if r = Ret True then drain_events E t else (r, t)))"
  by pat_completeness auto
termination
  by (relation "measure (\<lambda>(E, s). length (ss_buffer s))")
    (auto dest!: handle_event_buffer extract_shorter dest: sym)

declare drain_events.simps [simp del]

text \<open>The outer loop, over the chunks of the body; \<open>Inl\<close> is an error of the connection.\<close>

fun receive_body :: "'w sse_env \<Rightarrow> (string + string) list \<Rightarrow> ('w, bool) sse" where
  "receive_body E [] = ret True"
| "receive_body E (item # items) =
     bindp (sse_op (so_closed E)) (\<lambda>closed.
       if closed then seqp share_usage (ret False)
       else bindp (lift_result item) (\<lambda>chunk.
         seqp (upd (\<lambda>s. s\<lparr>ss_buffer := ss_buffer s @ chunk\<rparr>))
           (bindp (drain_events E) (\<lambda>go. if go then receive_body E items else ret False))))"

definition process_sse_stream :: "'w sse_env \<Rightarrow> (string + string) list \<Rightarrow> ('w, unit) sse" where
  "process_sse_stream E items = bindp (receive_body E items) (\<lambda>go. if go then send_final_done E else ret ())"

text \<open>The task that the back end spawns: an error goes to the receiver as a response.\<close>

definition stream_sse_response :: "'w sse_env \<Rightarrow> (string + string) list \<Rightarrow> 'w \<Rightarrow> usage option \<Rightarrow> 'w sse_state" where
  "stream_sse_response E items w shared =
     (case process_sse_stream E items (sse_new w shared) of
        (Throw e, t) \<Rightarrow> snd (send_response E (InternalError e) t)
      | (r, t) \<Rightarrow> t)"

end
