(* ===== verification/Openai_Props.thy ===== *)
theory Openai_Props
  imports Openai_Stream Generation_Text
begin

text \<open>
  What reaches the generation loop from an OpenAI-compatible server: the responses do not depend on the chunks in
  which the body arrives (the locale \<open>incremental\<close> of the prelude, interpreted on the inner loop), they carry the
  text of the events, and tool calls that arrive in pieces are put together. With \<open>Generation_Text\<close>: what the user sees
  of a streamed answer is the split of its text, whatever the network did to it.
\<close>

section \<open>Chunks of the body\<close>

lemma starts_with_append_long: "starts_with p s \<Longrightarrow> starts_with p (s @ t)"
  by (metis starts_with_def append_assoc append_take_drop_id append_eq_conv_conj)

lemma crlf2_start: "starts_with crlf2 (a # b # r @ c) \<Longrightarrow> \<not> starts_with crlf2 (a # b # r) \<Longrightarrow> length r < 2 \<and> b = LF"
  by (cases r; cases "tl r") (auto simp: starts_with_def crlf2_def)

lemma separator_append: "find_sse_separator s = Some x \<Longrightarrow> find_sse_separator (s @ c) = Some x"
proof (induction s arbitrary: x rule: find_sse_separator.induct)
  case (1 a b rest)
  show ?case
  proof (cases "(a = LF \<and> b = LF) \<or> starts_with crlf2 (a # b # rest)")
    case True
    then show ?thesis using 1(2) starts_with_append_long [of crlf2 "a # b # rest" c] by auto
  next
    case False
    then obtain i n where r: "find_sse_separator (b # rest) = Some (i, n)" "x = (Suc i, n)" using 1(2) by (auto split: if_splits)
    have "\<not> starts_with crlf2 (a # b # rest @ c)"
    proof
      assume p: "starts_with crlf2 (a # b # rest @ c)"
      then have "length rest < 2" "b = LF" using crlf2_start False by blast+
      with r(1) have "\<exists>r. rest = [LF]"
        by (cases rest; cases "tl rest") (auto simp: starts_with_def crlf2_def split: if_splits)
      with p show False by (auto simp: starts_with_def crlf2_def CR_def LF_def)
    qed
    then show ?thesis using 1(1) [OF _ _ r(1)] False r(2) by auto
  qed
qed simp_all

lemma extract_append: "extract_sse_event b = Some (event, rest) \<Longrightarrow> extract_sse_event (b @ c) = Some (event, rest @ c)"
  using separator_append [of b _ c] separator_bounds [of b] by (fastforce simp: extract_sse_event_def)

text \<open>The inner loop on a buffer to which more is appended.\<close>

lemma drain_append:
  "drain_events E s = (r, t) \<Longrightarrow>
     drain_events E (s\<lparr>ss_buffer := ss_buffer s @ c\<rparr>) =
       (if r = Ret True then drain_events E (t\<lparr>ss_buffer := ss_buffer t @ c\<rparr>) else (r, t\<lparr>ss_buffer := ss_buffer t @ c\<rparr>))"
proof (induction E s arbitrary: r t rule: drain_events.induct)
  case (1 E s)
  show ?case
  proof (cases "extract_sse_event (ss_buffer s)")
    case None
    then show ?thesis using 1(2) by (simp add: drain_events.simps [of E s])
  next
    case (Some x)
    obtain event rest where x: "x = (event, rest)" by fastforce
    obtain q u where h: "handle_event E event (s\<lparr>ss_buffer := rest\<rparr>) = (q, u)" by fastforce
    have hc: "handle_event E event (s\<lparr>ss_buffer := rest @ c\<rparr>) = (q, u\<lparr>ss_buffer := rest @ c\<rparr>)"
      using blindD [OF blind_event h, of "rest @ c"] by simp
    have u: "ss_buffer u = rest" using handle_event_buffer [OF h] by simp
    have e: "extract_sse_event (ss_buffer (s\<lparr>ss_buffer := ss_buffer s @ c\<rparr>)) = Some (event, rest @ c)"
      using extract_append Some x by simp
    show ?thesis
    proof (cases "q = Ret True")
      case True
      have "drain_events E u = (r, t)" using 1(2) Some x h True by (simp add: drain_events.simps [of E s])
      then show ?thesis
        using 1(1) [OF Some x [symmetric] h [symmetric] True] e hc True u
        by (simp add: drain_events.simps [of E "s\<lparr>ss_buffer := ss_buffer s @ c\<rparr>"])
    next
      case False
      then have "(r, t) = (q, u)" using 1(2) Some x h by (simp add: drain_events.simps [of E s])
      then show ?thesis
        using e hc False u by (simp add: drain_events.simps [of E "s\<lparr>ss_buffer := ss_buffer s @ c\<rparr>"])
    qed
  qed
qed

lemma drain_drained: "drain_events E s = (Ret True, t) \<Longrightarrow> extract_sse_event (ss_buffer t) = None"
proof (induction E s arbitrary: t rule: drain_events.induct)
  case (1 E s)
  show ?case
  proof (cases "extract_sse_event (ss_buffer s)")
    case None
    then show ?thesis using 1(2) by (simp add: drain_events.simps [of E s])
  next
    case (Some x)
    obtain event rest where x: "x = (event, rest)" by fastforce
    obtain q u where h: "handle_event E event (s\<lparr>ss_buffer := rest\<rparr>) = (q, u)" by fastforce
    then have "q = Ret True" "drain_events E u = (Ret True, t)"
      using 1(2) Some x by (auto simp: drain_events.simps [of E s] split: if_splits)
    then show ?thesis using 1(1) [OF Some x [symmetric] h [symmetric]] by blast
  qed
qed

text \<open>A chunk, for a loop that may have ended; a chunk without bytes changes nothing.\<close>

definition feed :: "'w sse_env \<Rightarrow> bool outcome \<times> 'w sse_state \<Rightarrow> string \<Rightarrow> bool outcome \<times> 'w sse_state" where
  "feed E rs chunk =
     (case rs of (r, s) \<Rightarrow>
        if chunk = [] then (r, s)
        else if r = Ret True then drain_events E (s\<lparr>ss_buffer := ss_buffer s @ chunk\<rparr>)
        else (r, s\<lparr>ss_buffer := ss_buffer s @ chunk\<rparr>))"

lemma feed_append: "feed E rs (xs @ ys) = feed E (feed E rs xs) ys"
proof (cases "xs = [] \<or> ys = [] \<or> fst rs \<noteq> Ret True")
  case False
  obtain s where s: "rs = (Ret True, s)" using False by (cases rs) simp
  obtain q t where d: "drain_events E (s\<lparr>ss_buffer := ss_buffer s @ xs\<rparr>) = (q, t)" by fastforce
  show ?thesis using drain_append [OF d, of ys] d False by (simp add: feed_def s)
qed (auto simp: feed_def split: prod.splits)

interpretation sse: incremental "\<lambda>rs chunk. (feed E rs chunk, [] :: unit list)" for E
  by unfold_locales (simp_all add: feed_append, simp add: feed_def split: prod.splits)

text \<open>The receiver stays.\<close>

definition attached :: "'w sse_env \<Rightarrow> bool" where
  "attached E \<longleftrightarrow> (\<forall>w. so_closed E w = (False, w))"

lemma attached_op: "attached E \<Longrightarrow> sse_op (so_closed E) s = (Ret False, s)"
  by (simp add: attached_def sse_op_def)

definition unbuffered :: "bool outcome \<times> 'w sse_state \<Rightarrow> bool outcome \<times> 'w sse_state" where
  "unbuffered rs = map_prod id (\<lambda>s. s\<lparr>ss_buffer := []\<rparr>) rs"

lemma push_ended: "r \<noteq> Ret True \<Longrightarrow> unbuffered (fst (push_all (\<lambda>rs chunk. (feed E rs chunk, [] :: unit list)) (r, s) cs)) = unbuffered (r, s)"
proof (induction cs arbitrary: s)
  case (Cons c cs)
  have "feed E (r, s) c = (r, s\<lparr>ss_buffer := ss_buffer s @ c\<rparr>)" using Cons.prems by (simp add: feed_def)
  then show ?case using Cons by (simp add: unbuffered_def split_def)
qed (simp add: unbuffered_def)

lemma body_push:
  assumes "attached E"
  shows "extract_sse_event (ss_buffer s) = None \<Longrightarrow>
     unbuffered (receive_body E (map Inr cs) s) =
       unbuffered (fst (push_all (\<lambda>rs chunk. (feed E rs chunk, [] :: unit list)) (Ret True, s) cs))"
proof (induction cs arbitrary: s)
  case (Cons c cs)
  obtain r t where d: "drain_events E (s\<lparr>ss_buffer := ss_buffer s @ c\<rparr>) = (r, t)" by fastforce
  have f: "feed E (Ret True, s) c = (r, t)"
    using d Cons.prems by (auto simp: feed_def drain_events.simps [of E s])
  have b: "receive_body E (map Inr (c # cs)) s = (if r = Ret True then receive_body E (map Inr cs) t
      else case r of Ret go \<Rightarrow> (Ret False, t) | Throw e \<Rightarrow> (Throw e, t) | Stuck \<Rightarrow> (Stuck, t))"
    using d attached_op [OF assms, of s] by (auto simp: bindp_def seqp_def upd_def split: outcome.splits)
  show ?case
  proof (cases "r = Ret True")
    case True
    then show ?thesis using b f Cons.IH [OF drain_drained] d by (simp add: split_def)
  next
    case False
    then have "(case r of Ret go \<Rightarrow> (Ret False, t) | Throw e \<Rightarrow> (Throw e, t) | Stuck \<Rightarrow> (Stuck, t)) = (r, t)"
      by (cases r) auto
    then show ?thesis using b f push_ended [OF False, of E t cs] False by (simp add: split_def)
  qed
qed simp

text \<open>What the outside sees: the result, the responses sent, the usage left for the statistics.\<close>

definition observed :: "unit outcome \<times> 'w sse_state \<Rightarrow> unit outcome \<times> llm_response list \<times> usage option" where
  "observed rs = (fst rs, ss_sent (snd rs), ss_shared_usage (snd rs))"

lemma finish_blind:
  assumes "unbuffered (p s) = unbuffered (q s')" "\<And>go. blind (f go)"
  shows "observed (bindp p f s) = observed (bindp q f s')"
proof -
  obtain r t u where p: "p s = (r, t)" and q: "q s' = (r, u)" and e: "t\<lparr>ss_buffer := []\<rparr> = u\<lparr>ss_buffer := []\<rparr>"
    using assms(1) by (cases "p s"; cases "q s'") (auto simp: unbuffered_def)
  have "ss_sent t = ss_sent u \<and> ss_shared_usage t = ss_shared_usage u" using e by (metis sse_state.select_convs sse_state.surjective sse_state.update_convs(2))
  show ?thesis
  proof (cases r)
    case (Ret go)
    obtain v x where v: "f go t = (v, x)" by fastforce
    obtain v' x' where v': "f go u = (v', x')" by fastforce
    have "(v, x\<lparr>ss_buffer := []\<rparr>) = (v', x'\<lparr>ss_buffer := []\<rparr>)"
      using blindD [OF assms(2) v, of "[]"] blindD [OF assms(2) v', of "[]"] e by simp
    then have "v = v'" "ss_sent (x\<lparr>ss_buffer := []\<rparr>) = ss_sent (x'\<lparr>ss_buffer := []\<rparr>)"
      "ss_shared_usage (x\<lparr>ss_buffer := []\<rparr>) = ss_shared_usage (x'\<lparr>ss_buffer := []\<rparr>)"
      by (simp_all only: prod.inject)
    then show ?thesis using p q Ret v v' by (simp add: observed_def bindp_def)
  qed (use p q \<open>ss_sent t = ss_sent u \<and> _\<close> in \<open>simp_all add: observed_def bindp_def\<close>)
qed

text \<open>C8: the responses that the generation loop gets from a streaming server, the result and the usage do not depend
  on how the network cuts the body into chunks, also where a chunk ends within a character, a line or a separator.\<close>

theorem sse_chunks_irrelevant:
  assumes "attached E" "concat cs = concat ds"
  shows "observed (process_sse_stream E (map Inr cs) (sse_new w u)) = observed (process_sse_stream E (map Inr ds) (sse_new w u))"
proof -
  let ?s = "sse_new w u"
  have e: "extract_sse_event (ss_buffer ?s) = None" by (simp add: sse_new_def extract_sse_event_def)
  have "unbuffered (receive_body E (map Inr cs) ?s) = unbuffered (receive_body E (map Inr ds) ?s)"
    using sse.chunking_irrelevant [OF assms(2), of E "(Ret True, ?s)"]
    by (simp only: body_push [OF assms(1) e])
  then show ?thesis
    unfolding process_sse_stream_def by (rule finish_blind) (intro blind_intros)
qed

section \<open>The text of the answer\<close>

text \<open>The server sends text only, and serde makes valid strings.\<close>

definition text_only :: "'w sse_env \<Rightarrow> bool" where
  "text_only E \<longleftrightarrow>
     (\<forall>d p. so_parse E d = Inr p \<longrightarrow>
        list_all (\<lambda>c. (ok_tool_calls c = None \<or> ok_tool_calls c = Some []) \<and>
          (\<forall>v. ok_content c = Some v \<longrightarrow> utf8_ok (to_text v))) (or_choices p))"

text \<open>The responses sent carry the text collected so far.\<close>

definition carried_by :: "llm_response list \<Rightarrow> 'w sse_state \<Rightarrow> bool" where
  "carried_by rs s \<longleftrightarrow>
     ss_tools s = [] \<and>
     (\<exists>xss. map response_texts rs = map Some xss \<and> concat (concat xss) = ss_content s \<and> list_all utf8_ok (concat xss))"

definition carried :: "'w sse_state \<Rightarrow> bool" where
  "carried s \<longleftrightarrow> carried_by (ss_sent s) s"

definition finished :: "'w sse_state \<Rightarrow> bool" where
  "finished s \<longleftrightarrow> (\<exists>rs d. ss_sent s = rs @ [ResponseDone d] \<and> final_calls d = [] \<and> carried_by rs s)"

abbreviation carries :: "('w, 'a) sse \<Rightarrow> bool" where
  "carries p \<equiv> triple carried p (\<lambda>x. carried) (\<lambda>s. True) (\<lambda>s. True)"

lemma carries_op: "carries (sse_op f)"
  by (auto simp: triple_def sse_op_def carried_def carried_by_def split: prod.splits)

lemma carries_upd:
  "(\<And>s. ss_content (f s) = ss_content s \<and> ss_tools (f s) = ss_tools s \<and> ss_sent (f s) = ss_sent s) \<Longrightarrow> carries (upd f)"
  by (simp add: triple_def carried_def carried_by_def)

lemma carries_make: "carries p \<Longrightarrow> carries (or_make x p)"
  by (cases x) (simp_all add: or_make_def triple_def)

lemma carries_id: "carries (nite_id E)"
  unfolding nite_id_def by (rule triple_bindp [OF carries_op]) (simp add: triple_def)

lemma carries_head: "carries (chunk_head E p)"
  unfolding chunk_head_def
  by (rule triple_bindp [where Q = "\<lambda>x. carried"], simp add: triple_def,
      rule triple_bindp [OF carries_make [OF carries_id]], rule triple_bindp [OF carries_make [OF carries_op]]) (simp add: triple_def)

lemma send_attached: "attached E \<Longrightarrow> send_response E r s = (Ret True, s\<lparr>ss_sent := ss_sent s @ [r]\<rparr>)"
  by (simp add: send_response_def bindp_def attached_op)

lemma final_response_calls: "carried s \<Longrightarrow> final_calls (final_response E m s i n) = []"
  by (simp add: final_calls_def final_response_def final_choice_def carried_def carried_by_def finalize_stream_tool_calls_def)

lemma finishes_send:
  "attached E \<Longrightarrow> final_calls d = [] \<Longrightarrow>
     triple carried (seqp (send_response E (ResponseDone d)) (ret ())) (\<lambda>x. finished) (\<lambda>s. True) (\<lambda>s. True)"
  by (rule tripleI) (auto simp: seqp_def bindp_def send_attached finished_def carried_def carried_by_def)

lemma finishes_done:
  assumes "attached E"
  shows "triple carried (send_final_done E) (\<lambda>x. finished) (\<lambda>s. True) (\<lambda>s. True)"
proof -
  have timing: "carries (from_timing E)"
    unfolding from_timing_def by (rule triple_bindp [OF carries_op]) (simp add: triple_def)
  show ?thesis
    unfolding send_final_done_def
  proof (rule triple_bindp [OF timing], rule triple_asks, rule triple_pre)
    fix m and s :: "'a sse_state"
    assume c: "carried s"
    show "triple carried (bindp (or_make (ss_id (id s)) (nite_id E)) (\<lambda>i. bindp (or_make (ss_created (id s)) (sse_op (so_timestamp E)))
        (\<lambda>created. seqp (send_response E (ResponseDone (final_response E m (id s) i created))) (ret ()))))
        (\<lambda>x. finished) (\<lambda>s. True) (\<lambda>s. True)"
      by (rule triple_bindp [OF carries_make [OF carries_id]], rule triple_bindp [OF carries_make [OF carries_op]],
          rule finishes_send [OF assms]) (simp add: final_response_calls c)
  qed simp
qed

text \<open>A choice: its text is collected and sent.\<close>

lemma take_content_result:
  "\<exists>x t. take_content E c s = (Ret x, t) \<and> ss_sent t = ss_sent s \<and> ss_tools t = ss_tools s \<and>
     ss_content t = ss_content s @ or_empty x \<and> (\<forall>y. x = Some y \<longrightarrow> (\<exists>v. ok_content c = Some v \<and> y = to_text v))"
proof (cases "ok_content c")
  case (Some v)
  show ?thesis
  proof (cases "to_text v = []")
    case False
    obtain n w where n: "so_now E (ss_world s) = (n, w)" by fastforce
    show ?thesis
      using False n
      by (cases "ss_first_token s")
        (simp_all add: take_content_def Some Let_def or_empty_def, simp_all add: seqp_def bindp_def sse_op_def)
  qed (simp add: take_content_def Some or_empty_def)
qed (simp add: take_content_def or_empty_def)

lemma carries_choice:
  assumes "attached E" "ok_tool_calls c = None \<or> ok_tool_calls c = Some []" "\<And>v. ok_content c = Some v \<Longrightarrow> utf8_ok (to_text v)"
  shows "triple carried (send_choice E head c) (\<lambda>go s. go \<and> carried s) (\<lambda>s. True) (\<lambda>s. True)"
proof (rule tripleI)
  fix s r t assume s: "carried s" and r: "send_choice E head c s = (r, t)"
  let ?s = "note_choice c s"
  have f: "ss_content ?s = ss_content s" "ss_tools ?s = ss_tools s" "ss_sent ?s = ss_sent s"
    by (simp_all add: note_choice_def Let_def split: option.splits)
  obtain x u where x: "take_content E c ?s = (Ret x, u)" and u: "ss_sent u = ss_sent s" "ss_tools u = ss_tools s"
    "ss_content u = ss_content s @ or_empty x" and o: "\<forall>y. x = Some y \<longrightarrow> (\<exists>v. ok_content c = Some v \<and> y = to_text v)"
    using take_content_result [of E c ?s] f by auto
  have calls: "take_calls c u = (Ret [], u)"
    using assms(2) by (auto simp: take_calls_def)
  obtain xss where xss: "map response_texts (ss_sent s) = map Some xss" "concat (concat xss) = ss_content s"
    "list_all utf8_ok (concat xss)" and tools: "ss_tools s = []"
    using s by (auto simp: carried_def carried_by_def)
  show "meets (\<lambda>go s. go \<and> carried s) (\<lambda>s. True) (\<lambda>s. True) r t"
  proof (cases "x = None \<and> ok_finish_reason c = None")
    case True
    then have "r = Ret True" "t = u" using r x calls by (simp_all add: send_choice_def bindp_def asks_def)
    moreover have "carried u" using True s u by (simp add: carried_def carried_by_def or_empty_def)
    ultimately show ?thesis by simp
  next
    case False
    let ?m = "ResponseChunk (head\<lparr>ch_choices := [delta_of c (ss_role ?s) x []]\<rparr>)"
    have rt: "r = Ret True" "t = u\<lparr>ss_sent := ss_sent u @ [?m]\<rparr>"
      using r x calls False by (simp_all add: send_choice_def bindp_def asks_def send_attached [OF assms(1)])
    have m: "response_texts ?m = Some (case x of None \<Rightarrow> [] | Some y \<Rightarrow> [y])"
      by (simp add: response_texts_def delta_of_def)
    have "map response_texts (ss_sent t) = map Some (xss @ [case x of None \<Rightarrow> [] | Some y \<Rightarrow> [y]])"
      using xss(1) m by (simp add: rt u)
    moreover have "concat (concat (xss @ [case x of None \<Rightarrow> [] | Some y \<Rightarrow> [y]])) = ss_content t"
      using xss(2) by (simp add: rt u or_empty_def split: option.splits)
    moreover have "list_all utf8_ok (concat (xss @ [case x of None \<Rightarrow> [] | Some y \<Rightarrow> [y]]))"
      using xss(3) o assms(3) by (auto split: option.splits)
    moreover have "ss_tools t = []" using tools by (simp add: rt u)
    ultimately have "carried t" unfolding carried_def carried_by_def by blast
    then show ?thesis by (simp add: rt)
  qed
qed

lemma carries_choices:
  assumes "attached E"
  shows "list_all (\<lambda>c. (ok_tool_calls c = None \<or> ok_tool_calls c = Some []) \<and>
      (\<forall>v. ok_content c = Some v \<longrightarrow> utf8_ok (to_text v))) cs \<Longrightarrow>
    triple carried (send_choices E head cs) (\<lambda>go s. go \<and> carried s) (\<lambda>s. True) (\<lambda>s. True)"
proof (induction cs)
  case (Cons c cs)
  have "triple (\<lambda>s. go \<and> carried s) (if go then send_choices E head cs else ret False) (\<lambda>go s. go \<and> carried s) (\<lambda>s. True) (\<lambda>s. True)" for go
    using Cons by (cases go) (auto simp: triple_def)
  moreover have "triple carried (send_choice E head c) (\<lambda>go s. go \<and> carried s) (\<lambda>s. True) (\<lambda>s. True)"
    by (rule carries_choice [OF assms]) (use Cons.prems in simp_all)
  ultimately show ?case unfolding send_choices.simps by (intro triple_bindp)
qed (simp add: triple_def)

definition event_post :: "bool \<Rightarrow> 'w sse_state \<Rightarrow> bool" where
  "event_post go s \<longleftrightarrow> (if go then carried s else finished s)"

lemma event_post_simps [simp]: "event_post True s = carried s" "event_post False s = finished s"
  by (simp_all add: event_post_def)

lemma event_data:
  assumes "attached E" "text_only E"
  shows "triple carried (handle_data E d) event_post (\<lambda>s. True) (\<lambda>s. True)"
proof -
  have fin: "triple carried (seqp (send_final_done E) (ret False)) event_post (\<lambda>s. True) (\<lambda>s. True)"
    by (rule triple_seqp [OF finishes_done [OF assms(1)]]) (simp add: triple_def event_post_def)
  have noted: "carries (upd (note_response p))" for p
    by (rule carries_upd) (simp add: note_response_def Let_def)
  have share: "carries share_usage" unfolding share_usage_def by (rule carries_upd) (simp split: option.splits)
  have usage: "carries (if b then ret () else seqp (upd (\<lambda>s. s\<lparr>ss_usage := u\<rparr>)) share_usage)" for b u
  proof (cases b)
    case False
    have "carries (upd (\<lambda>s. s\<lparr>ss_usage := u\<rparr>))" by (rule carries_upd) simp
    from triple_seqp [OF this share] show ?thesis using False by simp
  qed (simp add: triple_def)
  have parsed: "triple carried (seqp (upd (note_response p)) (seqp (if is_missing (or_usage p) then ret ()
        else seqp (upd (\<lambda>s. s\<lparr>ss_usage := or_usage p\<rparr>)) share_usage)
      (bindp (chunk_head E p) (\<lambda>head. send_choices E head (or_choices p))))) event_post (\<lambda>s. True) (\<lambda>s. True)"
    if "so_parse E d = Inr p" for p
  proof -
    have "triple carried (send_choices E head (or_choices p)) event_post (\<lambda>s. True) (\<lambda>s. True)" for head
      by (rule triple_post [OF carries_choices [OF assms(1)]])
        (use assms(2) that in \<open>auto simp: text_only_def event_post_def\<close>)
    then show ?thesis by (rule triple_seqp [OF noted triple_seqp [OF usage triple_bindp [OF carries_head]]])
  qed
  show ?thesis
    using fin parsed unfolding handle_data_def
    by (cases "so_parse E d") (auto simp: parse_data_def triple_def event_post_def split: option.splits)
qed

lemma event_post_event:
  assumes "attached E" "text_only E"
  shows "triple carried (handle_event E event) event_post (\<lambda>s. True) (\<lambda>s. True)"
  using event_data [OF assms]
  by (auto simp: handle_event_def triple_def bindp_def attached_op [OF assms(1)] event_post_def split: option.splits)

lemma drain_post:
  assumes "text_only E"
  shows "attached E \<Longrightarrow> carried s \<Longrightarrow> drain_events E s = (r, t) \<Longrightarrow> meets event_post (\<lambda>s. True) (\<lambda>s. True) r t"
  using assms
proof (induction E s arbitrary: r t rule: drain_events.induct)
  case (1 E s)
  show ?case
  proof (cases "extract_sse_event (ss_buffer s)")
    case None
    then show ?thesis using 1 by (auto simp: drain_events.simps [of E s])
  next
    case (Some x)
    obtain event rest where x: "x = (event, rest)" by fastforce
    obtain q u where h: "handle_event E event (s\<lparr>ss_buffer := rest\<rparr>) = (q, u)" by fastforce
    have "carried (s\<lparr>ss_buffer := rest\<rparr>)" using 1(3) by (simp add: carried_def carried_by_def)
    then have m: "meets event_post (\<lambda>s. True) (\<lambda>s. True) q u"
      using tripleD [OF event_post_event [OF 1(2) 1(5)] _ h] by blast
    show ?thesis
    proof (cases "q = Ret True")
      case True
      then have "drain_events E u = (r, t)" using 1(4) Some x h by (simp add: drain_events.simps [of E s])
      then show ?thesis
        using 1(1) [OF Some x [symmetric] h [symmetric] True 1(2) _ _ 1(5)] m True by (simp add: event_post_def)
    next
      case False
      then show ?thesis using 1(4) Some x h m by (simp add: drain_events.simps [of E s])
    qed
  qed
qed

lemma body_post:
  assumes "attached E" "text_only E"
  shows "triple carried (receive_body E (map Inr cs)) event_post (\<lambda>s. True) (\<lambda>s. True)"
proof (induction cs)
  case (Cons c cs)
  have d: "triple carried (drain_events E) event_post (\<lambda>s. True) (\<lambda>s. True)"
    using drain_post [OF assms(2,1)] by (rule tripleI)
  have n: "triple (event_post go) (if go then receive_body E (map Inr cs) else ret False) event_post (\<lambda>s. True) (\<lambda>s. True)" for go
    using Cons by (cases go) (simp_all add: triple_def)
  have "triple carried (seqp (upd (\<lambda>s. s\<lparr>ss_buffer := ss_buffer s @ c\<rparr>)) (bindp (drain_events E)
      (\<lambda>go. if go then receive_body E (map Inr cs) else ret False))) event_post (\<lambda>s. True) (\<lambda>s. True)"
    by (rule triple_seqp [OF carries_upd triple_bindp [OF d n]]) simp
  then show ?case by (simp add: triple_def bindp_def attached_op [OF assms(1)])
qed (simp add: triple_def event_post_def)

lemma stream_post:
  assumes "attached E" "text_only E"
  shows "triple carried (process_sse_stream E (map Inr cs)) (\<lambda>x. finished) (\<lambda>s. True) (\<lambda>s. True)"
proof -
  have "triple (event_post go) (if go then send_final_done E else ret ()) (\<lambda>x. finished) (\<lambda>s. True) (\<lambda>s. True)" for go
    using finishes_done [OF assms(1)] by (cases go) (auto simp: triple_def event_post_def)
  then show ?thesis unfolding process_sse_stream_def by (rule triple_bindp [OF body_post [OF assms]])
qed

lemma stream_texts_chunks:
  "map response_texts rs = map Some xss \<Longrightarrow>
     stream_texts (map StreamItem rs @ is) = map_option (\<lambda>ys. concat xss @ ys) (stream_texts is)"
proof (induction rs arbitrary: xss)
  case (Cons r rs)
  then obtain xs yss where x: "xss = xs # yss" "response_texts r = Some xs" "map response_texts rs = map Some yss"
    by (cases xss) auto
  have "\<nexists>d. r = ResponseDone d" using x(2) by (auto simp: response_texts_def)
  then have "stream_texts (map StreamItem (r # rs) @ is) = map_option (\<lambda>ys. xs @ ys) (stream_texts (map StreamItem rs @ is))"
    using x(2) by (cases r) simp_all
  then show ?case using Cons.IH [OF x(3)] by (simp add: x(1) option.map_comp comp_def)
qed (cases "stream_texts is", simp_all)

lemma finished_texts:
  assumes "finished s"
  shows "\<exists>xs. stream_texts (map StreamItem (ss_sent s)) = Some xs \<and> concat xs = ss_content s \<and> list_all utf8_ok xs"
proof -
  obtain rs d xss where s: "ss_sent s = rs @ [ResponseDone d]" "final_calls d = []" "map response_texts rs = map Some xss"
    "concat (concat xss) = ss_content s" "list_all utf8_ok (concat xss)"
    using assms by (auto simp: finished_def carried_by_def)
  then show ?thesis using stream_texts_chunks [OF s(3), of "[StreamItem (ResponseDone d)]"] by simp
qed

text \<open>The ticks of the receiving loop do not matter.\<close>

lemma stream_texts_ticks: "stream_texts (filter (\<lambda>i. i \<noteq> TenMillis) is) = stream_texts is"
  by (induction "is" rule: stream_texts.induct) (auto split: llm_response.splits option.splits)


section \<open>Tool calls in pieces\<close>

definition fragment :: "openai_call \<Rightarrow> string" where
  "fragment c = (case oc_function c of Some (name, Some a) \<Rightarrow> a | _ \<Rightarrow> [])"

definition entry :: "nat \<Rightarrow> streaming_call list \<Rightarrow> streaming_call" where
  "entry i st = (if i < length st then st ! i else streaming_call_default)"

lemma merge_arguments: "sc_arguments (merge_call c e) = sc_arguments e @ fragment c"
  by (simp add: merge_call_def fragment_def Let_def split: option.splits prod.splits)

lemma update_call_length: "oc_index c = Some i \<Longrightarrow> length (update_call c st) = max (length st) (Suc i)"
  by (simp add: update_call_def call_place_def grow_def Let_def)

lemma update_call_entry:
  "oc_index c = Some i \<Longrightarrow> entry j (update_call c st) = (if j = i then merge_call c (entry i st) else entry j st)"
  by (auto simp: update_call_def call_place_def grow_def entry_def Let_def nth_append nth_list_update)

lemma place_nth: "oc_index c = Some i \<Longrightarrow> update_call c st ! i = entry i (update_call c st)"
  by (simp add: entry_def update_call_length)

lemma update_tools_append:
  "update_streaming_tool_calls (xs @ ys) st =
     (case update_streaming_tool_calls xs st of (rs, st1) \<Rightarrow>
        case update_streaming_tool_calls ys st1 of (ss, st2) \<Rightarrow> (rs @ ss, st2))"
  by (induction xs arbitrary: st) (simp_all add: Let_def split: prod.splits)

lemma entry_arguments:
  "list_all (\<lambda>c. oc_index c \<noteq> None) calls \<Longrightarrow> update_streaming_tool_calls calls st = (rs, st1) \<Longrightarrow>
     sc_arguments (entry i st1) =
       sc_arguments (entry i st) @ concat (map fragment (filter (\<lambda>c. oc_index c = Some i) calls))"
proof (induction calls arbitrary: st rs)
  case (Cons c cs)
  obtain k where k: "oc_index c = Some k" using Cons.prems(1) by auto
  obtain qs where "update_streaming_tool_calls cs (update_call c st) = (qs, st1)"
    using Cons.prems(2) by (auto simp: Let_def split: prod.splits)
  from Cons.IH [OF _ this] Cons.prems(1) show ?case
    by (simp add: update_call_entry [OF k] k merge_arguments)
qed simp

lemma entry_untouched:
  "list_all (\<lambda>c. oc_index c \<noteq> None) calls \<Longrightarrow> update_streaming_tool_calls calls st = (rs, st1) \<Longrightarrow>
     \<nexists>c. c \<in> set calls \<and> oc_index c = Some i \<Longrightarrow> entry i st1 = entry i st"
proof (induction calls arbitrary: st rs)
  case (Cons c cs)
  obtain k where k: "oc_index c = Some k" using Cons.prems(1) by auto
  obtain qs where "update_streaming_tool_calls cs (update_call c st) = (qs, st1)"
    using Cons.prems(2) by (auto simp: Let_def split: prod.splits)
  moreover have "\<nexists>c. c \<in> set cs \<and> oc_index c = Some i" "i \<noteq> k" using Cons.prems(3) k by auto
  ultimately show ?case using Cons.IH Cons.prems(1) by (simp add: update_call_entry [OF k])
qed simp

lemma map_of_index_insert: "map_of (index_insert k x xs) i = ((map_of xs)(k \<mapsto> x)) i"
  by (induction xs) auto

text \<open>The calls that the loop has collected after it saw \<open>responses\<close>.\<close>

definition collected :: "tool_call list \<Rightarrow> (nat \<times> tool_call) list \<Rightarrow> (nat \<times> tool_call) list" where
  "collected responses calls = fold (\<lambda>r. index_insert (tc_index r) r) responses calls"

lemma collected_latest:
  "list_all (\<lambda>c. oc_index c \<noteq> None) calls \<Longrightarrow> update_streaming_tool_calls calls st = (rs, st1) \<Longrightarrow>
     map_of (collected rs xs) i =
       (if \<exists>c \<in> set calls. oc_index c = Some i then Some (call_response i (entry i st1)) else map_of xs i)"
proof (induction calls arbitrary: st rs xs)
  case (Cons c cs)
  obtain k where k: "oc_index c = Some k" using Cons.prems(1) by auto
  obtain qs where u: "update_streaming_tool_calls cs (update_call c st) = (qs, st1)"
    and rs: "rs = call_response k (update_call c st ! k) # qs"
    using Cons.prems(2) k by (auto simp: Let_def call_place_def split: prod.splits)
  let ?r = "call_response k (update_call c st ! k)"
  have t: "tc_index ?r = k" by (simp add: call_response_def)
  have e: "(\<nexists>c. c \<in> set cs \<and> oc_index c = Some k) \<Longrightarrow> entry k st1 = entry k (update_call c st)"
    using entry_untouched [OF _ u] Cons.prems(1) by simp
  have "map_of (collected rs xs) i =
      (if \<exists>c \<in> set cs. oc_index c = Some i then Some (call_response i (entry i st1))
       else ((map_of xs)(k \<mapsto> ?r)) i)"
    using Cons.IH [OF _ u, of "index_insert k ?r xs"] Cons.prems(1) t
    by (simp add: collected_def rs map_of_index_insert)
  then show ?case using e k place_nth [OF k, of st] by auto
qed (simp add: collected_def)

lemma finalize_has:
  assumes "(i, e) \<in> set (enumerate 0 st)" "sc_arguments e \<noteq> []"
  shows "\<exists>final. finalize_stream_tool_calls st = Some final \<and> call_response i e \<in> set final"
proof -
  let ?final = "map (\<lambda>(idx, e). call_response idx e)
      (filter (\<lambda>(idx, e). \<not> (sc_name e = [] \<and> sc_arguments e = [])) (enumerate 0 st))"
  have m: "call_response i e \<in> set ?final" using assms by (simp add: image_iff) (blast intro: bexI [of _ "(i, e)"])
  moreover have "finalize_stream_tool_calls st = (if ?final = [] then None else Some ?final)"
    by (simp only: finalize_stream_tool_calls_def Let_def)
  moreover have "?final \<noteq> []" unfolding length_greater_0_conv [symmetric] by (rule length_pos_if_in_set [OF m])
  ultimately show ?thesis by (simp only: if_False simp_thms option.inject)
qed


section \<open>Examples\<close>

text \<open>A server whose events say \<open>A\<close> for the beginning and \<open>B\<close> for the end of an answer, a world without change.\<close>

definition sample_choice :: "string option \<Rightarrow> openai_call list option \<Rightarrow> openai_choice" where
  "sample_choice content calls =
     \<lparr>ok_index = 0, ok_content = map_option ContentText content, ok_role = None, ok_tool_calls = calls, ok_finish_reason = None\<rparr>"

definition sample_response :: "openai_choice \<Rightarrow> openai_response" where
  "sample_response c =
     \<lparr>or_id = Some ''1'', or_model = None, or_created = Some 1, or_system_fingerprint = None, or_object = None,
      or_choices = [c], or_usage = None\<rparr>"

definition sample_sse :: "unit sse_env" where
  "sample_sse =
     \<lparr>so_closed = (\<lambda>w. (False, w)), so_now = (\<lambda>w. (0, w)), so_fresh_id = (\<lambda>w. (''u'', w)), so_timestamp = (\<lambda>w. (0, w)),
      so_parse = (\<lambda>d. if d = ''A'' then Inr (sample_response (sample_choice (Some ''<a>x</'') None))
        else if d = ''B'' then Inr (sample_response (sample_choice (Some ''a>y'') None)) else Inl ''bad''),
      so_error = (\<lambda>d. None), so_secs = (\<lambda>n. 0), so_rate = (\<lambda>n x. 0), so_start = 0, so_fallback_model = ''m''\<rparr>"

definition sample_body :: "string list" where
  "sample_body = [''data: A'' @ [CR, LF, CR], [LF] @ ''data: '', ''B'' @ [LF, LF]]"

definition sample_sse_run :: "unit outcome \<times> unit sse_state" where
  "sample_sse_run = process_sse_stream sample_sse (map Inr sample_body) (sse_new () None)"

lemma sample_attached: "attached sample_sse"
  by (simp add: attached_def sample_sse_def)

lemma sample_text_only: "text_only sample_sse"
  by (auto simp: text_only_def sample_sse_def sample_response_def sample_choice_def to_text_def split: if_splits; code_simp)

lemma sample_run_result:
  "(fst sample_sse_run, ss_content (snd sample_sse_run), length (ss_sent (snd sample_sse_run))) = (Ret (), ''<a>x</a>y'', 3)"
  by code_simp

definition short_tags :: thinking_tags where
  "short_tags = default_thinking_tags\<lparr>open_tag := ''<a>'', close_tag := ''</a>''\<rparr>"

definition short_agent :: "(unit, sample_world) gen_state" where
  "short_agent = sample_agent 200 ([], [], 0)\<lparr>ge_tags := short_tags\<rparr>"

lemma short_tags_split: "split_thinking short_tags ''<a>x</a>y'' = (''x'', ''y'')"
  by code_simp

lemma short_agent_ready:
  "summarizer_ok (ge_summarizer short_agent)" "\<not> ge_locked short_agent" "ge_tags short_agent = short_tags"
  "ge_sent short_agent = []" "tags_ok (ge_tags short_agent)"
  by (simp_all add: short_agent_def sample_ready short_tags_def tags_ok_def)

theorem sse_chunks_irrelevant_witness:
  "observed (process_sse_stream sample_sse (map Inr sample_body) (sse_new () None)) =
   observed (process_sse_stream sample_sse (map Inr [concat sample_body]) (sse_new () None))"
  by (rule sse_chunks_irrelevant [OF sample_attached]) simp


definition sample_fragments :: "openai_call list" where
  "sample_fragments =
     [\<lparr>oc_index = Some 0, oc_id = Some ''c1'', oc_function = Some (Some ''ls'', Some ''{'')\<rparr>,
      \<lparr>oc_index = Some 1, oc_id = Some ''c2'', oc_function = Some (Some ''pwd'', None)\<rparr>,
      \<lparr>oc_index = Some 0, oc_id = None, oc_function = Some (None, Some ''}'')\<rparr>]"


end
